(* ===== verification/Prelude.thy ===== *)
theory Prelude
  imports Main "HOL-Library.Word" "HOL-Library.Sublist"
begin

section \<open>Prelude: machine integers, strings and maps\<close>

text \<open>
  Shared by every component of the development:
  \<^item> \<open>int32\<close> and \<open>int64\<close>, the Go integer types the code uses, as two's complement words, and
    \<open>int32_range\<close>, the values a loop \<open>for i := int32(0); i < n; i++\<close> runs through;
  \<^item> the string operations of Go's standard library that the code calls (\<open>%d\<close> of \<open>fmt\<close>,
    \<open>strings.Join\<close>, \<open>strings.Contains\<close>); a Go string is a sequence of bytes, as a HOL \<open>string\<close> is;
  \<^item> label maps, where reading a missing key gives the empty string as in Go.
  The collection \<open>calls\<close> holds the equations that run the stateful operations of \<open>Cluster\<close>.
\<close>

named_theorems calls \<open>equations that run stateful operations\<close>
named_theorems built \<open>definitions of the objects the builders construct\<close>

subsection \<open>Machine integers\<close>

type_synonym int32 = "32 word"
type_synonym int64 = "64 word"

lemma sint_less_bound: "sint (n :: int32) \<le> 2 ^ 31 - 1"
  using sint_lt [of n] by simp

lemma sint_ge_bound: "- (2 ^ 31) \<le> sint (n :: int32)"
  using sint_ge [of n] by simp

lemma signed_take_bit_small: "- (2 ^ 31) \<le> k \<Longrightarrow> k < 2 ^ 31 \<Longrightarrow> signed_take_bit 31 (k :: int) = k"
  by (simp add: signed_take_bit_int_eq_self_iff)

lemma sint_word_of_int32: "- (2 ^ 31) \<le> k \<Longrightarrow> k < 2 ^ 31 \<Longrightarrow> sint (word_of_int k :: int32) = k"
  using signed_take_bit_small [of k] by (simp add: sint_sbintrunc')

lemma sint_plus32:
  "- (2 ^ 31) \<le> sint a + sint b \<Longrightarrow> sint a + sint b < 2 ^ 31 \<Longrightarrow>
    sint (a + b :: int32) = sint a + sint b"
  using signed_take_bit_small [of "sint a + sint b"] by (simp add: sint_word_ariths)

lemma sint_times32:
  "- (2 ^ 31) \<le> sint a * sint b \<Longrightarrow> sint a * sint b < 2 ^ 31 \<Longrightarrow>
    sint (a * b :: int32) = sint a * sint b"
  using signed_take_bit_small [of "sint a * sint b"] by (simp add: sint_word_ariths)

lemma sint_incr32: "sint (i :: int32) < sint (n :: int32) \<Longrightarrow> sint (i + 1) = sint i + 1"
  using sint_less_bound [of n] sint_ge_bound [of i] sint_plus32 [of i 1] by simp

lemma sint_eq_iff32: "sint a = sint b \<longleftrightarrow> a = (b :: int32)"
  by (auto intro: signed_word_eqI)

text \<open>The values of \<open>i\<close> in \<open>for ; i < n; i++\<close> at type \<open>int32\<close>: the loop ends for every bound,
  because \<open>i < n\<close> rules out the overflow of \<open>i + 1\<close>.\<close>

function int32_loop :: "int32 \<Rightarrow> int32 \<Rightarrow> int32 list" where
  "int32_loop i n = (if sint i < sint n then i # int32_loop (i + 1) n else [])"
  by pat_completeness auto
termination
  by (relation "measure (\<lambda>(i, n). nat (sint n - sint i))") (auto simp: sint_incr32)

declare int32_loop.simps [simp del]

definition int32_range :: "int32 \<Rightarrow> int32 list" where
  "int32_range n = int32_loop 0 n"

lemma int32_loop_sint: "map sint (int32_loop i n) = [sint i..sint n - 1]"
proof (induction i n rule: int32_loop.induct)
  case (1 i n)
  show ?case
  proof (cases "sint i < sint n")
    case True
    then show ?thesis
      using "1.IH" by (simp add: int32_loop.simps [of i n] sint_incr32 upto_rec1)
  next
    case False
    then show ?thesis by (simp add: int32_loop.simps [of i n])
  qed
qed

lemma int32_range_sint: "map sint (int32_range n) = [0..sint n - 1]"
  using int32_loop_sint [of 0 n] by (simp add: int32_range_def)

lemma length_int32_range [simp]: "length (int32_range n) = nat (sint n)"
  using arg_cong [OF int32_range_sint, of length] by simp

lemma distinct_int32_range [simp]: "distinct (int32_range n)"
proof -
  have "distinct (map sint (int32_range n))" by (simp add: int32_range_sint)
  then show ?thesis by (simp add: distinct_map)
qed

lemma in_int32_range: "i \<in> set (int32_range n) \<longleftrightarrow> 0 \<le> sint i \<and> sint i < sint n"
proof -
  have "i \<in> set (int32_range n) \<longleftrightarrow> sint i \<in> sint ` set (int32_range n)"
    by (auto simp: sint_eq_iff32)
  also have "sint ` set (int32_range n) = {0..sint n - 1}"
    using arg_cong [OF int32_range_sint, of set] by simp
  finally show ?thesis by auto
qed

lemma int32_range_empty: "int32_range n = [] \<longleftrightarrow> sint n \<le> 0"
  using length_int32_range [of n] by (metis le_less_linear length_0_conv nat_0_iff)

subsection \<open>Strings\<close>

text \<open>\<open>%d\<close> of a non-negative number: its decimal digits.\<close>

definition digit :: "nat \<Rightarrow> char" where
  "digit d = char_of (48 + d)"

lemma digit_chars [simp]:
  "digit 0 = CHR ''0''" "digit (Suc 0) = CHR ''1''" "digit 1 = CHR ''1''" "digit 2 = CHR ''2''"
  "digit 3 = CHR ''3''" "digit 4 = CHR ''4''" "digit 5 = CHR ''5''" "digit 6 = CHR ''6''"
  "digit 7 = CHR ''7''" "digit 8 = CHR ''8''" "digit 9 = CHR ''9''"
  by (simp_all add: digit_def char_of_def bit_Suc_0_iff)

fun dec :: "nat \<Rightarrow> string" where
  "dec n = (if n < 10 then [digit n] else dec (n div 10) @ [digit (n mod 10)])"

declare dec.simps [simp del]

definition undec :: "string \<Rightarrow> nat" where
  "undec ds = foldl (\<lambda>a c. 10 * a + (of_char c - 48)) 0 ds"

lemma of_char_digit: "d < 10 \<Longrightarrow> of_char (digit d) = (48 + d :: nat)"
  by (simp add: digit_def)

lemma undec_dec: "undec (dec n) = n"
proof (induction n rule: dec.induct)
  case (1 n)
  show ?case
  proof (cases "n < 10")
    case True
    then show ?thesis by (simp add: dec.simps [of n] undec_def of_char_digit)
  next
    case False
    with "1.IH" have "undec (dec (n div 10)) = n div 10" by simp
    with False show ?thesis
      by (simp add: dec.simps [of n] undec_def of_char_digit)
  qed
qed

lemma dec_inject [simp]: "dec m = dec n \<longleftrightarrow> m = n"
  by (metis undec_dec)

lemma set_dec: "set (dec n) \<subseteq> digit ` {..<10}"
proof (induction n rule: dec.induct)
  case (1 n)
  then show ?case
    by (cases "n < 10") (auto simp: dec.simps [of n])
qed

lemma dec_nonempty [simp]: "dec n \<noteq> []"
  by (simp add: dec.simps [of n])

definition fmt_d :: "int \<Rightarrow> string" where
  "fmt_d i = (if i < 0 then ''-'' @ dec (nat (- i)) else dec (nat i))"

lemma minus_not_digit: "CHR ''-'' \<notin> set (dec n)"
proof
  assume "CHR ''-'' \<in> set (dec n)"
  then obtain d where "d < 10" "CHR ''-'' = digit d"
    using set_dec [of n] by auto
  then have "of_char (CHR ''-'') = (48 + d :: nat)" by (simp add: of_char_digit)
  then show False by simp
qed

lemma minus_not_fmt_d: "0 \<le> i \<Longrightarrow> CHR ''-'' \<notin> set (fmt_d i)"
  by (simp add: fmt_d_def minus_not_digit)

lemma fmt_d_inject: "0 \<le> i \<Longrightarrow> 0 \<le> j \<Longrightarrow> fmt_d i = fmt_d j \<longleftrightarrow> i = j"
  by (auto simp: fmt_d_def)

text \<open>Two strings cut at their last separator.\<close>

lemma append_sep_inject:
  assumes "c \<notin> set ys" and "c \<notin> set ys'"
  shows "xs @ c # ys = xs' @ c # ys' \<longleftrightarrow> xs = xs' \<and> ys = ys'"
proof
  assume eq: "xs @ c # ys = xs' @ c # ys'"
  then have "rev ys @ c # rev xs = rev ys' @ c # rev xs'"
    by (metis append.assoc append_Cons append_Nil rev.simps(2) rev_append)
  then have "takeWhile (\<lambda>x. x \<noteq> c) (rev ys @ c # rev xs) = takeWhile (\<lambda>x. x \<noteq> c) (rev ys' @ c # rev xs')"
    by simp
  moreover have "takeWhile (\<lambda>x. x \<noteq> c) (rev ys @ c # rev xs) = rev ys"
    using assms(1) by (subst takeWhile_append2) auto
  moreover have "takeWhile (\<lambda>x. x \<noteq> c) (rev ys' @ c # rev xs') = rev ys'"
    using assms(2) by (subst takeWhile_append2) auto
  ultimately have "ys = ys'" by simp
  with eq show "xs = xs' \<and> ys = ys'" by simp
qed simp

lemma sep_index_inject:
  "0 \<le> i \<Longrightarrow> 0 \<le> j \<Longrightarrow> xs @ ''-'' @ fmt_d i = xs' @ ''-'' @ fmt_d j \<longleftrightarrow> xs = xs' \<and> i = j"
  using append_sep_inject [OF minus_not_fmt_d minus_not_fmt_d, of i j xs xs']
  by (simp add: fmt_d_inject)

text \<open>\<open>strings.Join\<close> and \<open>strings.Contains\<close>.\<close>

fun strings_join :: "string list \<Rightarrow> string \<Rightarrow> string" where
  "strings_join [] sep = []"
| "strings_join [x] sep = x"
| "strings_join (x # y # xs) sep = x @ sep @ strings_join (y # xs) sep"

fun strings_contains :: "string \<Rightarrow> string \<Rightarrow> bool" where
  "strings_contains [] sub = (sub = [])"
| "strings_contains (c # cs) sub = (take (length sub) (c # cs) = sub \<or> strings_contains cs sub)"

lemma take_eq_prefix: "take (length sub) s = sub \<longleftrightarrow> prefix sub s"
  by (metis append_eq_conv_conj prefix_def)

lemma strings_contains_iff: "strings_contains s sub \<longleftrightarrow> sublist sub s"
proof (induction s)
  case Nil
  then show ?case by simp
next
  case (Cons c cs)
  then show ?case by (simp add: sublist_Cons_right take_eq_prefix)
qed

text \<open>A text given line by line, each line ended by a newline.\<close>

definition unlines :: "string list \<Rightarrow> string" where
  "unlines ls = concat (map (\<lambda>l. l @ [CHR 0x0A]) ls)"

subsection \<open>Maps with string values\<close>

type_synonym label_map = "string \<rightharpoonup> string"

text \<open>Reading a Go map of strings: a missing key reads as the empty string.\<close>

definition label_of :: "label_map \<Rightarrow> string \<Rightarrow> string" where
  "label_of m k = (case m k of None \<Rightarrow> '''' | Some v \<Rightarrow> v)"

lemma label_of_upd [simp]: "label_of (m(k \<mapsto> v)) j = (if j = k then v else label_of m j)"
  by (simp add: label_of_def)

text \<open>\<open>client.MatchingLabels\<close>: every listed pair is a label of the object.\<close>

definition labels_match :: "(string \<times> string) list \<Rightarrow> label_map \<Rightarrow> bool" where
  "labels_match sel m = list_all (\<lambda>(k, v). m k = Some v) sel"

lemma labels_match_simps [simp]:
  "labels_match [] m" "labels_match ((k, v) # sel) m \<longleftrightarrow> m k = Some v \<and> labels_match sel m"
  by (simp_all add: labels_match_def)

end
