(* ===== verification/ApiTypes.thy ===== *)
theory ApiTypes
  imports Prelude
begin

section \<open>api/core/v1alpha1: the InferenceService resource\<close>

text \<open>
  The types of \<open>inferenceservice_types.go\<close>, field by field. A Go pointer to a struct or integer is an
  \<open>option\<close>; \<open>runtime.RawExtension\<close> is a record whose \<open>Raw\<close> bytes may be nil; a Go string type with
  constants (\<open>ComponentType\<close>, \<open>RoutingStrategy\<close>) stays a string with the constants defined, since any
  string can occur; \<open>ComponentPhase\<close>, which only the controller writes, is a datatype, ordered by
  progress. \<open>metav1.ObjectMeta\<close> and \<open>metav1.Condition\<close> are the Kubernetes types of the
  fields the code reads or writes. The map \<open>Status.Components\<close> is an association list, written with
  \<open>AList.update\<close>, because the code walks through it.
\<close>

type_synonym time = int

record object_meta =
  meta_Name :: string
  meta_Namespace :: string
  meta_Labels :: label_map
  meta_Annotations :: label_map
  meta_Generation :: int64
  meta_OwnerReferences :: "string list"

definition new_meta :: "string \<Rightarrow> string \<Rightarrow> label_map \<Rightarrow> object_meta" where
  "new_meta name ns labels =
     \<lparr>meta_Name = name, meta_Namespace = ns, meta_Labels = labels,
      meta_Annotations = Map.empty, meta_Generation = 0, meta_OwnerReferences = []\<rparr>"

lemma new_meta_simps [simp]:
  "meta_Name (new_meta n ns ls) = n"
  "meta_Namespace (new_meta n ns ls) = ns"
  "meta_Labels (new_meta n ns ls) = ls"
  "meta_Annotations (new_meta n ns ls) = Map.empty"
  "meta_OwnerReferences (new_meta n ns ls) = []"
  by (simp_all add: new_meta_def)

type_synonym ComponentType = string

definition ComponentTypeRouter :: ComponentType where "ComponentTypeRouter = ''router''"
definition ComponentTypePrefiller :: ComponentType where "ComponentTypePrefiller = ''prefiller''"
definition ComponentTypeDecoder :: ComponentType where "ComponentTypeDecoder = ''decoder''"
definition ComponentTypeWorker :: ComponentType where "ComponentTypeWorker = ''worker''"

lemmas component_types =
  ComponentTypeRouter_def ComponentTypePrefiller_def ComponentTypeDecoder_def ComponentTypeWorker_def

lemma component_types_distinct [simp]:
  "ComponentTypeRouter \<noteq> ComponentTypePrefiller" "ComponentTypePrefiller \<noteq> ComponentTypeRouter"
  "ComponentTypeRouter \<noteq> ComponentTypeDecoder" "ComponentTypeDecoder \<noteq> ComponentTypeRouter"
  "ComponentTypeRouter \<noteq> ComponentTypeWorker" "ComponentTypeWorker \<noteq> ComponentTypeRouter"
  "ComponentTypePrefiller \<noteq> ComponentTypeDecoder" "ComponentTypeDecoder \<noteq> ComponentTypePrefiller"
  "ComponentTypePrefiller \<noteq> ComponentTypeWorker" "ComponentTypeWorker \<noteq> ComponentTypePrefiller"
  "ComponentTypeDecoder \<noteq> ComponentTypeWorker" "ComponentTypeWorker \<noteq> ComponentTypeDecoder"
  by (simp_all add: component_types)

type_synonym RoutingStrategy = string

definition StrategyPrefixCache :: RoutingStrategy where
  "StrategyPrefixCache = ''prefix-cache''"
definition StrategyKVCacheUtil :: RoutingStrategy where
  "StrategyKVCacheUtil = ''kv-cache-utilization''"
definition StrategyQueueSize :: RoutingStrategy where
  "StrategyQueueSize = ''queue-size''"
definition StrategyLoRAffinity :: RoutingStrategy where
  "StrategyLoRAffinity = ''lora-affinity''"
definition StrategyPDDisaggregation :: RoutingStrategy where
  "StrategyPDDisaggregation = ''pd-disaggregation''"

lemmas strategies =
  StrategyPrefixCache_def StrategyKVCacheUtil_def StrategyQueueSize_def StrategyLoRAffinity_def
  StrategyPDDisaggregation_def

record raw_extension =
  Raw :: "string option"

text \<open>\<open>ext != nil \<and> ext.Raw != nil\<close>, with the bytes.\<close>

definition raw_bytes :: "raw_extension option \<Rightarrow> string option" where
  "raw_bytes ext = (case ext of None \<Rightarrow> None | Some e \<Rightarrow> Raw e)"

lemma raw_bytes_simps [simp]: "raw_bytes None = None" "raw_bytes (Some e) = Raw e"
  by (simp_all add: raw_bytes_def)

record multinode =
  NodeCount :: int32

record role =
  role_Name :: string
  role_ComponentType :: ComponentType
  role_Strategy :: RoutingStrategy
  role_HTTPRoute :: "raw_extension option"
  role_Gateway :: "raw_extension option"
  role_EndpointPickerConfig :: string
  role_Replicas :: "int32 option"
  role_Multinode :: "multinode option"
  role_Template :: "raw_extension option"

record scheduling_strategy =
  SchedulerName :: string

record inference_service_spec =
  spec_Roles :: "role list"
  spec_SchedulingStrategy :: "scheduling_strategy option"

datatype ComponentPhase =
    PhasePending
  | PhaseDeploying
  | PhaseRunning
  | PhaseFailed
  | PhaseUnknown

record component_status =
  cs_DesiredReplicas :: int32
  cs_ReadyReplicas :: int32
  cs_NodesPerReplica :: int32
  cs_TotalPods :: int32
  cs_ReadyPods :: int32
  cs_Phase :: ComponentPhase
  cs_LastUpdateTime :: "time option"

record condition =
  cond_Type :: string
  cond_Status :: string
  cond_ObservedGeneration :: int64
  cond_LastTransitionTime :: time
  cond_Reason :: string
  cond_Message :: string

record inference_service_status =
  ObservedGeneration :: int64
  Conditions :: "condition list"
  Components :: "(string \<times> component_status) list"

record inference_service =
  isvc_Meta :: object_meta
  isvc_Spec :: inference_service_spec
  isvc_Status :: inference_service_status

abbreviation isvc_Name :: "inference_service \<Rightarrow> string" where
  "isvc_Name svc \<equiv> meta_Name (isvc_Meta svc)"

abbreviation isvc_Namespace :: "inference_service \<Rightarrow> string" where
  "isvc_Namespace svc \<equiv> meta_Namespace (isvc_Meta svc)"

abbreviation isvc_Roles :: "inference_service \<Rightarrow> role list" where
  "isvc_Roles svc \<equiv> spec_Roles (isvc_Spec svc)"

subsection \<open>The order of phases\<close>

text \<open>The phases a component goes through, in the order in which it becomes ready.\<close>

fun phase_rank :: "ComponentPhase \<Rightarrow> nat" where
  "phase_rank PhaseUnknown = 0"
| "phase_rank PhaseFailed = 1"
| "phase_rank PhasePending = 2"
| "phase_rank PhaseDeploying = 3"
| "phase_rank PhaseRunning = 4"

lemma phase_rank_inject: "phase_rank p = phase_rank q \<longleftrightarrow> p = q"
  by (cases p; cases q) simp_all

instantiation ComponentPhase :: linorder
begin

definition less_eq_ComponentPhase :: "ComponentPhase \<Rightarrow> ComponentPhase \<Rightarrow> bool" where
  "less_eq_ComponentPhase p q = (phase_rank p \<le> phase_rank q)"

definition less_ComponentPhase :: "ComponentPhase \<Rightarrow> ComponentPhase \<Rightarrow> bool" where
  "less_ComponentPhase p q = (phase_rank p < phase_rank q)"

instance
  by standard (auto simp: less_eq_ComponentPhase_def less_ComponentPhase_def phase_rank_inject)

end

lemma phase_order [simp]:
  "PhasePending \<le> p \<longleftrightarrow> p \<noteq> PhaseUnknown \<and> p \<noteq> PhaseFailed"
  "PhaseDeploying \<le> p \<longleftrightarrow> p = PhaseDeploying \<or> p = PhaseRunning"
  "PhaseRunning \<le> p \<longleftrightarrow> p = PhaseRunning"
  "p \<le> PhaseRunning"
  by (cases p; simp add: less_eq_ComponentPhase_def)+

end
