(* ===== verification/Kube.thy ===== *)
theory Kube
  imports ApiTypes
begin

section \<open>Kubernetes objects and the functions the code calls outside the repository\<close>

text \<open>
  The Kubernetes types of the objects the controller builds, with the fields the code reads or
  writes. Fields the code never touches but which arrive with a user's template are kept, unread,
  in a field named \<open>_Rest\<close>. A \<open>resource.Quantity\<close> is its canonical string; its arithmetic is a
  parameter. The record \<open>externals\<close> collects every function of third-party packages the builders
  call; each is an argument of the definitions that use it.
\<close>

subsection \<open>Pods\<close>

type_synonym quantity = string

datatype probe_handler =
    TCPSocket int32
  | GRPC int32 "string option"
  | OtherHandler string

record probe =
  probe_Handler :: probe_handler
  probe_InitialDelaySeconds :: int32
  probe_PeriodSeconds :: int32
  probe_TimeoutSeconds :: int32
  probe_SuccessThreshold :: int32
  probe_FailureThreshold :: int32

record container_port =
  port_Name :: string
  port_ContainerPort :: int32
  port_Protocol :: string

record env_var =
  env_Name :: string
  env_FieldPath :: "string option"
  env_Rest :: string

record volume_mount =
  mount_Name :: string
  mount_MountPath :: string

record container =
  con_Name :: string
  con_Image :: string
  con_Command :: "string list"
  con_Args :: "string list"
  con_Ports :: "container_port list"
  con_Env :: "env_var list"
  con_Limits :: "(string \<times> quantity) list option"
  con_VolumeMounts :: "volume_mount list"
  con_LivenessProbe :: "probe option"
  con_ReadinessProbe :: "probe option"
  con_Rest :: string

record volume =
  vol_Name :: string
  vol_ConfigMapName :: "string option"
  vol_Rest :: string

record pod_spec =
  pod_Containers :: "container list"
  pod_SchedulerName :: string
  pod_ServiceAccountName :: string
  pod_Volumes :: "volume list"
  pod_Rest :: string

definition zero_pod_spec :: pod_spec where
  "zero_pod_spec = \<lparr>pod_Containers = [], pod_SchedulerName = '''', pod_ServiceAccountName = '''',
     pod_Volumes = [], pod_Rest = ''''\<rparr>"

record pod_template =
  tmpl_Labels :: label_map
  tmpl_Annotations :: label_map
  tmpl_Spec :: pod_spec

subsection \<open>LeaderWorkerSet and PodGroup\<close>

record lws_spec =
  lwss_Replicas :: "int32 option"
  lwss_StartupPolicy :: string
  lwss_RolloutType :: string
  lwss_Size :: "int32 option"
  lwss_LeaderTemplate :: "pod_template option"
  lwss_WorkerTemplate :: pod_template

record lws_status =
  lwsst_Replicas :: int32
  lwsst_ReadyReplicas :: int32

record lws =
  lws_Meta :: object_meta
  lws_Spec :: lws_spec
  lws_Status :: lws_status

record podgroup_spec =
  pgs_MinMember :: int32
  pgs_MinTaskMember :: "string \<rightharpoonup> int32"
  pgs_MinResources :: "string \<rightharpoonup> quantity"

record podgroup =
  pg_Meta :: object_meta
  pg_Spec :: podgroup_spec

subsection \<open>Router objects\<close>

record configmap =
  cm_Meta :: object_meta
  cm_Data :: label_map

record deployment_spec =
  deps_Replicas :: "int32 option"
  deps_Strategy :: string
  deps_Selector :: label_map
  deps_Template :: pod_template

record deployment =
  dep_Meta :: object_meta
  dep_Spec :: deployment_spec

record service_port =
  sp_Name :: string
  sp_Port :: int32
  sp_TargetPort :: int32
  sp_Protocol :: string

record service_spec =
  svcs_Type :: string
  svcs_Selector :: label_map
  svcs_Ports :: "service_port list"

record service =
  svc_Meta :: object_meta
  svc_Spec :: service_spec

record service_account =
  sa_Meta :: object_meta

record policy_rule =
  rule_APIGroups :: "string list"
  rule_Resources :: "string list"
  rule_Verbs :: "string list"

record rbac_role =
  rb_Meta :: object_meta
  rb_Rules :: "policy_rule list"

record role_ref =
  ref_APIGroup :: string
  ref_Kind :: string
  ref_Name :: string

record subject =
  sub_Kind :: string
  sub_Name :: string
  sub_Namespace :: string

record role_binding =
  rbd_Meta :: object_meta
  rbd_RoleRef :: role_ref
  rbd_Subjects :: "subject list"

record pool_spec =
  pools_Selector :: label_map
  pools_TargetPorts :: "int32 list"
  pools_EPPName :: string
  pools_EPPPort :: "int32 option"

record pool =
  pool_Meta :: object_meta
  pool_Spec :: pool_spec

record backend_ref =
  be_Group :: "string option"
  be_Kind :: "string option"
  be_Name :: string
  be_Rest :: string

record route_rule =
  rr_BackendRefs :: "backend_ref list"
  rr_Rest :: string

record route_spec =
  routes_Rules :: "route_rule list"
  routes_Rest :: string

record http_route =
  route_Meta :: object_meta
  route_Spec :: route_spec

subsection \<open>What is hashed, and the functions called outside the repository\<close>

text \<open>The argument \<open>obj interface{}\<close> of \<open>ComputeSpecHash\<close>: the types it is called with.\<close>

datatype hash_obj =
    HashLWSSpec lws_spec
  | HashPodGroupSpec podgroup_spec
  | HashConfigData label_map
  | HashDeploymentSpec deployment_spec
  | HashServiceSpec service_spec
  | HashRules "policy_rule list"
  | HashRoleBinding role_ref "subject list"
  | HashPoolSpec pool_spec
  | HashRouteSpec route_spec

text \<open>
  \<open>ext_Dump\<close> is \<open>dump.ForHash\<close>; \<open>ext_SafeEncode\<close> is \<open>rand.SafeEncodeString\<close>;
  \<open>ext_ParseTemplate\<close> and \<open>ext_ParseRoute\<close> are \<open>json.Unmarshal\<close> into \<open>corev1.PodTemplateSpec\<close> and
  \<open>gatewayv1.HTTPRouteSpec\<close> (\<open>None\<close> where it returns an error); \<open>ext_Getenv\<close> is \<open>os.Getenv\<close>;
  \<open>ext_QuantityValue\<close>, \<open>ext_QuantitySet\<close> and \<open>ext_QuantityAdd\<close> are \<open>Value\<close>, \<open>Set\<close> and \<open>Add\<close> of
  \<open>resource.Quantity\<close>; \<open>ext_SetStatusCondition\<close> is \<open>meta.SetStatusCondition\<close>.
\<close>

record externals =
  ext_Dump :: "hash_obj \<Rightarrow> string"
  ext_SafeEncode :: "string \<Rightarrow> string"
  ext_ParseTemplate :: "string \<Rightarrow> pod_template option"
  ext_ParseRoute :: "string \<Rightarrow> route_spec option"
  ext_Getenv :: "string \<Rightarrow> string"
  ext_QuantityValue :: "quantity \<Rightarrow> int64"
  ext_QuantitySet :: "quantity \<Rightarrow> int64 \<Rightarrow> quantity"
  ext_QuantityAdd :: "quantity \<Rightarrow> quantity \<Rightarrow> quantity"
  ext_SetStatusCondition :: "condition list \<Rightarrow> condition \<Rightarrow> condition list"

end
