(* ===== verification/SpecHash.thy ===== *)
theory SpecHash
  imports Prelude
begin

section \<open>pkg/util/hash.go: the spec hash\<close>

text \<open>
  \<open>ComputeSpecHash\<close> renders an object to text, hashes the text with 32-bit FNV-1 and encodes the
  decimal form of the hash. The rendering (\<open>dump.ForHash\<close>) and the encoding
  (\<open>rand.SafeEncodeString\<close>) belong to \<open>k8s.io/apimachinery\<close> and are the parameters \<open>dmp\<close> and
  \<open>enc\<close>; the FNV-1 hasher is Go's standard library \<open>hash/fnv\<close> and is written out.
  The lemmas show that one step of the hash loses nothing, hence that a change of one byte of the
  rendered object always changes the hash, and that the hash as a whole still has collisions.
\<close>

unbundle bit_operations_syntax

definition fnv_offset32 :: "32 word" where
  "fnv_offset32 = 2166136261"

definition fnv_prime32 :: "32 word" where
  "fnv_prime32 = 16777619"

text \<open>\<open>fnv.sum32.Write\<close>: for each byte, multiply, then exclusive or.\<close>

definition fnv_step :: "32 word \<Rightarrow> char \<Rightarrow> 32 word" where
  "fnv_step h c = (h * fnv_prime32) XOR of_char c"

definition fnv_write :: "32 word \<Rightarrow> string \<Rightarrow> 32 word" where
  "fnv_write h bs = foldl fnv_step h bs"

text \<open>\<open>deepHashObject\<close> resets the hasher it is given before writing to it.\<close>

definition deepHashObject :: "('o \<Rightarrow> string) \<Rightarrow> 32 word \<Rightarrow> 'o \<Rightarrow> 32 word" where
  "deepHashObject dmp hasher obj =
     (let hasher = fnv_offset32 in fnv_write hasher (dmp obj))"

definition ComputeSpecHash :: "('o \<Rightarrow> string) \<Rightarrow> (string \<Rightarrow> string) \<Rightarrow> 'o \<Rightarrow> string" where
  "ComputeSpecHash dmp enc obj =
     (let hasher = fnv_offset32; hasher = deepHashObject dmp hasher obj
      in enc (dec (unat hasher)))"

text \<open>What the code relies on in \<open>rand.SafeEncodeString\<close>: different decimal numbers stay different.\<close>

definition safe_encoding :: "(string \<Rightarrow> string) \<Rightarrow> bool" where
  "safe_encoding enc \<longleftrightarrow> inj_on enc (range dec)"

subsection \<open>One step of the hash\<close>

text \<open>The prime is odd, so multiplying by it is undone by multiplying by its inverse.\<close>

definition fnv_inverse32 :: "32 word" where
  "fnv_inverse32 = 899433627"

lemma fnv_prime_inverse: "fnv_prime32 * fnv_inverse32 = 1"
  by (simp add: fnv_prime32_def fnv_inverse32_def)

lemma fnv_times_inject: "h * fnv_prime32 = h' * fnv_prime32 \<longleftrightarrow> h = h'"
proof
  assume "h * fnv_prime32 = h' * fnv_prime32"
  then have "h * (fnv_prime32 * fnv_inverse32) = h' * (fnv_prime32 * fnv_inverse32)"
    by (metis mult.assoc)
  then show "h = h'" by (simp add: fnv_prime_inverse)
qed simp

lemma xor_inject_left: "(a XOR c = b XOR c) \<longleftrightarrow> a = (b :: 'a :: len word)"
  by (metis xor.assoc xor.right_neutral xor_self_eq)

lemma xor_inject_right: "(c XOR a = c XOR b) \<longleftrightarrow> a = (b :: 'a :: len word)"
  by (metis xor.commute xor_inject_left)

lemma of_char_word_inject: "(of_char c :: 32 word) = of_char d \<longleftrightarrow> c = d"
proof
  assume "(of_char c :: 32 word) = of_char d"
  then have "unat (of_char c :: 32 word) = unat (of_char d :: 32 word)" by simp
  moreover have "unat (of_char x :: 32 word) = of_char x" for x
  proof -
    have "(of_char x :: nat) < 256" by simp
    then have "(of_char x :: nat) mod 4294967296 = of_char x"
      by (intro mod_less) linarith
    then have "unat (word_of_nat (of_char x) :: 32 word) = of_char x"
      by (simp add: unat_of_nat)
    then show ?thesis by (simp only: of_nat_of_char)
  qed
  ultimately have "(of_char c :: nat) = of_char d" by simp
  then show "c = d" by simp
qed simp

lemma fnv_step_state_inject: "fnv_step h c = fnv_step h' c \<longleftrightarrow> h = h'"
  by (simp add: fnv_step_def xor_inject_left fnv_times_inject)

lemma fnv_step_byte_inject: "fnv_step h c = fnv_step h d \<longleftrightarrow> c = d"
  by (simp add: fnv_step_def xor_inject_right of_char_word_inject)

subsection \<open>Writing a text\<close>

lemma fnv_write_simps [simp]:
  "fnv_write h [] = h" "fnv_write h (c # cs) = fnv_write (fnv_step h c) cs"
  by (simp_all add: fnv_write_def)

lemma fnv_write_append [simp]: "fnv_write h (u @ v) = fnv_write (fnv_write h u) v"
  by (simp add: fnv_write_def)

lemma fnv_write_state_inject: "fnv_write h v = fnv_write h' v \<longleftrightarrow> h = h'"
  by (induction v arbitrary: h h') (simp_all add: fnv_step_state_inject)

lemma fnv_write_one_byte: "fnv_write h (u @ c # v) = fnv_write h (u @ d # v) \<longleftrightarrow> c = d"
  by (simp add: fnv_write_state_inject fnv_step_byte_inject)

lemma deepHashObject_alt: "deepHashObject dmp hasher obj = fnv_write fnv_offset32 (dmp obj)"
  by (simp add: deepHashObject_def)

lemma ComputeSpecHash_alt:
  "ComputeSpecHash dmp enc obj = enc (dec (unat (fnv_write fnv_offset32 (dmp obj))))"
  by (simp add: ComputeSpecHash_def deepHashObject_alt)

lemma ComputeSpecHash_inject:
  assumes "safe_encoding enc"
  shows "ComputeSpecHash dmp enc a = ComputeSpecHash dmp enc b \<longleftrightarrow>
    fnv_write fnv_offset32 (dmp a) = fnv_write fnv_offset32 (dmp b)"
  using inj_on_eq_iff [OF assms [unfolded safe_encoding_def]]
  by (auto simp: ComputeSpecHash_alt intro: unsigned_word_eqI)

subsection \<open>An encoding that meets the requirement\<close>

text \<open>
  The documented encoding replaces each byte by one of 27 characters chosen by the byte's value
  modulo 27. It keeps decimal numbers apart because the ten digits have ten different remainders.
\<close>

definition table_encode :: "string \<Rightarrow> string" where
  "table_encode s = map (\<lambda>c. ''bcdfghjklmnpqrstvwxz2456789'' ! (of_char c mod 27)) s"

lemma table_encode_digits:
  "d < 10 \<Longrightarrow> e < 10 \<Longrightarrow>
    ''bcdfghjklmnpqrstvwxz2456789'' ! (of_char (digit d) mod 27) =
    ''bcdfghjklmnpqrstvwxz2456789'' ! (of_char (digit e) mod 27) \<longleftrightarrow> d = e"
proof -
  assume "d < 10" "e < 10"
  then have "d \<in> {0,1,2,3,4,5,6,7,8,9}" "e \<in> {0,1,2,3,4,5,6,7,8,9}" by auto
  then show ?thesis
    by (elim insertE emptyE) (simp_all add: of_char_digit)
qed

lemma inj_on_map_list:
  "inj_on f A \<Longrightarrow> set xs \<subseteq> A \<Longrightarrow> set ys \<subseteq> A \<Longrightarrow> map f xs = map f ys \<Longrightarrow> xs = ys"
  by (rule map_inj_on) (auto intro: inj_on_subset)

lemma safe_table_encode: "safe_encoding table_encode"
proof -
  let ?f = "\<lambda>c. ''bcdfghjklmnpqrstvwxz2456789'' ! (of_char c mod 27)"
  have inj: "inj_on ?f (digit ` {..<10})"
  proof (rule inj_onI)
    fix c c' assume "c \<in> digit ` {..<10}" "c' \<in> digit ` {..<10}" and eq: "?f c = ?f c'"
    then obtain d e where "d < 10" "e < 10" "c = digit d" "c' = digit e" by auto
    with eq show "c = c'" using table_encode_digits [of d e] by simp
  qed
  show ?thesis
    unfolding safe_encoding_def
  proof (rule inj_onI)
    fix s t assume "s \<in> range dec" "t \<in> range dec" and "table_encode s = table_encode t"
    then show "s = t"
      using inj_on_map_list [OF inj, of s t] set_dec by (auto simp: table_encode_def)
  qed
qed

subsection \<open>Properties\<close>

text \<open>
  Two objects whose dumps differ in exactly one byte get different spec hashes, so such a change
  is always noticed.
\<close>

theorem one_byte_change_detected:
  assumes "safe_encoding enc" and "dmp a = u @ c # v" and "dmp b = u @ d # v" and "c \<noteq> d"
  shows "ComputeSpecHash dmp enc a \<noteq> ComputeSpecHash dmp enc b"
  using assms by (simp add: ComputeSpecHash_inject fnv_write_one_byte del: fnv_write_append fnv_write_simps)

theorem one_byte_change_detected_witness:
  "ComputeSpecHash (\<lambda>n :: nat. ''size: '' @ digit n # ''.'') table_encode 2 \<noteq>
   ComputeSpecHash (\<lambda>n. ''size: '' @ digit n # ''.'') table_encode 4"
  by (rule one_byte_change_detected [OF safe_table_encode, of _ _ "''size: ''" "digit 2" "''.''" _ "digit 4"])
    simp_all

text \<open>
  The spec hash does not tell all objects apart: for every encoding there are objects with
  different dumps and the same hash, and such a change is not noticed.
\<close>

theorem spec_hash_collides:
  "\<exists>a b :: string. a \<noteq> b \<and> ComputeSpecHash (\<lambda>s. s) enc a = ComputeSpecHash (\<lambda>s. s) enc b"
proof -
  have "fnv_write fnv_offset32 ''178eb'' = fnv_write fnv_offset32 ''54938''"
    by (simp add: fnv_step_def fnv_offset32_def fnv_prime32_def)
  then show ?thesis
    by (intro exI [of _ "''178eb''"] exI [of _ "''54938''"]) (simp add: ComputeSpecHash_alt del: fnv_write_simps)
qed

end
