(* ===== verification/Samples.thy ===== *)
theory Samples
  imports Kube SpecHash
begin

section \<open>Concrete inputs\<close>

text \<open>
  Small services and functions standing for the packages the code calls, used to show that the
  hypotheses of the theorems can be met. \<open>sample_externals\<close> parses the text \<open>''pod''\<close> as a template
  with one container and rejects every other; a quantity is a decimal number; \<open>sample_dump\<close> of a
  LeaderWorkerSet is the name of its service.
\<close>

definition sample_container :: container where
  "sample_container = \<lparr>con_Name = ''main'', con_Image = ''vllm'', con_Command = [], con_Args = [''--model'', ''m''],
     con_Ports = [], con_Env = [], con_Limits = Some [(''gpu'', ''4'')], con_VolumeMounts = [],
     con_LivenessProbe = None, con_ReadinessProbe = None, con_Rest = ''''\<rparr>"

definition sample_template :: pod_template where
  "sample_template = \<lparr>tmpl_Labels = Map.empty, tmpl_Annotations = Map.empty,
     tmpl_Spec = zero_pod_spec\<lparr>pod_Containers := [sample_container]\<rparr>\<rparr>"

definition sample_dump :: "hash_obj \<Rightarrow> string" where
  "sample_dump ob =
     (case ob of
        HashLWSSpec s \<Rightarrow> label_of (tmpl_Labels (lwss_WorkerTemplate s)) ''fusioninfer.io/service''
      | _ \<Rightarrow> ''x'')"

definition sample_externals :: externals where
  "sample_externals = \<lparr>
     ext_Dump = sample_dump,
     ext_SafeEncode = (\<lambda>s. s),
     ext_ParseTemplate = (\<lambda>raw. if raw = ''pod'' then Some sample_template else None),
     ext_ParseRoute = (\<lambda>raw. None),
     ext_Getenv = (\<lambda>v. ''''),
     ext_QuantityValue = (\<lambda>q. of_nat (undec q)),
     ext_QuantitySet = (\<lambda>q v. dec (unat v)),
     ext_QuantityAdd = (\<lambda>q r. dec (unat (of_nat (undec q) + of_nat (undec r) :: int64))),
     ext_SetStatusCondition = (\<lambda>cs c. c # filter (\<lambda>c'. cond_Type c' \<noteq> cond_Type c) cs)\<rparr>"

lemma sample_externals_simps [simp]:
  "ext_Dump sample_externals = sample_dump"
  "ext_SafeEncode sample_externals = (\<lambda>s. s)"
  "ext_ParseTemplate sample_externals raw = (if raw = ''pod'' then Some sample_template else None)"
  "ext_ParseRoute sample_externals raw = None"
  "ext_Getenv sample_externals v = ''''"
  "ext_QuantityValue sample_externals q = of_nat (undec q)"
  "ext_QuantitySet sample_externals q w = dec (unat w)"
  "ext_QuantityAdd sample_externals q r = dec (unat (of_nat (undec q) + of_nat (undec r) :: int64))"
  by (simp_all add: sample_externals_def)

definition sample_role :: "string \<Rightarrow> ComponentType \<Rightarrow> int32 \<Rightarrow> int32 \<Rightarrow> role" where
  "sample_role name type replicas nodes =
     \<lparr>role_Name = name, role_ComponentType = type, role_Strategy = '''', role_HTTPRoute = None,
      role_Gateway = None, role_EndpointPickerConfig = '''', role_Replicas = Some replicas,
      role_Multinode = Some \<lparr>NodeCount = nodes\<rparr>, role_Template = Some \<lparr>Raw = Some ''pod''\<rparr>\<rparr>"

lemma sample_role_simps [simp]:
  "role_Name (sample_role n t r k) = n" "role_ComponentType (sample_role n t r k) = t"
  "role_Replicas (sample_role n t r k) = Some r"
  "role_Multinode (sample_role n t r k) = Some \<lparr>NodeCount = k\<rparr>"
  "role_EndpointPickerConfig (sample_role n t r k) = ''''"
  "role_Strategy (sample_role n t r k) = ''''"
  "role_Template (sample_role n t r k) = Some \<lparr>Raw = Some ''pod''\<rparr>"
  by (simp_all add: sample_role_def)

definition sample_service :: "string \<Rightarrow> role list \<Rightarrow> inference_service" where
  "sample_service name roles =
     \<lparr>isvc_Meta = new_meta name ''default'' Map.empty,
      isvc_Spec = \<lparr>spec_Roles = roles, spec_SchedulingStrategy = None\<rparr>,
      isvc_Status = \<lparr>ObservedGeneration = 0, Conditions = [], Components = []\<rparr>\<rparr>"

lemma sample_service_simps [simp]:
  "isvc_Name (sample_service n roles) = n" "isvc_Namespace (sample_service n roles) = ''default''"
  "isvc_Roles (sample_service n roles) = roles"
  "isvc_Status (sample_service n roles) = \<lparr>ObservedGeneration = 0, Conditions = [], Components = []\<rparr>"
  by (simp_all add: sample_service_def)

lemma sample_template_containers [simp]:
  "pod_Containers (tmpl_Spec sample_template) = [sample_container]"
  by (simp add: sample_template_def)

end
