(* ===== verification/Workload.thy ===== *)
theory Workload
  imports Samples
begin

section \<open>pkg/workload/lws.go: building LeaderWorkerSets\<close>

text \<open>
  \<open>BuildLWS\<close> turns a role into a LeaderWorkerSet, one per replica when the configuration has a replica
  index. In Go the label map of the object and of its pod templates is one map, so adding the
  spec-hash label at the end also adds it to the templates: \<open>lws_with_labels\<close> is the object as a
  function of that map's content. \<open>BuildLWS\<close> reads \<open>Containers[0]\<close> of a multi-node role without
  checking that there is one; \<open>None\<close> is the resulting panic.
  The lemmas give the result of \<open>BuildLWS\<close> field by field, when it panics, how names separate
  replicas and roles, and what the leader and worker commands are.
\<close>

subsection \<open>Constants\<close>

definition RayHeadPort :: int32 where "RayHeadPort = 6379"
definition LWSLeaderAddressEnv :: string where "LWSLeaderAddressEnv = ''LWS_LEADER_ADDRESS''"

definition LabelService :: string where "LabelService = ''fusioninfer.io/service''"
definition LabelComponentType :: string where "LabelComponentType = ''fusioninfer.io/component-type''"
definition LabelRoleName :: string where "LabelRoleName = ''fusioninfer.io/role-name''"
definition LabelReplicaIndex :: string where "LabelReplicaIndex = ''fusioninfer.io/replica-index''"
definition LabelSpecHash :: string where "LabelSpecHash = ''fusioninfer.io/spec-hash''"

definition AnnotationPodGroupName :: string where
  "AnnotationPodGroupName = ''scheduling.k8s.io/group-name''"
definition AnnotationTaskSpec :: string where "AnnotationTaskSpec = ''volcano.sh/task-spec''"
definition VolcanoSchedulerName :: string where "VolcanoSchedulerName = ''volcano''"

lemmas label_names =
  LabelService_def LabelComponentType_def LabelRoleName_def LabelReplicaIndex_def LabelSpecHash_def

lemma label_names_distinct [simp]:
  "LabelService \<noteq> LabelComponentType" "LabelComponentType \<noteq> LabelService"
  "LabelService \<noteq> LabelRoleName" "LabelRoleName \<noteq> LabelService"
  "LabelService \<noteq> LabelReplicaIndex" "LabelReplicaIndex \<noteq> LabelService"
  "LabelService \<noteq> LabelSpecHash" "LabelSpecHash \<noteq> LabelService"
  "LabelComponentType \<noteq> LabelRoleName" "LabelRoleName \<noteq> LabelComponentType"
  "LabelComponentType \<noteq> LabelReplicaIndex" "LabelReplicaIndex \<noteq> LabelComponentType"
  "LabelComponentType \<noteq> LabelSpecHash" "LabelSpecHash \<noteq> LabelComponentType"
  "LabelRoleName \<noteq> LabelReplicaIndex" "LabelReplicaIndex \<noteq> LabelRoleName"
  "LabelRoleName \<noteq> LabelSpecHash" "LabelSpecHash \<noteq> LabelRoleName"
  "LabelReplicaIndex \<noteq> LabelSpecHash" "LabelSpecHash \<noteq> LabelReplicaIndex"
  by (simp_all add: label_names)

lemma annotation_names_distinct [simp]:
  "AnnotationPodGroupName \<noteq> AnnotationTaskSpec" "AnnotationTaskSpec \<noteq> AnnotationPodGroupName"
  by (simp_all add: AnnotationPodGroupName_def AnnotationTaskSpec_def)

abbreviation spec_hash :: "externals \<Rightarrow> hash_obj \<Rightarrow> string" where
  "spec_hash X \<equiv> ComputeSpecHash (ext_Dump X) (ext_SafeEncode X)"

subsection \<open>Names and predicates\<close>

definition generateLWSName :: "string \<Rightarrow> string \<Rightarrow> string" where
  "generateLWSName svc role = svc @ ''-'' @ role"

definition GenerateLWSNameWithIndex :: "string \<Rightarrow> string \<Rightarrow> int32 option \<Rightarrow> string" where
  "GenerateLWSNameWithIndex svc role idx =
     (case idx of None \<Rightarrow> generateLWSName svc role
      | Some i \<Rightarrow> svc @ ''-'' @ role @ ''-'' @ fmt_d (sint i))"

definition IsMultiNode :: "role \<Rightarrow> bool" where
  "IsMultiNode role =
     (case role_Multinode role of None \<Rightarrow> False | Some m \<Rightarrow> sint (NodeCount m) \<ge> 2)"

subsection \<open>Pod specs\<close>

record lws_config =
  PodGroupName :: string
  TaskName :: string
  NeedsGangSchedulingCfg :: bool
  ReplicaIndex :: "int32 option"

definition buildPodSpec :: "externals \<Rightarrow> role \<Rightarrow> bool \<Rightarrow> pod_spec" where
  "buildPodSpec X role needsGang =
     (let spec = (case raw_bytes (role_Template role) of
                    None \<Rightarrow> zero_pod_spec
                  | Some raw \<Rightarrow> (case ext_ParseTemplate X raw of
                                  None \<Rightarrow> zero_pod_spec
                                | Some template \<Rightarrow> tmpl_Spec template))
      in if needsGang then spec\<lparr>pod_SchedulerName := VolcanoSchedulerName\<rparr> else spec)"

definition addRayHeadPort :: "container \<Rightarrow> container" where
  "addRayHeadPort c = c\<lparr>con_Ports := con_Ports c @
     [\<lparr>port_Name = ''ray-head'', port_ContainerPort = RayHeadPort, port_Protocol = ''TCP''\<rparr>]\<rparr>"

definition leaderCommand :: "container \<Rightarrow> string" where
  "leaderCommand c =
     (let originalCmd = strings_join (con_Command c) '' '';
          originalArgs = strings_join (con_Args c) '' '';
          originalCmd = (if originalCmd = '''' then ''vllm serve'' else originalCmd);
          hasBackendFlag = strings_contains originalArgs ''distributed-executor-backend'';
          vllmMultinodeFlags = (if hasBackendFlag then '''' else ''--distributed-executor-backend ray'')
      in ''ray start --head --port='' @ fmt_d (sint RayHeadPort) @ '' && '' @ originalCmd @ '' '' @
         originalArgs @ '' '' @ vllmMultinodeFlags)"

definition rayReadinessProbe :: probe where
  "rayReadinessProbe = \<lparr>probe_Handler = TCPSocket RayHeadPort, probe_InitialDelaySeconds = 10,
     probe_PeriodSeconds = 10, probe_TimeoutSeconds = 5, probe_SuccessThreshold = 1,
     probe_FailureThreshold = 6\<rparr>"

definition wrapLeaderContainer :: "container \<Rightarrow> container" where
  "wrapLeaderContainer c =
     (let leaderCmd = leaderCommand c;
          c = c\<lparr>con_Command := [''/bin/sh'', ''-c''], con_Args := [leaderCmd]\<rparr>;
          c = addRayHeadPort c
      in (case con_ReadinessProbe c of
            None \<Rightarrow> c\<lparr>con_ReadinessProbe := Some rayReadinessProbe\<rparr>
          | Some _ \<Rightarrow> c))"

definition wrapWorkerContainer :: "container \<Rightarrow> container" where
  "wrapWorkerContainer c =
     (let workerCmd = ''ray start --address=$'' @ LWSLeaderAddressEnv @ '':'' @
                        fmt_d (sint RayHeadPort) @ '' --block''
      in c\<lparr>con_Command := [''/bin/sh'', ''-c''], con_Args := [workerCmd]\<rparr>)"

text \<open>\<open>f(&spec.Containers[0])\<close>: \<open>None\<close> is the index-out-of-range panic.\<close>

definition wrapFirstContainer :: "(container \<Rightarrow> container) \<Rightarrow> pod_spec \<Rightarrow> pod_spec option" where
  "wrapFirstContainer f spec =
     (case pod_Containers spec of
        [] \<Rightarrow> None
      | c # cs \<Rightarrow> Some (spec\<lparr>pod_Containers := f c # cs\<rparr>))"

subsection \<open>BuildLWS\<close>

definition lwsSize :: "role \<Rightarrow> int32" where
  "lwsSize role =
     (case role_Multinode role of
        Some m \<Rightarrow> if sint (NodeCount m) \<ge> 1 then NodeCount m else 1
      | None \<Rightarrow> 1)"

definition lwsReplicas :: "role \<Rightarrow> lws_config \<Rightarrow> int32" where
  "lwsReplicas role cfg =
     (case (ReplicaIndex cfg, role_Replicas role) of (None, Some n) \<Rightarrow> n | _ \<Rightarrow> 1)"

definition lwsLabels :: "inference_service \<Rightarrow> role \<Rightarrow> lws_config \<Rightarrow> label_map" where
  "lwsLabels svc role cfg =
     (let labels = [LabelService \<mapsto> isvc_Name svc, LabelComponentType \<mapsto> role_ComponentType role,
                    LabelRoleName \<mapsto> role_Name role]
      in case ReplicaIndex cfg of
           None \<Rightarrow> labels
         | Some i \<Rightarrow> labels(LabelReplicaIndex \<mapsto> fmt_d (sint i)))"

definition lwsAnnotations :: "lws_config \<Rightarrow> label_map" where
  "lwsAnnotations cfg =
     (if NeedsGangSchedulingCfg cfg \<and> PodGroupName cfg \<noteq> '''' then
        let annotations = [AnnotationPodGroupName \<mapsto> PodGroupName cfg]
        in if TaskName cfg \<noteq> '''' then annotations(AnnotationTaskSpec \<mapsto> TaskName cfg)
           else annotations
      else Map.empty)"

text \<open>The object as a function of the content of the one label map it and its templates point to.\<close>

definition lws_with_labels ::
  "inference_service \<Rightarrow> role \<Rightarrow> lws_config \<Rightarrow> pod_spec option \<Rightarrow> pod_spec \<Rightarrow> label_map \<Rightarrow> lws" where
  "lws_with_labels svc role cfg leader worker labels =
     \<lparr>lws_Meta = new_meta (GenerateLWSNameWithIndex (isvc_Name svc) (role_Name role) (ReplicaIndex cfg))
                  (isvc_Namespace svc) labels,
      lws_Spec =
        \<lparr>lwss_Replicas = Some (lwsReplicas role cfg),
         lwss_StartupPolicy = ''LeaderCreated'',
         lwss_RolloutType = ''RollingUpdate'',
         lwss_Size = Some (lwsSize role),
         lwss_LeaderTemplate =
           map_option (\<lambda>spec. \<lparr>tmpl_Labels = labels, tmpl_Annotations = lwsAnnotations cfg,
                               tmpl_Spec = spec\<rparr>) leader,
         lwss_WorkerTemplate =
           \<lparr>tmpl_Labels = labels, tmpl_Annotations = lwsAnnotations cfg, tmpl_Spec = worker\<rparr>\<rparr>,
      lws_Status = \<lparr>lwsst_Replicas = 0, lwsst_ReadyReplicas = 0\<rparr>\<rparr>"

definition finishLWS ::
  "externals \<Rightarrow> inference_service \<Rightarrow> role \<Rightarrow> lws_config \<Rightarrow> pod_spec option \<Rightarrow> pod_spec \<Rightarrow> lws" where
  "finishLWS X svc role cfg leader worker =
     (let lws_of = lws_with_labels svc role cfg leader worker;
          labels = lwsLabels svc role cfg;
          specHash = spec_hash X (HashLWSSpec (lws_Spec (lws_of labels)))
      in lws_of (labels(LabelSpecHash \<mapsto> specHash)))"

definition BuildLWS :: "externals \<Rightarrow> inference_service \<Rightarrow> role \<Rightarrow> lws_config \<Rightarrow> lws option" where
  "BuildLWS X svc role cfg =
     (let isMultiNode = IsMultiNode role;
          workerPodSpec = buildPodSpec X role (NeedsGangSchedulingCfg cfg)
      in if isMultiNode then
           (let leaderPodSpec = buildPodSpec X role (NeedsGangSchedulingCfg cfg)
            in case wrapFirstContainer wrapLeaderContainer leaderPodSpec of
                 None \<Rightarrow> None
               | Some leader \<Rightarrow>
                   (case wrapFirstContainer wrapWorkerContainer workerPodSpec of
                      None \<Rightarrow> None
                    | Some worker \<Rightarrow> Some (finishLWS X svc role cfg (Some leader) worker)))
         else Some (finishLWS X svc role cfg None workerPodSpec))"

subsection \<open>The built object, field by field\<close>

lemma lwsLabels_hash [simp]: "lwsLabels svc role cfg LabelSpecHash = None"
  by (simp add: lwsLabels_def Let_def split: option.splits)

lemma lwsLabels_simps [simp]:
  "lwsLabels svc role cfg LabelService = Some (isvc_Name svc)"
  "lwsLabels svc role cfg LabelComponentType = Some (role_ComponentType role)"
  "lwsLabels svc role cfg LabelRoleName = Some (role_Name role)"
  by (simp_all add: lwsLabels_def Let_def split: option.splits)

lemma BuildLWS_cases:
  "BuildLWS X svc role cfg = Some l \<Longrightarrow>
    \<exists>leader worker. l = finishLWS X svc role cfg leader worker \<and> (leader = None \<longleftrightarrow> \<not> IsMultiNode role)"
  by (auto simp: BuildLWS_def Let_def split: if_splits option.splits)

lemma finishLWS_simps [simp]:
  "meta_Name (lws_Meta (finishLWS X svc role cfg leader worker)) =
     GenerateLWSNameWithIndex (isvc_Name svc) (role_Name role) (ReplicaIndex cfg)"
  "meta_Namespace (lws_Meta (finishLWS X svc role cfg leader worker)) = isvc_Namespace svc"
  "lwss_Replicas (lws_Spec (finishLWS X svc role cfg leader worker)) = Some (lwsReplicas role cfg)"
  "lwss_Size (lws_Spec (finishLWS X svc role cfg leader worker)) = Some (lwsSize role)"
  "lwss_LeaderTemplate (lws_Spec (finishLWS X svc role cfg leader worker)) = None \<longleftrightarrow> leader = None"
  "tmpl_Spec (lwss_WorkerTemplate (lws_Spec (finishLWS X svc role cfg leader worker))) = worker"
  "tmpl_Annotations (lwss_WorkerTemplate (lws_Spec (finishLWS X svc role cfg leader worker))) =
     lwsAnnotations cfg"
  by (simp_all add: finishLWS_def lws_with_labels_def Let_def)

lemma finishLWS_labels:
  "meta_Labels (lws_Meta (finishLWS X svc role cfg leader worker)) =
     (lwsLabels svc role cfg)(LabelSpecHash \<mapsto>
        spec_hash X (HashLWSSpec (lws_Spec (lws_with_labels svc role cfg leader worker (lwsLabels svc role cfg)))))"
  "tmpl_Labels (lwss_WorkerTemplate (lws_Spec (finishLWS X svc role cfg leader worker))) =
     meta_Labels (lws_Meta (finishLWS X svc role cfg leader worker))"
  by (simp_all add: finishLWS_def lws_with_labels_def Let_def)

lemma BuildLWS_meta:
  assumes "BuildLWS X svc role cfg = Some l"
  shows "meta_Name (lws_Meta l) =
      GenerateLWSNameWithIndex (isvc_Name svc) (role_Name role) (ReplicaIndex cfg)"
    and "meta_Namespace (lws_Meta l) = isvc_Namespace svc"
    and "meta_Labels (lws_Meta l) LabelService = Some (isvc_Name svc)"
    and "meta_Labels (lws_Meta l) LabelRoleName = Some (role_Name role)"
    and "meta_Labels (lws_Meta l) LabelComponentType = Some (role_ComponentType role)"
    and "tmpl_Labels (lwss_WorkerTemplate (lws_Spec l)) = meta_Labels (lws_Meta l)"
  using BuildLWS_cases [OF assms] by (auto simp: finishLWS_labels)

text \<open>
  The templates pods are made from: LeaderWorkerSet makes the leader from the leader template, or from the
  worker template when there is none, and the other pods from the worker template.
\<close>

definition leader_pod :: "lws_spec \<Rightarrow> pod_template" where
  "leader_pod s = (case lwss_LeaderTemplate s of None \<Rightarrow> lwss_WorkerTemplate s | Some t \<Rightarrow> t)"

definition pod_templates :: "lws_spec \<Rightarrow> pod_template list" where
  "pod_templates s = [leader_pod s, lwss_WorkerTemplate s]"

lemma wrapFirstContainer_scheduler:
  "wrapFirstContainer f spec = Some spec' \<Longrightarrow> pod_SchedulerName spec' = pod_SchedulerName spec"
  by (auto simp: wrapFirstContainer_def split: list.splits)

lemma BuildLWS_templates:
  assumes "BuildLWS X svc role cfg = Some l" and "t \<in> set (pod_templates (lws_Spec l))"
  shows "tmpl_Labels t = meta_Labels (lws_Meta l)" and "tmpl_Annotations t = lwsAnnotations cfg"
    and "pod_SchedulerName (tmpl_Spec t) = pod_SchedulerName (buildPodSpec X role (NeedsGangSchedulingCfg cfg))"
proof -
  let ?spec = "buildPodSpec X role (NeedsGangSchedulingCfg cfg)"
  from assms(1) obtain leader worker where l: "l = finishLWS X svc role cfg leader worker"
    "pred_option (\<lambda>s. pod_SchedulerName s = pod_SchedulerName ?spec) leader"
    "pod_SchedulerName worker = pod_SchedulerName ?spec"
    unfolding BuildLWS_def Let_def
    by (auto split: if_splits option.splits dest!: wrapFirstContainer_scheduler)
  with assms(2) show "tmpl_Labels t = meta_Labels (lws_Meta l)" "tmpl_Annotations t = lwsAnnotations cfg"
    "pod_SchedulerName (tmpl_Spec t) = pod_SchedulerName ?spec"
    by (cases leader; auto simp: pod_templates_def leader_pod_def finishLWS_def lws_with_labels_def Let_def)+
qed

text \<open>The object without its spec-hash labels: what was hashed.\<close>

definition drop_hash_label :: "pod_template \<Rightarrow> pod_template" where
  "drop_hash_label t = t\<lparr>tmpl_Labels := (tmpl_Labels t)(LabelSpecHash := None)\<rparr>"

definition unhashed_spec :: "lws_spec \<Rightarrow> lws_spec" where
  "unhashed_spec s = s\<lparr>lwss_LeaderTemplate := map_option drop_hash_label (lwss_LeaderTemplate s),
     lwss_WorkerTemplate := drop_hash_label (lwss_WorkerTemplate s)\<rparr>"

lemma fun_upd_undo: "m k = None \<Longrightarrow> m(k := None) = m"
  by auto

lemma unhashed_finishLWS:
  "unhashed_spec (lws_Spec (finishLWS X svc role cfg leader worker)) =
     lws_Spec (lws_with_labels svc role cfg leader worker (lwsLabels svc role cfg))"
  by (simp add: finishLWS_def lws_with_labels_def Let_def unhashed_spec_def drop_hash_label_def
      fun_upd_undo option.map_comp comp_def)

lemma BuildLWS_hash_label:
  assumes "BuildLWS X svc role cfg = Some l"
  shows "meta_Labels (lws_Meta l) LabelSpecHash = Some (spec_hash X (HashLWSSpec (unhashed_spec (lws_Spec l))))"
  using BuildLWS_cases [OF assms] by (auto simp: finishLWS_labels unhashed_finishLWS)


lemma BuildLWS_panics_iff:
  "BuildLWS X svc role cfg = None \<longleftrightarrow>
     IsMultiNode role \<and> pod_Containers (buildPodSpec X role (NeedsGangSchedulingCfg cfg)) = []"
  by (cases "pod_Containers (buildPodSpec X role (NeedsGangSchedulingCfg cfg))")
    (auto simp: BuildLWS_def Let_def wrapFirstContainer_def)

lemma buildPodSpec_scheduler [simp]: "pod_SchedulerName (buildPodSpec X role True) = VolcanoSchedulerName"
  by (simp add: buildPodSpec_def Let_def)

subsection \<open>Names\<close>

lemma lws_name_inject:
  assumes "0 \<le> sint i" and "0 \<le> sint j"
  shows "GenerateLWSNameWithIndex svc r (Some i) = GenerateLWSNameWithIndex svc r' (Some j) \<longleftrightarrow>
    r = r' \<and> i = j"
  using sep_index_inject [of "sint i" "sint j" r r'] assms
  by (simp add: GenerateLWSNameWithIndex_def sint_eq_iff32)

subsection \<open>Commands\<close>

lemma sublist_append_left: "sublist s u \<Longrightarrow> sublist s (u @ v)"
  unfolding sublist_def by (metis append.assoc)

lemma sublist_append_right: "sublist s v \<Longrightarrow> sublist s (u @ v)"
  unfolding sublist_def by (metis append.assoc)

lemma fmt_RayHeadPort: "fmt_d (sint RayHeadPort) = ''6379''"
  by (simp add: RayHeadPort_def fmt_d_def dec.simps)

lemma leaderCommand_alt:
  "leaderCommand c =
     ''ray start --head --port=6379 && '' @
     (if strings_join (con_Command c) '' '' = '''' then ''vllm serve'' else strings_join (con_Command c) '' '') @
     '' '' @ strings_join (con_Args c) '' '' @ '' '' @
     (if strings_contains (strings_join (con_Args c) '' '') ''distributed-executor-backend'' then ''''
      else ''--distributed-executor-backend ray'')"
  by (simp add: leaderCommand_def Let_def fmt_RayHeadPort)

lemma wrapLeader_simps [simp]:
  "con_Command (wrapLeaderContainer c) = [''/bin/sh'', ''-c'']"
  "con_Args (wrapLeaderContainer c) = [leaderCommand c]"
  "con_Image (wrapLeaderContainer c) = con_Image c"
  "con_Limits (wrapLeaderContainer c) = con_Limits c"
  "con_ReadinessProbe (wrapLeaderContainer c) =
     Some (case con_ReadinessProbe c of None \<Rightarrow> rayReadinessProbe | Some p \<Rightarrow> p)"
  by (simp_all add: wrapLeaderContainer_def addRayHeadPort_def Let_def split: option.splits)

lemma wrapWorker_simps [simp]:
  "con_Command (wrapWorkerContainer c) = [''/bin/sh'', ''-c'']"
  "con_Args (wrapWorkerContainer c) = [''ray start --address=$LWS_LEADER_ADDRESS:6379 --block'']"
  "con_Image (wrapWorkerContainer c) = con_Image c"
  "con_ReadinessProbe (wrapWorkerContainer c) = con_ReadinessProbe c"
  by (simp_all add: wrapWorkerContainer_def LWSLeaderAddressEnv_def Let_def fmt_RayHeadPort)

subsection \<open>Properties\<close>

text \<open>
  C37: \<open>BuildLWS\<close> panics exactly for a multi-node role whose template has no container, whether it is
  missing, cannot be parsed, or is empty.
\<close>

theorem build_lws_panics_iff:
  "BuildLWS X svc role cfg = None \<longleftrightarrow>
     (\<exists>m. role_Multinode role = Some m \<and> sint (NodeCount m) \<ge> 2) \<and>
     (case raw_bytes (role_Template role) of
        None \<Rightarrow> True
      | Some raw \<Rightarrow> (case ext_ParseTemplate X raw of None \<Rightarrow> True | Some t \<Rightarrow> pod_Containers (tmpl_Spec t) = []))"
  unfolding BuildLWS_panics_iff IsMultiNode_def
  by (auto simp: buildPodSpec_def Let_def zero_pod_spec_def split: option.splits)

text \<open>
  Within one service the names of LeaderWorkerSets are different for different roles and different
  replicas, whatever the role names contain.
\<close>

theorem lws_names_separate:
  assumes "0 \<le> sint i" and "0 \<le> sint j" and "(role, i) \<noteq> (role', j)"
  shows "GenerateLWSNameWithIndex svc role (Some i) \<noteq> GenerateLWSNameWithIndex svc role' (Some j)"
  using lws_name_inject [OF assms(1,2), of svc role role'] assms(3) by simp

theorem lws_names_separate_witness:
  "GenerateLWSNameWithIndex ''svc'' ''a-1'' (Some 0) \<noteq> GenerateLWSNameWithIndex ''svc'' ''a'' (Some 10)"
  by (rule lws_names_separate) simp_all

text \<open>Across services names can be equal.\<close>

lemma lws_names_collide:
  "GenerateLWSNameWithIndex ''a'' ''b-c'' idx = GenerateLWSNameWithIndex ''a-b'' ''c'' idx"
  by (simp add: GenerateLWSNameWithIndex_def generateLWSName_def split: option.split)

text \<open>
  The spec-hash label of a built LeaderWorkerSet is the hash of its own spec, with the hash labels
  of the templates left out; the pod templates carry the labels of the object, hash included.
\<close>

theorem lws_hash_label:
  assumes "BuildLWS X svc role cfg = Some l"
  shows "meta_Labels (lws_Meta l) LabelSpecHash = Some (spec_hash X (HashLWSSpec (unhashed_spec (lws_Spec l)))) \<and>
    tmpl_Labels (lwss_WorkerTemplate (lws_Spec l)) = meta_Labels (lws_Meta l) \<and>
    pred_option (\<lambda>t. tmpl_Labels t = meta_Labels (lws_Meta l)) (lwss_LeaderTemplate (lws_Spec l))"
proof -
  from BuildLWS_cases [OF assms] obtain leader worker where
    l: "l = finishLWS X svc role cfg leader worker" by blast
  have "pred_option (\<lambda>t. tmpl_Labels t = meta_Labels (lws_Meta l)) (lwss_LeaderTemplate (lws_Spec l))"
    by (cases leader) (simp_all add: l finishLWS_def lws_with_labels_def Let_def)
  with BuildLWS_hash_label [OF assms] BuildLWS_meta(6) [OF assms] show ?thesis by simp
qed

definition sample_config :: lws_config where
  "sample_config = \<lparr>PodGroupName = ''a'', TaskName = ''w-0'', NeedsGangSchedulingCfg = True, ReplicaIndex = Some 0\<rparr>"

lemma sample_builds:
  "\<exists>l. BuildLWS sample_externals svc (sample_role n t r k) cfg = Some l"
  using BuildLWS_panics_iff [of sample_externals svc "sample_role n t r k" cfg]
  by (cases "BuildLWS sample_externals svc (sample_role n t r k) cfg")
    (auto simp: buildPodSpec_def Let_def zero_pod_spec_def split: if_splits)

theorem lws_hash_label_witness:
  "\<exists>l. BuildLWS sample_externals (sample_service ''a'' []) (sample_role ''w'' ComponentTypeWorker 1 2) sample_config = Some l \<and>
    meta_Labels (lws_Meta l) LabelSpecHash = Some (spec_hash sample_externals (HashLWSSpec (unhashed_spec (lws_Spec l))))"
proof -
  obtain l where l: "BuildLWS sample_externals (sample_service ''a'' []) (sample_role ''w'' ComponentTypeWorker 1 2)
      sample_config = Some l"
    using sample_builds by blast
  from lws_hash_label [OF this] l show ?thesis by blast
qed

text \<open>
  The command of a leader starts Ray, runs the user's command with the user's arguments after it,
  and always names a distributed executor backend, the user's or \<open>ray\<close>.
\<close>

theorem leader_command_shape:
  "leaderCommand c =
     ''ray start --head --port=6379 && '' @
     (if strings_join (con_Command c) '' '' = '''' then ''vllm serve'' else strings_join (con_Command c) '' '') @
     '' '' @ strings_join (con_Args c) '' '' @ '' '' @
     (if strings_contains (strings_join (con_Args c) '' '') ''distributed-executor-backend'' then ''''
      else ''--distributed-executor-backend ray'') \<and>
   strings_contains (leaderCommand c) ''distributed-executor-backend''"
proof -
  have "strings_contains '' --distributed-executor-backend ray'' ''distributed-executor-backend''" by simp
  then have rest: "sublist ''distributed-executor-backend''
      (strings_join (con_Args c) '' '' @ '' '' @
       (if strings_contains (strings_join (con_Args c) '' '') ''distributed-executor-backend'' then ''''
        else ''--distributed-executor-backend ray''))"
    by (auto simp: strings_contains_iff sublist_append_left sublist_append_right)
  have "strings_contains (leaderCommand c) ''distributed-executor-backend''"
    unfolding leaderCommand_alt strings_contains_iff [of "u @ v" for u v]
    by (rule sublist_append_right, rule sublist_append_right, rule sublist_append_right, rule rest)
  then show ?thesis unfolding leaderCommand_alt by (intro conjI refl)
qed

text \<open>
  C38: In a multi-node LeaderWorkerSet the leader opens the port the workers connect to, is probed, and
  runs the leader command through a shell; the other containers are those of the template.
\<close>

theorem leader_and_worker_meet:
  assumes "BuildLWS X svc role cfg = Some l" and "IsMultiNode role"
  shows "\<exists>c cs t. pod_Containers (buildPodSpec X role (NeedsGangSchedulingCfg cfg)) = c # cs \<and>
    lwss_LeaderTemplate (lws_Spec l) = Some t \<and>
    pod_Containers (tmpl_Spec t) = wrapLeaderContainer c # cs \<and>
    pod_Containers (tmpl_Spec (lwss_WorkerTemplate (lws_Spec l))) = wrapWorkerContainer c # cs \<and>
    con_Command (wrapLeaderContainer c) = [''/bin/sh'', ''-c''] \<and> con_Args (wrapLeaderContainer c) = [leaderCommand c] \<and>
    con_Args (wrapWorkerContainer c) = [''ray start --address=$LWS_LEADER_ADDRESS:6379 --block''] \<and>
    6379 \<in> set (map port_ContainerPort (con_Ports (wrapLeaderContainer c))) \<and>
    con_ReadinessProbe (wrapLeaderContainer c) \<noteq> None"
proof -
  obtain c cs where cs: "pod_Containers (buildPodSpec X role (NeedsGangSchedulingCfg cfg)) = c # cs"
    using BuildLWS_panics_iff [of X svc role cfg] assms
    by (cases "pod_Containers (buildPodSpec X role (NeedsGangSchedulingCfg cfg))") auto
  with assms have "l = finishLWS X svc role cfg
      (Some (buildPodSpec X role (NeedsGangSchedulingCfg cfg)\<lparr>pod_Containers := wrapLeaderContainer c # cs\<rparr>))
      (buildPodSpec X role (NeedsGangSchedulingCfg cfg)\<lparr>pod_Containers := wrapWorkerContainer c # cs\<rparr>)"
    by (auto simp: BuildLWS_def Let_def wrapFirstContainer_def)
  moreover have "6379 \<in> set (map port_ContainerPort (con_Ports (wrapLeaderContainer c)))"
    by (simp add: wrapLeaderContainer_def addRayHeadPort_def Let_def RayHeadPort_def split: option.split)
  ultimately show ?thesis
    using cs by (simp add: finishLWS_def lws_with_labels_def Let_def split: option.split)
qed

theorem leader_and_worker_meet_witness:
  "\<exists>l c cs t. BuildLWS sample_externals (sample_service ''a'' []) (sample_role ''w'' ComponentTypeWorker 1 2) sample_config = Some l \<and>
    lwss_LeaderTemplate (lws_Spec l) = Some t \<and> pod_Containers (tmpl_Spec t) = wrapLeaderContainer c # cs"
proof -
  obtain l where l: "BuildLWS sample_externals (sample_service ''a'' []) (sample_role ''w'' ComponentTypeWorker 1 2)
      sample_config = Some l"
    using sample_builds by blast
  moreover have "IsMultiNode (sample_role ''w'' ComponentTypeWorker 1 2)" by (simp add: IsMultiNode_def)
  ultimately show ?thesis using leader_and_worker_meet [OF l] by blast
qed

end
