(* ===== verification/Scheduling.thy ===== *)
theory Scheduling
  imports Workload
begin

section \<open>pkg/scheduling/podgroup.go: gang scheduling\<close>

text \<open>
  When roles must be scheduled together, \<open>BuildPodGroup\<close> describes them to Volcano: one task per
  replica of each gang-scheduled role, the number of pods of all of them, and the resources they
  need. The three are accumulated over the roles as the Go loop does; \<open>int32\<close> and \<open>int64\<close> arithmetic
  wraps around. A container's \<open>Resources.Limits\<close> is a Go map: here the list of its entries, in the
  order the runtime happens to walk through them.
  The lemmas characterise the predicates, the task map and \<open>MinMember\<close>; \<open>MinResources\<close> has a theory of its own,
  \<open>Resources\<close>.
\<close>

subsection \<open>Which roles are gang scheduled\<close>

fun scanPD :: "role list \<Rightarrow> bool \<Rightarrow> bool \<Rightarrow> bool \<times> bool" where
  "scanPD [] hasPrefill hasDecode = (hasPrefill, hasDecode)"
| "scanPD (role # roles) hasPrefill hasDecode =
     (if role_ComponentType role = ComponentTypePrefiller then scanPD roles True hasDecode
      else if role_ComponentType role = ComponentTypeDecoder then scanPD roles hasPrefill True
      else scanPD roles hasPrefill hasDecode)"

definition IsPDDisaggregated :: "inference_service \<Rightarrow> bool" where
  "IsPDDisaggregated svc =
     (case scanPD (isvc_Roles svc) False False of (hasPrefill, hasDecode) \<Rightarrow> hasPrefill \<and> hasDecode)"

fun anyMultiNode :: "role list \<Rightarrow> bool" where
  "anyMultiNode [] = False"
| "anyMultiNode (role # roles) =
     (if role_ComponentType role = ComponentTypeRouter then anyMultiNode roles
      else if (case role_Multinode role of None \<Rightarrow> False | Some m \<Rightarrow> sint (NodeCount m) \<ge> 2) then True
      else anyMultiNode roles)"

definition NeedsGangScheduling :: "inference_service \<Rightarrow> bool" where
  "NeedsGangScheduling svc = (if IsPDDisaggregated svc then True else anyMultiNode (isvc_Roles svc))"

definition NeedsGangSchedulingForRole :: "inference_service \<Rightarrow> role \<Rightarrow> bool" where
  "NeedsGangSchedulingForRole svc role =
     (if IsPDDisaggregated svc then
        role_ComponentType role = ComponentTypePrefiller \<or> role_ComponentType role = ComponentTypeDecoder
      else (case role_Multinode role of None \<Rightarrow> False | Some m \<Rightarrow> sint (NodeCount m) \<ge> 2))"

subsection \<open>Names and counts\<close>

definition GeneratePodGroupName :: "string \<Rightarrow> string" where
  "GeneratePodGroupName svc = svc"

definition GenerateTaskName :: "string \<Rightarrow> int32 \<Rightarrow> string" where
  "GenerateTaskName role i = role @ ''-'' @ fmt_d (sint i)"

definition GetNodeCount :: "role \<Rightarrow> int32" where
  "GetNodeCount role =
     (case role_Multinode role of
        Some m \<Rightarrow> if sint (NodeCount m) \<ge> 1 then NodeCount m else 1
      | None \<Rightarrow> 1)"

definition GetReplicaCount :: "role \<Rightarrow> int32" where
  "GetReplicaCount role = (case role_Replicas role of Some n \<Rightarrow> n | None \<Rightarrow> 1)"

subsection \<open>Resources\<close>

definition addLimit ::
  "externals \<Rightarrow> int32 \<Rightarrow> string \<times> quantity \<Rightarrow> (string \<rightharpoonup> quantity) \<Rightarrow> (string \<rightharpoonup> quantity)" where
  "addLimit X totalPods entry resources =
     (case entry of (resourceName, q) \<Rightarrow>
        let totalQuantity =
              ext_QuantitySet X q (ext_QuantityValue X q * (word_of_int (sint totalPods) :: int64))
        in case resources resourceName of
             Some existing \<Rightarrow> resources(resourceName \<mapsto> ext_QuantityAdd X existing totalQuantity)
           | None \<Rightarrow> resources(resourceName \<mapsto> totalQuantity))"

definition addContainer ::
  "externals \<Rightarrow> int32 \<Rightarrow> container \<Rightarrow> (string \<rightharpoonup> quantity) \<Rightarrow> (string \<rightharpoonup> quantity)" where
  "addContainer X totalPods c resources =
     (case con_Limits c of
        None \<Rightarrow> resources
      | Some limits \<Rightarrow> fold (addLimit X totalPods) limits resources)"

definition addRoleResources ::
  "externals \<Rightarrow> (string \<rightharpoonup> quantity) \<Rightarrow> role \<Rightarrow> int32 \<Rightarrow> (string \<rightharpoonup> quantity)" where
  "addRoleResources X resources role totalPods =
     (case raw_bytes (role_Template role) of
        None \<Rightarrow> resources
      | Some raw \<Rightarrow>
          (case ext_ParseTemplate X raw of
             None \<Rightarrow> resources
           | Some template \<Rightarrow>
               (if pod_Containers (tmpl_Spec template) = [] then resources
                else fold (addContainer X totalPods) (pod_Containers (tmpl_Spec template)) resources)))"

subsection \<open>BuildPodGroup\<close>

type_synonym gang_acc = "int32 \<times> (string \<rightharpoonup> int32) \<times> (string \<rightharpoonup> quantity)"

definition addTask ::
  "role \<Rightarrow> int32 \<Rightarrow> int32 \<Rightarrow> int32 \<times> (string \<rightharpoonup> int32) \<Rightarrow> int32 \<times> (string \<rightharpoonup> int32)" where
  "addTask role nodeCount i acc =
     (case acc of (minMember, minTaskMember) \<Rightarrow>
        (minMember + nodeCount, minTaskMember(GenerateTaskName (role_Name role) i \<mapsto> nodeCount)))"

definition addGangRole :: "externals \<Rightarrow> inference_service \<Rightarrow> role \<Rightarrow> gang_acc \<Rightarrow> gang_acc" where
  "addGangRole X svc role acc =
     (if role_ComponentType role = ComponentTypeRouter then acc
      else if \<not> NeedsGangSchedulingForRole svc role then acc
      else (case acc of (minMember, minTaskMember, minResources) \<Rightarrow>
        let replicas = GetReplicaCount role;
            nodeCount = GetNodeCount role;
            (minMember, minTaskMember) =
              fold (addTask role nodeCount) (int32_range replicas) (minMember, minTaskMember)
        in (minMember, minTaskMember, addRoleResources X minResources role (replicas * nodeCount))))"

definition BuildPodGroup :: "externals \<Rightarrow> inference_service \<Rightarrow> podgroup" where
  "BuildPodGroup X svc =
     (let (minMember, minTaskMember, minResources) =
            fold (addGangRole X svc) (isvc_Roles svc) (0, Map.empty, Map.empty);
          spec = \<lparr>pgs_MinMember = minMember, pgs_MinTaskMember = minTaskMember,
                  pgs_MinResources = minResources\<rparr>;
          labels = [LabelService \<mapsto> isvc_Name svc]
      in \<lparr>pg_Meta = new_meta (GeneratePodGroupName (isvc_Name svc)) (isvc_Namespace svc)
                      (labels(LabelSpecHash \<mapsto> spec_hash X (HashPodGroupSpec spec))),
          pg_Spec = spec\<rparr>)"

subsection \<open>The predicates\<close>

lemma scanPD_result:
  "scanPD roles p d =
     (p \<or> (\<exists>r \<in> set roles. role_ComponentType r = ComponentTypePrefiller),
      d \<or> (\<exists>r \<in> set roles. role_ComponentType r = ComponentTypeDecoder))"
  by (induction roles arbitrary: p d) auto

lemma IsPDDisaggregated_iff:
  "IsPDDisaggregated svc \<longleftrightarrow>
     (\<exists>r \<in> set (isvc_Roles svc). role_ComponentType r = ComponentTypePrefiller) \<and>
     (\<exists>r \<in> set (isvc_Roles svc). role_ComponentType r = ComponentTypeDecoder)"
  by (simp add: IsPDDisaggregated_def scanPD_result)

lemma IsMultiNode_case:
  "(case role_Multinode role of None \<Rightarrow> False | Some m \<Rightarrow> sint (NodeCount m) \<ge> 2) = IsMultiNode role"
  by (simp add: IsMultiNode_def)

lemma anyMultiNode_iff:
  "anyMultiNode roles \<longleftrightarrow>
     (\<exists>r \<in> set roles. role_ComponentType r \<noteq> ComponentTypeRouter \<and> IsMultiNode r)"
  by (induction roles) (auto simp: IsMultiNode_case)

lemma gang_for_role_alt:
  "NeedsGangSchedulingForRole svc role \<longleftrightarrow>
     (if IsPDDisaggregated svc then role_ComponentType role \<in> {ComponentTypePrefiller, ComponentTypeDecoder}
      else IsMultiNode role)"
  by (simp add: NeedsGangSchedulingForRole_def IsMultiNode_case)

text \<open>The roles \<open>BuildPodGroup\<close> does not skip.\<close>

definition gang_roles :: "inference_service \<Rightarrow> role list" where
  "gang_roles svc = filter (\<lambda>r. role_ComponentType r \<noteq> ComponentTypeRouter \<and>
     NeedsGangSchedulingForRole svc r) (isvc_Roles svc)"

lemma needs_gang_iff_gang_roles: "NeedsGangScheduling svc \<longleftrightarrow> gang_roles svc \<noteq> []"
proof (cases "IsPDDisaggregated svc")
  case True
  then obtain r where "r \<in> set (isvc_Roles svc)" "role_ComponentType r = ComponentTypePrefiller"
    by (auto simp: IsPDDisaggregated_iff)
  with True have "r \<in> set (gang_roles svc)" by (simp add: gang_roles_def gang_for_role_alt)
  with True show ?thesis by (auto simp: NeedsGangScheduling_def)
next
  case False
  then show ?thesis
    by (auto simp: NeedsGangScheduling_def anyMultiNode_iff gang_roles_def gang_for_role_alt filter_empty_conv)
qed

lemma GetNodeCount_lwsSize: "GetNodeCount role = lwsSize role"
  by (simp add: GetNodeCount_def lwsSize_def)

lemma GetNodeCount_pos: "1 \<le> sint (GetNodeCount role)"
  by (simp add: GetNodeCount_def split: option.splits)

lemma task_name_inject:
  "0 \<le> sint i \<Longrightarrow> 0 \<le> sint j \<Longrightarrow> GenerateTaskName r i = GenerateTaskName r' j \<longleftrightarrow> r = r' \<and> i = j"
  using sep_index_inject [of "sint i" "sint j" r r'] by (simp add: GenerateTaskName_def sint_eq_iff32)

subsection \<open>The task map and MinMember\<close>

text \<open>All tasks of a list of gang roles, with their sizes, in the order the code adds them.\<close>

definition role_tasks :: "role \<Rightarrow> (string \<times> int32) list" where
  "role_tasks role =
     map (\<lambda>i. (GenerateTaskName (role_Name role) i, GetNodeCount role)) (int32_range (GetReplicaCount role))"

definition all_tasks :: "role list \<Rightarrow> (string \<times> int32) list" where
  "all_tasks roles = concat (map role_tasks roles)"

lemma all_tasks_simps [simp]:
  "all_tasks [] = []" "all_tasks (r # rs) = role_tasks r @ all_tasks rs"
  by (simp_all add: all_tasks_def)


lemma fold_addTask:
  "fold (addTask role n) is (mm, mt) =
     (mm + of_nat (length is) * n,
      mt ++ map_of (rev (map (\<lambda>i. (GenerateTaskName (role_Name role) i, n)) is)))"
  by (induction "is" arbitrary: mm mt) (simp_all add: addTask_def algebra_simps)

lemma sum_list_role_tasks:
  "sum_list (map snd (role_tasks role)) =
     of_nat (length (int32_range (GetReplicaCount role))) * GetNodeCount role"
  by (simp add: role_tasks_def comp_def map_replicate_const sum_list_replicate)

lemma addGangRole_task_parts:
  assumes "role_ComponentType role \<noteq> ComponentTypeRouter" and "NeedsGangSchedulingForRole svc role"
  shows "fst (addGangRole X svc role acc) = fst acc + sum_list (map snd (role_tasks role))"
    and "fst (snd (addGangRole X svc role acc)) = fst (snd acc) ++ map_of (rev (role_tasks role))"
proof -
  obtain mm mt mr where acc: "acc = (mm, mt, mr)" by (cases acc)
  have "addGangRole X svc role acc =
      (mm + sum_list (map snd (role_tasks role)), mt ++ map_of (rev (role_tasks role)),
       addRoleResources X mr role (GetReplicaCount role * GetNodeCount role))"
    unfolding addGangRole_def acc sum_list_role_tasks using assms
    by (simp add: fold_addTask role_tasks_def Let_def)
  then show "fst (addGangRole X svc role acc) = fst acc + sum_list (map snd (role_tasks role))"
    and "fst (snd (addGangRole X svc role acc)) = fst (snd acc) ++ map_of (rev (role_tasks role))"
    by (simp_all add: acc)
qed

lemma addGangRole_skip:
  "role_ComponentType role = ComponentTypeRouter \<or> \<not> NeedsGangSchedulingForRole svc role \<Longrightarrow>
    addGangRole X svc role acc = acc"
  by (auto simp: addGangRole_def)

lemma fold_addGangRole:
  "fold (addGangRole X svc) roles acc =
     fold (addGangRole X svc) (filter (\<lambda>r. role_ComponentType r \<noteq> ComponentTypeRouter \<and>
       NeedsGangSchedulingForRole svc r) roles) acc"
  by (induction roles arbitrary: acc) (auto simp: addGangRole_skip)

lemma fold_gang_roles_parts:
  assumes "\<forall>r \<in> set roles. role_ComponentType r \<noteq> ComponentTypeRouter \<and> NeedsGangSchedulingForRole svc r"
  shows "fst (fold (addGangRole X svc) roles acc) = fst acc + sum_list (map snd (all_tasks roles))"
    and "fst (snd (fold (addGangRole X svc) roles acc)) = fst (snd acc) ++ map_of (rev (all_tasks roles))"
  using assms
  by (induction roles arbitrary: acc) (simp_all add: addGangRole_task_parts add.assoc)

lemma gang_roles_gang: "\<forall>r \<in> set (gang_roles svc). role_ComponentType r \<noteq> ComponentTypeRouter \<and>
    NeedsGangSchedulingForRole svc r"
  by (simp add: gang_roles_def)

lemma BuildPodGroup_spec:
  "pgs_MinMember (pg_Spec (BuildPodGroup X svc)) = sum_list (map snd (all_tasks (gang_roles svc)))"
  "pgs_MinTaskMember (pg_Spec (BuildPodGroup X svc)) = map_of (rev (all_tasks (gang_roles svc)))"
  "pgs_MinResources (pg_Spec (BuildPodGroup X svc)) =
     snd (snd (fold (addGangRole X svc) (gang_roles svc) (0, Map.empty, Map.empty)))"
  using fold_gang_roles_parts [OF gang_roles_gang, of X svc "(0, Map.empty, Map.empty)"]
  by (auto simp: BuildPodGroup_def gang_roles_def Let_def fold_addGangRole [of X svc "isvc_Roles svc"]
      split: prod.splits)

lemma BuildPodGroup_meta [simp]:
  "meta_Name (pg_Meta (BuildPodGroup X svc)) = isvc_Name svc"
  "meta_Namespace (pg_Meta (BuildPodGroup X svc)) = isvc_Namespace svc"
  "meta_Labels (pg_Meta (BuildPodGroup X svc)) =
     [LabelService \<mapsto> isvc_Name svc,
      LabelSpecHash \<mapsto> spec_hash X (HashPodGroupSpec (pg_Spec (BuildPodGroup X svc)))]"
  by (simp_all add: BuildPodGroup_def GeneratePodGroupName_def Let_def split: prod.splits)

text \<open>With different role names the tasks are different, so every task keeps its own size.\<close>

lemma distinct_role_tasks: "distinct (map fst (role_tasks role))"
  by (auto simp: role_tasks_def comp_def distinct_map inj_on_def in_int32_range task_name_inject)

lemma role_tasks_disjoint:
  "role_Name r \<noteq> role_Name r' \<Longrightarrow> fst ` set (role_tasks r) \<inter> fst ` set (role_tasks r') = {}"
  by (auto simp: role_tasks_def in_int32_range task_name_inject)

lemma distinct_all_tasks: "distinct (map role_Name roles) \<Longrightarrow> distinct (map fst (all_tasks roles))"
proof (induction roles)
  case (Cons r rs)
  have "fst ` set (role_tasks r) \<inter> fst ` set (role_tasks r') = {}" if "r' \<in> set rs" for r'
    using Cons.prems that by (intro role_tasks_disjoint) auto
  then have "fst ` set (role_tasks r) \<inter> fst ` set (all_tasks rs) = {}"
    by (simp add: all_tasks_def image_UN) blast
  with Cons show ?case by (simp add: distinct_role_tasks)
qed simp

lemma map_of_rev_distinct: "distinct (map fst ps) \<Longrightarrow> map_of (rev ps) = map_of ps"
proof (induction ps)
  case (Cons p ps)
  then have "map_of ps (fst p) = None" by (simp add: map_of_eq_None_iff)
  with Cons show ?case
    by (cases p) (auto simp: map_add_def fun_eq_iff split: option.splits)
qed simp

lemma in_all_tasks:
  "p \<in> set (all_tasks roles) \<longleftrightarrow>
     (\<exists>r \<in> set roles. \<exists>i. 0 \<le> sint i \<and> sint i < sint (GetReplicaCount r) \<and>
        p = (GenerateTaskName (role_Name r) i, GetNodeCount r))"
proof -
  have "p \<in> set (role_tasks r) \<longleftrightarrow> (\<exists>i. 0 \<le> sint i \<and> sint i < sint (GetReplicaCount r) \<and>
      p = (GenerateTaskName (role_Name r) i, GetNodeCount r))" for r
    unfolding role_tasks_def set_map image_iff Bex_def in_int32_range by blast
  then show ?thesis by (simp add: all_tasks_def)
qed

text \<open>The number of pods as a mathematical integer.\<close>

definition gang_pods :: "role list \<Rightarrow> int" where
  "gang_pods roles = (\<Sum>r \<leftarrow> roles. max 0 (sint (GetReplicaCount r)) * sint (GetNodeCount r))"

lemma sum_all_tasks: "sum_list (map snd (all_tasks roles)) = word_of_int (gang_pods roles)"
proof (induction roles)
  case (Cons r rs)
  have "(of_nat (nat k) :: int32) = word_of_int (max 0 k)" for k
    by (cases "0 \<le> k") (simp_all add: of_nat_nat)
  with Cons show ?case
    by (simp add: gang_pods_def sum_list_role_tasks)
qed (simp add: gang_pods_def)

lemma gang_pods_nonneg: "0 \<le> gang_pods rs"
proof -
  have "0 \<le> max 0 (sint (GetReplicaCount r)) * sint (GetNodeCount r)" for r
    using GetNodeCount_pos [of r] by (intro mult_nonneg_nonneg) simp_all
  then show ?thesis unfolding gang_pods_def by (intro sum_list_nonneg) auto
qed

lemma MinMember_value:
  "gang_pods (gang_roles svc) < 2 ^ 31 \<Longrightarrow>
    sint (pgs_MinMember (pg_Spec (BuildPodGroup X svc))) = gang_pods (gang_roles svc)"
  using gang_pods_nonneg [of "gang_roles svc"] by (simp add: BuildPodGroup_spec sum_all_tasks sint_word_of_int32)

subsection \<open>Properties\<close>

text \<open>
  A PodGroup is made exactly when some role other than a router is to be gang scheduled, by the
  same rule that marks the pods of the role.
\<close>

theorem gang_scheduling_agrees:
  "NeedsGangScheduling svc \<longleftrightarrow>
     (\<exists>role. List.member (isvc_Roles svc) role \<and> role_ComponentType role \<noteq> ComponentTypeRouter \<and>
        NeedsGangSchedulingForRole svc role)"
  unfolding needs_gang_iff_gang_roles gang_roles_def filter_empty_conv
  by (auto simp: List.member_iff)

text \<open>
  The tasks of the PodGroup are exactly the replicas of the gang-scheduled roles, each with the
  number of pods of one replica, when these roles have different names.
\<close>

theorem podgroup_tasks:
  assumes "distinct (map role_Name (gang_roles svc))"
  shows "pgs_MinTaskMember (pg_Spec (BuildPodGroup X svc)) t = Some n \<longleftrightarrow>
    (\<exists>role \<in> set (gang_roles svc). \<exists>i. 0 \<le> sint i \<and> sint i < sint (GetReplicaCount role) \<and>
       t = GenerateTaskName (role_Name role) i \<and> n = GetNodeCount role)"
proof -
  from assms have d: "distinct (map fst (all_tasks (gang_roles svc)))" by (rule distinct_all_tasks)
  have "pgs_MinTaskMember (pg_Spec (BuildPodGroup X svc)) t = Some n \<longleftrightarrow> (t, n) \<in> set (all_tasks (gang_roles svc))"
    using map_of_eq_Some_iff [OF d] by (simp add: BuildPodGroup_spec map_of_rev_distinct [OF d])
  then show ?thesis by (auto simp: in_all_tasks)
qed

lemma sample_gang_roles [simp]:
  "gang_roles (sample_service n [sample_role r ComponentTypeWorker k 2]) = [sample_role r ComponentTypeWorker k 2]"
  by (simp add: gang_roles_def gang_for_role_alt IsPDDisaggregated_iff IsMultiNode_def)

theorem podgroup_tasks_witness:
  "pgs_MinTaskMember (pg_Spec (BuildPodGroup sample_externals
     (sample_service ''a'' [sample_role ''w'' ComponentTypeWorker 3 2]))) ''w-2'' = Some 2"
proof -
  have "distinct (map role_Name (gang_roles (sample_service ''a'' [sample_role ''w'' ComponentTypeWorker 3 2])))"
    by simp
  note tasks = podgroup_tasks [OF this, of sample_externals "''w-2''" 2]
  have "GenerateTaskName ''w'' 2 = ''w-2''"
    by (simp add: GenerateTaskName_def fmt_d_def dec.simps)
  then show ?thesis
    unfolding tasks by (intro bexI [of _ "sample_role ''w'' ComponentTypeWorker 3 2"] exI [of _ 2])
      (simp_all add: GetReplicaCount_def GetNodeCount_def)
qed

text \<open>
  C19: \<open>MinMember\<close> is the number of pods of all gang-scheduled replicas, provided it fits into 32 bits;
  negative replica counts count as none.
\<close>

theorem min_member_counts_pods:
  assumes "gang_pods (gang_roles svc) < 2 ^ 31"
  shows "sint (pgs_MinMember (pg_Spec (BuildPodGroup X svc))) = gang_pods (gang_roles svc)"
  by (rule MinMember_value [OF assms])

theorem min_member_counts_pods_witness:
  "sint (pgs_MinMember (pg_Spec (BuildPodGroup sample_externals
     (sample_service ''a'' [sample_role ''w'' ComponentTypeWorker 3 2])))) = 6"
proof -
  have "gang_pods (gang_roles (sample_service ''a'' [sample_role ''w'' ComponentTypeWorker 3 2])) = 6"
    by (simp add: gang_pods_def GetReplicaCount_def GetNodeCount_def)
  then show ?thesis
    using min_member_counts_pods [of "sample_service ''a'' [sample_role ''w'' ComponentTypeWorker 3 2]" sample_externals]
    by simp
qed

lemma tasks_sum:
  assumes "distinct (map fst ps)"
  shows "(\<Sum>t \<in> dom (map_of ps). f t) = (\<Sum>p \<leftarrow> ps. f (fst p))"
  using sum.distinct_set_conv_list [OF assms, of f] by (simp add: dom_map_of_conv_image_fst comp_def)

lemma sum_sint_role_tasks:
  "(\<Sum>p \<leftarrow> role_tasks r. sint (snd p)) = max 0 (sint (GetReplicaCount r)) * sint (GetNodeCount r)"
  by (simp add: role_tasks_def comp_def map_replicate_const sum_list_replicate)

lemma sum_sint_all_tasks: "(\<Sum>p \<leftarrow> all_tasks rs. sint (snd p)) = gang_pods rs"
  by (induction rs) (simp_all add: gang_pods_def sum_sint_role_tasks)

text \<open>
  C20: The gang is all or nothing. Let \<open>placed\<close> count the pods of each task that can be placed, at most as
  many as the task has. As soon as a single replica lacks a pod, fewer pods than \<open>MinMember\<close> are placed: the
  PodGroup never admits some replicas without all the others.
\<close>

theorem partial_gang_misses_min_member:
  assumes roles: "distinct (map role_Name (gang_roles svc))" and fits: "gang_pods (gang_roles svc) < 2 ^ 31"
    and most: "\<forall>t n. pgs_MinTaskMember (pg_Spec (BuildPodGroup X svc)) t = Some n \<longrightarrow> placed t \<le> sint n"
    and lacks: "pgs_MinTaskMember (pg_Spec (BuildPodGroup X svc)) t = Some n" "placed t < sint n"
  shows "(\<Sum>t \<in> dom (pgs_MinTaskMember (pg_Spec (BuildPodGroup X svc))). placed t) <
    sint (pgs_MinMember (pg_Spec (BuildPodGroup X svc)))"
proof -
  let ?ps = "all_tasks (gang_roles svc)" and ?m = "pgs_MinTaskMember (pg_Spec (BuildPodGroup X svc))"
  note d = distinct_all_tasks [OF roles]
  have m: "?m = map_of ?ps" by (simp add: BuildPodGroup_spec map_of_rev_distinct [OF d])
  have fin: "finite (dom ?m)" by (simp add: m finite_dom_map_of)
  have "(\<Sum>t \<in> dom ?m. placed t) < (\<Sum>t \<in> dom ?m. sint (the (?m t)))"
    using most lacks by (intro sum_strict_mono_ex1 [OF fin]) (auto intro!: bexI [of _ t])
  also have "\<dots> = (\<Sum>p \<leftarrow> ?ps. sint (snd p))"
    unfolding m tasks_sum [OF d] using map_of_is_SomeI [OF d]
    by (intro arg_cong [where f = sum_list] map_cong) force+
  also have "\<dots> = sint (pgs_MinMember (pg_Spec (BuildPodGroup X svc)))"
    by (simp add: sum_sint_all_tasks MinMember_value [OF fits])
  finally show ?thesis .
qed

theorem partial_gang_misses_min_member_witness:
  "let m = pgs_MinTaskMember (pg_Spec (BuildPodGroup sample_externals
       (sample_service ''a'' [sample_role ''w'' ComponentTypeWorker 3 2])))
   in (\<Sum>t \<in> dom m. if t = ''w-2'' then 0 else 2) <
     sint (pgs_MinMember (pg_Spec (BuildPodGroup sample_externals
       (sample_service ''a'' [sample_role ''w'' ComponentTypeWorker 3 2]))))"
proof -
  let ?svc = "sample_service ''a'' [sample_role ''w'' ComponentTypeWorker 3 2]"
  have roles: "distinct (map role_Name (gang_roles ?svc))" by simp
  have "\<forall>t n. pgs_MinTaskMember (pg_Spec (BuildPodGroup sample_externals ?svc)) t = Some n \<longrightarrow>
      (if t = ''w-2'' then 0 else 2 :: int) \<le> sint n"
    unfolding podgroup_tasks [OF roles] by (auto simp: GetNodeCount_def)
  then show ?thesis
    using partial_gang_misses_min_member [OF roles _ _ podgroup_tasks_witness]
    by (simp add: gang_pods_def GetReplicaCount_def GetNodeCount_def Let_def)
qed

end
