(* ===== verification/Strategy.thy ===== *)
theory Strategy
  imports Scheduling
begin

section \<open>pkg/router/strategy.go: the endpoint picker configuration\<close>

text \<open>
  \<open>GenerateEPPConfig\<close> chooses one of five YAML texts, or the user's own. Each text is written here line
  by line, as the raw string literal of the source has it; \<open>unlines\<close> ends each line with a newline.
  The lemmas read a text back: which plugins it declares, and which ones its scheduling profiles
  refer to.
\<close>

definition generatePrefixCacheConfig :: string where
  "generatePrefixCacheConfig = unlines [
     ''apiVersion: inference.networking.x-k8s.io/v1alpha1'',
     ''kind: EndpointPickerConfig'',
     ''plugins:'',
     ''- type: prefix-cache-scorer'',
     ''  parameters:'',
     ''    blockSize: 5'',
     ''    maxPrefixBlocksToMatch: 256'',
     ''    lruCapacityPerServer: 31250'',
     ''- type: max-score-picker'',
     ''schedulingProfiles:'',
     ''- name: default'',
     ''  plugins:'',
     ''  - pluginRef: max-score-picker'',
     ''  - pluginRef: prefix-cache-scorer'',
     ''    weight: 100'']"

definition generateKVCacheUtilConfig :: string where
  "generateKVCacheUtilConfig = unlines [
     ''apiVersion: inference.networking.x-k8s.io/v1alpha1'',
     ''kind: EndpointPickerConfig'',
     ''plugins:'',
     ''- type: kv-cache-utilization-scorer'',
     ''- type: max-score-picker'',
     ''schedulingProfiles:'',
     ''- name: default'',
     ''  plugins:'',
     ''  - pluginRef: max-score-picker'',
     ''  - pluginRef: kv-cache-utilization-scorer'',
     ''    weight: 100'']"

definition generateQueueSizeConfig :: string where
  "generateQueueSizeConfig = unlines [
     ''apiVersion: inference.networking.x-k8s.io/v1alpha1'',
     ''kind: EndpointPickerConfig'',
     ''plugins:'',
     ''- type: queue-scorer'',
     ''- type: max-score-picker'',
     ''schedulingProfiles:'',
     ''- name: default'',
     ''  plugins:'',
     ''  - pluginRef: max-score-picker'',
     ''  - pluginRef: queue-scorer'',
     ''    weight: 100'']"

definition generateLoRAffinityConfig :: string where
  "generateLoRAffinityConfig = unlines [
     ''apiVersion: inference.networking.x-k8s.io/v1alpha1'',
     ''kind: EndpointPickerConfig'',
     ''plugins:'',
     ''- type: lora-affinity-scorer'',
     ''- type: max-score-picker'',
     ''schedulingProfiles:'',
     ''- name: default'',
     ''  plugins:'',
     ''  - pluginRef: max-score-picker'',
     ''  - pluginRef: lora-affinity-scorer'',
     ''    weight: 100'']"

text \<open>The quotes around \<open>%s\<close> in the format string are the character with code 34.\<close>

definition quoted :: "string \<Rightarrow> string" where
  "quoted s = [CHR 0x22] @ s @ [CHR 0x22]"

definition pdDisaggregationLines :: "string \<Rightarrow> string \<Rightarrow> string list" where
  "pdDisaggregationLines prefillerLabel decoderLabel = [
     ''apiVersion: inference.networking.x-k8s.io/v1alpha1'',
     ''kind: EndpointPickerConfig'',
     ''plugins:'',
     ''- type: pd-profile-handler'',
     ''  parameters:'',
     ''    threshold: 0'',
     ''    hashBlockSize: 5'',
     ''    primaryPort: 8000'',
     ''- type: prefill-header-handler'',
     ''- type: by-label'',
     ''  name: prefill-pods'',
     ''  parameters:'',
     ''    label: '' @ quoted ''fusioninfer.io/component-type'',
     ''    validValues: ['' @ quoted prefillerLabel @ '']'',
     ''- type: by-label'',
     ''  name: decode-pods'',
     ''  parameters:'',
     ''    label: '' @ quoted ''fusioninfer.io/component-type'',
     ''    validValues: ['' @ quoted decoderLabel @ '']'',
     ''- type: prefix-cache-scorer'',
     ''  parameters:'',
     ''    hashBlockSize: 5'',
     ''    maxPrefixBlocksToMatch: 256'',
     ''    lruCapacityPerServer: 31250'',
     ''- type: max-score-picker'',
     ''schedulingProfiles:'',
     ''- name: prefill'',
     ''  plugins:'',
     ''  - pluginRef: prefill-pods'',
     ''  - pluginRef: max-score-picker'',
     ''  - pluginRef: prefix-cache-scorer'',
     ''    weight: 50'',
     ''- name: decode'',
     ''  plugins:'',
     ''  - pluginRef: decode-pods'',
     ''  - pluginRef: max-score-picker'',
     ''  - pluginRef: prefix-cache-scorer'',
     ''    weight: 50'']"

definition generatePDDisaggregationConfig :: "inference_service \<Rightarrow> string" where
  "generatePDDisaggregationConfig svc =
     (if \<not> IsPDDisaggregated svc then generatePrefixCacheConfig
      else unlines (pdDisaggregationLines ComponentTypePrefiller ComponentTypeDecoder))"

definition GenerateEPPConfig :: "inference_service \<Rightarrow> role \<Rightarrow> string" where
  "GenerateEPPConfig svc role =
     (if role_EndpointPickerConfig role \<noteq> '''' then role_EndpointPickerConfig role
      else if role_Strategy role = StrategyPrefixCache then generatePrefixCacheConfig
      else if role_Strategy role = StrategyKVCacheUtil then generateKVCacheUtilConfig
      else if role_Strategy role = StrategyQueueSize then generateQueueSizeConfig
      else if role_Strategy role = StrategyLoRAffinity then generateLoRAffinityConfig
      else if role_Strategy role = StrategyPDDisaggregation then generatePDDisaggregationConfig svc
      else generatePrefixCacheConfig)"

subsection \<open>Reading a configuration back\<close>

text \<open>A text cut into lines at its newlines.\<close>

fun split_lines :: "string \<Rightarrow> string \<Rightarrow> string list" where
  "split_lines [] cur = (if cur = [] then [] else [rev cur])"
| "split_lines (c # cs) cur = (if c = CHR 0x0A then rev cur # split_lines cs [] else split_lines cs (c # cur))"

lemma split_lines_line:
  "CHR 0x0A \<notin> set l \<Longrightarrow> split_lines (l @ CHR 0x0A # rest) cur = (rev cur @ l) # split_lines rest []"
  by (induction l arbitrary: cur) auto

lemma split_unlines: "\<forall>l \<in> set ls. CHR 0x0A \<notin> set l \<Longrightarrow> split_lines (unlines ls) [] = ls"
  by (induction ls) (simp_all add: unlines_def split_lines_line)

definition strip_prefix :: "string \<Rightarrow> string \<Rightarrow> string option" where
  "strip_prefix p s = (if take (length p) s = p then Some (drop (length p) s) else None)"

text \<open>
  A plugin is declared by \<open>- type:\<close> in the \<open>plugins\<close> section; its name is given by \<open>name:\<close> on a line
  of its own, and is its type otherwise. Profiles name plugins with \<open>pluginRef:\<close>.
\<close>

definition declared_plugins :: "string list \<Rightarrow> string list" where
  "declared_plugins ls =
     (let ps = takeWhile (\<lambda>l. l \<noteq> ''schedulingProfiles:'') ls
      in List.map_filter (strip_prefix ''- type: '') ps @ List.map_filter (strip_prefix ''  name: '') ps)"

definition referenced_plugins :: "string list \<Rightarrow> string list" where
  "referenced_plugins ls = List.map_filter (strip_prefix ''  - pluginRef: '') ls"

definition refs_declared :: "string \<Rightarrow> bool" where
  "refs_declared config =
     (let ls = split_lines config []
      in referenced_plugins ls \<noteq> [] \<and>
         list_all (\<lambda>r. List.member (declared_plugins ls) r) (referenced_plugins ls))"

lemma refs_declared_lines:
  assumes "\<forall>l \<in> set ls. CHR 0x0A \<notin> set l"
  shows "refs_declared (unlines ls) \<longleftrightarrow>
    referenced_plugins ls \<noteq> [] \<and>
    list_all (\<lambda>r. List.member (declared_plugins ls) r) (referenced_plugins ls)"
  using split_unlines [OF assms] by (simp add: refs_declared_def Let_def)

lemmas read_config =
  refs_declared_lines referenced_plugins_def declared_plugins_def strip_prefix_def
  List.map_filter_simps

lemma prefix_cache_refs: "refs_declared generatePrefixCacheConfig"
  unfolding generatePrefixCacheConfig_def by (subst refs_declared_lines) (simp_all add: read_config)

lemma kv_cache_refs: "refs_declared generateKVCacheUtilConfig"
  unfolding generateKVCacheUtilConfig_def by (subst refs_declared_lines) (simp_all add: read_config)

lemma queue_size_refs: "refs_declared generateQueueSizeConfig"
  unfolding generateQueueSizeConfig_def by (subst refs_declared_lines) (simp_all add: read_config)

lemma lora_refs: "refs_declared generateLoRAffinityConfig"
  unfolding generateLoRAffinityConfig_def by (subst refs_declared_lines) (simp_all add: read_config)

lemma pd_refs:
  "refs_declared (unlines (pdDisaggregationLines ComponentTypePrefiller ComponentTypeDecoder))"
  unfolding pdDisaggregationLines_def component_types quoted_def
  by (subst refs_declared_lines) (simp_all add: read_config)

lemmas config_refs = prefix_cache_refs kv_cache_refs queue_size_refs lora_refs pd_refs

subsection \<open>Properties\<close>

text \<open>
  A configuration given by the user is used as it is; each generated one refers only to plugins
  it declares, and to at least one.
\<close>

theorem epp_config_refers_to_declared:
  "(if role_EndpointPickerConfig role \<noteq> ''''
    then GenerateEPPConfig svc role = role_EndpointPickerConfig role
    else refs_declared (GenerateEPPConfig svc role))"
  using config_refs by (simp add: GenerateEPPConfig_def generatePDDisaggregationConfig_def)

lemma prefix_cache_plugins: "''pd-profile-handler'' \<notin> set (declared_plugins (split_lines generatePrefixCacheConfig []))"
  unfolding generatePrefixCacheConfig_def
  by (subst split_unlines) (simp_all add: declared_plugins_def Let_def strip_prefix_def List.map_filter_simps)

text \<open>
  When prefill/decode routing is asked for, its configuration is used exactly if the service has
  both a prefiller and a decoder; otherwise the prefix cache configuration is used instead.
\<close>

theorem pd_config_iff:
  assumes "role_EndpointPickerConfig role = ''''" and "role_Strategy role = StrategyPDDisaggregation"
  shows "(if IsPDDisaggregated svc
      then GenerateEPPConfig svc role = unlines (pdDisaggregationLines ComponentTypePrefiller ComponentTypeDecoder)
      else GenerateEPPConfig svc role = generatePrefixCacheConfig) \<and>
    (''pd-profile-handler'' \<in> set (declared_plugins (split_lines (GenerateEPPConfig svc role) [])) \<longleftrightarrow>
      IsPDDisaggregated svc)"
proof -
  have lines: "split_lines (unlines (pdDisaggregationLines ComponentTypePrefiller ComponentTypeDecoder)) [] =
      pdDisaggregationLines ComponentTypePrefiller ComponentTypeDecoder"
    unfolding pdDisaggregationLines_def component_types quoted_def by (rule split_unlines) simp
  have "''pd-profile-handler'' \<in> set (declared_plugins (pdDisaggregationLines ComponentTypePrefiller ComponentTypeDecoder))"
    by (simp add: pdDisaggregationLines_def component_types quoted_def declared_plugins_def Let_def
        strip_prefix_def List.map_filter_simps)
  then show ?thesis
    using assms prefix_cache_plugins lines
    by (simp add: GenerateEPPConfig_def generatePDDisaggregationConfig_def strategies)
qed

theorem pd_config_iff_witness:
  "GenerateEPPConfig (sample_service ''a''
     [sample_role ''p'' ComponentTypePrefiller 1 1, sample_role ''d'' ComponentTypeDecoder 1 1])
     ((sample_role ''r'' ComponentTypeRouter 1 1)\<lparr>role_Strategy := StrategyPDDisaggregation\<rparr>) =
   unlines (pdDisaggregationLines ComponentTypePrefiller ComponentTypeDecoder)"
  using pd_config_iff [of "(sample_role ''r'' ComponentTypeRouter 1 1)\<lparr>role_Strategy := StrategyPDDisaggregation\<rparr>"
    "sample_service ''a'' [sample_role ''p'' ComponentTypePrefiller 1 1, sample_role ''d'' ComponentTypeDecoder 1 1]"]
  by (simp add: IsPDDisaggregated_iff sample_role_def)

end
