(* ===== verification/RouterObjects.thy ===== *)
theory RouterObjects
  imports Strategy
begin

section \<open>pkg/router: the objects of the router\<close>

text \<open>
  The builders of \<open>inferencepool.go\<close>, \<open>httproute.go\<close> and \<open>epp.go\<close>: the InferencePool that selects the
  worker pods, the HTTPRoute that sends traffic to it, and the endpoint picker (EPP) with its
  ConfigMap, Deployment, Service, ServiceAccount, Role and RoleBinding. Each builder computes the
  spec hash of what it built and stores it as a label. In \<open>BuildEPPDeployment\<close> the object's labels
  are a map of their own, so there, unlike in \<open>BuildLWS\<close>, the hash does not reach the pods.
  The lemmas give the metadata of every object; how the objects refer to each other is stated by
  the properties.
\<close>

subsection \<open>inferencepool.go\<close>

definition DefaultTargetPort :: int32 where "DefaultTargetPort = 8000"
definition DefaultEPPPort :: int32 where "DefaultEPPPort = 9002"
definition LWSWorkerIndexLabel :: string where
  "LWSWorkerIndexLabel = ''leaderworkerset.sigs.k8s.io/worker-index''"

definition GeneratePoolName :: "string \<Rightarrow> string" where
  "GeneratePoolName svc = svc @ ''-pool''"

definition GenerateEPPServiceName :: "string \<Rightarrow> string" where
  "GenerateEPPServiceName svc = svc @ ''-epp''"

definition GenerateEPPDeploymentName :: "string \<Rightarrow> string" where
  "GenerateEPPDeploymentName svc = svc @ ''-epp''"

definition GenerateEPPConfigMapName :: "string \<Rightarrow> string" where
  "GenerateEPPConfigMapName svc = svc @ ''-epp-config''"

definition GenerateHTTPRouteName :: "string \<Rightarrow> string" where
  "GenerateHTTPRouteName svc = svc @ ''-httproute''"

lemmas router_names =
  GeneratePoolName_def GenerateEPPServiceName_def GenerateEPPDeploymentName_def
  GenerateEPPConfigMapName_def GenerateHTTPRouteName_def

definition buildPoolSelector :: "inference_service \<Rightarrow> role list \<Rightarrow> label_map" where
  "buildPoolSelector svc workerRoles =
     (let matchLabels = [LabelService \<mapsto> isvc_Name svc];
          matchLabels = (case workerRoles of
              [r] \<Rightarrow> matchLabels(LabelComponentType \<mapsto> role_ComponentType r)
            | _ \<Rightarrow> matchLabels)
      in matchLabels(LWSWorkerIndexLabel \<mapsto> ''0''))"

definition BuildInferencePool :: "externals \<Rightarrow> inference_service \<Rightarrow> role list \<Rightarrow> pool" where
  "BuildInferencePool X svc workerRoles =
     (let spec = \<lparr>pools_Selector = buildPoolSelector svc workerRoles,
                  pools_TargetPorts = [DefaultTargetPort],
                  pools_EPPName = GenerateEPPServiceName (isvc_Name svc),
                  pools_EPPPort = Some DefaultEPPPort\<rparr>;
          labels = [LabelService \<mapsto> isvc_Name svc]
      in \<lparr>pool_Meta = new_meta (GeneratePoolName (isvc_Name svc)) (isvc_Namespace svc)
            (labels(LabelSpecHash \<mapsto> spec_hash X (HashPoolSpec spec))),
          pool_Spec = spec\<rparr>)"

subsection \<open>httproute.go\<close>

definition InferencePoolGroup :: string where "InferencePoolGroup = ''inference.networking.k8s.io''"
definition InferencePoolKind :: string where "InferencePoolKind = ''InferencePool''"

definition buildInferencePoolBackendRef :: "string \<Rightarrow> backend_ref" where
  "buildInferencePoolBackendRef poolName =
     \<lparr>be_Group = Some InferencePoolGroup, be_Kind = Some InferencePoolKind, be_Name = poolName,
      be_Rest = ''''\<rparr>"

definition BuildHTTPRoute :: "externals \<Rightarrow> inference_service \<Rightarrow> role \<Rightarrow> http_route" where
  "BuildHTTPRoute X svc role =
     (let spec = \<lparr>routes_Rules = [], routes_Rest = ''''\<rparr>;
          spec = (case raw_bytes (role_HTTPRoute role) of
                    None \<Rightarrow> spec
                  | Some raw \<Rightarrow> (case ext_ParseRoute X raw of None \<Rightarrow> spec | Some s \<Rightarrow> s));
          spec = spec\<lparr>routes_Rules :=
                   [\<lparr>rr_BackendRefs = [buildInferencePoolBackendRef (GeneratePoolName (isvc_Name svc))],
                     rr_Rest = ''''\<rparr>]\<rparr>;
          labels = [LabelService \<mapsto> isvc_Name svc]
      in \<lparr>route_Meta = new_meta (GenerateHTTPRouteName (isvc_Name svc)) (isvc_Namespace svc)
            (labels(LabelSpecHash \<mapsto> spec_hash X (HashRouteSpec spec))),
          route_Spec = spec\<rparr>)"

subsection \<open>epp.go\<close>

definition EPPGRPCPort :: int32 where "EPPGRPCPort = 9002"
definition EPPHealthPort :: int32 where "EPPHealthPort = 9003"
definition EPPMetricsPort :: int32 where "EPPMetricsPort = 9090"
definition EPPConfigPath :: string where "EPPConfigPath = ''/config''"
definition EPPConfigFileName :: string where "EPPConfigFileName = ''config.yaml''"
definition EnvEPPImage :: string where "EnvEPPImage = ''EPP_IMAGE''"
definition DefaultEPPImage :: string where
  "DefaultEPPImage = ''registry.k8s.io/gateway-api-inference-extension/epp:v1.2.1''"

definition GetEPPImage :: "externals \<Rightarrow> string" where
  "GetEPPImage X = (let image = ext_Getenv X EnvEPPImage in if image \<noteq> '''' then image else DefaultEPPImage)"

definition BuildEPPConfigMap :: "externals \<Rightarrow> inference_service \<Rightarrow> role \<Rightarrow> configmap" where
  "BuildEPPConfigMap X svc role =
     (let dat = [EPPConfigFileName \<mapsto> GenerateEPPConfig svc role];
          labels = [LabelService \<mapsto> isvc_Name svc]
      in \<lparr>cm_Meta = new_meta (GenerateEPPConfigMapName (isvc_Name svc)) (isvc_Namespace svc)
            (labels(LabelSpecHash \<mapsto> spec_hash X (HashConfigData dat))),
          cm_Data = dat\<rparr>)"

definition eppProbe :: "int32 \<Rightarrow> int32 \<Rightarrow> probe" where
  "eppProbe initialDelay period =
     \<lparr>probe_Handler = GRPC EPPHealthPort (Some ''inference-extension''),
      probe_InitialDelaySeconds = initialDelay, probe_PeriodSeconds = period,
      probe_TimeoutSeconds = 0, probe_SuccessThreshold = 0, probe_FailureThreshold = 0\<rparr>"

definition eppContainer :: "externals \<Rightarrow> inference_service \<Rightarrow> container" where
  "eppContainer X svc =
     \<lparr>con_Name = ''epp'', con_Image = GetEPPImage X, con_Command = [],
      con_Args = [''--pool-name='' @ GeneratePoolName (isvc_Name svc),
                  ''--pool-namespace='' @ isvc_Namespace svc,
                  ''--config-file='' @ EPPConfigPath @ ''/'' @ EPPConfigFileName],
      con_Ports =
        [\<lparr>port_Name = ''grpc'', port_ContainerPort = EPPGRPCPort, port_Protocol = ''TCP''\<rparr>,
         \<lparr>port_Name = ''grpc-health'', port_ContainerPort = EPPHealthPort, port_Protocol = ''TCP''\<rparr>,
         \<lparr>port_Name = ''metrics'', port_ContainerPort = EPPMetricsPort, port_Protocol = ''TCP''\<rparr>],
      con_Env =
        [\<lparr>env_Name = ''NAMESPACE'', env_FieldPath = Some ''metadata.namespace'', env_Rest = ''''\<rparr>,
         \<lparr>env_Name = ''POD_NAME'', env_FieldPath = Some ''metadata.name'', env_Rest = ''''\<rparr>],
      con_Limits = None,
      con_VolumeMounts = [\<lparr>mount_Name = ''plugins-config-volume'', mount_MountPath = EPPConfigPath\<rparr>],
      con_LivenessProbe = Some (eppProbe 5 10),
      con_ReadinessProbe = Some (eppProbe 0 2),
      con_Rest = ''''\<rparr>"

definition eppPodSpec :: "externals \<Rightarrow> inference_service \<Rightarrow> pod_spec" where
  "eppPodSpec X svc =
     zero_pod_spec
       \<lparr>pod_ServiceAccountName := GenerateEPPDeploymentName (isvc_Name svc),
        pod_Containers := [eppContainer X svc],
        pod_Volumes := [\<lparr>vol_Name = ''plugins-config-volume'',
          vol_ConfigMapName = Some (GenerateEPPConfigMapName (isvc_Name svc)), vol_Rest = ''''\<rparr>]\<rparr>"

definition BuildEPPDeployment :: "externals \<Rightarrow> inference_service \<Rightarrow> deployment" where
  "BuildEPPDeployment X svc =
     (let deploymentName = GenerateEPPDeploymentName (isvc_Name svc);
          selectorLabels = [''app'' \<mapsto> deploymentName, LabelService \<mapsto> isvc_Name svc];
          metadataLabels = [''app'' \<mapsto> deploymentName, LabelService \<mapsto> isvc_Name svc];
          spec = \<lparr>deps_Replicas = Some 1, deps_Strategy = ''Recreate'', deps_Selector = selectorLabels,
                  deps_Template = \<lparr>tmpl_Labels = selectorLabels, tmpl_Annotations = Map.empty,
                                   tmpl_Spec = eppPodSpec X svc\<rparr>\<rparr>
      in \<lparr>dep_Meta = new_meta deploymentName (isvc_Namespace svc)
            (metadataLabels(LabelSpecHash \<mapsto> spec_hash X (HashDeploymentSpec spec))),
          dep_Spec = spec\<rparr>)"

definition eppServicePort :: "string \<Rightarrow> int32 \<Rightarrow> service_port" where
  "eppServicePort name port =
     \<lparr>sp_Name = name, sp_Port = port, sp_TargetPort = port, sp_Protocol = ''TCP''\<rparr>"

definition BuildEPPService :: "externals \<Rightarrow> inference_service \<Rightarrow> service" where
  "BuildEPPService X svc =
     (let spec = \<lparr>svcs_Type = ''ClusterIP'',
                  svcs_Selector = [''app'' \<mapsto> GenerateEPPDeploymentName (isvc_Name svc)],
                  svcs_Ports = [eppServicePort ''grpc-ext-proc'' EPPGRPCPort,
                                eppServicePort ''grpc-health'' EPPHealthPort,
                                eppServicePort ''http-metrics'' EPPMetricsPort]\<rparr>;
          labels = [LabelService \<mapsto> isvc_Name svc]
      in \<lparr>svc_Meta = new_meta (GenerateEPPServiceName (isvc_Name svc)) (isvc_Namespace svc)
            (labels(LabelSpecHash \<mapsto> spec_hash X (HashServiceSpec spec))),
          svc_Spec = spec\<rparr>)"

definition BuildEPPServiceAccount :: "inference_service \<Rightarrow> service_account" where
  "BuildEPPServiceAccount svc =
     \<lparr>sa_Meta = new_meta (GenerateEPPDeploymentName (isvc_Name svc)) (isvc_Namespace svc)
        [LabelService \<mapsto> isvc_Name svc, LabelSpecHash \<mapsto> ''static'']\<rparr>"

definition eppRules :: "policy_rule list" where
  "eppRules =
     [\<lparr>rule_APIGroups = [''''], rule_Resources = [''pods''], rule_Verbs = [''get'', ''list'', ''watch'']\<rparr>,
      \<lparr>rule_APIGroups = [''inference.networking.k8s.io''], rule_Resources = [''inferencepools''],
       rule_Verbs = [''get'', ''list'', ''watch'']\<rparr>,
      \<lparr>rule_APIGroups = [''inference.networking.x-k8s.io''],
       rule_Resources = [''inferenceobjectives'', ''inferencemodelrewrites''],
       rule_Verbs = [''get'', ''list'', ''watch'']\<rparr>,
      \<lparr>rule_APIGroups = [''coordination.k8s.io''], rule_Resources = [''leases''],
       rule_Verbs = [''get'', ''list'', ''watch'', ''create'', ''update'', ''patch'', ''delete'']\<rparr>,
      \<lparr>rule_APIGroups = [''''], rule_Resources = [''events''], rule_Verbs = [''create'', ''patch'']\<rparr>]"

definition BuildEPPRole :: "externals \<Rightarrow> inference_service \<Rightarrow> rbac_role" where
  "BuildEPPRole X svc =
     (let labels = [LabelService \<mapsto> isvc_Name svc]
      in \<lparr>rb_Meta = new_meta (GenerateEPPDeploymentName (isvc_Name svc)) (isvc_Namespace svc)
            (labels(LabelSpecHash \<mapsto> spec_hash X (HashRules eppRules))),
          rb_Rules = eppRules\<rparr>)"

definition BuildEPPRoleBinding :: "externals \<Rightarrow> inference_service \<Rightarrow> role_binding" where
  "BuildEPPRoleBinding X svc =
     (let name = GenerateEPPDeploymentName (isvc_Name svc);
          roleRef = \<lparr>ref_APIGroup = ''rbac.authorization.k8s.io'', ref_Kind = ''Role'', ref_Name = name\<rparr>;
          subjects = [\<lparr>sub_Kind = ''ServiceAccount'', sub_Name = name, sub_Namespace = isvc_Namespace svc\<rparr>];
          labels = [LabelService \<mapsto> isvc_Name svc]
      in \<lparr>rbd_Meta = new_meta name (isvc_Namespace svc)
            (labels(LabelSpecHash \<mapsto> spec_hash X (HashRoleBinding roleRef subjects))),
          rbd_RoleRef = roleRef, rbd_Subjects = subjects\<rparr>)"

subsection \<open>Metadata\<close>

lemmas router_builders =
  BuildInferencePool_def BuildHTTPRoute_def BuildEPPConfigMap_def BuildEPPDeployment_def
  BuildEPPService_def BuildEPPServiceAccount_def BuildEPPRole_def BuildEPPRoleBinding_def

lemma router_object_names [simp]:
  "meta_Name (pool_Meta (BuildInferencePool X svc ws)) = GeneratePoolName (isvc_Name svc)"
  "meta_Name (route_Meta (BuildHTTPRoute X svc role)) = GenerateHTTPRouteName (isvc_Name svc)"
  "meta_Name (cm_Meta (BuildEPPConfigMap X svc role)) = GenerateEPPConfigMapName (isvc_Name svc)"
  "meta_Name (dep_Meta (BuildEPPDeployment X svc)) = GenerateEPPDeploymentName (isvc_Name svc)"
  "meta_Name (svc_Meta (BuildEPPService X svc)) = GenerateEPPServiceName (isvc_Name svc)"
  "meta_Name (sa_Meta (BuildEPPServiceAccount svc)) = GenerateEPPDeploymentName (isvc_Name svc)"
  "meta_Name (rb_Meta (BuildEPPRole X svc)) = GenerateEPPDeploymentName (isvc_Name svc)"
  "meta_Name (rbd_Meta (BuildEPPRoleBinding X svc)) = GenerateEPPDeploymentName (isvc_Name svc)"
  by (simp_all add: router_builders Let_def)

lemma router_object_namespaces [simp]:
  "meta_Namespace (pool_Meta (BuildInferencePool X svc ws)) = isvc_Namespace svc"
  "meta_Namespace (route_Meta (BuildHTTPRoute X svc role)) = isvc_Namespace svc"
  "meta_Namespace (cm_Meta (BuildEPPConfigMap X svc role)) = isvc_Namespace svc"
  "meta_Namespace (dep_Meta (BuildEPPDeployment X svc)) = isvc_Namespace svc"
  "meta_Namespace (svc_Meta (BuildEPPService X svc)) = isvc_Namespace svc"
  "meta_Namespace (sa_Meta (BuildEPPServiceAccount svc)) = isvc_Namespace svc"
  "meta_Namespace (rb_Meta (BuildEPPRole X svc)) = isvc_Namespace svc"
  "meta_Namespace (rbd_Meta (BuildEPPRoleBinding X svc)) = isvc_Namespace svc"
  by (simp_all add: router_builders Let_def)

lemma worker_index_label_distinct [simp]:
  "LWSWorkerIndexLabel \<noteq> LabelService" "LabelService \<noteq> LWSWorkerIndexLabel"
  "LWSWorkerIndexLabel \<noteq> LabelComponentType" "LabelComponentType \<noteq> LWSWorkerIndexLabel"
  "LWSWorkerIndexLabel \<noteq> LabelSpecHash" "LabelSpecHash \<noteq> LWSWorkerIndexLabel"
  "LWSWorkerIndexLabel \<noteq> LabelRoleName" "LWSWorkerIndexLabel \<noteq> LabelReplicaIndex"
  by (simp_all add: LWSWorkerIndexLabel_def label_names)

subsection \<open>Properties\<close>

definition epp_pod :: "externals \<Rightarrow> inference_service \<Rightarrow> pod_template" where
  "epp_pod X svc = deps_Template (dep_Spec (BuildEPPDeployment X svc))"

text \<open>
  The endpoint picker can be reached: its Service and its Deployment select its pods; every port of
  the Service is one the container listens on; the InferencePool names that Service and one of its
  ports; and the HTTPRoute has a single rule with a single backend, the InferencePool.
\<close>

theorem traffic_reaches_epp:
  "svcs_Selector (svc_Spec (BuildEPPService X svc)) \<subseteq>\<^sub>m tmpl_Labels (epp_pod X svc) \<and>
   deps_Selector (dep_Spec (BuildEPPDeployment X svc)) \<subseteq>\<^sub>m tmpl_Labels (epp_pod X svc) \<and>
   sp_TargetPort ` set (svcs_Ports (svc_Spec (BuildEPPService X svc))) \<subseteq>
     port_ContainerPort ` (\<Union>c \<in> set (pod_Containers (tmpl_Spec (epp_pod X svc))). set (con_Ports c)) \<and>
   pools_EPPName (pool_Spec (BuildInferencePool X svc ws)) = meta_Name (svc_Meta (BuildEPPService X svc)) \<and>
   pools_EPPPort (pool_Spec (BuildInferencePool X svc ws)) \<in>
     Some ` sp_Port ` set (svcs_Ports (svc_Spec (BuildEPPService X svc))) \<and>
   map (map be_Name \<circ> rr_BackendRefs) (routes_Rules (route_Spec (BuildHTTPRoute X svc role))) =
     [[meta_Name (pool_Meta (BuildInferencePool X svc ws))]]"
  by (simp add: router_builders Let_def epp_pod_def eppPodSpec_def eppContainer_def eppServicePort_def
      EPPGRPCPort_def EPPHealthPort_def EPPMetricsPort_def DefaultEPPPort_def map_le_def
      buildInferencePoolBackendRef_def router_names label_names)

text \<open>
  The endpoint picker has what it needs to start: the RoleBinding gives the Role that is built to
  the ServiceAccount its pods run under, in the same namespace, and the file it is told to read is in
  the ConfigMap that is mounted at that path.
\<close>

theorem epp_can_start:
  "ref_Name (rbd_RoleRef (BuildEPPRoleBinding X svc)) = meta_Name (rb_Meta (BuildEPPRole X svc)) \<and>
   map (\<lambda>b. (sub_Kind b, sub_Namespace b, sub_Name b)) (rbd_Subjects (BuildEPPRoleBinding X svc)) =
     [(''ServiceAccount'', meta_Namespace (sa_Meta (BuildEPPServiceAccount svc)),
       meta_Name (sa_Meta (BuildEPPServiceAccount svc)))] \<and>
   pod_ServiceAccountName (tmpl_Spec (epp_pod X svc)) = meta_Name (sa_Meta (BuildEPPServiceAccount svc)) \<and>
   map vol_ConfigMapName (pod_Volumes (tmpl_Spec (epp_pod X svc))) =
     [Some (meta_Name (cm_Meta (BuildEPPConfigMap X svc role)))] \<and>
   (\<exists>c m f. pod_Containers (tmpl_Spec (epp_pod X svc)) = [c] \<and> con_VolumeMounts c = [m] \<and>
      map vol_Name (pod_Volumes (tmpl_Spec (epp_pod X svc))) = [mount_Name m] \<and>
      ''--config-file='' @ mount_MountPath m @ ''/'' @ f \<in> set (con_Args c) \<and>
      cm_Data (BuildEPPConfigMap X svc role) f = Some (GenerateEPPConfig svc role))"
  by (simp add: router_builders Let_def epp_pod_def eppPodSpec_def eppContainer_def EPPConfigFileName_def)

text \<open>
  C40: The InferencePool, which is in the namespace of the LeaderWorkerSets, selects exactly the leaders of
  every worker role it was built for. The leader of a replica is made from the leader template, if there is
  one, and labelled with the index 0 by LeaderWorkerSet; it matches the selector. A pod made from either
  template that is labelled with another index does not match, and no pod matches that has not the index 0
  or belongs to another service.
\<close>

theorem pool_selects_leaders:
  assumes "BuildLWS X svc role cfg = Some l" and "role \<in> set ws"
  shows "meta_Namespace (pool_Meta (BuildInferencePool X svc ws)) = meta_Namespace (lws_Meta l) \<and>
    pools_Selector (pool_Spec (BuildInferencePool X svc ws)) \<subseteq>\<^sub>m
      (tmpl_Labels (leader_pod (lws_Spec l)))(LWSWorkerIndexLabel \<mapsto> ''0'') \<and>
    (\<forall>t \<in> set (pod_templates (lws_Spec l)).
      pools_Selector (pool_Spec (BuildInferencePool X svc ws)) \<subseteq>\<^sub>m (tmpl_Labels t)(LWSWorkerIndexLabel \<mapsto> i) \<longleftrightarrow>
        i = ''0'') \<and>
    (pools_Selector (pool_Spec (BuildInferencePool X svc ws)) \<subseteq>\<^sub>m labels \<longrightarrow>
      labels LWSWorkerIndexLabel = Some ''0'' \<and> labels LabelService = Some (isvc_Name svc))"
proof -
  have sel: "pools_Selector (pool_Spec (BuildInferencePool X svc ws)) = buildPoolSelector svc ws"
    by (simp add: BuildInferencePool_def Let_def)
  have index: "buildPoolSelector svc ws LWSWorkerIndexLabel = Some ''0''"
    and service: "buildPoolSelector svc ws LabelService = Some (isvc_Name svc)"
    by (simp_all add: buildPoolSelector_def Let_def split: list.split)
  have all: "buildPoolSelector svc ws \<subseteq>\<^sub>m (tmpl_Labels t)(LWSWorkerIndexLabel \<mapsto> ''0'')"
    if "t \<in> set (pod_templates (lws_Spec l))" for t
    using BuildLWS_meta [OF assms(1)] BuildLWS_templates(1) [OF assms(1) that] assms(2)
    by (auto simp: buildPoolSelector_def Let_def map_le_def split: list.splits if_splits)
  have matched: "m k = Some x" if "buildPoolSelector svc ws \<subseteq>\<^sub>m m" "buildPoolSelector svc ws k = Some x" for m k x
    using that by (metis map_le_def domI)
  have zero: "i = ''0''" if "buildPoolSelector svc ws \<subseteq>\<^sub>m m(LWSWorkerIndexLabel \<mapsto> i)" for m :: label_map
    using matched [OF that index] by simp
  show ?thesis
    unfolding sel
  proof (intro conjI ballI iffI impI)
    show "buildPoolSelector svc ws \<subseteq>\<^sub>m (tmpl_Labels (leader_pod (lws_Spec l)))(LWSWorkerIndexLabel \<mapsto> ''0'')"
      by (rule all) (simp add: pod_templates_def)
  qed (use zero all matched index service BuildLWS_meta(2) [OF assms(1)] in \<open>blast | simp\<close>)+
qed

theorem pool_selects_leaders_witness:
  "\<exists>l t. BuildLWS sample_externals (sample_service ''a'' []) (sample_role ''w'' ComponentTypeWorker 1 2) sample_config = Some l \<and>
    lwss_LeaderTemplate (lws_Spec l) = Some t \<and>
    pools_Selector (pool_Spec (BuildInferencePool sample_externals (sample_service ''a'' [])
      [sample_role ''w'' ComponentTypeWorker 1 2])) \<subseteq>\<^sub>m (tmpl_Labels t)(LWSWorkerIndexLabel \<mapsto> ''0'')"
proof -
  obtain l where l: "BuildLWS sample_externals (sample_service ''a'' []) (sample_role ''w'' ComponentTypeWorker 1 2)
      sample_config = Some l"
    using sample_builds by blast
  moreover from BuildLWS_cases [OF l] obtain t where "lwss_LeaderTemplate (lws_Spec l) = Some t"
    by (cases "lwss_LeaderTemplate (lws_Spec l)") (auto simp: IsMultiNode_def)
  ultimately show ?thesis
    using pool_selects_leaders [OF l, of "[sample_role ''w'' ComponentTypeWorker 1 2]"]
    by (auto simp: leader_pod_def)
qed

text \<open>
  The spec hash of the Deployment is a label of the Deployment only: the labels of its pods, and
  the selector that has to stay the same, do not contain it.
\<close>

theorem deployment_hash_not_on_pods:
  "meta_Labels (dep_Meta (BuildEPPDeployment X svc)) LabelSpecHash =
     Some (spec_hash X (HashDeploymentSpec (dep_Spec (BuildEPPDeployment X svc)))) \<and>
   tmpl_Labels (epp_pod X svc) LabelSpecHash = None \<and>
   deps_Selector (dep_Spec (BuildEPPDeployment X svc)) LabelSpecHash = None"
  by (simp add: BuildEPPDeployment_def Let_def epp_pod_def label_names)

end
