(* ===== verification/Cluster.thy ===== *)
theory Cluster
  imports RouterObjects
begin

section \<open>The API server, as the controller sees it\<close>

text \<open>
  The controller reads and writes objects through \<open>client.Client\<close> of controller-runtime. The client
  and the server behind it are not part of the repository: the record \<open>api\<close> holds the calls the code
  makes, over an unknown state \<open>'s\<close>, and is an argument of every definition of the controller. A call
  returns an error or a result, together with the next state.
  The locale \<open>cluster\<close> states what a server that answers every valid request, and refuses the others
  without effect, does to the objects it stores; \<open>view\<close> is that store. Theorems about what the controller achieves assume it; theorems about
  errors and about the order of calls assume nothing of the server. The list-based server at the end
  of this theory satisfies the locale.
\<close>

subsection \<open>Errors and fallible operations\<close>

text \<open>\<open>Wrapped p e\<close> is \<open>fmt.Errorf(p + "%w", e)\<close>.\<close>

datatype error =
    NotFoundError string
  | OtherError string
  | Wrapped string error

primrec error_message :: "error \<Rightarrow> string" where
  "error_message (NotFoundError m) = m"
| "error_message (OtherError m) = m"
| "error_message (Wrapped p e) = p @ error_message e"

text \<open>\<open>apierrors.IsNotFound\<close>, which looks through wrapped errors.\<close>

primrec IsNotFound :: "error \<Rightarrow> bool" where
  "IsNotFound (NotFoundError m) = True"
| "IsNotFound (OtherError m) = False"
| "IsNotFound (Wrapped p e) = IsNotFound e"

datatype 'a outcome =
    Ok 'a
  | Err error
  | Panic

type_synonym ('s, 'a) op = "'s \<Rightarrow> 'a outcome \<times> 's"

definition return_op :: "'a \<Rightarrow> ('s, 'a) op" where
  "return_op x s = (Ok x, s)"

definition fail_op :: "error \<Rightarrow> ('s, 'a) op" where
  "fail_op e s = (Err e, s)"

definition panic_op :: "('s, 'a) op" where
  "panic_op s = (Panic, s)"

text \<open>\<open>if err := m; err != nil { return err }\<close>, then the rest.\<close>

definition bind_op :: "('s, 'a) op \<Rightarrow> ('a \<Rightarrow> ('s, 'b) op) \<Rightarrow> ('s, 'b) op" where
  "bind_op m f s =
     (case m s of (Ok x, s') \<Rightarrow> f x s' | (Err e, s') \<Rightarrow> (Err e, s') | (Panic, s') \<Rightarrow> (Panic, s'))"

text \<open>\<open>if err := m; err != nil { return fmt.Errorf("...: %w", err) }\<close>.\<close>

definition wrap_op :: "string \<Rightarrow> ('s, 'a) op \<Rightarrow> ('s, 'a) op" where
  "wrap_op p m s =
     (case m s of (Ok x, s') \<Rightarrow> (Ok x, s') | (Err e, s') \<Rightarrow> (Err (Wrapped p e), s') | (Panic, s') \<Rightarrow> (Panic, s'))"

text \<open>A call of the client, and a loop whose body may return early with an error.\<close>

definition call_op :: "('s \<Rightarrow> (error + 'a) \<times> 's) \<Rightarrow> ('s, 'a) op" where
  "call_op f s = (case f s of (Inl e, s') \<Rightarrow> (Err e, s') | (Inr x, s') \<Rightarrow> (Ok x, s'))"

fun loop_op :: "('x \<Rightarrow> 'a \<Rightarrow> ('s, 'a) op) \<Rightarrow> 'x list \<Rightarrow> 'a \<Rightarrow> ('s, 'a) op" where
  "loop_op body [] acc = return_op acc"
| "loop_op body (x # xs) acc = bind_op (body x acc) (loop_op body xs)"

lemma run_op_simps [simp, calls]:
  "return_op x s = (Ok x, s)" "fail_op e s = (Err e, s)" "panic_op s = (Panic, s)"
  by (simp_all add: return_op_def fail_op_def panic_op_def)

lemma bind_op_Ok [calls]: "m s = (Ok x, s') \<Longrightarrow> bind_op m f s = f x s'"
  by (simp add: bind_op_def)

lemma bind_op_Err [calls]: "m s = (Err e, s') \<Longrightarrow> bind_op m f s = (Err e, s')"
  by (simp add: bind_op_def)

lemma bind_op_Panic [calls]: "m s = (Panic, s') \<Longrightarrow> bind_op m f s = (Panic, s')"
  by (simp add: bind_op_def)

lemma wrap_op_Ok [calls]: "m s = (Ok x, s') \<Longrightarrow> wrap_op p m s = (Ok x, s')"
  by (simp add: wrap_op_def)

lemma wrap_op_Err [calls]: "m s = (Err e, s') \<Longrightarrow> wrap_op p m s = (Err (Wrapped p e), s')"
  by (simp add: wrap_op_def)

lemma wrap_op_Panic [calls]: "m s = (Panic, s') \<Longrightarrow> wrap_op p m s = (Panic, s')"
  by (simp add: wrap_op_def)

lemma call_op_Inr [calls]: "f s = (Inr x, s') \<Longrightarrow> call_op f s = (Ok x, s')"
  by (simp add: call_op_def)

lemma call_op_Inl [calls]: "f s = (Inl e, s') \<Longrightarrow> call_op f s = (Err e, s')"
  by (simp add: call_op_def)

lemma bind_op_cases:
  assumes "bind_op m f s = (r, t)"
  obtains x s' where "m s = (Ok x, s')" "f x s' = (r, t)"
  | e where "m s = (Err e, t)" "r = Err e"
  | "m s = (Panic, t)" "r = Panic"
  using assms by (auto simp: bind_op_def split: prod.splits outcome.splits)

lemma bind_op_assoc: "bind_op (bind_op m f) g = bind_op m (\<lambda>x. bind_op (f x) g)"
  by (rule ext) (simp add: bind_op_def split: prod.split outcome.split)

subsection \<open>Objects\<close>

datatype kind =
    KindLWS | KindPodGroup | KindConfigMap | KindDeployment | KindService | KindServiceAccount
  | KindRole | KindRoleBinding | KindInferencePool | KindHTTPRoute | KindInferenceService

datatype kobj =
    ObjLWS lws
  | ObjPodGroup podgroup
  | ObjConfigMap configmap
  | ObjDeployment deployment
  | ObjService service
  | ObjServiceAccount service_account
  | ObjRole rbac_role
  | ObjRoleBinding role_binding
  | ObjPool pool
  | ObjRoute http_route
  | ObjInferSvc inference_service

fun kobj_kind :: "kobj \<Rightarrow> kind" where
  "kobj_kind (ObjLWS x) = KindLWS"
| "kobj_kind (ObjPodGroup x) = KindPodGroup"
| "kobj_kind (ObjConfigMap x) = KindConfigMap"
| "kobj_kind (ObjDeployment x) = KindDeployment"
| "kobj_kind (ObjService x) = KindService"
| "kobj_kind (ObjServiceAccount x) = KindServiceAccount"
| "kobj_kind (ObjRole x) = KindRole"
| "kobj_kind (ObjRoleBinding x) = KindRoleBinding"
| "kobj_kind (ObjPool x) = KindInferencePool"
| "kobj_kind (ObjRoute x) = KindHTTPRoute"
| "kobj_kind (ObjInferSvc x) = KindInferenceService"

fun kobj_meta :: "kobj \<Rightarrow> object_meta" where
  "kobj_meta (ObjLWS x) = lws_Meta x"
| "kobj_meta (ObjPodGroup x) = pg_Meta x"
| "kobj_meta (ObjConfigMap x) = cm_Meta x"
| "kobj_meta (ObjDeployment x) = dep_Meta x"
| "kobj_meta (ObjService x) = svc_Meta x"
| "kobj_meta (ObjServiceAccount x) = sa_Meta x"
| "kobj_meta (ObjRole x) = rb_Meta x"
| "kobj_meta (ObjRoleBinding x) = rbd_Meta x"
| "kobj_meta (ObjPool x) = pool_Meta x"
| "kobj_meta (ObjRoute x) = route_Meta x"
| "kobj_meta (ObjInferSvc x) = isvc_Meta x"

type_synonym key = "kind \<times> string \<times> string"

definition kobj_key :: "kobj \<Rightarrow> key" where
  "kobj_key ob = (kobj_kind ob, meta_Namespace (kobj_meta ob), meta_Name (kobj_meta ob))"

abbreviation kobj_labels :: "kobj \<Rightarrow> label_map" where
  "kobj_labels ob \<equiv> meta_Labels (kobj_meta ob)"

text \<open>\<open>obj.Labels[workload.LabelSpecHash]\<close>.\<close>

definition hash_label :: "object_meta \<Rightarrow> string" where
  "hash_label m = label_of (meta_Labels m) LabelSpecHash"

subsection \<open>The client's calls\<close>

record 's api =
  api_Get :: "kind \<Rightarrow> string \<Rightarrow> string \<Rightarrow> 's \<Rightarrow> (error + kobj) \<times> 's"
  api_Create :: "kobj \<Rightarrow> 's \<Rightarrow> (error + unit) \<times> 's"
  api_Update :: "kobj \<Rightarrow> 's \<Rightarrow> (error + unit) \<times> 's"
  api_Delete :: "kobj \<Rightarrow> 's \<Rightarrow> (error + unit) \<times> 's"
  api_ListLWS :: "string \<Rightarrow> (string \<times> string) list \<Rightarrow> 's \<Rightarrow> (error + lws list) \<times> 's"
  api_StatusUpdate :: "inference_service \<Rightarrow> 's \<Rightarrow> (error + unit) \<times> 's"
  api_Now :: "'s \<Rightarrow> time \<times> 's"
  api_SetControllerReference :: "object_meta \<Rightarrow> object_meta \<Rightarrow> error + object_meta"

type_synonym 's store_view = "'s \<Rightarrow> key \<rightharpoonup> kobj"

locale cluster_reads =
  fixes A :: "'s api" and view :: "'s store_view"
  assumes view_key: "view s ky = Some ob \<Longrightarrow> kobj_key ob = ky"
    and get_found: "view s (k, ns, n) = Some ob \<Longrightarrow>
      \<exists>s'. api_Get A k ns n s = (Inr ob, s') \<and> view s' = view s"
    and get_missing: "view s (k, ns, n) = None \<Longrightarrow>
      \<exists>e s'. api_Get A k ns n s = (Inl e, s') \<and> IsNotFound e \<and> view s' = view s"
    and list_lws: "\<exists>ls s'. api_ListLWS A ns sel s = (Inr ls, s') \<and> view s' = view s \<and>
      set ls = {l. \<exists>n. view s (KindLWS, ns, n) = Some (ObjLWS l) \<and> labels_match sel (meta_Labels (lws_Meta l))}"
    and now_view: "view (snd (api_Now A s)) = view s"

locale cluster = cluster_reads A view for A :: "'s api" and view :: "'s store_view" +
  assumes create_fresh: "view s (kobj_key ob) = None \<Longrightarrow>
      \<exists>ob' s'. api_Create A ob s = (Inr (), s') \<and> view s' = (view s)(kobj_key ob \<mapsto> ob') \<and>
        kobj_key ob' = kobj_key ob \<and> kobj_labels ob' = kobj_labels ob"
    and create_taken: "view s (kobj_key ob) \<noteq> None \<Longrightarrow>
      \<exists>e s'. api_Create A ob s = (Inl e, s') \<and> view s' = view s"
    and update_existing: "view s (kobj_key ob) \<noteq> None \<Longrightarrow>
      \<exists>ob' s'. api_Update A ob s = (Inr (), s') \<and> view s' = (view s)(kobj_key ob \<mapsto> ob') \<and>
        kobj_key ob' = kobj_key ob \<and> kobj_labels ob' = kobj_labels ob"
    and update_missing: "view s (kobj_key ob) = None \<Longrightarrow>
      \<exists>e s'. api_Update A ob s = (Inl e, s') \<and> view s' = view s"
    and delete_existing: "view s (kobj_key ob) \<noteq> None \<Longrightarrow>
      \<exists>s'. api_Delete A ob s = (Inr (), s') \<and> view s' = (view s)(kobj_key ob := None)"
    and delete_missing: "view s (kobj_key ob) = None \<Longrightarrow>
      \<exists>e s'. api_Delete A ob s = (Inl e, s') \<and> IsNotFound e \<and> view s' = view s"
    and status_update: "view s (kobj_key (ObjInferSvc svc)) = Some (ObjInferSvc old) \<Longrightarrow>
      \<exists>s'. api_StatusUpdate A svc s = (Inr (), s') \<and>
        view s' = (view s)(kobj_key (ObjInferSvc svc) \<mapsto> ObjInferSvc (old\<lparr>isvc_Status := isvc_Status svc\<rparr>))"
    and status_missing: "view s (kobj_key (ObjInferSvc svc)) = None \<Longrightarrow>
      \<exists>e s'. api_StatusUpdate A svc s = (Inl e, s') \<and> view s' = view s"
    and set_owner: "\<exists>m'. api_SetControllerReference A owner m = Inr m' \<and>
        meta_Name m' = meta_Name m \<and> meta_Namespace m' = meta_Namespace m \<and> meta_Labels m' = meta_Labels m"

subsection \<open>A server that keeps its objects in a list\<close>

type_synonym listing = "(key \<times> kobj) list"

text \<open>A record of the stored objects and the time. Only the first entry of a key counts.\<close>

record server =
  srv_Objects :: listing
  srv_Clock :: time

definition srv_lookup :: "server \<Rightarrow> key \<rightharpoonup> kobj" where
  "srv_lookup s k =
     (case map_of (srv_Objects s) k of
        None \<Rightarrow> None
      | Some ob \<Rightarrow> if kobj_key ob = k then Some ob else None)"

definition srv_put :: "kobj \<Rightarrow> server \<Rightarrow> server" where
  "srv_put ob s = s\<lparr>srv_Objects := (kobj_key ob, ob) # srv_Objects s\<rparr>"

definition srv_remove :: "key \<Rightarrow> server \<Rightarrow> server" where
  "srv_remove k s = s\<lparr>srv_Objects := filter (\<lambda>p. fst p \<noteq> k) (srv_Objects s)\<rparr>"

definition srv_pick :: "string \<Rightarrow> (string \<times> string) list \<Rightarrow> server \<Rightarrow> key \<Rightarrow> lws option" where
  "srv_pick ns sel s k =
     (if fst k = KindLWS \<and> fst (snd k) = ns then
        (case srv_lookup s k of
           Some (ObjLWS l) \<Rightarrow> if labels_match sel (meta_Labels (lws_Meta l)) then Some l else None
         | _ \<Rightarrow> None)
      else None)"

definition srv_list :: "string \<Rightarrow> (string \<times> string) list \<Rightarrow> server \<Rightarrow> lws list" where
  "srv_list ns sel s = List.map_filter (srv_pick ns sel s) (map fst (srv_Objects s))"

definition list_api :: "server api" where
  "list_api = \<lparr>
     api_Get = (\<lambda>k ns n s. (case srv_lookup s (k, ns, n) of
        None \<Rightarrow> Inl (NotFoundError ''not found'') | Some ob \<Rightarrow> Inr ob, s)),
     api_Create = (\<lambda>ob s. if srv_lookup s (kobj_key ob) = None then (Inr (), srv_put ob s)
        else (Inl (OtherError ''already exists''), s)),
     api_Update = (\<lambda>ob s. if srv_lookup s (kobj_key ob) = None then (Inl (NotFoundError ''not found''), s)
        else (Inr (), srv_put ob s)),
     api_Delete = (\<lambda>ob s. if srv_lookup s (kobj_key ob) = None then (Inl (NotFoundError ''not found''), s)
        else (Inr (), srv_remove (kobj_key ob) s)),
     api_ListLWS = (\<lambda>ns sel s. (Inr (srv_list ns sel s), s)),
     api_StatusUpdate = (\<lambda>svc s. case srv_lookup s (kobj_key (ObjInferSvc svc)) of
        Some (ObjInferSvc old) \<Rightarrow> (Inr (), srv_put (ObjInferSvc (old\<lparr>isvc_Status := isvc_Status svc\<rparr>)) s)
      | _ \<Rightarrow> (Inl (NotFoundError ''not found''), s)),
     api_Now = (\<lambda>s. (srv_Clock s, s\<lparr>srv_Clock := srv_Clock s + 1\<rparr>)),
     api_SetControllerReference = (\<lambda>owner m.
        Inr (m\<lparr>meta_OwnerReferences := meta_Name owner # meta_OwnerReferences m\<rparr>))\<rparr>"

lemma srv_lookup_put: "srv_lookup (srv_put ob s) = (srv_lookup s)(kobj_key ob \<mapsto> ob)"
  by (rule ext) (simp add: srv_lookup_def srv_put_def)

lemma srv_lookup_remove: "srv_lookup (srv_remove k s) = (srv_lookup s)(k := None)"
proof -
  have "map_of (filter (\<lambda>p. fst p \<noteq> k) xs) k' = (if k' = k then None else map_of xs k')" for xs :: listing and k'
    by (induction xs) auto
  then show ?thesis by (auto simp: srv_lookup_def srv_remove_def fun_eq_iff)
qed

lemma srv_lookup_key: "srv_lookup s k = Some ob \<Longrightarrow> kobj_key ob = k"
  by (auto simp: srv_lookup_def split: option.splits if_splits)

lemma srv_lookup_in: "srv_lookup s k = Some ob \<Longrightarrow> k \<in> fst ` set (srv_Objects s)"
  by (auto simp: srv_lookup_def image_iff split: option.splits if_splits dest!: map_of_SomeD)
    (metis fst_conv map_of_SomeD)

lemma srv_lookup_clock [simp]: "srv_lookup (s\<lparr>srv_Clock := t\<rparr>) = srv_lookup s"
  by (rule ext) (simp add: srv_lookup_def)

lemma set_map_filter: "set (List.map_filter f xs) = {y. \<exists>x \<in> set xs. f x = Some y}"
  by (induction xs) (auto simp: List.map_filter_simps split: option.splits)

lemma set_srv_list:
  "set (srv_list ns sel s) =
     {l. \<exists>n. srv_lookup s (KindLWS, ns, n) = Some (ObjLWS l) \<and> labels_match sel (meta_Labels (lws_Meta l))}"
proof -
  have pick: "srv_pick ns sel s k = Some l \<longleftrightarrow>
      (\<exists>n. k = (KindLWS, ns, n) \<and> srv_lookup s k = Some (ObjLWS l) \<and> labels_match sel (meta_Labels (lws_Meta l)))"
    for k l
    by (cases k) (auto simp: srv_pick_def split: option.splits kobj.splits)
  have "(\<exists>k \<in> set (map fst (srv_Objects s)). srv_pick ns sel s k = Some l) \<longleftrightarrow>
      (\<exists>n. srv_lookup s (KindLWS, ns, n) = Some (ObjLWS l) \<and> labels_match sel (meta_Labels (lws_Meta l)))"
    for l
    unfolding pick set_map using srv_lookup_in [of s] by metis
  then show ?thesis by (simp only: srv_list_def set_map_filter)
qed

interpretation list_server: cluster list_api srv_lookup
proof unfold_locales
  fix s ns sel
  show "\<exists>ls s'. api_ListLWS list_api ns sel s = (Inr ls, s') \<and> srv_lookup s' = srv_lookup s \<and>
      set ls = {l. \<exists>n. srv_lookup s (KindLWS, ns, n) = Some (ObjLWS l) \<and>
        labels_match sel (meta_Labels (lws_Meta l))}"
    by (simp add: list_api_def set_srv_list)
qed (auto simp: list_api_def srv_lookup_put srv_lookup_remove kobj_key_def dest: srv_lookup_key)

end
