(* ===== verification/Managed.thy ===== *)
theory Managed
  imports Cluster
begin

section \<open>Create or update one object\<close>

text \<open>
  Nine methods of \<open>inferenceservice_controller.go\<close> share one shape: set the owner, \<open>Get\<close> the object of
  that name, \<open>Create\<close> it if it is missing, and \<open>Update\<close> it, with some of its fields replaced, if its
  spec-hash label differs. They differ in the type of the object and in the fields they replace. A
  record \<open>kind_ops\<close> names both; \<open>createOrUpdate\<close> is the shape.
  The locale \<open>resource_kind\<close> states what the operations of one kind satisfy. With a \<open>cluster\<close> it gives
  \<open>managed\<close>, in which the effect of \<open>createOrUpdate\<close> is proved once. Every kind the controller manages
  interprets it.
\<close>

record 'o kind_ops =
  ko_Kind :: kind
  ko_Inject :: "'o \<Rightarrow> kobj"
  ko_Project :: "kobj \<Rightarrow> 'o option"
  ko_Meta :: "'o \<Rightarrow> object_meta"
  ko_WithMeta :: "object_meta \<Rightarrow> 'o \<Rightarrow> 'o"
  ko_Merge :: "'o \<Rightarrow> 'o \<Rightarrow> 'o"

text \<open>\<open>r.Get\<close> into a variable of the kind's type; an object of another type does not decode.\<close>

definition typed_get :: "'s api \<Rightarrow> 'o kind_ops \<Rightarrow> string \<Rightarrow> string \<Rightarrow> 's \<Rightarrow> (error + 'o) \<times> 's" where
  "typed_get A K ns n s =
     (case api_Get A (ko_Kind K) ns n s of
        (Inl e, s') \<Rightarrow> (Inl e, s')
      | (Inr ob, s') \<Rightarrow>
          (case ko_Project K ob of
             None \<Rightarrow> (Inl (OtherError ''cannot decode object''), s')
           | Some x \<Rightarrow> (Inr x, s')))"

text \<open>\<open>controllerutil.SetControllerReference(inferSvc, obj, r.Scheme)\<close>.\<close>

definition set_owner :: "'s api \<Rightarrow> 'o kind_ops \<Rightarrow> object_meta \<Rightarrow> 'o \<Rightarrow> ('s, 'o) op" where
  "set_owner A K owner obj s =
     (case api_SetControllerReference A owner (ko_Meta K obj) of
        Inl e \<Rightarrow> (Err e, s)
      | Inr m \<Rightarrow> (Ok (ko_WithMeta K m obj), s))"

definition createOrUpdate :: "'s api \<Rightarrow> 'o kind_ops \<Rightarrow> 'o \<Rightarrow> ('s, unit) op" where
  "createOrUpdate A K obj s =
     (case typed_get A K (meta_Namespace (ko_Meta K obj)) (meta_Name (ko_Meta K obj)) s of
        (Inl err, s) \<Rightarrow>
          (if IsNotFound err then call_op (api_Create A (ko_Inject K obj)) s else (Err err, s))
      | (Inr existing, s) \<Rightarrow>
          (if hash_label (ko_Meta K existing) \<noteq> hash_label (ko_Meta K obj)
           then call_op (api_Update A (ko_Inject K (ko_Merge K existing obj))) s
           else (Ok (), s)))"

definition createIfMissing :: "'s api \<Rightarrow> 'o kind_ops \<Rightarrow> 'o \<Rightarrow> ('s, unit) op" where
  "createIfMissing A K obj s =
     (case typed_get A K (meta_Namespace (ko_Meta K obj)) (meta_Name (ko_Meta K obj)) s of
        (Inl err, s) \<Rightarrow>
          (if IsNotFound err then call_op (api_Create A (ko_Inject K obj)) s else (Err err, s))
      | (Inr existing, s) \<Rightarrow> (Ok (), s))"

definition ensure :: "'s api \<Rightarrow> 'o kind_ops \<Rightarrow> object_meta \<Rightarrow> 'o \<Rightarrow> ('s, unit) op" where
  "ensure A K owner obj = bind_op (set_owner A K owner obj) (createOrUpdate A K)"

subsection \<open>What an object of one kind satisfies\<close>

locale resource_kind =
  fixes K :: "'o kind_ops"
  assumes inject_kind: "kobj_kind (ko_Inject K x) = ko_Kind K"
    and inject_meta: "kobj_meta (ko_Inject K x) = ko_Meta K x"
    and project_inject: "ko_Project K (ko_Inject K x) = Some x"
    and inject_project: "kobj_kind ob = ko_Kind K \<Longrightarrow> \<exists>x. ob = ko_Inject K x"
    and with_meta: "ko_Meta K (ko_WithMeta K m x) = m"
    and merge_meta: "ko_Meta K (ko_Merge K x y) = (ko_Meta K x)\<lparr>meta_Labels := meta_Labels (ko_Meta K y)\<rparr>"
begin

definition key_of :: "'o \<Rightarrow> key" where
  "key_of x = (ko_Kind K, meta_Namespace (ko_Meta K x), meta_Name (ko_Meta K x))"

lemma kobj_key_inject: "kobj_key (ko_Inject K x) = key_of x"
  by (simp add: kobj_key_def key_of_def inject_kind inject_meta)

lemma key_of_cong:
  "meta_Name (ko_Meta K x) = meta_Name (ko_Meta K y) \<Longrightarrow>
   meta_Namespace (ko_Meta K x) = meta_Namespace (ko_Meta K y) \<Longrightarrow> key_of x = key_of y"
  by (simp add: key_of_def)

end

text \<open>
  The effect on the store of making sure that the object with key \<open>k\<close> has the labels \<open>ls\<close>: nothing
  else changes, and the object stored under \<open>k\<close> either was there with the same spec hash or now has
  exactly these labels.
\<close>

definition settles :: "key \<Rightarrow> label_map \<Rightarrow> (key \<rightharpoonup> kobj) \<Rightarrow> (key \<rightharpoonup> kobj) \<Rightarrow> bool" where
  "settles k ls v v' \<longleftrightarrow>
     (\<exists>ob. v' = v(k \<mapsto> ob) \<and> kobj_key ob = k \<and>
       label_of (kobj_labels ob) LabelSpecHash = label_of ls LabelSpecHash \<and>
       (v k = Some ob \<or> kobj_labels ob = ls))"

text \<open>Nothing has to be done for \<open>k\<close>: it is stored with the wanted spec hash.\<close>

definition settled :: "key \<Rightarrow> label_map \<Rightarrow> (key \<rightharpoonup> kobj) \<Rightarrow> bool" where
  "settled k ls v \<longleftrightarrow>
     (\<exists>ob. v k = Some ob \<and> label_of (kobj_labels ob) LabelSpecHash = label_of ls LabelSpecHash)"

lemma settles_settled: "settles k ls v v' \<Longrightarrow> settled k ls v'"
  by (auto simp: settles_def settled_def)

lemma settles_other: "settles k ls v v' \<Longrightarrow> k' \<noteq> k \<Longrightarrow> v' k' = v k'"
  by (auto simp: settles_def)


lemma settled_other: "settled k ls v \<Longrightarrow> v' k = v k \<Longrightarrow> settled k ls v'"
  by (simp add: settled_def)

text \<open>The effect of creating an object only where there is none.\<close>

definition provides :: "key \<Rightarrow> (key \<rightharpoonup> kobj) \<Rightarrow> (key \<rightharpoonup> kobj) \<Rightarrow> bool" where
  "provides k v v' \<longleftrightarrow> (\<exists>ob. v' = v(k \<mapsto> ob) \<and> kobj_key ob = k \<and> (v k = Some ob \<or> v k = None))"

lemma provides_other: "provides k v v' \<Longrightarrow> k' \<noteq> k \<Longrightarrow> v' k' = v k'"
  by (auto simp: provides_def)

lemma provides_present: "provides k v v' \<Longrightarrow> v' k \<noteq> None"
  by (auto simp: provides_def)

locale managed = cluster A view + resource_kind K
  for A :: "'s api" and view :: "'s store_view" and K :: "'o kind_ops"
begin

lemma typed_get_found:
  assumes "view s (key_of obj) = Some ob"
  shows "\<exists>x s'. ob = ko_Inject K x \<and> view s' = view s \<and>
    typed_get A K (meta_Namespace (ko_Meta K obj)) (meta_Name (ko_Meta K obj)) s = (Inr x, s')"
proof -
  note assms = assms [unfolded key_of_def]
  from view_key [OF assms] have "kobj_kind ob = ko_Kind K" by (simp add: kobj_key_def)
  with inject_project obtain x where "ob = ko_Inject K x" by blast
  moreover from get_found [OF assms] obtain s' where
    "api_Get A (ko_Kind K) (meta_Namespace (ko_Meta K obj)) (meta_Name (ko_Meta K obj)) s = (Inr ob, s')"
    "view s' = view s" by blast
  ultimately show ?thesis by (auto simp: typed_get_def project_inject)
qed

lemma typed_get_missing:
  assumes "view s (key_of obj) = None"
  shows "\<exists>e s'. IsNotFound e \<and> view s' = view s \<and>
    typed_get A K (meta_Namespace (ko_Meta K obj)) (meta_Name (ko_Meta K obj)) s = (Inl e, s')"
  using get_missing [OF assms [unfolded key_of_def]] by (auto simp: typed_get_def)

lemma createOrUpdate_settles:
  "\<exists>s'. createOrUpdate A K obj s = (Ok (), s') \<and>
     settles (key_of obj) (meta_Labels (ko_Meta K obj)) (view s) (view s')"
proof (cases "view s (key_of obj)")
  case None
  then obtain e s1 where get: "typed_get A K (meta_Namespace (ko_Meta K obj)) (meta_Name (ko_Meta K obj)) s = (Inl e, s1)"
      and e: "IsNotFound e" and s1: "view s1 = view s"
    using typed_get_missing by blast
  from None s1 create_fresh [of s1 "ko_Inject K obj"] obtain ob' s2 where
      "api_Create A (ko_Inject K obj) s1 = (Inr (), s2)" "view s2 = (view s)(key_of obj \<mapsto> ob')"
      "kobj_key ob' = key_of obj" "kobj_labels ob' = meta_Labels (ko_Meta K obj)"
    by (auto simp: kobj_key_inject inject_meta)
  with get e show ?thesis
    by (auto simp: createOrUpdate_def calls settles_def)
next
  case (Some ob)
  then obtain x s1 where ob: "ob = ko_Inject K x" and s1: "view s1 = view s"
      and get: "typed_get A K (meta_Namespace (ko_Meta K obj)) (meta_Name (ko_Meta K obj)) s = (Inr x, s1)"
    using typed_get_found by blast
  have keyx: "key_of x = key_of obj"
    using view_key [OF Some] ob by (simp add: kobj_key_inject)
  show ?thesis
  proof (cases "hash_label (ko_Meta K x) = hash_label (ko_Meta K obj)")
    case True
    have "view s = (view s)(key_of obj \<mapsto> ob)" using Some by (simp add: fun_upd_idem)
    with get True s1 Some ob keyx show ?thesis
      by (auto simp: createOrUpdate_def settles_def hash_label_def kobj_key_inject inject_meta)
  next
    case False
    let ?m = "ko_Inject K (ko_Merge K x obj)"
    have m: "kobj_key ?m = key_of obj" "kobj_labels ?m = meta_Labels (ko_Meta K obj)"
      using keyx by (simp_all add: kobj_key_inject inject_meta key_of_def merge_meta)
    with Some s1 update_existing [of s1 ?m] obtain ob' s2 where
      "api_Update A ?m s1 = (Inr (), s2)" "view s2 = (view s)(key_of obj \<mapsto> ob')"
      "kobj_key ob' = key_of obj" "kobj_labels ob' = meta_Labels (ko_Meta K obj)"
      by auto
    with get False show ?thesis
      by (auto simp: createOrUpdate_def calls settles_def)
  qed
qed

lemma createOrUpdate_settled:
  assumes "settled (key_of obj) (meta_Labels (ko_Meta K obj)) (view s)"
  shows "\<exists>s'. createOrUpdate A K obj s = (Ok (), s') \<and> view s' = view s"
proof -
  from assms obtain ob where ob: "view s (key_of obj) = Some ob"
      and h: "label_of (kobj_labels ob) LabelSpecHash = hash_label (ko_Meta K obj)"
    by (auto simp: settled_def hash_label_def)
  from ob obtain x s1 where "ob = ko_Inject K x" "view s1 = view s"
      "typed_get A K (meta_Namespace (ko_Meta K obj)) (meta_Name (ko_Meta K obj)) s = (Inr x, s1)"
    using typed_get_found by blast
  with h show ?thesis
    by (auto simp: createOrUpdate_def inject_meta hash_label_def)
qed

lemma createIfMissing_provides:
  "\<exists>s'. createIfMissing A K obj s = (Ok (), s') \<and> provides (key_of obj) (view s) (view s') \<and>
     (view s (key_of obj) \<noteq> None \<longrightarrow> view s' = view s)"
proof (cases "view s (key_of obj)")
  case None
  then obtain e s1 where get: "typed_get A K (meta_Namespace (ko_Meta K obj)) (meta_Name (ko_Meta K obj)) s = (Inl e, s1)"
      and e: "IsNotFound e" and s1: "view s1 = view s"
    using typed_get_missing by blast
  from None s1 create_fresh [of s1 "ko_Inject K obj"] obtain ob' s2 where
      "api_Create A (ko_Inject K obj) s1 = (Inr (), s2)" "view s2 = (view s)(key_of obj \<mapsto> ob')"
      "kobj_key ob' = key_of obj"
    by (auto simp: kobj_key_inject)
  with get e None show ?thesis
    by (auto simp: createIfMissing_def calls provides_def)
next
  case (Some ob)
  then obtain x s1 where "view s1 = view s"
      and "typed_get A K (meta_Namespace (ko_Meta K obj)) (meta_Name (ko_Meta K obj)) s = (Inr x, s1)"
    using typed_get_found by blast
  moreover have "view s = (view s)(key_of obj \<mapsto> ob)" using Some by (simp add: fun_upd_idem)
  ultimately show ?thesis
    using Some view_key [OF Some] by (auto simp: createIfMissing_def provides_def)
qed

lemma set_owner_same:
  "\<exists>obj'. set_owner A K owner obj s = (Ok obj', s) \<and> key_of obj' = key_of obj \<and>
     meta_Labels (ko_Meta K obj') = meta_Labels (ko_Meta K obj)"
  using set_owner [of owner "ko_Meta K obj"]
  by (auto simp: set_owner_def key_of_def with_meta)

lemma own_and_settle:
  "\<exists>obj' s'. set_owner A K owner obj s = (Ok obj', s) \<and> createOrUpdate A K obj' s = (Ok (), s') \<and>
     settles (key_of obj) (meta_Labels (ko_Meta K obj)) (view s) (view s')"
proof -
  from set_owner_same obtain obj' where "set_owner A K owner obj s = (Ok obj', s)"
    "key_of obj' = key_of obj" "meta_Labels (ko_Meta K obj') = meta_Labels (ko_Meta K obj)"
    by blast
  with createOrUpdate_settles [of obj' s] show ?thesis by auto
qed

lemma own_and_settled:
  assumes "settled (key_of obj) (meta_Labels (ko_Meta K obj)) (view s)"
  shows "\<exists>obj' s'. set_owner A K owner obj s = (Ok obj', s) \<and> createOrUpdate A K obj' s = (Ok (), s') \<and>
    view s' = view s"
proof -
  from set_owner_same obtain obj' where "set_owner A K owner obj s = (Ok obj', s)"
    "key_of obj' = key_of obj" "meta_Labels (ko_Meta K obj') = meta_Labels (ko_Meta K obj)"
    by blast
  with createOrUpdate_settled [of obj' s] assms show ?thesis by auto
qed

lemma ensure_settles:
  "\<exists>s'. ensure A K owner obj s = (Ok (), s') \<and>
     settles (key_of obj) (meta_Labels (ko_Meta K obj)) (view s) (view s')"
  using own_and_settle [of owner obj s] by (auto simp: ensure_def calls)

lemma ensure_missing_provides:
  "\<exists>s'. bind_op (set_owner A K owner obj) (createIfMissing A K) s = (Ok (), s') \<and>
     provides (key_of obj) (view s) (view s') \<and> (view s (key_of obj) \<noteq> None \<longrightarrow> view s' = view s)"
proof -
  from set_owner_same obtain obj' where "set_owner A K owner obj s = (Ok obj', s)"
    "key_of obj' = key_of obj" by blast
  with createIfMissing_provides [of obj' s] show ?thesis by (auto simp: calls)
qed

lemma ensure_settled:
  assumes "settled (key_of obj) (meta_Labels (ko_Meta K obj)) (view s)"
  shows "\<exists>s'. ensure A K owner obj s = (Ok (), s') \<and> view s' = view s"
  using own_and_settled [OF assms, of owner] by (auto simp: ensure_def calls)

end

end
