(* ===== verification/Kinds.thy ===== *)
theory Kinds
  imports Managed
begin

section \<open>The kinds of objects the controller manages\<close>

text \<open>
  For each kind, the fields its method replaces in an existing object before \<open>Update\<close>: the merges
  below are the assignments to \<open>existing\<close> in \<open>reconcilePodGroup\<close>, \<open>reconcileLWS\<close> and the
  \<open>reconcileEPP*\<close> methods of \<open>inferenceservice_controller.go\<close>. Each interprets \<open>resource_kind\<close>, and a
  \<open>cluster\<close> thereby manages each of them.
\<close>

abbreviation relabel :: "object_meta \<Rightarrow> object_meta \<Rightarrow> object_meta" where
  "relabel m d \<equiv> m\<lparr>meta_Labels := meta_Labels d\<rparr>"

definition mergePodGroup :: "podgroup \<Rightarrow> podgroup \<Rightarrow> podgroup" where
  "mergePodGroup existing pg =
     existing\<lparr>pg_Meta := relabel (pg_Meta existing) (pg_Meta pg), pg_Spec := pg_Spec pg\<rparr>"

definition mergeLWS :: "lws \<Rightarrow> lws \<Rightarrow> lws" where
  "mergeLWS existing l =
     existing\<lparr>lws_Meta := relabel (lws_Meta existing) (lws_Meta l), lws_Spec := lws_Spec l\<rparr>"

definition mergeEPPRole :: "rbac_role \<Rightarrow> rbac_role \<Rightarrow> rbac_role" where
  "mergeEPPRole existing r =
     existing\<lparr>rb_Meta := relabel (rb_Meta existing) (rb_Meta r), rb_Rules := rb_Rules r\<rparr>"

definition mergeEPPRoleBinding :: "role_binding \<Rightarrow> role_binding \<Rightarrow> role_binding" where
  "mergeEPPRoleBinding existing rb =
     existing\<lparr>rbd_Meta := relabel (rbd_Meta existing) (rbd_Meta rb),
       rbd_RoleRef := rbd_RoleRef rb, rbd_Subjects := rbd_Subjects rb\<rparr>"

definition mergeEPPConfigMap :: "configmap \<Rightarrow> configmap \<Rightarrow> configmap" where
  "mergeEPPConfigMap existing cm =
     existing\<lparr>cm_Meta := relabel (cm_Meta existing) (cm_Meta cm), cm_Data := cm_Data cm\<rparr>"

text \<open>The selector of a Deployment is immutable and is not replaced.\<close>

definition mergeEPPDeployment :: "deployment \<Rightarrow> deployment \<Rightarrow> deployment" where
  "mergeEPPDeployment existing d =
     existing\<lparr>dep_Meta := relabel (dep_Meta existing) (dep_Meta d),
       dep_Spec := (dep_Spec existing)
         \<lparr>deps_Template := deps_Template (dep_Spec d), deps_Replicas := deps_Replicas (dep_Spec d),
          deps_Strategy := deps_Strategy (dep_Spec d)\<rparr>\<rparr>"

definition mergeEPPService :: "service \<Rightarrow> service \<Rightarrow> service" where
  "mergeEPPService existing s =
     existing\<lparr>svc_Meta := relabel (svc_Meta existing) (svc_Meta s),
       svc_Spec := (svc_Spec existing)
         \<lparr>svcs_Ports := svcs_Ports (svc_Spec s), svcs_Selector := svcs_Selector (svc_Spec s)\<rparr>\<rparr>"

definition mergeInferencePool :: "pool \<Rightarrow> pool \<Rightarrow> pool" where
  "mergeInferencePool existing p =
     existing\<lparr>pool_Meta := relabel (pool_Meta existing) (pool_Meta p), pool_Spec := pool_Spec p\<rparr>"

definition mergeHTTPRoute :: "http_route \<Rightarrow> http_route \<Rightarrow> http_route" where
  "mergeHTTPRoute existing r =
     existing\<lparr>route_Meta := relabel (route_Meta existing) (route_Meta r), route_Spec := route_Spec r\<rparr>"

lemmas merges [built] =
  mergePodGroup_def mergeLWS_def mergeEPPRole_def mergeEPPRoleBinding_def mergeEPPConfigMap_def
  mergeEPPDeployment_def mergeEPPService_def mergeInferencePool_def mergeHTTPRoute_def

definition podgroup_ops :: "podgroup kind_ops" where
  "podgroup_ops = \<lparr>ko_Kind = KindPodGroup, ko_Inject = ObjPodGroup,
     ko_Project = (\<lambda>ob. case ob of ObjPodGroup x \<Rightarrow> Some x | _ \<Rightarrow> None),
     ko_Meta = pg_Meta, ko_WithMeta = (\<lambda>m x. x\<lparr>pg_Meta := m\<rparr>), ko_Merge = mergePodGroup\<rparr>"

definition lws_ops :: "lws kind_ops" where
  "lws_ops = \<lparr>ko_Kind = KindLWS, ko_Inject = ObjLWS,
     ko_Project = (\<lambda>ob. case ob of ObjLWS x \<Rightarrow> Some x | _ \<Rightarrow> None),
     ko_Meta = lws_Meta, ko_WithMeta = (\<lambda>m x. x\<lparr>lws_Meta := m\<rparr>), ko_Merge = mergeLWS\<rparr>"

definition serviceaccount_ops :: "service_account kind_ops" where
  "serviceaccount_ops = \<lparr>ko_Kind = KindServiceAccount, ko_Inject = ObjServiceAccount,
     ko_Project = (\<lambda>ob. case ob of ObjServiceAccount x \<Rightarrow> Some x | _ \<Rightarrow> None),
     ko_Meta = sa_Meta, ko_WithMeta = (\<lambda>m x. x\<lparr>sa_Meta := m\<rparr>),
     ko_Merge = (\<lambda>x y. x\<lparr>sa_Meta := relabel (sa_Meta x) (sa_Meta y)\<rparr>)\<rparr>"

definition role_ops :: "rbac_role kind_ops" where
  "role_ops = \<lparr>ko_Kind = KindRole, ko_Inject = ObjRole,
     ko_Project = (\<lambda>ob. case ob of ObjRole x \<Rightarrow> Some x | _ \<Rightarrow> None),
     ko_Meta = rb_Meta, ko_WithMeta = (\<lambda>m x. x\<lparr>rb_Meta := m\<rparr>), ko_Merge = mergeEPPRole\<rparr>"

definition rolebinding_ops :: "role_binding kind_ops" where
  "rolebinding_ops = \<lparr>ko_Kind = KindRoleBinding, ko_Inject = ObjRoleBinding,
     ko_Project = (\<lambda>ob. case ob of ObjRoleBinding x \<Rightarrow> Some x | _ \<Rightarrow> None),
     ko_Meta = rbd_Meta, ko_WithMeta = (\<lambda>m x. x\<lparr>rbd_Meta := m\<rparr>), ko_Merge = mergeEPPRoleBinding\<rparr>"

definition configmap_ops :: "configmap kind_ops" where
  "configmap_ops = \<lparr>ko_Kind = KindConfigMap, ko_Inject = ObjConfigMap,
     ko_Project = (\<lambda>ob. case ob of ObjConfigMap x \<Rightarrow> Some x | _ \<Rightarrow> None),
     ko_Meta = cm_Meta, ko_WithMeta = (\<lambda>m x. x\<lparr>cm_Meta := m\<rparr>), ko_Merge = mergeEPPConfigMap\<rparr>"

definition deployment_ops :: "deployment kind_ops" where
  "deployment_ops = \<lparr>ko_Kind = KindDeployment, ko_Inject = ObjDeployment,
     ko_Project = (\<lambda>ob. case ob of ObjDeployment x \<Rightarrow> Some x | _ \<Rightarrow> None),
     ko_Meta = dep_Meta, ko_WithMeta = (\<lambda>m x. x\<lparr>dep_Meta := m\<rparr>), ko_Merge = mergeEPPDeployment\<rparr>"

definition service_ops :: "service kind_ops" where
  "service_ops = \<lparr>ko_Kind = KindService, ko_Inject = ObjService,
     ko_Project = (\<lambda>ob. case ob of ObjService x \<Rightarrow> Some x | _ \<Rightarrow> None),
     ko_Meta = svc_Meta, ko_WithMeta = (\<lambda>m x. x\<lparr>svc_Meta := m\<rparr>), ko_Merge = mergeEPPService\<rparr>"

definition pool_ops :: "pool kind_ops" where
  "pool_ops = \<lparr>ko_Kind = KindInferencePool, ko_Inject = ObjPool,
     ko_Project = (\<lambda>ob. case ob of ObjPool x \<Rightarrow> Some x | _ \<Rightarrow> None),
     ko_Meta = pool_Meta, ko_WithMeta = (\<lambda>m x. x\<lparr>pool_Meta := m\<rparr>), ko_Merge = mergeInferencePool\<rparr>"

definition route_ops :: "http_route kind_ops" where
  "route_ops = \<lparr>ko_Kind = KindHTTPRoute, ko_Inject = ObjRoute,
     ko_Project = (\<lambda>ob. case ob of ObjRoute x \<Rightarrow> Some x | _ \<Rightarrow> None),
     ko_Meta = route_Meta, ko_WithMeta = (\<lambda>m x. x\<lparr>route_Meta := m\<rparr>), ko_Merge = mergeHTTPRoute\<rparr>"

text \<open>The InferenceService itself is only read with \<open>Get\<close>; its merge is never used.\<close>

definition inferencesvc_ops :: "inference_service kind_ops" where
  "inferencesvc_ops = \<lparr>ko_Kind = KindInferenceService, ko_Inject = ObjInferSvc,
     ko_Project = (\<lambda>ob. case ob of ObjInferSvc x \<Rightarrow> Some x | _ \<Rightarrow> None),
     ko_Meta = isvc_Meta, ko_WithMeta = (\<lambda>m x. x\<lparr>isvc_Meta := m\<rparr>),
     ko_Merge = (\<lambda>x y. x\<lparr>isvc_Meta := relabel (isvc_Meta x) (isvc_Meta y)\<rparr>)\<rparr>"

lemmas kind_ops_defs =
  podgroup_ops_def lws_ops_def serviceaccount_ops_def role_ops_def rolebinding_ops_def configmap_ops_def
  deployment_ops_def service_ops_def pool_ops_def route_ops_def inferencesvc_ops_def

interpretation podgroup_kind: resource_kind podgroup_ops
  by unfold_locales (auto simp: kind_ops_defs built elim: kobj_kind.elims)

interpretation lws_kind: resource_kind lws_ops
  by unfold_locales (auto simp: kind_ops_defs built elim: kobj_kind.elims)

interpretation serviceaccount_kind: resource_kind serviceaccount_ops
  by unfold_locales (auto simp: kind_ops_defs built elim: kobj_kind.elims)

interpretation role_kind: resource_kind role_ops
  by unfold_locales (auto simp: kind_ops_defs built elim: kobj_kind.elims)

interpretation rolebinding_kind: resource_kind rolebinding_ops
  by unfold_locales (auto simp: kind_ops_defs built elim: kobj_kind.elims)

interpretation configmap_kind: resource_kind configmap_ops
  by unfold_locales (auto simp: kind_ops_defs built elim: kobj_kind.elims)

interpretation deployment_kind: resource_kind deployment_ops
  by unfold_locales (auto simp: kind_ops_defs built elim: kobj_kind.elims)

interpretation service_kind: resource_kind service_ops
  by unfold_locales (auto simp: kind_ops_defs built elim: kobj_kind.elims)

interpretation pool_kind: resource_kind pool_ops
  by unfold_locales (auto simp: kind_ops_defs built elim: kobj_kind.elims)

interpretation route_kind: resource_kind route_ops
  by unfold_locales (auto simp: kind_ops_defs built elim: kobj_kind.elims)

interpretation inferencesvc_kind: resource_kind inferencesvc_ops
  by unfold_locales (auto simp: kind_ops_defs built elim: kobj_kind.elims)

text \<open>The metadata and the key of an object of each kind.\<close>

lemma kind_metas [simp]:
  "ko_Meta podgroup_ops = pg_Meta"
  "ko_Meta lws_ops = lws_Meta"
  "ko_Meta serviceaccount_ops = sa_Meta"
  "ko_Meta role_ops = rb_Meta"
  "ko_Meta rolebinding_ops = rbd_Meta"
  "ko_Meta configmap_ops = cm_Meta"
  "ko_Meta deployment_ops = dep_Meta"
  "ko_Meta service_ops = svc_Meta"
  "ko_Meta pool_ops = pool_Meta"
  "ko_Meta route_ops = route_Meta"
  "ko_Meta inferencesvc_ops = isvc_Meta"
  by (simp_all add: kind_ops_defs)

lemma kind_kinds [simp]:
  "ko_Kind podgroup_ops = KindPodGroup"
  "ko_Kind lws_ops = KindLWS"
  "ko_Kind serviceaccount_ops = KindServiceAccount"
  "ko_Kind role_ops = KindRole"
  "ko_Kind rolebinding_ops = KindRoleBinding"
  "ko_Kind configmap_ops = KindConfigMap"
  "ko_Kind deployment_ops = KindDeployment"
  "ko_Kind service_ops = KindService"
  "ko_Kind pool_ops = KindInferencePool"
  "ko_Kind route_ops = KindHTTPRoute"
  "ko_Kind inferencesvc_ops = KindInferenceService"
  by (simp_all add: kind_ops_defs)

lemma kind_keys:
  "podgroup_kind.key_of x0 = (KindPodGroup, meta_Namespace (pg_Meta x0), meta_Name (pg_Meta x0))"
  "lws_kind.key_of x1 = (KindLWS, meta_Namespace (lws_Meta x1), meta_Name (lws_Meta x1))"
  "serviceaccount_kind.key_of x2 = (KindServiceAccount, meta_Namespace (sa_Meta x2), meta_Name (sa_Meta x2))"
  "role_kind.key_of x3 = (KindRole, meta_Namespace (rb_Meta x3), meta_Name (rb_Meta x3))"
  "rolebinding_kind.key_of x4 = (KindRoleBinding, meta_Namespace (rbd_Meta x4), meta_Name (rbd_Meta x4))"
  "configmap_kind.key_of x5 = (KindConfigMap, meta_Namespace (cm_Meta x5), meta_Name (cm_Meta x5))"
  "deployment_kind.key_of x6 = (KindDeployment, meta_Namespace (dep_Meta x6), meta_Name (dep_Meta x6))"
  "service_kind.key_of x7 = (KindService, meta_Namespace (svc_Meta x7), meta_Name (svc_Meta x7))"
  "pool_kind.key_of x8 = (KindInferencePool, meta_Namespace (pool_Meta x8), meta_Name (pool_Meta x8))"
  "route_kind.key_of x9 = (KindHTTPRoute, meta_Namespace (route_Meta x9), meta_Name (route_Meta x9))"
  "inferencesvc_kind.key_of x10 = (KindInferenceService, meta_Namespace (isvc_Meta x10), meta_Name (isvc_Meta x10))"
  by (simp_all add: podgroup_kind.key_of_def lws_kind.key_of_def serviceaccount_kind.key_of_def role_kind.key_of_def
      rolebinding_kind.key_of_def configmap_kind.key_of_def deployment_kind.key_of_def service_kind.key_of_def
      pool_kind.key_of_def route_kind.key_of_def inferencesvc_kind.key_of_def)

sublocale cluster \<subseteq> podgroups: managed A view podgroup_ops ..
sublocale cluster \<subseteq> workloads: managed A view lws_ops ..
sublocale cluster \<subseteq> accounts: managed A view serviceaccount_ops ..
sublocale cluster \<subseteq> roles: managed A view role_ops ..
sublocale cluster \<subseteq> bindings: managed A view rolebinding_ops ..
sublocale cluster \<subseteq> configs: managed A view configmap_ops ..
sublocale cluster \<subseteq> deployments: managed A view deployment_ops ..
sublocale cluster \<subseteq> services: managed A view service_ops ..
sublocale cluster \<subseteq> pools: managed A view pool_ops ..
sublocale cluster \<subseteq> routes: managed A view route_ops ..
sublocale cluster \<subseteq> inferencesvcs: managed A view inferencesvc_ops ..

interpretation list_podgroups: managed list_api srv_lookup podgroup_ops ..

end
