(* ===== verification/Conditions.thy ===== *)
theory Conditions
  imports Kinds
begin

section \<open>pkg/controller/condition.go: the conditions of an InferenceService\<close>

text \<open>
  Each setter writes one condition through \<open>meta.SetStatusCondition\<close> and records the generation it has
  seen. The setters are functions of the time they read from the clock. \<open>condition_laws\<close> states
  what the code relies on in \<open>meta.SetStatusCondition\<close>; \<open>upsert_condition\<close> is a function that satisfies it.
  \<open>status_of\<close> reads the status of a condition back; the lemmas say which conditions each setter
  changes and which it leaves alone.
\<close>

definition ConditionTypeInitialized :: string where "ConditionTypeInitialized = ''Initialized''"
definition ConditionTypeActive :: string where "ConditionTypeActive = ''Active''"
definition ConditionTypeFailed :: string where "ConditionTypeFailed = ''Failed''"

definition ReasonInferenceServiceCreating :: string where
  "ReasonInferenceServiceCreating = ''InferenceServiceCreating''"
definition ReasonInferenceServiceProcessing :: string where
  "ReasonInferenceServiceProcessing = ''InferenceServiceProcessing''"
definition ReasonInferenceServiceAvailable :: string where
  "ReasonInferenceServiceAvailable = ''InferenceServiceAvailable''"
definition ReasonInferenceServiceFailed :: string where
  "ReasonInferenceServiceFailed = ''InferenceServiceFailed''"

lemmas condition_types =
  ConditionTypeInitialized_def ConditionTypeActive_def ConditionTypeFailed_def

lemmas condition_reasons =
  ReasonInferenceServiceCreating_def ReasonInferenceServiceProcessing_def
  ReasonInferenceServiceAvailable_def ReasonInferenceServiceFailed_def

lemma condition_types_distinct [simp]:
  "ConditionTypeInitialized \<noteq> ConditionTypeActive" "ConditionTypeActive \<noteq> ConditionTypeInitialized"
  "ConditionTypeInitialized \<noteq> ConditionTypeFailed" "ConditionTypeFailed \<noteq> ConditionTypeInitialized"
  "ConditionTypeActive \<noteq> ConditionTypeFailed" "ConditionTypeFailed \<noteq> ConditionTypeActive"
  by (simp_all add: condition_types)

definition ConditionTrue :: string where "ConditionTrue = ''True''"
definition ConditionFalse :: string where "ConditionFalse = ''False''"

lemma condition_statuses_distinct [simp]:
  "ConditionTrue \<noteq> ConditionFalse" "ConditionFalse \<noteq> ConditionTrue"
  by (simp_all add: ConditionTrue_def ConditionFalse_def)

subsection \<open>The setters\<close>

definition newCondition :: "string \<Rightarrow> string \<Rightarrow> string \<Rightarrow> string \<Rightarrow> time \<Rightarrow> condition" where
  "newCondition type status reason message now =
     \<lparr>cond_Type = type, cond_Status = status, cond_ObservedGeneration = 0,
      cond_LastTransitionTime = now, cond_Reason = reason, cond_Message = message\<rparr>"

text \<open>
  \<open>meta.SetStatusCondition(&inferSvc.Status.Conditions, c)\<close>, then
  \<open>inferSvc.Status.ObservedGeneration = inferSvc.Generation\<close>.
\<close>

definition setCondition :: "externals \<Rightarrow> condition \<Rightarrow> inference_service \<Rightarrow> inference_service" where
  "setCondition X c svc =
     svc\<lparr>isvc_Status := (isvc_Status svc)
       \<lparr>Conditions := ext_SetStatusCondition X (Conditions (isvc_Status svc)) c,
        ObservedGeneration := meta_Generation (isvc_Meta svc)\<rparr>\<rparr>"

definition setInitCondition :: "externals \<Rightarrow> time \<Rightarrow> inference_service \<Rightarrow> inference_service" where
  "setInitCondition X now =
     setCondition X (newCondition ConditionTypeInitialized ConditionTrue ReasonInferenceServiceCreating
       ''InferenceService initialized'' now)"

definition setProcessingCondition :: "externals \<Rightarrow> time \<Rightarrow> inference_service \<Rightarrow> inference_service" where
  "setProcessingCondition X now =
     setCondition X (newCondition ConditionTypeActive ConditionFalse ReasonInferenceServiceProcessing
       ''InferenceService is being reconciled'' now)"

definition setFailedCondition ::
  "externals \<Rightarrow> time \<Rightarrow> inference_service \<Rightarrow> error \<Rightarrow> inference_service" where
  "setFailedCondition X now svc err =
     setCondition X (newCondition ConditionTypeFailed ConditionTrue ReasonInferenceServiceFailed
       (error_message err) now) svc"

definition setActiveCondition :: "externals \<Rightarrow> time \<Rightarrow> inference_service \<Rightarrow> inference_service" where
  "setActiveCondition X now =
     setCondition X (newCondition ConditionTypeActive ConditionTrue ReasonInferenceServiceAvailable
       ''InferenceService is ready'' now)"

lemmas condition_setters =
  setInitCondition_def setProcessingCondition_def setFailedCondition_def setActiveCondition_def
  newCondition_def

subsection \<open>meta.SetStatusCondition\<close>

definition find_condition :: "condition list \<Rightarrow> string \<Rightarrow> condition option" where
  "find_condition cs t = find (\<lambda>c. cond_Type c = t) cs"

lemma find_condition_simps [simp]:
  "find_condition [] t = None"
  "find_condition (c # cs) t = (if cond_Type c = t then Some c else find_condition cs t)"
  by (simp_all add: find_condition_def)

definition transition_time :: "condition option \<Rightarrow> condition \<Rightarrow> time" where
  "transition_time old c =
     (case old of
        None \<Rightarrow> cond_LastTransitionTime c
      | Some o' \<Rightarrow> if cond_Status o' = cond_Status c then cond_LastTransitionTime o'
                  else cond_LastTransitionTime c)"

text \<open>
  Its documentation: the condition of the given type gets all the given fields, except that
  \<open>LastTransitionTime\<close> stays unless the status changes; a condition of a new type is added; the other
  conditions stay.
\<close>

definition condition_laws :: "externals \<Rightarrow> bool" where
  "condition_laws X \<longleftrightarrow>
     (\<forall>cs c t. find_condition (ext_SetStatusCondition X cs c) t =
        (if t = cond_Type c
         then Some (c\<lparr>cond_LastTransitionTime := transition_time (find_condition cs t) c\<rparr>)
         else find_condition cs t))"

fun upsert_condition :: "condition list \<Rightarrow> condition \<Rightarrow> condition list" where
  "upsert_condition [] c = [c]"
| "upsert_condition (o' # cs) c =
     (if cond_Type o' = cond_Type c
      then c\<lparr>cond_LastTransitionTime := transition_time (Some o') c\<rparr> # cs
      else o' # upsert_condition cs c)"

lemma upsert_condition_find:
  "find_condition (upsert_condition cs c) t =
     (if t = cond_Type c
      then Some (c\<lparr>cond_LastTransitionTime := transition_time (find_condition cs t) c\<rparr>)
      else find_condition cs t)"
  by (induction cs) (auto simp: transition_time_def)

text \<open>A condition that is already as it would be written is left where it is.\<close>

definition condition_stable :: "externals \<Rightarrow> bool" where
  "condition_stable X \<longleftrightarrow>
     (\<forall>cs c. find_condition cs (cond_Type c) =
          Some (c\<lparr>cond_LastTransitionTime := transition_time (find_condition cs (cond_Type c)) c\<rparr>) \<longrightarrow>
        ext_SetStatusCondition X cs c = cs)"

lemma upsert_condition_same:
  "find_condition cs (cond_Type c) =
     Some (c\<lparr>cond_LastTransitionTime := transition_time (find_condition cs (cond_Type c)) c\<rparr>) \<Longrightarrow>
   upsert_condition cs c = cs"
  by (induction cs) (auto split: if_splits)

lemma upsert_condition_stable:
  "ext_SetStatusCondition X = upsert_condition \<Longrightarrow> condition_stable X"
  by (simp add: condition_stable_def upsert_condition_same)

lemma upsert_condition_laws:
  "ext_SetStatusCondition X = upsert_condition \<Longrightarrow> condition_laws X"
  by (simp add: condition_laws_def upsert_condition_find)

subsection \<open>What the setters change\<close>

text \<open>The status of a condition, empty if there is none.\<close>

definition status_of :: "condition list \<Rightarrow> string \<Rightarrow> string" where
  "status_of cs t = (case find_condition cs t of None \<Rightarrow> '''' | Some c \<Rightarrow> cond_Status c)"

abbreviation isvc_Conditions :: "inference_service \<Rightarrow> condition list" where
  "isvc_Conditions svc \<equiv> Conditions (isvc_Status svc)"

lemma setCondition_simps [simp]:
  "isvc_Meta (setCondition X c svc) = isvc_Meta svc"
  "isvc_Spec (setCondition X c svc) = isvc_Spec svc"
  "isvc_Conditions (setCondition X c svc) = ext_SetStatusCondition X (isvc_Conditions svc) c"
  "Components (isvc_Status (setCondition X c svc)) = Components (isvc_Status svc)"
  "ObservedGeneration (isvc_Status (setCondition X c svc)) = meta_Generation (isvc_Meta svc)"
  by (simp_all add: setCondition_def)

lemma setters_keep [simp]:
  "isvc_Meta (setInitCondition X now svc) = isvc_Meta svc"
  "isvc_Meta (setProcessingCondition X now svc) = isvc_Meta svc"
  "isvc_Meta (setFailedCondition X now svc e) = isvc_Meta svc"
  "isvc_Meta (setActiveCondition X now svc) = isvc_Meta svc"
  "isvc_Spec (setInitCondition X now svc) = isvc_Spec svc"
  "isvc_Spec (setProcessingCondition X now svc) = isvc_Spec svc"
  "isvc_Spec (setFailedCondition X now svc e) = isvc_Spec svc"
  "isvc_Spec (setActiveCondition X now svc) = isvc_Spec svc"
  "Components (isvc_Status (setInitCondition X now svc)) = Components (isvc_Status svc)"
  "Components (isvc_Status (setProcessingCondition X now svc)) = Components (isvc_Status svc)"
  "Components (isvc_Status (setFailedCondition X now svc e)) = Components (isvc_Status svc)"
  "Components (isvc_Status (setActiveCondition X now svc)) = Components (isvc_Status svc)"
  "ObservedGeneration (isvc_Status (setProcessingCondition X now svc)) = meta_Generation (isvc_Meta svc)"
  "ObservedGeneration (isvc_Status (setFailedCondition X now svc e)) = meta_Generation (isvc_Meta svc)"
  "ObservedGeneration (isvc_Status (setActiveCondition X now svc)) = meta_Generation (isvc_Meta svc)"
  by (simp_all add: condition_setters)

lemma setters_status:
  assumes "condition_laws X"
  shows
  "status_of (isvc_Conditions (setInitCondition X now svc)) t =
     (if t = ConditionTypeInitialized then ConditionTrue else status_of (isvc_Conditions svc) t)"
  "status_of (isvc_Conditions (setProcessingCondition X now svc)) t =
     (if t = ConditionTypeActive then ConditionFalse else status_of (isvc_Conditions svc) t)"
  "status_of (isvc_Conditions (setFailedCondition X now svc e)) t =
     (if t = ConditionTypeFailed then ConditionTrue else status_of (isvc_Conditions svc) t)"
  "status_of (isvc_Conditions (setActiveCondition X now svc)) t =
     (if t = ConditionTypeActive then ConditionTrue else status_of (isvc_Conditions svc) t)"
  using assms by (simp_all add: condition_laws_def status_of_def condition_setters)

end
