(* ===== verification/Controller.thy ===== *)
theory Controller
  imports Conditions "HOL-Library.AList"
begin

section \<open>pkg/controller/inferenceservice_controller.go: the reconciler\<close>

text \<open>
  \<open>Reconcile\<close> and the methods it calls, as operations on the state of an API server \<open>A\<close> (the record
  \<open>api\<close>). Logging is left out. A Go panic ends the operation with \<open>Panic\<close>.
  \<^item> \<open>reconcileChildren\<close> is steps 3 to 6 of \<open>Reconcile\<close>: the PodGroup, the LeaderWorkerSets of each
    role, then the router; an error ends it, as \<open>reconcileErr\<close> does in the code.
  \<^item> The loop \<open>for i := int32(0); i < n; i++\<close> runs over \<open>int32_range n\<close>.
  \<^item> \<open>desiredLWSNames\<close>, a Go map to booleans, is a set of strings.
\<close>

subsection \<open>PodGroup\<close>

definition reconcilePodGroup :: "externals \<Rightarrow> 's api \<Rightarrow> inference_service \<Rightarrow> ('s, unit) op" where
  "reconcilePodGroup X A svc =
     (if \<not> NeedsGangScheduling svc then return_op ()
      else bind_op
        (wrap_op ''failed to set owner reference on PodGroup: ''
          (set_owner A podgroup_ops (isvc_Meta svc) (BuildPodGroup X svc)))
        (createOrUpdate A podgroup_ops))"

subsection \<open>LeaderWorkerSets\<close>

definition replicaConfig :: "inference_service \<Rightarrow> role \<Rightarrow> bool \<Rightarrow> int32 \<Rightarrow> lws_config" where
  "replicaConfig svc role needsGangScheduling i =
     (let config = \<lparr>PodGroupName = '''', TaskName = '''', NeedsGangSchedulingCfg = needsGangScheduling,
                    ReplicaIndex = Some i\<rparr>
      in if needsGangScheduling
         then config\<lparr>PodGroupName := GeneratePodGroupName (isvc_Name svc),
                     TaskName := GenerateTaskName (role_Name role) i\<rparr>
         else config)"

definition reconcileReplica ::
  "externals \<Rightarrow> 's api \<Rightarrow> inference_service \<Rightarrow> role \<Rightarrow> bool \<Rightarrow> int32 \<Rightarrow> string set \<Rightarrow> ('s, string set) op" where
  "reconcileReplica X A svc role needsGangScheduling i desired =
     (case BuildLWS X svc role (replicaConfig svc role needsGangScheduling i) of
        None \<Rightarrow> panic_op
      | Some l \<Rightarrow>
          bind_op
            (wrap_op ''failed to set owner reference on LWS: '' (set_owner A lws_ops (isvc_Meta svc) l))
            (\<lambda>owned. bind_op (createOrUpdate A lws_ops owned)
              (\<lambda>_. return_op (insert (meta_Name (lws_Meta l)) desired))))"

definition deleteOrphan :: "'s api \<Rightarrow> string set \<Rightarrow> lws \<Rightarrow> unit \<Rightarrow> ('s, unit) op" where
  "deleteOrphan A desired existing _ =
     (if meta_Name (lws_Meta existing) \<in> desired then return_op ()
      else (\<lambda>s. case api_Delete A (ObjLWS existing) s of
          (Inr _, s') \<Rightarrow> (Ok (), s')
        | (Inl err, s') \<Rightarrow>
            if IsNotFound err then (Ok (), s')
            else (Err (Wrapped (''failed to delete orphan LWS '' @ meta_Name (lws_Meta existing) @ '': '') err),
                  s')))"

definition cleanupOrphanLWS :: "'s api \<Rightarrow> inference_service \<Rightarrow> role \<Rightarrow> string set \<Rightarrow> ('s, unit) op" where
  "cleanupOrphanLWS A svc role desired =
     bind_op
       (wrap_op ''failed to list LWS for cleanup: ''
         (call_op (api_ListLWS A (isvc_Namespace svc)
           [(LabelService, isvc_Name svc), (LabelRoleName, role_Name role)])))
       (\<lambda>items. loop_op (deleteOrphan A desired) items ())"

definition reconcileLWS :: "externals \<Rightarrow> 's api \<Rightarrow> inference_service \<Rightarrow> role \<Rightarrow> ('s, unit) op" where
  "reconcileLWS X A svc role =
     (let replicas = GetReplicaCount role;
          needsGangScheduling = NeedsGangSchedulingForRole svc role
      in bind_op
           (loop_op (reconcileReplica X A svc role needsGangScheduling) (int32_range replicas) {})
           (cleanupOrphanLWS A svc role))"

subsection \<open>Router\<close>

definition reconcileEPPServiceAccount :: "'s api \<Rightarrow> inference_service \<Rightarrow> ('s, unit) op" where
  "reconcileEPPServiceAccount A svc =
     bind_op (set_owner A serviceaccount_ops (isvc_Meta svc) (BuildEPPServiceAccount svc))
       (createIfMissing A serviceaccount_ops)"

definition reconcileEPPRole :: "externals \<Rightarrow> 's api \<Rightarrow> inference_service \<Rightarrow> ('s, unit) op" where
  "reconcileEPPRole X A svc = ensure A role_ops (isvc_Meta svc) (BuildEPPRole X svc)"

definition reconcileEPPRoleBinding :: "externals \<Rightarrow> 's api \<Rightarrow> inference_service \<Rightarrow> ('s, unit) op" where
  "reconcileEPPRoleBinding X A svc = ensure A rolebinding_ops (isvc_Meta svc) (BuildEPPRoleBinding X svc)"

definition reconcileEPPConfigMap :: "externals \<Rightarrow> 's api \<Rightarrow> inference_service \<Rightarrow> role \<Rightarrow> ('s, unit) op" where
  "reconcileEPPConfigMap X A svc role =
     ensure A configmap_ops (isvc_Meta svc) (BuildEPPConfigMap X svc role)"

definition reconcileEPPDeployment :: "externals \<Rightarrow> 's api \<Rightarrow> inference_service \<Rightarrow> ('s, unit) op" where
  "reconcileEPPDeployment X A svc = ensure A deployment_ops (isvc_Meta svc) (BuildEPPDeployment X svc)"

definition reconcileEPPService :: "externals \<Rightarrow> 's api \<Rightarrow> inference_service \<Rightarrow> ('s, unit) op" where
  "reconcileEPPService X A svc = ensure A service_ops (isvc_Meta svc) (BuildEPPService X svc)"

definition reconcileInferencePool ::
  "externals \<Rightarrow> 's api \<Rightarrow> inference_service \<Rightarrow> role list \<Rightarrow> ('s, unit) op" where
  "reconcileInferencePool X A svc workerRoles =
     ensure A pool_ops (isvc_Meta svc) (BuildInferencePool X svc workerRoles)"

definition reconcileHTTPRoute :: "externals \<Rightarrow> 's api \<Rightarrow> inference_service \<Rightarrow> role \<Rightarrow> ('s, unit) op" where
  "reconcileHTTPRoute X A svc role = ensure A route_ops (isvc_Meta svc) (BuildHTTPRoute X svc role)"

definition reconcileRouter ::
  "externals \<Rightarrow> 's api \<Rightarrow> inference_service \<Rightarrow> role \<Rightarrow> role list \<Rightarrow> ('s, unit) op" where
  "reconcileRouter X A svc role workerRoles =
     bind_op (wrap_op ''failed to reconcile EPP ServiceAccount: '' (reconcileEPPServiceAccount A svc)) (\<lambda>_.
     bind_op (wrap_op ''failed to reconcile EPP Role: '' (reconcileEPPRole X A svc)) (\<lambda>_.
     bind_op (wrap_op ''failed to reconcile EPP RoleBinding: '' (reconcileEPPRoleBinding X A svc)) (\<lambda>_.
     bind_op (wrap_op ''failed to reconcile EPP ConfigMap: '' (reconcileEPPConfigMap X A svc role)) (\<lambda>_.
     bind_op (wrap_op ''failed to reconcile EPP Deployment: '' (reconcileEPPDeployment X A svc)) (\<lambda>_.
     bind_op (wrap_op ''failed to reconcile EPP Service: '' (reconcileEPPService X A svc)) (\<lambda>_.
     bind_op (wrap_op ''failed to reconcile InferencePool: '' (reconcileInferencePool X A svc workerRoles)) (\<lambda>_.
     wrap_op ''failed to reconcile HTTPRoute: '' (reconcileHTTPRoute X A svc role))))))))"

subsection \<open>Component status\<close>

record aggregate =
  agg_ReadyReplicas :: int32
  agg_ReadyPods :: int32
  agg_AllPending :: bool
  agg_AnyRunning :: bool

text \<open>One pass of the loop in \<open>aggregateLWSStatus\<close>: \<open>got\<close> is the result of \<open>Get\<close>.\<close>

definition addLWSStatus :: "int32 \<Rightarrow> lws_status option \<Rightarrow> aggregate \<Rightarrow> aggregate" where
  "addLWSStatus nodesPerReplica got agg =
     (case got of
        None \<Rightarrow> agg
      | Some status \<Rightarrow>
          (let agg = (if sint (lwsst_ReadyReplicas status) \<ge> 1
                      then agg\<lparr>agg_ReadyReplicas := agg_ReadyReplicas agg + 1, agg_AnyRunning := True\<rparr>
                      else agg);
               agg = (if sint (lwsst_Replicas status) > 0 then agg\<lparr>agg_AllPending := False\<rparr> else agg)
           in agg\<lparr>agg_ReadyPods := agg_ReadyPods agg + lwsst_ReadyReplicas status * nodesPerReplica\<rparr>))"

definition initialAggregate :: aggregate where
  "initialAggregate = \<lparr>agg_ReadyReplicas = 0, agg_ReadyPods = 0, agg_AllPending = True, agg_AnyRunning = False\<rparr>"

definition aggregatePhase :: "int32 \<Rightarrow> aggregate \<Rightarrow> ComponentPhase" where
  "aggregatePhase desiredReplicas agg =
     (if sint (agg_ReadyReplicas agg) \<ge> sint desiredReplicas then PhaseRunning
      else if agg_AnyRunning agg \<or> \<not> agg_AllPending agg then PhaseDeploying
      else PhasePending)"

definition getLWSStatus ::
  "'s api \<Rightarrow> inference_service \<Rightarrow> role \<Rightarrow> int32 \<Rightarrow> 's \<Rightarrow> lws_status option \<times> 's" where
  "getLWSStatus A svc role i s =
     (case typed_get A lws_ops (isvc_Namespace svc)
             (GenerateLWSNameWithIndex (isvc_Name svc) (role_Name role) (Some i)) s of
        (Inl err, s') \<Rightarrow> (None, s')
      | (Inr l, s') \<Rightarrow> (Some (lws_Status l), s'))"

fun aggregateLoop ::
  "'s api \<Rightarrow> inference_service \<Rightarrow> role \<Rightarrow> int32 list \<Rightarrow> aggregate \<Rightarrow> 's \<Rightarrow> aggregate \<times> 's" where
  "aggregateLoop A svc role [] agg s = (agg, s)"
| "aggregateLoop A svc role (i # is) agg s =
     (case getLWSStatus A svc role i s of
        (got, s') \<Rightarrow> aggregateLoop A svc role is (addLWSStatus (GetNodeCount role) got agg) s')"

definition aggregateLWSStatus ::
  "'s api \<Rightarrow> inference_service \<Rightarrow> role \<Rightarrow> 's \<Rightarrow> component_status \<times> 's" where
  "aggregateLWSStatus A svc role s =
     (let desiredReplicas = GetReplicaCount role
      in case aggregateLoop A svc role (int32_range desiredReplicas) initialAggregate s of
           (agg, s') \<Rightarrow>
             (\<lparr>cs_DesiredReplicas = 0, cs_ReadyReplicas = agg_ReadyReplicas agg, cs_NodesPerReplica = 0,
               cs_TotalPods = 0, cs_ReadyPods = agg_ReadyPods agg,
               cs_Phase = aggregatePhase desiredReplicas agg, cs_LastUpdateTime = None\<rparr>, s'))"

fun componentsLoop ::
  "'s api \<Rightarrow> inference_service \<Rightarrow> role list \<Rightarrow> (string \<times> component_status) list \<Rightarrow> 's \<Rightarrow>
     (string \<times> component_status) list \<times> 's" where
  "componentsLoop A svc [] components s = (components, s)"
| "componentsLoop A svc (role # roles) components s =
     (if role_ComponentType role = ComponentTypeRouter then componentsLoop A svc roles components s
      else
        let nodesPerReplica = GetNodeCount role;
            desiredReplicas = GetReplicaCount role;
            (status, s) = aggregateLWSStatus A svc role s;
            (now, s) = api_Now A s;
            status = status\<lparr>cs_NodesPerReplica := nodesPerReplica, cs_DesiredReplicas := desiredReplicas,
              cs_TotalPods := desiredReplicas * nodesPerReplica, cs_LastUpdateTime := Some now\<rparr>
        in componentsLoop A svc roles (AList.update (role_Name role) status components) s)"

definition updateComponentStatusInMemory :: "'s api \<Rightarrow> inference_service \<Rightarrow> 's \<Rightarrow> inference_service \<times> 's" where
  "updateComponentStatusInMemory A svc s =
     (case componentsLoop A svc (isvc_Roles svc) [] s of
        (components, s') \<Rightarrow>
          (svc\<lparr>isvc_Status := (isvc_Status svc)\<lparr>Components := components\<rparr>\<rparr>, s'))"

definition checkAllComponentsReady :: "inference_service \<Rightarrow> bool" where
  "checkAllComponentsReady svc =
     (if Components (isvc_Status svc) = [] then False
      else list_all (\<lambda>(name, status). cs_Phase status = PhaseRunning) (Components (isvc_Status svc)))"

subsection \<open>Reconcile\<close>

definition isWorkerType :: "ComponentType \<Rightarrow> bool" where
  "isWorkerType t = (t = ComponentTypeWorker \<or> t = ComponentTypePrefiller \<or> t = ComponentTypeDecoder)"

definition reconcileRole ::
  "externals \<Rightarrow> 's api \<Rightarrow> inference_service \<Rightarrow> role \<Rightarrow> role list \<Rightarrow> ('s, role list) op" where
  "reconcileRole X A svc role workerRoles =
     (if isWorkerType (role_ComponentType role)
      then bind_op (reconcileLWS X A svc role) (\<lambda>_. return_op (workerRoles @ [role]))
      else return_op workerRoles)"

definition reconcileRouterRole ::
  "externals \<Rightarrow> 's api \<Rightarrow> inference_service \<Rightarrow> role list \<Rightarrow> role \<Rightarrow> unit \<Rightarrow> ('s, unit) op" where
  "reconcileRouterRole X A svc workerRoles role _ =
     (if role_ComponentType role = ComponentTypeRouter then reconcileRouter X A svc role workerRoles
      else return_op ())"

definition reconcileChildren :: "externals \<Rightarrow> 's api \<Rightarrow> inference_service \<Rightarrow> ('s, unit) op" where
  "reconcileChildren X A svc =
     bind_op (reconcilePodGroup X A svc) (\<lambda>_.
     bind_op (loop_op (reconcileRole X A svc) (isvc_Roles svc) []) (\<lambda>workerRoles.
     loop_op (reconcileRouterRole X A svc workerRoles) (isvc_Roles svc) ()))"

text \<open>Step 2: the Init condition, the first time.\<close>

definition initialise :: "externals \<Rightarrow> 's api \<Rightarrow> inference_service \<Rightarrow> 's \<Rightarrow> inference_service \<times> 's" where
  "initialise X A svc s =
     (if isvc_Conditions svc = [] then (case api_Now A s of (now, s') \<Rightarrow> (setInitCondition X now svc, s'))
      else (svc, s))"

text \<open>Steps 7 to 10: the status is computed in memory and written once; the error is returned.\<close>

definition setFinalCondition :: "externals \<Rightarrow> time \<Rightarrow> error option \<Rightarrow> inference_service \<Rightarrow> inference_service" where
  "setFinalCondition X now reconcileErr svc =
     (case reconcileErr of
        Some err \<Rightarrow> setFailedCondition X now svc err
      | None \<Rightarrow> if checkAllComponentsReady svc then setActiveCondition X now svc
                else setProcessingCondition X now svc)"

definition finishReconcile ::
  "externals \<Rightarrow> 's api \<Rightarrow> inference_service \<Rightarrow> error option \<Rightarrow> ('s, unit) op" where
  "finishReconcile X A svc reconcileErr s =
     (let (svc, s) = updateComponentStatusInMemory A svc s;
          (now, s) = api_Now A s;
          svc = setFinalCondition X now reconcileErr svc
      in case api_StatusUpdate A svc s of
           (Inl err, s) \<Rightarrow> (Err err, s)
         | (Inr _, s) \<Rightarrow> (case reconcileErr of Some err \<Rightarrow> (Err err, s) | None \<Rightarrow> (Ok (), s)))"

definition Reconcile :: "externals \<Rightarrow> 's api \<Rightarrow> string \<Rightarrow> string \<Rightarrow> ('s, unit) op" where
  "Reconcile X A ns n s =
     (case typed_get A inferencesvc_ops ns n s of
        (Inl err, s) \<Rightarrow> if IsNotFound err then (Ok (), s) else (Err err, s)
      | (Inr svc, s) \<Rightarrow>
          (case initialise X A svc s of
             (svc, s) \<Rightarrow>
               (case reconcileChildren X A svc s of
                  (Panic, s) \<Rightarrow> (Panic, s)
                | (Err err, s) \<Rightarrow> finishReconcile X A svc (Some err) s
                | (Ok _, s) \<Rightarrow> finishReconcile X A svc None s)))"

text \<open>\<open>modelloader_controller.go\<close>: the ModelLoader controller does nothing yet.\<close>

definition ModelLoaderReconcile :: "'s api \<Rightarrow> string \<Rightarrow> string \<Rightarrow> ('s, unit) op" where
  "ModelLoaderReconcile A ns n = return_op ()"

end
