(* ===== verification/Convergence.thy ===== *)
theory Convergence
  imports Controller
begin

section \<open>What one reconciliation achieves\<close>

text \<open>
  The specification of the reconciler is a predicate on the stored objects: \<open>converged X svc v\<close> says
  that the PodGroup, every replica of every worker role and the router objects are stored with the
  wanted spec hash, and that no LeaderWorkerSet labelled with a role of the service is left over.
  In the locale \<open>cluster\<close> it is shown that
  \<^item> \<open>reconcileChildren\<close> ends without an error in a converged store (\<open>children_converge\<close>),
  \<^item> it changes nothing else (\<open>children_frame\<close>), and
  \<^item> it changes nothing at all in a converged store (\<open>children_idempotent\<close>).
  The effect of one role is described by \<open>role_effect\<close>, a sequence of objects by \<open>settles_seq\<close>.
\<close>

text \<open>Keys are triples that are best left alone.\<close>

declare split_paired_All [simp del] split_paired_Ex [simp del]

subsection \<open>Sequences of settled objects\<close>

fun settles_seq :: "(key \<times> label_map) list \<Rightarrow> (key \<rightharpoonup> kobj) \<Rightarrow> (key \<rightharpoonup> kobj) \<Rightarrow> bool" where
  "settles_seq [] v v' = (v' = v)"
| "settles_seq ((k, ls) # ps) v v' = (\<exists>v1. settles k ls v v1 \<and> settles_seq ps v1 v')"

lemma settles_seq_other:
  "settles_seq ps v v' \<Longrightarrow> k \<notin> fst ` set ps \<Longrightarrow> v' k = v k"
proof (induction ps arbitrary: v)
  case (Cons p ps)
  then show ?case by (cases p) (auto simp: settles_other)
qed simp

text \<open>An object written by a sequence: it has the wanted hash, and the wanted labels if it changed.\<close>

definition written :: "key \<Rightarrow> label_map \<Rightarrow> (key \<rightharpoonup> kobj) \<Rightarrow> (key \<rightharpoonup> kobj) \<Rightarrow> bool" where
  "written k ls v v' \<longleftrightarrow>
     settled k ls v' \<and> (v' k = v k \<or> (\<exists>ob. v' k = Some ob \<and> kobj_labels ob = ls))"

lemma written_settled: "written k ls v v' \<Longrightarrow> settled k ls v'"
  by (simp add: written_def)

lemma settles_written: "settles k ls v v' \<Longrightarrow> written k ls v v'"
  by (auto simp: settles_def written_def settled_def)

lemma written_later: "written k ls v v1 \<Longrightarrow> v2 k = v1 k \<Longrightarrow> written k ls v v2"
  by (auto simp: written_def settled_def)

lemma written_earlier: "written k ls v1 v2 \<Longrightarrow> v1 k = v k \<Longrightarrow> written k ls v v2"
  by (auto simp: written_def)

lemma settles_seq_written:
  "settles_seq ps v v' \<Longrightarrow> distinct (map fst ps) \<Longrightarrow> (k, ls) \<in> set ps \<Longrightarrow> written k ls v v'"
proof (induction ps arbitrary: v)
  case (Cons p ps)
  obtain k0 ls0 where p: "p = (k0, ls0)" by (cases p)
  with Cons.prems obtain v1 where v1: "settles k0 ls0 v v1" "settles_seq ps v1 v'" by auto
  show ?case
  proof (cases "(k, ls) = (k0, ls0)")
    case True
    then have "v' k = v1 k" using settles_seq_other [OF v1(2), of k] Cons.prems(2) p by simp
    with True v1(1) show ?thesis using settles_written written_later by blast
  next
    case False
    with Cons.prems p have mem: "(k, ls) \<in> set ps" by auto
    with Cons.prems(2) p have "k \<noteq> k0" by (auto simp: image_iff)
    with v1 Cons mem p show ?thesis
      using written_earlier [of k ls v1 v' v] settles_other [OF v1(1), of k] by simp
  qed
qed simp

subsection \<open>What is wanted\<close>

definition lws_key :: "inference_service \<Rightarrow> role \<Rightarrow> int32 \<Rightarrow> key" where
  "lws_key svc role i =
     (KindLWS, isvc_Namespace svc, GenerateLWSNameWithIndex (isvc_Name svc) (role_Name role) (Some i))"

definition replica_lws :: "externals \<Rightarrow> inference_service \<Rightarrow> role \<Rightarrow> int32 \<Rightarrow> lws option" where
  "replica_lws X svc role i =
     BuildLWS X svc role (replicaConfig svc role (NeedsGangSchedulingForRole svc role) i)"

definition replica_labels :: "externals \<Rightarrow> inference_service \<Rightarrow> role \<Rightarrow> int32 \<Rightarrow> label_map" where
  "replica_labels X svc role i =
     (case replica_lws X svc role i of None \<Rightarrow> Map.empty | Some l \<Rightarrow> meta_Labels (lws_Meta l))"

abbreviation replicas_of :: "role \<Rightarrow> int32 list" where
  "replicas_of role \<equiv> int32_range (GetReplicaCount role)"

text \<open>The template of a multi-node role has a container, so that \<open>BuildLWS\<close> does not panic.\<close>

definition buildable :: "externals \<Rightarrow> inference_service \<Rightarrow> role \<Rightarrow> bool" where
  "buildable X svc role \<longleftrightarrow>
     \<not> IsMultiNode role \<or> pod_Containers (buildPodSpec X role (NeedsGangSchedulingForRole svc role)) \<noteq> []"

lemma replicaConfig_simps [simp]:
  "NeedsGangSchedulingCfg (replicaConfig svc role g i) = g"
  "ReplicaIndex (replicaConfig svc role g i) = Some i"
  by (simp_all add: replicaConfig_def Let_def)

lemma buildable_lws: "buildable X svc role \<Longrightarrow> \<exists>l. replica_lws X svc role i = Some l"
  using BuildLWS_panics_iff [of X svc role "replicaConfig svc role (NeedsGangSchedulingForRole svc role) i"]
  by (cases "replica_lws X svc role i") (auto simp: replica_lws_def buildable_def)

lemma replica_lws_key:
  assumes "replica_lws X svc role i = Some l"
  shows "lws_kind.key_of l = lws_key svc role i"
    and "meta_Name (lws_Meta l) = snd (snd (lws_key svc role i))"
    and "replica_labels X svc role i = meta_Labels (lws_Meta l)"
  using BuildLWS_meta [OF assms [unfolded replica_lws_def]] assms
  by (simp_all add: lws_key_def replica_labels_def kind_keys)

lemma lws_key_inject:
  "0 \<le> sint i \<Longrightarrow> 0 \<le> sint j \<Longrightarrow>
    lws_key svc role i = lws_key svc role' j \<longleftrightarrow> role_Name role = role_Name role' \<and> i = j"
  by (simp add: lws_key_def lws_name_inject)

definition role_selector :: "inference_service \<Rightarrow> role \<Rightarrow> (string \<times> string) list" where
  "role_selector svc role = [(LabelService, isvc_Name svc), (LabelRoleName, role_Name role)]"

lemma replica_labels_match:
  assumes "replica_lws X svc role i = Some l"
  shows "labels_match (role_selector svc role') (replica_labels X svc role i) \<longleftrightarrow>
    role_Name role = role_Name role'"
  using BuildLWS_meta [OF assms [unfolded replica_lws_def]] assms
  by (simp add: role_selector_def replica_labels_def)

text \<open>The stored LeaderWorkerSets that carry the labels of a role.\<close>

definition carries_role :: "inference_service \<Rightarrow> role \<Rightarrow> key \<Rightarrow> kobj option \<Rightarrow> bool" where
  "carries_role svc role k stored \<longleftrightarrow>
     (\<exists>n l. k = (KindLWS, isvc_Namespace svc, n) \<and> stored = Some (ObjLWS l) \<and>
        labels_match (role_selector svc role) (meta_Labels (lws_Meta l)))"

definition role_keys :: "inference_service \<Rightarrow> role \<Rightarrow> key set" where
  "role_keys svc role = lws_key svc role ` set (replicas_of role)"

definition role_ok :: "externals \<Rightarrow> inference_service \<Rightarrow> role \<Rightarrow> (key \<rightharpoonup> kobj) \<Rightarrow> bool" where
  "role_ok X svc role v \<longleftrightarrow>
     (\<forall>i \<in> set (replicas_of role). settled (lws_key svc role i) (replica_labels X svc role i) v) \<and>
     (\<forall>k. carries_role svc role k (v k) \<longrightarrow> k \<in> role_keys svc role)"

definition role_effect ::
  "externals \<Rightarrow> inference_service \<Rightarrow> role \<Rightarrow> (key \<rightharpoonup> kobj) \<Rightarrow> (key \<rightharpoonup> kobj) \<Rightarrow> bool" where
  "role_effect X svc role v v' \<longleftrightarrow>
     (\<forall>i \<in> set (replicas_of role). written (lws_key svc role i) (replica_labels X svc role i) v v') \<and>
     (\<forall>k. k \<notin> role_keys svc role \<longrightarrow> v' k = (if carries_role svc role k (v k) then None else v k))"

lemma role_effect_rest:
  "role_effect X svc role v v' \<Longrightarrow> k \<notin> role_keys svc role \<Longrightarrow>
    v' k = (if carries_role svc role k (v k) then None else v k)"
  unfolding role_effect_def by blast

lemma role_effect_same:
  "role_effect X svc role v v' \<Longrightarrow> k \<notin> role_keys svc role \<Longrightarrow> carries_role svc role' k (v' k) \<Longrightarrow> v' k = v k"
  using role_effect_rest [of X svc role v v' k] by (auto simp: carries_role_def split: if_splits)

lemma role_effect_ok: "role_effect X svc role v v' \<Longrightarrow> role_ok X svc role v'"
  unfolding role_effect_def role_ok_def carries_role_def
  by (metis option.distinct(1) written_settled)

subsection \<open>One role\<close>

context cluster
begin

lemma reconcileReplica_settles:
  assumes "replica_lws X svc role i = Some l"
  shows "\<exists>s'. reconcileReplica X A svc role (NeedsGangSchedulingForRole svc role) i D s =
      (Ok (insert (snd (snd (lws_key svc role i))) D), s') \<and>
    settles (lws_key svc role i) (replica_labels X svc role i) (view s) (view s')"
  using workloads.own_and_settle [of "isvc_Meta svc" l s] assms replica_lws_key [OF assms]
  by (auto simp: reconcileReplica_def replica_lws_def calls)

lemma reconcileReplica_settled:
  assumes "replica_lws X svc role i = Some l"
    and "settled (lws_key svc role i) (replica_labels X svc role i) (view s)"
  shows "\<exists>s'. reconcileReplica X A svc role (NeedsGangSchedulingForRole svc role) i D s =
      (Ok (insert (snd (snd (lws_key svc role i))) D), s') \<and> view s' = view s"
  using workloads.own_and_settled [of l s "isvc_Meta svc"] assms replica_lws_key [OF assms(1)]
  by (auto simp: reconcileReplica_def replica_lws_def calls)

lemma replica_loop_settles:
  assumes "buildable X svc role"
  shows "\<exists>s'. loop_op (reconcileReplica X A svc role (NeedsGangSchedulingForRole svc role)) is D s =
      (Ok (D \<union> (snd \<circ> snd \<circ> lws_key svc role) ` set is), s') \<and>
    settles_seq (map (\<lambda>i. (lws_key svc role i, replica_labels X svc role i)) is) (view s) (view s')"
proof (induction "is" arbitrary: D s)
  case (Cons i "is")
  from buildable_lws [OF assms] obtain l where "replica_lws X svc role i = Some l" by blast
  from reconcileReplica_settles [OF this, of D s] obtain s1 where
    "reconcileReplica X A svc role (NeedsGangSchedulingForRole svc role) i D s =
       (Ok (insert (snd (snd (lws_key svc role i))) D), s1)"
    "settles (lws_key svc role i) (replica_labels X svc role i) (view s) (view s1)" by blast
  moreover from Cons.IH [of "insert (snd (snd (lws_key svc role i))) D" s1] obtain s2 where
    "loop_op (reconcileReplica X A svc role (NeedsGangSchedulingForRole svc role)) is
        (insert (snd (snd (lws_key svc role i))) D) s1 =
       (Ok (insert (snd (snd (lws_key svc role i))) D \<union> (snd \<circ> snd \<circ> lws_key svc role) ` set is), s2)"
    "settles_seq (map (\<lambda>i. (lws_key svc role i, replica_labels X svc role i)) is) (view s1) (view s2)"
    by blast
  ultimately show ?case by (auto simp: calls)
qed simp

lemma replica_loop_settled:
  assumes "buildable X svc role"
    and "\<forall>i \<in> set is. settled (lws_key svc role i) (replica_labels X svc role i) (view s)"
  shows "\<exists>s'. loop_op (reconcileReplica X A svc role (NeedsGangSchedulingForRole svc role)) is D s =
      (Ok (D \<union> (snd \<circ> snd \<circ> lws_key svc role) ` set is), s') \<and> view s' = view s"
  using assms(2)
proof (induction "is" arbitrary: D s)
  case (Cons i "is")
  from buildable_lws [OF assms(1)] obtain l where "replica_lws X svc role i = Some l" by blast
  from reconcileReplica_settled [OF this, of s D] Cons.prems obtain s1 where
    "reconcileReplica X A svc role (NeedsGangSchedulingForRole svc role) i D s =
       (Ok (insert (snd (snd (lws_key svc role i))) D), s1)" "view s1 = view s" by auto
  moreover from Cons.IH [of s1 "insert (snd (snd (lws_key svc role i))) D"] Cons.prems \<open>view s1 = view s\<close>
  obtain s2 where
    "loop_op (reconcileReplica X A svc role (NeedsGangSchedulingForRole svc role)) is
        (insert (snd (snd (lws_key svc role i))) D) s1 =
       (Ok (insert (snd (snd (lws_key svc role i))) D \<union> (snd \<circ> snd \<circ> lws_key svc role) ` set is), s2)"
    "view s2 = view s1" by auto
  ultimately show ?case by (auto simp: calls)
qed simp

end

subsection \<open>Left-over objects of a role\<close>

definition without_keys :: "key set \<Rightarrow> (key \<rightharpoonup> kobj) \<Rightarrow> (key \<rightharpoonup> kobj)" where
  "without_keys K v = (\<lambda>k. if k \<in> K then None else v k)"

lemma without_keys_simps [simp]:
  "without_keys {} v = v" "without_keys K (v(k := None)) = without_keys (insert k K) v"
  by (auto simp: without_keys_def)

context cluster
begin

lemma deleteOrphan_view:
  "\<exists>s'. deleteOrphan A D l () s = (Ok (), s') \<and>
     view s' = without_keys (if meta_Name (lws_Meta l) \<in> D then {} else {kobj_key (ObjLWS l)}) (view s)"
proof (cases "view s (kobj_key (ObjLWS l))")
  case None
  then have "without_keys {kobj_key (ObjLWS l)} (view s) = view s" by (auto simp: without_keys_def)
  with delete_missing [OF None] show ?thesis by (auto simp: deleteOrphan_def)
next
  case (Some ob)
  moreover have "(view s)(kobj_key (ObjLWS l) := None) = without_keys {kobj_key (ObjLWS l)} (view s)"
    by (auto simp: without_keys_def)
  ultimately show ?thesis using delete_existing [of s "ObjLWS l"] by (auto simp: deleteOrphan_def)
qed

lemma deleteOrphans_view:
  "\<exists>s'. loop_op (deleteOrphan A D) ls () s = (Ok (), s') \<and>
     view s' = without_keys {kobj_key (ObjLWS l) |l. l \<in> set ls \<and> meta_Name (lws_Meta l) \<notin> D} (view s)"
proof (induction ls arbitrary: s)
  case (Cons l ls)
  from deleteOrphan_view [of D l s] obtain s1 where s1: "deleteOrphan A D l () s = (Ok (), s1)"
    "view s1 = without_keys (if meta_Name (lws_Meta l) \<in> D then {} else {kobj_key (ObjLWS l)}) (view s)"
    by blast
  from Cons.IH [of s1] obtain s2 where s2: "loop_op (deleteOrphan A D) ls () s1 = (Ok (), s2)"
    "view s2 = without_keys {kobj_key (ObjLWS l) |l. l \<in> set ls \<and> meta_Name (lws_Meta l) \<notin> D} (view s1)"
    by blast
  have "view s2 = without_keys {kobj_key (ObjLWS l') |l'. l' \<in> set (l # ls) \<and> meta_Name (lws_Meta l') \<notin> D} (view s)"
    unfolding s2(2) s1(2) without_keys_def by (rule ext) auto
  with s1(1) s2(1) show ?case by (auto simp: calls)
qed simp

lemma cleanupOrphanLWS_view:
  "\<exists>s'. cleanupOrphanLWS A svc role D s = (Ok (), s') \<and>
     view s' = (\<lambda>k. if carries_role svc role k (view s k) \<and> snd (snd k) \<notin> D then None else view s k)"
proof -
  from list_lws [of "isvc_Namespace svc" "role_selector svc role" s] obtain ls s1 where ls:
      "api_ListLWS A (isvc_Namespace svc) (role_selector svc role) s = (Inr ls, s1)" "view s1 = view s"
      "set ls = {l. \<exists>n. view s (KindLWS, isvc_Namespace svc, n) = Some (ObjLWS l) \<and>
        labels_match (role_selector svc role) (meta_Labels (lws_Meta l))}"
    by blast
  have carries: "carries_role svc role k (view s k) \<longleftrightarrow> (\<exists>l \<in> set ls. k = kobj_key (ObjLWS l))" for k
    unfolding ls(3) carries_role_def using view_key by fastforce
  have "snd (snd (kobj_key (ObjLWS l))) = meta_Name (lws_Meta l)" for l
    by (simp add: kobj_key_def)
  then have del: "{kobj_key (ObjLWS l) |l. l \<in> set ls \<and> meta_Name (lws_Meta l) \<notin> D} =
      {k. carries_role svc role k (view s k) \<and> snd (snd k) \<notin> D}"
    unfolding carries by auto
  from deleteOrphans_view [of D ls s1] ls show ?thesis
    unfolding del by (auto simp: cleanupOrphanLWS_def role_selector_def calls without_keys_def)
qed

lemma role_names_keys:
  "carries_role svc role k (v k) \<Longrightarrow>
    snd (snd k) \<notin> (snd \<circ> snd \<circ> lws_key svc role) ` set is \<longleftrightarrow> k \<notin> lws_key svc role ` set is"
  by (auto simp: carries_role_def lws_key_def)

lemma distinct_replica_keys: "distinct (map (lws_key svc role) (replicas_of role))"
  by (auto simp: distinct_map inj_on_def in_int32_range lws_key_inject)

theorem reconcileLWS_effect:
  assumes "buildable X svc role"
  shows "\<exists>s'. reconcileLWS X A svc role s = (Ok (), s') \<and> role_effect X svc role (view s) (view s')"
proof -
  let ?ps = "map (\<lambda>i. (lws_key svc role i, replica_labels X svc role i)) (replicas_of role)"
  let ?D = "(snd \<circ> snd \<circ> lws_key svc role) ` set (replicas_of role)"
  have "distinct (map fst ?ps)"
    using distinct_replica_keys [of svc role] by (simp add: comp_def)
  moreover from replica_loop_settles [OF assms, of "replicas_of role" "{}" s] obtain s1 where s1:
      "loop_op (reconcileReplica X A svc role (NeedsGangSchedulingForRole svc role)) (replicas_of role) {} s =
        (Ok ?D, s1)" "settles_seq ?ps (view s) (view s1)" by auto
  ultimately have wr: "\<forall>i \<in> set (replicas_of role).
      written (lws_key svc role i) (replica_labels X svc role i) (view s) (view s1)"
    using settles_seq_written [OF s1(2)] by auto
  have other: "k \<notin> role_keys svc role \<Longrightarrow> view s1 k = view s k" for k
    using settles_seq_other [OF s1(2), of k] by (auto simp: role_keys_def image_iff)
  from cleanupOrphanLWS_view [of svc role ?D s1] obtain s2 where s2:
      "cleanupOrphanLWS A svc role ?D s1 = (Ok (), s2)"
      "view s2 = (\<lambda>k. if carries_role svc role k (view s1 k) \<and> snd (snd k) \<notin> ?D then None else view s1 k)"
    by blast
  have v2: "view s2 k = (if carries_role svc role k (view s1 k) \<and> k \<notin> role_keys svc role then None else view s1 k)"
    for k unfolding s2(2) using role_names_keys [of svc role k "view s1"] by (auto simp: role_keys_def)
  have "role_effect X svc role (view s) (view s2)"
    unfolding role_effect_def
  proof (intro conjI ballI allI impI)
    fix i assume i: "i \<in> set (replicas_of role)"
    then have "view s2 (lws_key svc role i) = view s1 (lws_key svc role i)" by (simp add: v2 role_keys_def)
    with wr i show "written (lws_key svc role i) (replica_labels X svc role i) (view s) (view s2)"
      by (blast intro: written_later)
  qed (simp add: v2 other)
  with s1(1) s2(1) show ?thesis by (auto simp: reconcileLWS_def Let_def calls)
qed

theorem reconcileLWS_idempotent:
  assumes "buildable X svc role" and "role_ok X svc role (view s)"
  shows "\<exists>s'. reconcileLWS X A svc role s = (Ok (), s') \<and> view s' = view s"
proof -
  let ?D = "(snd \<circ> snd \<circ> lws_key svc role) ` set (replicas_of role)"
  from replica_loop_settled [OF assms(1), of "replicas_of role" s "{}"] assms(2) obtain s1 where s1:
      "loop_op (reconcileReplica X A svc role (NeedsGangSchedulingForRole svc role)) (replicas_of role) {} s =
        (Ok ?D, s1)" "view s1 = view s" by (auto simp: role_ok_def)
  from cleanupOrphanLWS_view [of svc role ?D s1] obtain s2 where s2:
      "cleanupOrphanLWS A svc role ?D s1 = (Ok (), s2)"
      "view s2 = (\<lambda>k. if carries_role svc role k (view s1 k) \<and> snd (snd k) \<notin> ?D then None else view s1 k)"
    by blast
  have "view s2 = view s"
    unfolding s2(2) s1(2) using assms(2) role_names_keys [of svc role _ "view s"]
    by (auto simp: role_ok_def role_keys_def fun_eq_iff)
  with s1(1) s2(1) show ?thesis by (auto simp: reconcileLWS_def Let_def calls)
qed

end

subsection \<open>All roles\<close>

definition workers :: "inference_service \<Rightarrow> role list" where
  "workers svc = filter (\<lambda>r. isWorkerType (role_ComponentType r)) (isvc_Roles svc)"

text \<open>
  A LeaderWorkerSet stored under the name of a replica that carries the labels of a role of the
  service carries those of its own role. It holds of every object the reconciler wrote.
\<close>

definition labels_sound :: "inference_service \<Rightarrow> (key \<rightharpoonup> kobj) \<Rightarrow> bool" where
  "labels_sound svc v \<longleftrightarrow>
     (\<forall>role \<in> set (workers svc). \<forall>role' \<in> set (workers svc). \<forall>k \<in> role_keys svc role.
        carries_role svc role' k (v k) \<longrightarrow> role_Name role' = role_Name role)"

lemma labels_soundD:
  "labels_sound svc v \<Longrightarrow> role \<in> set (workers svc) \<Longrightarrow> role' \<in> set (workers svc) \<Longrightarrow>
    k \<in> role_keys svc role \<Longrightarrow> carries_role svc role' k (v k) \<Longrightarrow> role_Name role' = role_Name role"
  unfolding labels_sound_def by blast

lemma role_keys_disjoint:
  "k \<in> role_keys svc role \<Longrightarrow> k \<in> role_keys svc role' \<Longrightarrow> role_Name role = role_Name role'"
  by (auto simp: role_keys_def in_int32_range lws_key_inject)

lemma role_effect_key:
  assumes "role_effect X svc role v v'" and "k \<in> role_keys svc role" and "buildable X svc role"
    and "carries_role svc role' k (v' k)"
  shows "v' k = v k \<or> role_Name role' = role_Name role"
proof -
  from assms(1,2) obtain i where "written k (replica_labels X svc role i) v v'"
    by (auto simp: role_effect_def role_keys_def)
  moreover from buildable_lws [OF assms(3)] obtain l where "replica_lws X svc role i = Some l" by blast
  ultimately show ?thesis
    using assms(4) replica_labels_match [of X svc role i l role']
    by (auto simp: written_def carries_role_def)
qed

lemma role_effect_sound:
  assumes eff: "role_effect X svc role v v'" and role: "role \<in> set (workers svc)" "buildable X svc role"
    and sound: "labels_sound svc v"
  shows "labels_sound svc v'"
  unfolding labels_sound_def
proof (intro ballI impI)
  fix r r' k assume r: "r \<in> set (workers svc)" "r' \<in> set (workers svc)" "k \<in> role_keys svc r"
    and c: "carries_role svc r' k (v' k)"
  show "role_Name r' = role_Name r"
  proof (cases "k \<in> role_keys svc role")
    case True
    then show ?thesis
      using role_effect_key [OF eff True role(2) c] role_keys_disjoint [OF True r(3)]
        labels_soundD [OF sound r] c by auto
  next
    case False
    then have "v' k = v k" using role_effect_same [OF eff _ c] by blast
    with labels_soundD [OF sound r] c show ?thesis by simp
  qed
qed

lemma role_effect_other:
  assumes eff: "role_effect X svc role v v'" and role: "role \<in> set (workers svc)" "buildable X svc role"
    and sound: "labels_sound svc v" and other: "role' \<in> set (workers svc)" "role_Name role' \<noteq> role_Name role"
    and ok: "role_ok X svc role' v"
  shows "role_ok X svc role' v'"
  unfolding role_ok_def
proof (intro conjI ballI allI impI)
  fix i assume i: "i \<in> set (replicas_of role')"
  then have k: "lws_key svc role' i \<in> role_keys svc role'" by (simp add: role_keys_def)
  then have "lws_key svc role' i \<notin> role_keys svc role"
    using role_keys_disjoint other(2) by blast
  moreover have "\<not> carries_role svc role (lws_key svc role' i) (v (lws_key svc role' i))"
    using labels_soundD [OF sound other(1) role(1) k] other(2) by auto
  ultimately have "v' (lws_key svc role' i) = v (lws_key svc role' i)"
    using role_effect_rest [OF eff] by simp
  with ok i show "settled (lws_key svc role' i) (replica_labels X svc role' i) v'"
    by (auto simp: role_ok_def intro: settled_other)
next
  fix k assume c: "carries_role svc role' k (v' k)"
  have "v' k = v k"
    using role_effect_key [OF eff _ role(2) c] role_effect_same [OF eff _ c] other(2) by blast
  with ok c show "k \<in> role_keys svc role'" unfolding role_ok_def by metis
qed

definition untouched_by_roles :: "inference_service \<Rightarrow> role list \<Rightarrow> (key \<rightharpoonup> kobj) \<Rightarrow> key \<Rightarrow> bool" where
  "untouched_by_roles svc roles v k \<longleftrightarrow>
     (\<forall>role \<in> set roles. k \<notin> role_keys svc role \<and> \<not> carries_role svc role k (v k))"

lemma untouched_other_kind: "fst k \<noteq> KindLWS \<Longrightarrow> untouched_by_roles svc roles v k"
  by (auto simp: untouched_by_roles_def role_keys_def lws_key_def carries_role_def)

context cluster
begin

lemma reconcileRole_worker:
  "isWorkerType (role_ComponentType r) \<Longrightarrow> reconcileLWS X A svc r s = (Ok (), s1) \<Longrightarrow>
    reconcileRole X A svc r ws s = (Ok (ws @ [r]), s1)"
  by (simp add: reconcileRole_def calls)

lemma roles_loop:
  assumes "\<forall>r \<in> set rs. isWorkerType (role_ComponentType r) \<longrightarrow> r \<in> set (workers svc) \<and> buildable X svc r"
    and "distinct (map role_Name (filter (\<lambda>r. isWorkerType (role_ComponentType r)) rs))"
    and "labels_sound svc (view s)"
  shows "\<exists>s'. loop_op (reconcileRole X A svc) rs ws s =
      (Ok (ws @ filter (\<lambda>r. isWorkerType (role_ComponentType r)) rs), s') \<and>
    (\<forall>r \<in> set (filter (\<lambda>r. isWorkerType (role_ComponentType r)) rs). role_ok X svc r (view s')) \<and>
    (\<forall>r \<in> set (workers svc). role_Name r \<notin> role_Name ` set (filter (\<lambda>r. isWorkerType (role_ComponentType r)) rs)
        \<and> role_ok X svc r (view s) \<longrightarrow> role_ok X svc r (view s')) \<and>
    (\<forall>k. untouched_by_roles svc (filter (\<lambda>r. isWorkerType (role_ComponentType r)) rs) (view s) k \<longrightarrow>
        view s' k = view s k)"
  using assms
proof (induction rs arbitrary: ws s)
  case (Cons r rs)
  show ?case
  proof (cases "isWorkerType (role_ComponentType r)")
    case False
    with Cons.IH [of s ws] Cons.prems show ?thesis by (simp add: reconcileRole_def calls)
  next
    case True
    with Cons.prems(1) have r: "r \<in> set (workers svc)" "buildable X svc r" by auto
    from reconcileLWS_effect [OF r(2), of s] obtain s1 where s1: "reconcileLWS X A svc r s = (Ok (), s1)"
      and eff: "role_effect X svc r (view s) (view s1)" by blast
    let ?F = "filter (\<lambda>r. isWorkerType (role_ComponentType r))"
    from role_effect_sound [OF eff r Cons.prems(3)] Cons.IH [of s1 "ws @ [r]"] Cons.prems True
    obtain s2 where s2: "loop_op (reconcileRole X A svc) rs (ws @ [r]) s1 = (Ok (ws @ r # ?F rs), s2)"
      and ok: "\<forall>r \<in> set (?F rs). role_ok X svc r (view s2)"
      and keep: "\<forall>r \<in> set (workers svc). role_Name r \<notin> role_Name ` set (?F rs) \<and>
        role_ok X svc r (view s1) \<longrightarrow> role_ok X svc r (view s2)"
      and same: "\<forall>k. untouched_by_roles svc (?F rs) (view s1) k \<longrightarrow> view s2 k = view s1 k"
      by auto
    have "role_ok X svc r (view s2)"
      using keep r(1) role_effect_ok [OF eff] Cons.prems(2) True by auto
    moreover have "role_ok X svc r' (view s2)"
      if "r' \<in> set (workers svc)" "role_Name r' \<notin> role_Name ` set (?F (r # rs))" "role_ok X svc r' (view s)" for r'
      using keep that role_effect_other [OF eff r Cons.prems(3) that(1)] True by auto
    moreover have "view s2 k = view s k" if k: "untouched_by_roles svc (?F (r # rs)) (view s) k" for k
    proof -
      from k True have "view s1 k = view s k"
        using role_effect_rest [OF eff, of k] by (simp add: untouched_by_roles_def)
      moreover from this k True have "untouched_by_roles svc (?F rs) (view s1) k"
        by (simp add: untouched_by_roles_def)
      ultimately show ?thesis using same by metis
    qed
    moreover have "loop_op (reconcileRole X A svc) (r # rs) ws s = (Ok (ws @ ?F (r # rs)), s2)"
      using reconcileRole_worker [OF True s1, of ws] s2 True by (simp add: calls)
    ultimately show ?thesis
      using ok True by (intro exI [of _ s2] conjI) simp_all
  qed
qed simp

lemma roles_loop_idempotent:
  assumes "\<forall>r \<in> set rs. isWorkerType (role_ComponentType r) \<longrightarrow> buildable X svc r \<and> role_ok X svc r (view s)"
  shows "\<exists>s'. loop_op (reconcileRole X A svc) rs ws s =
      (Ok (ws @ filter (\<lambda>r. isWorkerType (role_ComponentType r)) rs), s') \<and> view s' = view s"
  using assms
proof (induction rs arbitrary: ws s)
  case (Cons r rs)
  show ?case
  proof (cases "isWorkerType (role_ComponentType r)")
    case False
    with Cons.IH [of s ws] Cons.prems show ?thesis by (simp add: reconcileRole_def calls)
  next
    case True
    with Cons.prems reconcileLWS_idempotent [of X svc r s] obtain s1 where
      s1: "reconcileLWS X A svc r s = (Ok (), s1)" "view s1 = view s" by auto
    with Cons.IH [of s1 "ws @ [r]"] Cons.prems True show ?thesis by (auto simp: reconcileRole_def calls)
  qed
qed simp

end

subsection \<open>The router\<close>

definition want :: "'o kind_ops \<Rightarrow> 'o \<Rightarrow> key \<times> label_map" where
  "want K obj = (resource_kind.key_of K obj, meta_Labels (ko_Meta K obj))"

definition router_wants :: "externals \<Rightarrow> inference_service \<Rightarrow> role \<Rightarrow> role list \<Rightarrow> (key \<times> label_map) list" where
  "router_wants X svc role ws =
     [want role_ops (BuildEPPRole X svc), want rolebinding_ops (BuildEPPRoleBinding X svc),
      want configmap_ops (BuildEPPConfigMap X svc role), want deployment_ops (BuildEPPDeployment X svc),
      want service_ops (BuildEPPService X svc), want pool_ops (BuildInferencePool X svc ws),
      want route_ops (BuildHTTPRoute X svc role)]"

definition account_key :: "inference_service \<Rightarrow> key" where
  "account_key svc = (KindServiceAccount, isvc_Namespace svc, GenerateEPPDeploymentName (isvc_Name svc))"

definition router_keys :: "inference_service \<Rightarrow> key list" where
  "router_keys svc =
     [account_key svc,
      (KindRole, isvc_Namespace svc, GenerateEPPDeploymentName (isvc_Name svc)),
      (KindRoleBinding, isvc_Namespace svc, GenerateEPPDeploymentName (isvc_Name svc)),
      (KindConfigMap, isvc_Namespace svc, GenerateEPPConfigMapName (isvc_Name svc)),
      (KindDeployment, isvc_Namespace svc, GenerateEPPDeploymentName (isvc_Name svc)),
      (KindService, isvc_Namespace svc, GenerateEPPServiceName (isvc_Name svc)),
      (KindInferencePool, isvc_Namespace svc, GeneratePoolName (isvc_Name svc)),
      (KindHTTPRoute, isvc_Namespace svc, GenerateHTTPRouteName (isvc_Name svc))]"

lemma router_wants_keys: "account_key svc # map fst (router_wants X svc role ws) = router_keys svc"
  by (simp add: router_wants_def router_keys_def want_def kind_keys)

lemma distinct_router_keys: "distinct (router_keys svc)"
  by (simp add: router_keys_def account_key_def)

lemma router_keys_kind: "k \<in> set (router_keys svc) \<Longrightarrow> fst k \<noteq> KindLWS \<and> fst k \<noteq> KindPodGroup"
  by (auto simp: router_keys_def account_key_def)

definition router_ok :: "externals \<Rightarrow> inference_service \<Rightarrow> role \<Rightarrow> role list \<Rightarrow> (key \<rightharpoonup> kobj) \<Rightarrow> bool" where
  "router_ok X svc role ws v \<longleftrightarrow>
     v (account_key svc) \<noteq> None \<and> (\<forall>(k, ls) \<in> set (router_wants X svc role ws). settled k ls v)"

context cluster
begin

text \<open>Operations that always succeed, with their effect on the store.\<close>

definition achieves :: "('s, unit) op \<Rightarrow> ((key \<rightharpoonup> kobj) \<Rightarrow> (key \<rightharpoonup> kobj) \<Rightarrow> bool) \<Rightarrow> bool" where
  "achieves m R \<longleftrightarrow> (\<forall>s. \<exists>s'. m s = (Ok (), s') \<and> R (view s) (view s'))"

definition leaves :: "('s, unit) op \<Rightarrow> ((key \<rightharpoonup> kobj) \<Rightarrow> bool) \<Rightarrow> bool" where
  "leaves m P \<longleftrightarrow> (\<forall>s. P (view s) \<longrightarrow> (\<exists>s'. m s = (Ok (), s') \<and> view s' = view s))"

lemma achieves_wrap: "achieves m R \<Longrightarrow> achieves (wrap_op p m) R"
  unfolding achieves_def by (metis wrap_op_Ok)

lemma achieves_bind:
  "achieves m R \<Longrightarrow> achieves m' R' \<Longrightarrow>
    achieves (bind_op (wrap_op p m) (\<lambda>_. m')) (\<lambda>v v'. \<exists>v1. R v v1 \<and> R' v1 v')"
  unfolding achieves_def by (metis wrap_op_Ok bind_op_Ok)

lemma leaves_wrap: "leaves m P \<Longrightarrow> leaves (wrap_op p m) P"
  unfolding leaves_def by (metis wrap_op_Ok)

lemma leaves_bind:
  "leaves m P \<Longrightarrow> leaves m' P' \<Longrightarrow> leaves (bind_op (wrap_op p m) (\<lambda>_. m')) (\<lambda>v. P v \<and> P' v)"
  unfolding leaves_def by (metis wrap_op_Ok bind_op_Ok)

lemma achieves_seq:
  "achieves m (settles (fst w) (snd w)) \<Longrightarrow> achieves m' (settles_seq ws) \<Longrightarrow>
    achieves (bind_op (wrap_op p m) (\<lambda>_. m')) (settles_seq (w # ws))"
  using achieves_bind [of m "settles (fst w) (snd w)" m' "settles_seq ws" p]
  by (cases w) (simp add: achieves_def)

lemma achieves_last:
  "achieves m (settles (fst w) (snd w)) \<Longrightarrow> achieves (wrap_op p m) (settles_seq [w])"
  using achieves_wrap [of m "settles (fst w) (snd w)" p] by (cases w) (simp add: achieves_def)

lemma ensure_achieves:
  assumes "managed A view K"
  shows "achieves (ensure A K owner obj) (settles (fst (want K obj)) (snd (want K obj)))"
  using managed.ensure_settles [OF assms] by (simp add: achieves_def want_def)

lemma ensure_leaves:
  assumes "managed A view K"
  shows "leaves (ensure A K owner obj) (settled (fst (want K obj)) (snd (want K obj)))"
  using managed.ensure_settled [OF assms] by (simp add: leaves_def want_def)

lemmas managed_kinds =
  podgroups.managed_axioms workloads.managed_axioms accounts.managed_axioms roles.managed_axioms
  bindings.managed_axioms configs.managed_axioms deployments.managed_axioms services.managed_axioms
  pools.managed_axioms routes.managed_axioms

lemma account_achieves:
  "achieves (reconcileEPPServiceAccount A svc) (provides (account_key svc))"
  using accounts.ensure_missing_provides [of "isvc_Meta svc" "BuildEPPServiceAccount svc"]
  by (fastforce simp: achieves_def reconcileEPPServiceAccount_def account_key_def kind_keys)

lemma account_leaves:
  "leaves (reconcileEPPServiceAccount A svc) (\<lambda>v. v (account_key svc) \<noteq> None)"
  using accounts.ensure_missing_provides [of "isvc_Meta svc" "BuildEPPServiceAccount svc"]
  by (fastforce simp: leaves_def reconcileEPPServiceAccount_def account_key_def kind_keys)

lemma reconcileRouter_achieves:
  "achieves (reconcileRouter X A svc role ws)
     (\<lambda>v v'. \<exists>v1. provides (account_key svc) v v1 \<and> settles_seq (router_wants X svc role ws) v1 v')"
  unfolding reconcileRouter_def router_wants_def reconcileEPPRole_def reconcileEPPRoleBinding_def
    reconcileEPPConfigMap_def reconcileEPPDeployment_def reconcileEPPService_def
    reconcileInferencePool_def reconcileHTTPRoute_def
  by (intro achieves_bind achieves_seq achieves_last account_achieves ensure_achieves managed_kinds)

theorem reconcileRouter_effect:
  "\<exists>s'. reconcileRouter X A svc role ws s = (Ok (), s') \<and> router_ok X svc role ws (view s') \<and>
     (\<forall>k. k \<notin> set (router_keys svc) \<longrightarrow> view s' k = view s k)"
proof -
  from reconcileRouter_achieves [of X svc role ws] obtain s' v1 where s': "reconcileRouter X A svc role ws s = (Ok (), s')"
    and prov: "provides (account_key svc) (view s) v1" and seq: "settles_seq (router_wants X svc role ws) v1 (view s')"
    unfolding achieves_def by metis
  have dist: "distinct (account_key svc # map fst (router_wants X svc role ws))"
    by (simp only: router_wants_keys distinct_router_keys)
  then have "view s' (account_key svc) = v1 (account_key svc)"
    using settles_seq_other [OF seq] by auto
  with prov have "view s' (account_key svc) \<noteq> None" by (auto simp: provides_def)
  moreover have "settled k ls (view s')" if "(k, ls) \<in> set (router_wants X svc role ws)" for k ls
    using settles_seq_written [OF seq _ that] dist by (auto dest: written_settled)
  moreover have "view s' k = view s k" if "k \<notin> set (router_keys svc)" for k
  proof -
    from that have "k \<noteq> account_key svc" "k \<notin> fst ` set (router_wants X svc role ws)"
      by (simp_all add: router_wants_keys [of svc X role ws, symmetric])
    then show ?thesis using settles_seq_other [OF seq] provides_other [OF prov] by simp
  qed
  ultimately show ?thesis using s' by (auto simp: router_ok_def)
qed

lemma reconcileRouter_idempotent: "leaves (reconcileRouter X A svc role ws) (router_ok X svc role ws)"
proof -
  have "leaves (reconcileRouter X A svc role ws) (\<lambda>v. v (account_key svc) \<noteq> None \<and>
      (let P = \<lambda>w. settled (fst w) (snd w) v in
       P (want role_ops (BuildEPPRole X svc)) \<and> P (want rolebinding_ops (BuildEPPRoleBinding X svc)) \<and>
       P (want configmap_ops (BuildEPPConfigMap X svc role)) \<and>
       P (want deployment_ops (BuildEPPDeployment X svc)) \<and> P (want service_ops (BuildEPPService X svc)) \<and>
       P (want pool_ops (BuildInferencePool X svc ws)) \<and> P (want route_ops (BuildHTTPRoute X svc role))))"
    unfolding reconcileRouter_def Let_def reconcileEPPRole_def reconcileEPPRoleBinding_def
      reconcileEPPConfigMap_def reconcileEPPDeployment_def reconcileEPPService_def
      reconcileInferencePool_def reconcileHTTPRoute_def
    by (intro leaves_bind leaves_wrap account_leaves ensure_leaves managed_kinds)
  moreover have "router_ok X svc role ws = (\<lambda>v. v (account_key svc) \<noteq> None \<and>
      (let P = \<lambda>w. settled (fst w) (snd w) v in
       P (want role_ops (BuildEPPRole X svc)) \<and> P (want rolebinding_ops (BuildEPPRoleBinding X svc)) \<and>
       P (want configmap_ops (BuildEPPConfigMap X svc role)) \<and>
       P (want deployment_ops (BuildEPPDeployment X svc)) \<and> P (want service_ops (BuildEPPService X svc)) \<and>
       P (want pool_ops (BuildInferencePool X svc ws)) \<and> P (want route_ops (BuildHTTPRoute X svc role))))"
    by (rule ext) (simp add: router_ok_def router_wants_def Let_def case_prod_unfold)
  ultimately show ?thesis by simp
qed

end

subsection \<open>All the objects of a service\<close>

definition podgroup_ok :: "externals \<Rightarrow> inference_service \<Rightarrow> (key \<rightharpoonup> kobj) \<Rightarrow> bool" where
  "podgroup_ok X svc v \<longleftrightarrow>
     (NeedsGangScheduling svc \<longrightarrow>
        settled (fst (want podgroup_ops (BuildPodGroup X svc))) (snd (want podgroup_ops (BuildPodGroup X svc))) v)"

definition routers :: "inference_service \<Rightarrow> role list" where
  "routers svc = filter (\<lambda>r. role_ComponentType r = ComponentTypeRouter) (isvc_Roles svc)"

definition converged :: "externals \<Rightarrow> inference_service \<Rightarrow> (key \<rightharpoonup> kobj) \<Rightarrow> bool" where
  "converged X svc v \<longleftrightarrow>
     podgroup_ok X svc v \<and>
     (\<forall>role \<in> set (workers svc). role_ok X svc role v) \<and>
     (\<forall>role \<in> set (routers svc). router_ok X svc role (workers svc) v)"

text \<open>
  What the specification of a service must satisfy for its objects not to get in each other's way:
  worker roles have different names, there is at most one router, and no build panics.
\<close>

definition well_specified :: "externals \<Rightarrow> inference_service \<Rightarrow> bool" where
  "well_specified X svc \<longleftrightarrow>
     distinct (map role_Name (workers svc)) \<and> length (routers svc) \<le> 1 \<and>
     (\<forall>role \<in> set (workers svc). buildable X svc role)"

text \<open>The keys of the objects a reconciliation of the service may change.\<close>

definition may_change :: "externals \<Rightarrow> inference_service \<Rightarrow> (key \<rightharpoonup> kobj) \<Rightarrow> key \<Rightarrow> bool" where
  "may_change X svc v k \<longleftrightarrow>
     NeedsGangScheduling svc \<and> k = (KindPodGroup, isvc_Namespace svc, isvc_Name svc) \<or>
     \<not> untouched_by_roles svc (workers svc) v k \<or>
     routers svc \<noteq> [] \<and> k \<in> set (router_keys svc)"

lemma podgroup_want: "fst (want podgroup_ops (BuildPodGroup X svc)) = (KindPodGroup, isvc_Namespace svc, isvc_Name svc)"
  by (simp add: want_def kind_keys)

lemma podgroup_ok_cong:
  "podgroup_ok X svc v \<Longrightarrow>
    v' (KindPodGroup, isvc_Namespace svc, isvc_Name svc) = v (KindPodGroup, isvc_Namespace svc, isvc_Name svc) \<Longrightarrow>
    podgroup_ok X svc v'"
  by (auto simp: podgroup_ok_def podgroup_want intro: settled_other)

lemma role_ok_cong:
  assumes ok: "role_ok X svc role v" and same: "\<And>k. fst k = KindLWS \<Longrightarrow> v' k = v k"
  shows "role_ok X svc role v'"
proof -
  have "carries_role svc role k (v' k) \<Longrightarrow> carries_role svc role k (v k)" for k
    using same by (auto simp: carries_role_def)
  moreover have "v' (lws_key svc role i) = v (lws_key svc role i)" for i
    by (rule same) (simp add: lws_key_def)
  ultimately show ?thesis using ok by (auto simp: role_ok_def intro: settled_other)
qed

lemma labels_sound_cong:
  assumes sound: "labels_sound svc v" and same: "\<And>k. fst k = KindLWS \<Longrightarrow> v' k = v k"
  shows "labels_sound svc v'"
proof -
  have "carries_role svc role k (v' k) \<Longrightarrow> carries_role svc role k (v k)" for role k
    using same by (auto simp: carries_role_def)
  then show ?thesis using sound unfolding labels_sound_def by blast
qed

context cluster
begin

lemma reconcilePodGroup_effect:
  "\<exists>s'. reconcilePodGroup X A svc s = (Ok (), s') \<and> podgroup_ok X svc (view s') \<and>
     (\<forall>k. \<not> (NeedsGangScheduling svc \<and> k = (KindPodGroup, isvc_Namespace svc, isvc_Name svc)) \<longrightarrow>
        view s' k = view s k)"
proof (cases "NeedsGangScheduling svc")
  case True
  from podgroups.own_and_settle [of "isvc_Meta svc" "BuildPodGroup X svc" s] obtain s' where
      run: "reconcilePodGroup X A svc s = (Ok (), s')" and
      st: "settles (fst (want podgroup_ops (BuildPodGroup X svc))) (snd (want podgroup_ops (BuildPodGroup X svc)))
        (view s) (view s')"
    using True by (auto simp: reconcilePodGroup_def want_def calls)
  from settles_other [OF st] settles_settled [OF st] run True show ?thesis
    by (auto simp: podgroup_ok_def podgroup_want)
qed (simp add: reconcilePodGroup_def podgroup_ok_def)

lemma reconcilePodGroup_idempotent: "leaves (reconcilePodGroup X A svc) (podgroup_ok X svc)"
  using podgroups.own_and_settled [of "BuildPodGroup X svc" _ "isvc_Meta svc"]
  by (fastforce simp: leaves_def reconcilePodGroup_def podgroup_ok_def want_def calls)

lemma routers_loop:
  assumes "length (filter (\<lambda>r. role_ComponentType r = ComponentTypeRouter) rs) \<le> 1"
  shows "\<exists>s'. loop_op (reconcileRouterRole X A svc ws) rs () s = (Ok (), s') \<and>
    (\<forall>r \<in> set rs. role_ComponentType r = ComponentTypeRouter \<longrightarrow> router_ok X svc r ws (view s')) \<and>
    (\<forall>k. filter (\<lambda>r. role_ComponentType r = ComponentTypeRouter) rs = [] \<or> k \<notin> set (router_keys svc) \<longrightarrow>
      view s' k = view s k)"
  using assms
proof (induction rs arbitrary: s)
  case (Cons r rs)
  show ?case
  proof (cases "role_ComponentType r = ComponentTypeRouter")
    case False
    with Cons.IH [of s] Cons.prems show ?thesis by (simp add: reconcileRouterRole_def calls)
  next
    case True
    with Cons.prems have none: "filter (\<lambda>r. role_ComponentType r = ComponentTypeRouter) rs = []" by simp
    from reconcileRouter_effect [of X svc r ws s] obtain s1 where s1: "reconcileRouter X A svc r ws s = (Ok (), s1)"
      "router_ok X svc r ws (view s1)" "\<forall>k. k \<notin> set (router_keys svc) \<longrightarrow> view s1 k = view s k" by blast
    from Cons.IH [of s1] none obtain s2 where
      s2: "loop_op (reconcileRouterRole X A svc ws) rs () s1 = (Ok (), s2)" and "\<forall>k. view s2 k = view s1 k"
      by auto
    then have "view s2 = view s1" by blast
    with s1 True have "reconcileRouterRole X A svc ws r () s = (Ok (), s1)"
      by (simp add: reconcileRouterRole_def)
    with s1 s2 True none \<open>view s2 = view s1\<close> show ?thesis
      by (intro exI [of _ s2]) (auto simp: filter_empty_conv calls)
  qed
qed simp

lemma routers_loop_idempotent:
  assumes "\<forall>r \<in> set rs. role_ComponentType r = ComponentTypeRouter \<longrightarrow> router_ok X svc r ws (view s)"
  shows "\<exists>s'. loop_op (reconcileRouterRole X A svc ws) rs () s = (Ok (), s') \<and> view s' = view s"
  using assms
proof (induction rs arbitrary: s)
  case (Cons r rs)
  show ?case
  proof (cases "role_ComponentType r = ComponentTypeRouter")
    case False
    with Cons.IH [of s] Cons.prems show ?thesis by (simp add: reconcileRouterRole_def calls)
  next
    case True
    with Cons.prems reconcileRouter_idempotent [of X svc r ws] obtain s1 where
      s1: "reconcileRouter X A svc r ws s = (Ok (), s1)" "view s1 = view s"
      unfolding leaves_def by auto
    with Cons.IH [of s1] Cons.prems True show ?thesis by (auto simp: reconcileRouterRole_def calls)
  qed
qed simp

theorem children_converge:
  assumes "well_specified X svc" and "labels_sound svc (view s)"
  shows "\<exists>s'. reconcileChildren X A svc s = (Ok (), s') \<and> converged X svc (view s') \<and>
    (\<forall>k. \<not> may_change X svc (view s) k \<longrightarrow> view s' k = view s k)"
proof -
  from reconcilePodGroup_effect [of X svc s] obtain s1 where s1: "reconcilePodGroup X A svc s = (Ok (), s1)"
    and pg: "podgroup_ok X svc (view s1)"
    and same1: "\<forall>k. \<not> (NeedsGangScheduling svc \<and> k = (KindPodGroup, isvc_Namespace svc, isvc_Name svc)) \<longrightarrow>
        view s1 k = view s k" by blast
  have sound: "labels_sound svc (view s1)"
    using labels_sound_cong [OF assms(2), of "view s1"] same1 by auto
  from assms(1) have spec: "distinct (map role_Name (workers svc))" "length (routers svc) \<le> 1"
      "\<forall>role \<in> set (workers svc). buildable X svc role" by (simp_all add: well_specified_def)
  have "\<forall>r \<in> set (isvc_Roles svc). isWorkerType (role_ComponentType r) \<longrightarrow>
      r \<in> set (workers svc) \<and> buildable X svc r"
    using spec(3) by (simp add: workers_def)
  from roles_loop [OF this _ sound, of "[]"] spec(1) obtain s2 where
    s2: "loop_op (reconcileRole X A svc) (isvc_Roles svc) [] s1 = (Ok (workers svc), s2)"
    and roles: "\<forall>role \<in> set (workers svc). role_ok X svc role (view s2)"
    and same2: "\<forall>k. untouched_by_roles svc (workers svc) (view s1) k \<longrightarrow> view s2 k = view s1 k"
    by (auto simp: workers_def [symmetric] simp del: set_filter)
  from routers_loop [of "isvc_Roles svc" X svc "workers svc" s2] spec(2) obtain s3 where
    s3: "loop_op (reconcileRouterRole X A svc (workers svc)) (isvc_Roles svc) () s2 = (Ok (), s3)"
    and routers: "\<forall>r \<in> set (routers svc). router_ok X svc r (workers svc) (view s3)"
    and same3: "\<forall>k. routers svc = [] \<or> k \<notin> set (router_keys svc) \<longrightarrow> view s3 k = view s2 k"
    by (auto simp: routers_def)
  have lws3: "fst k = KindLWS \<or> fst k = KindPodGroup \<Longrightarrow> view s3 k = view s2 k" for k
    using same3 router_keys_kind by blast
  have "podgroup_ok X svc (view s3)"
    using pg podgroup_ok_cong same2 untouched_other_kind lws3
    by (metis fst_conv kind.distinct(1))
  moreover have "\<forall>role \<in> set (workers svc). role_ok X svc role (view s3)"
    using roles role_ok_cong lws3 by metis
  moreover have "view s3 k = view s k" if "\<not> may_change X svc (view s) k" for k
  proof -
    from that same1 have k1: "view s1 k = view s k" by (simp add: may_change_def)
    with that have "untouched_by_roles svc (workers svc) (view s1) k"
      by (simp add: may_change_def untouched_by_roles_def)
    with same2 same3 that k1 show ?thesis unfolding may_change_def by metis
  qed
  ultimately show ?thesis
    using s1 s2 s3 routers by (auto simp: reconcileChildren_def converged_def calls)
qed

theorem children_idempotent:
  assumes "\<forall>role \<in> set (workers svc). buildable X svc role" and "converged X svc (view s)"
  shows "\<exists>s'. reconcileChildren X A svc s = (Ok (), s') \<and> view s' = view s"
proof -
  from assms(2) reconcilePodGroup_idempotent [of X svc] obtain s1 where
    s1: "reconcilePodGroup X A svc s = (Ok (), s1)" "view s1 = view s"
    unfolding leaves_def converged_def by blast
  from roles_loop_idempotent [of "isvc_Roles svc" X svc s1 "[]"] assms s1(2) obtain s2 where
    s2: "loop_op (reconcileRole X A svc) (isvc_Roles svc) [] s1 = (Ok (workers svc), s2)" "view s2 = view s"
    by (auto simp: workers_def converged_def)
  from routers_loop_idempotent [of "isvc_Roles svc" X svc "workers svc" s2] assms(2) s2(2) obtain s3 where
    s3: "loop_op (reconcileRouterRole X A svc (workers svc)) (isvc_Roles svc) () s2 = (Ok (), s3)" "view s3 = view s"
    by (auto simp: routers_def converged_def)
  with s1 s2 show ?thesis by (auto simp: reconcileChildren_def calls)
qed

end

end
