(* ===== verification/ComponentStatus.thy ===== *)
theory ComponentStatus
  imports Convergence
begin

section \<open>The status the controller reports\<close>

text \<open>
  \<open>aggregateLWSStatus\<close> reads the LeaderWorkerSets of a role and folds them into a component status.
  Here the fold is computed on the stored objects (\<open>role_aggregate\<close>) and described without the loop:
  how many replicas are ready (\<open>role_aggregate_parts\<close>), and which phase results (\<open>role_phase_cases\<close>).
  \<open>components_view\<close> says what \<open>updateComponentStatusInMemory\<close> computes for all roles, and
  \<open>all_ready_iff\<close> when \<open>checkAllComponentsReady\<close> answers yes.
\<close>

definition replica_status :: "inference_service \<Rightarrow> role \<Rightarrow> (key \<rightharpoonup> kobj) \<Rightarrow> int32 \<Rightarrow> lws_status option" where
  "replica_status svc role v i =
     (case v (lws_key svc role i) of Some (ObjLWS l) \<Rightarrow> Some (lws_Status l) | _ \<Rightarrow> None)"

definition is_ready :: "lws_status option \<Rightarrow> bool" where
  "is_ready st = (case st of None \<Rightarrow> False | Some st \<Rightarrow> sint (lwsst_ReadyReplicas st) \<ge> 1)"

definition is_started :: "lws_status option \<Rightarrow> bool" where
  "is_started st = (case st of None \<Rightarrow> False | Some st \<Rightarrow> sint (lwsst_Replicas st) > 0)"

definition ready_pods :: "int32 \<Rightarrow> lws_status option \<Rightarrow> int32" where
  "ready_pods nodes st = (case st of None \<Rightarrow> 0 | Some st \<Rightarrow> lwsst_ReadyReplicas st * nodes)"

definition role_aggregate :: "inference_service \<Rightarrow> role \<Rightarrow> (key \<rightharpoonup> kobj) \<Rightarrow> aggregate" where
  "role_aggregate svc role v =
     fold (\<lambda>i. addLWSStatus (GetNodeCount role) (replica_status svc role v i)) (replicas_of role) initialAggregate"

lemma addLWSStatus_simps [simp]:
  "agg_ReadyReplicas (addLWSStatus n st agg) = agg_ReadyReplicas agg + (if is_ready st then 1 else 0)"
  "agg_ReadyPods (addLWSStatus n st agg) = agg_ReadyPods agg + ready_pods n st"
  "agg_AllPending (addLWSStatus n st agg) \<longleftrightarrow> agg_AllPending agg \<and> \<not> is_started st"
  "agg_AnyRunning (addLWSStatus n st agg) \<longleftrightarrow> agg_AnyRunning agg \<or> is_ready st"
  by (simp_all add: addLWSStatus_def is_ready_def is_started_def ready_pods_def Let_def split: option.split)

lemma initialAggregate_simps [simp]:
  "agg_ReadyReplicas initialAggregate = 0" "agg_ReadyPods initialAggregate = 0"
  "agg_AllPending initialAggregate" "\<not> agg_AnyRunning initialAggregate"
  by (simp_all add: initialAggregate_def)

lemma fold_addLWSStatus:
  fixes f :: "int32 \<Rightarrow> lws_status option" and n :: int32
  defines "F \<equiv> fold (\<lambda>i. addLWSStatus n (f i))"
  shows "agg_ReadyReplicas (F is agg) = agg_ReadyReplicas agg + of_nat (length (filter (is_ready \<circ> f) is))"
    and "agg_ReadyPods (F is agg) = agg_ReadyPods agg + sum_list (map (ready_pods n \<circ> f) is)"
    and "agg_AllPending (F is agg) \<longleftrightarrow> agg_AllPending agg \<and> (\<forall>i \<in> set is. \<not> is_started (f i))"
    and "agg_AnyRunning (F is agg) \<longleftrightarrow> agg_AnyRunning agg \<or> (\<exists>i \<in> set is. is_ready (f i))"
  unfolding F_def by (induction "is" arbitrary: agg) (auto simp: algebra_simps)

lemma length_filter_int32:
  "sint (of_nat (length (filter P (int32_range n))) :: int32) = int (length (filter P (int32_range n)))"
proof -
  have "int (length (filter P (int32_range n))) \<le> int (nat (sint n))"
    using length_filter_le [of P "int32_range n"] by (simp only: length_int32_range of_nat_le_iff)
  also have "\<dots> < 2 ^ 31" using sint_less_bound [of n] by simp
  finally show ?thesis
    using sint_word_of_int32 [of "int (length (filter P (int32_range n)))"] by simp
qed

lemma role_aggregate_parts:
  "sint (agg_ReadyReplicas (role_aggregate svc role v)) =
     int (length (filter (\<lambda>i. is_ready (replica_status svc role v i)) (replicas_of role)))"
  "agg_ReadyPods (role_aggregate svc role v) =
     (\<Sum>i \<leftarrow> replicas_of role. ready_pods (GetNodeCount role) (replica_status svc role v i))"
  "agg_AnyRunning (role_aggregate svc role v) \<longleftrightarrow>
     (\<exists>i \<in> set (replicas_of role). is_ready (replica_status svc role v i))"
  "agg_AllPending (role_aggregate svc role v) \<longleftrightarrow>
     (\<forall>i \<in> set (replicas_of role). \<not> is_started (replica_status svc role v i))"
  by (simp_all add: role_aggregate_def fold_addLWSStatus length_filter_int32 comp_def)

definition role_phase :: "inference_service \<Rightarrow> role \<Rightarrow> (key \<rightharpoonup> kobj) \<Rightarrow> ComponentPhase" where
  "role_phase svc role v = aggregatePhase (GetReplicaCount role) (role_aggregate svc role v)"

lemma all_counted_iff:
  "sint n \<le> int (length (filter P (int32_range n))) \<longleftrightarrow> (\<forall>i \<in> set (int32_range n). P i)"
proof -
  have "(\<forall>i \<in> set (int32_range n). P i) \<longleftrightarrow>
      length (filter P (int32_range n)) = length (int32_range n)"
    by (metis filter_id_conv length_filter_less less_irrefl)
  then show ?thesis using length_filter_le [of P "int32_range n"] by auto
qed

lemma role_phase_cases:
  "role_phase svc role v =
     (if \<forall>i \<in> set (replicas_of role). is_ready (replica_status svc role v i) then PhaseRunning
      else if \<exists>i \<in> set (replicas_of role). is_ready (replica_status svc role v i) \<or>
                is_started (replica_status svc role v i) then PhaseDeploying
      else PhasePending)"
  unfolding role_phase_def aggregatePhase_def role_aggregate_parts all_counted_iff by auto

subsection \<open>Reading the status does not change the store\<close>

text \<open>What the status of a role must be when the stored objects are \<open>v\<close>.\<close>

definition reports :: "inference_service \<Rightarrow> (key \<rightharpoonup> kobj) \<Rightarrow> role \<Rightarrow> string \<times> component_status \<Rightarrow> bool" where
  "reports svc v role p \<longleftrightarrow>
     (case p of (name, st) \<Rightarrow>
        name = role_Name role \<and>
        cs_DesiredReplicas st = GetReplicaCount role \<and> cs_NodesPerReplica st = GetNodeCount role \<and>
        cs_TotalPods st = GetReplicaCount role * GetNodeCount role \<and>
        cs_ReadyReplicas st = agg_ReadyReplicas (role_aggregate svc role v) \<and>
        cs_ReadyPods st = agg_ReadyPods (role_aggregate svc role v) \<and>
        cs_Phase st = role_phase svc role v \<and> cs_LastUpdateTime st \<noteq> None)"

definition served_roles :: "inference_service \<Rightarrow> role list" where
  "served_roles svc = filter (\<lambda>r. role_ComponentType r \<noteq> ComponentTypeRouter) (isvc_Roles svc)"

text \<open>Components looked at while the clock stands still all carry its time.\<close>

definition timed :: "'s api \<Rightarrow> (string \<times> component_status) list \<Rightarrow> bool" where
  "timed A cs \<longleftrightarrow> (\<forall>now. (\<forall>s. fst (api_Now A s) = now) \<longrightarrow> (\<forall>p \<in> set cs. cs_LastUpdateTime (snd p) = Some now))"

lemma timed_update: "timed A cs \<Longrightarrow> (\<And>now. (\<forall>s. fst (api_Now A s) = now) \<Longrightarrow> cs_LastUpdateTime c = Some now) \<Longrightarrow>
    timed A (AList.update n c cs)"
  unfolding timed_def by (induction cs) (auto split: if_splits)

lemma componentsLoop_timed: "timed A cs \<Longrightarrow> timed A (fst (componentsLoop A svc rs cs s))"
proof (induction rs arbitrary: cs s)
  case (Cons r rs)
  then show ?case
    by (auto simp: Let_def split: prod.split intro!: Cons.IH timed_update dest: spec) (metis fst_conv)
qed simp

context cluster
begin

lemma getLWSStatus_view:
  "\<exists>s'. getLWSStatus A svc role i s = (replica_status svc role (view s) i, s') \<and> view s' = view s"
proof (cases "view s (lws_key svc role i)")
  case None
  with get_missing [OF None [unfolded lws_key_def]] show ?thesis
    by (auto simp: getLWSStatus_def typed_get_def replica_status_def)
next
  case (Some ob)
  with view_key [OF Some] have "kobj_kind ob = KindLWS" by (simp add: kobj_key_def lws_key_def)
  then obtain l where "ob = ObjLWS l" by (cases ob) simp_all
  with Some get_found [OF Some [unfolded lws_key_def]] show ?thesis
    by (auto simp: getLWSStatus_def typed_get_def replica_status_def lws_ops_def)
qed

lemma aggregateLoop_view:
  "\<exists>s'. aggregateLoop A svc role is agg s =
      (fold (\<lambda>i. addLWSStatus (GetNodeCount role) (replica_status svc role (view s) i)) is agg, s') \<and>
    view s' = view s"
proof (induction "is" arbitrary: agg s)
  case (Cons i "is")
  from getLWSStatus_view [of svc role i s] obtain s1 where
    s1: "getLWSStatus A svc role i s = (replica_status svc role (view s) i, s1)" "view s1 = view s" by blast
  with Cons.IH [of "addLWSStatus (GetNodeCount role) (replica_status svc role (view s) i) agg" s1]
  show ?case by auto
qed simp

lemma aggregateLWSStatus_view:
  "\<exists>s'. aggregateLWSStatus A svc role s =
      (\<lparr>cs_DesiredReplicas = 0, cs_ReadyReplicas = agg_ReadyReplicas (role_aggregate svc role (view s)),
        cs_NodesPerReplica = 0, cs_TotalPods = 0, cs_ReadyPods = agg_ReadyPods (role_aggregate svc role (view s)),
        cs_Phase = role_phase svc role (view s), cs_LastUpdateTime = None\<rparr>, s') \<and> view s' = view s"
  using aggregateLoop_view [of svc role "replicas_of role" initialAggregate s]
  by (auto simp: aggregateLWSStatus_def role_aggregate_def role_phase_def Let_def)

lemma update_fresh: "k \<notin> fst ` set ps \<Longrightarrow> AList.update k x ps = ps @ [(k, x)]"
  by (induction ps) auto

lemma componentsLoop_view:
  assumes "distinct (map role_Name (filter (\<lambda>r. role_ComponentType r \<noteq> ComponentTypeRouter) rs))"
    and "fst ` set cs \<inter> role_Name ` set (filter (\<lambda>r. role_ComponentType r \<noteq> ComponentTypeRouter) rs) = {}"
  shows "\<exists>ps s'. componentsLoop A svc rs cs s = (cs @ ps, s') \<and> view s' = view s \<and>
    list_all2 (reports svc (view s)) (filter (\<lambda>r. role_ComponentType r \<noteq> ComponentTypeRouter) rs) ps"
  using assms
proof (induction rs arbitrary: cs s)
  case (Cons r rs)
  let ?F = "filter (\<lambda>r. role_ComponentType r \<noteq> ComponentTypeRouter)"
  show ?case
  proof (cases "role_ComponentType r = ComponentTypeRouter")
    case True
    with Cons show ?thesis by simp
  next
    case False
    from aggregateLWSStatus_view [of svc r s] obtain st s1 where s1: "aggregateLWSStatus A svc r s = (st, s1)"
      "view s1 = view s" and st: "cs_ReadyReplicas st = agg_ReadyReplicas (role_aggregate svc r (view s))"
      "cs_ReadyPods st = agg_ReadyPods (role_aggregate svc r (view s))" "cs_Phase st = role_phase svc r (view s)"
      by auto
    obtain now s2 where now: "api_Now A s1 = (now, s2)" by fastforce
    with now_view [of s1] s1 have v2: "view s2 = view s" by simp
    let ?st = "st\<lparr>cs_NodesPerReplica := GetNodeCount r, cs_DesiredReplicas := GetReplicaCount r,
      cs_TotalPods := GetReplicaCount r * GetNodeCount r, cs_LastUpdateTime := Some now\<rparr>"
    have fresh: "role_Name r \<notin> fst ` set cs" using Cons.prems(2) False by auto
    have "reports svc (view s) r (role_Name r, ?st)" using st by (simp add: reports_def)
    moreover from Cons.IH [of "cs @ [(role_Name r, ?st)]" s2] Cons.prems False obtain ps s3 where
      "componentsLoop A svc rs (cs @ [(role_Name r, ?st)]) s2 = ((cs @ [(role_Name r, ?st)]) @ ps, s3)"
      "view s3 = view s2" "list_all2 (reports svc (view s2)) (?F rs) ps" by auto
    moreover have "componentsLoop A svc (r # rs) cs s = componentsLoop A svc rs (cs @ [(role_Name r, ?st)]) s2"
      using False s1 now by (simp add: Let_def update_fresh [OF fresh])
    ultimately show ?thesis using False v2 by auto
  qed
qed simp

theorem components_view:
  assumes "distinct (map role_Name (served_roles svc))"
  shows "\<exists>components s'. updateComponentStatusInMemory A svc s =
      (svc\<lparr>isvc_Status := (isvc_Status svc)\<lparr>Components := components\<rparr>\<rparr>, s') \<and> view s' = view s \<and>
    list_all2 (reports svc (view s)) (served_roles svc) components \<and> timed A components"
  using componentsLoop_view [of "isvc_Roles svc" "[]" svc s] assms
    componentsLoop_timed [of A "[]" svc "isvc_Roles svc" s]
  by (auto simp: updateComponentStatusInMemory_def served_roles_def timed_def)

end

subsection \<open>When everything is ready\<close>

definition service_ready :: "inference_service \<Rightarrow> (key \<rightharpoonup> kobj) \<Rightarrow> bool" where
  "service_ready svc v \<longleftrightarrow>
     served_roles svc \<noteq> [] \<and>
     (\<forall>role \<in> set (served_roles svc). \<forall>i \<in> set (replicas_of role). is_ready (replica_status svc role v i))"

lemma role_phase_running:
  "role_phase svc role v = PhaseRunning \<longleftrightarrow>
     (\<forall>i \<in> set (replicas_of role). is_ready (replica_status svc role v i))"
  by (simp add: role_phase_cases)

lemma all_ready_iff:
  assumes "list_all2 (reports svc v) (served_roles svc) (Components (isvc_Status svc'))"
  shows "checkAllComponentsReady svc' \<longleftrightarrow> service_ready svc v"
proof -
  have "list_all2 (reports svc v) rs ps \<Longrightarrow>
      list_all (\<lambda>(name, st). cs_Phase st = PhaseRunning) ps \<longleftrightarrow> (\<forall>r \<in> set rs. role_phase svc r v = PhaseRunning)"
    for rs ps
    by (induction rule: list_all2_induct) (auto simp: reports_def)
  from this [OF assms] show ?thesis
    using list_all2_lengthD [OF assms]
    by (auto simp: checkAllComponentsReady_def service_ready_def role_phase_running)
qed

end
