(* ===== verification/Reconciliation.thy ===== *)
theory Reconciliation
  imports ComponentStatus
begin

section \<open>A whole reconciliation\<close>

text \<open>
  \<open>Reconcile\<close> from reading the service to writing its status, against a server that satisfies
  \<open>cluster\<close>: \<open>reconcile_achieves\<close> says what is stored afterwards, \<open>reconcile_missing\<close> what happens to a
  service that is gone. \<open>isvc_key\<close> is the key of the service itself.
\<close>

definition isvc_key :: "inference_service \<Rightarrow> key" where
  "isvc_key svc = (KindInferenceService, isvc_Namespace svc, isvc_Name svc)"

lemma kobj_key_isvc [simp]: "kobj_key (ObjInferSvc svc) = isvc_key svc"
  by (simp add: kobj_key_def isvc_key_def)

lemma isvc_key_kind [simp]: "fst (isvc_key svc) = KindInferenceService"
  by (simp add: isvc_key_def)

lemma may_not_change_isvc: "\<not> may_change X svc v (isvc_key svc')"
  by (auto simp: may_change_def untouched_other_kind isvc_key_def router_keys_def account_key_def)

lemma converged_cong:
  assumes "\<And>k. k \<noteq> isvc_key svc \<Longrightarrow> v' k = v k" and "converged X svc v"
  shows "converged X svc v'"
proof -
  have other: "fst k \<noteq> KindInferenceService \<Longrightarrow> v' k = v k" for k
    by (rule assms(1)) (auto simp: isvc_key_def)
  have "podgroup_ok X svc v'"
    using assms(2) podgroup_ok_cong [of X svc v v'] other [of "(KindPodGroup, isvc_Namespace svc, isvc_Name svc)"]
    by (simp add: converged_def)
  moreover have "role_ok X svc role v'" if "role \<in> set (workers svc)" for role
    by (rule role_ok_cong [of X svc role v]) (use assms(2) that other in \<open>simp_all add: converged_def\<close>)
  moreover have "router_ok X svc role (workers svc) v'" if "role \<in> set (routers svc)" for role
  proof -
    have "settled k ls v'" if "(k, ls) \<in> set (router_wants X svc role (workers svc))" "settled k ls v" for k ls
    proof -
      from that(1) have "k \<in> set (router_keys svc)"
        unfolding router_wants_keys [of svc X role "workers svc", symmetric] by force
      then have "fst k \<noteq> KindInferenceService" by (auto simp: router_keys_def account_key_def)
      with that(2) other show ?thesis by (blast intro: settled_other)
    qed
    moreover have "v' (account_key svc) = v (account_key svc)" by (rule other) (simp add: account_key_def)
    moreover have "router_ok X svc role (workers svc) v" using assms(2) that by (simp add: converged_def)
    ultimately show ?thesis unfolding router_ok_def by fastforce
  qed
  ultimately show ?thesis by (simp add: converged_def)
qed

subsection \<open>The status does not matter for what is wanted\<close>

abbreviation with_status :: "inference_service \<Rightarrow> inference_service_status \<Rightarrow> inference_service" where
  "with_status svc st \<equiv> svc\<lparr>isvc_Status := st\<rparr>"

lemma scheduling_status [simp]:
  "IsPDDisaggregated (with_status svc st) = IsPDDisaggregated svc"
  "NeedsGangScheduling (with_status svc st) = NeedsGangScheduling svc"
  "NeedsGangSchedulingForRole (with_status svc st) = NeedsGangSchedulingForRole svc"
  by (simp_all add: IsPDDisaggregated_def NeedsGangScheduling_def NeedsGangSchedulingForRole_def fun_eq_iff)

lemma builders_status [simp]:
  "BuildLWS X (with_status svc st) = BuildLWS X svc"
  "BuildPodGroup X (with_status svc st) = BuildPodGroup X svc"
  "BuildInferencePool X (with_status svc st) = BuildInferencePool X svc"
  "BuildHTTPRoute X (with_status svc st) = BuildHTTPRoute X svc"
  "BuildEPPConfigMap X (with_status svc st) = BuildEPPConfigMap X svc"
  "BuildEPPDeployment X (with_status svc st) = BuildEPPDeployment X svc"
  "BuildEPPService X (with_status svc st) = BuildEPPService X svc"
  "BuildEPPServiceAccount (with_status svc st) = BuildEPPServiceAccount svc"
  "BuildEPPRole X (with_status svc st) = BuildEPPRole X svc"
  "BuildEPPRoleBinding X (with_status svc st) = BuildEPPRoleBinding X svc"
proof -
  have labels: "lwsLabels (with_status svc st) = lwsLabels svc"
    by (intro ext) (simp add: lwsLabels_def)
  have "lws_with_labels (with_status svc st) = lws_with_labels svc"
    by (intro ext) (simp add: lws_with_labels_def)
  with labels have "finishLWS X (with_status svc st) = finishLWS X svc"
    by (intro ext) (simp add: finishLWS_def)
  then show "BuildLWS X (with_status svc st) = BuildLWS X svc"
    by (intro ext) (simp add: BuildLWS_def Let_def split: option.split)
  have "addGangRole X (with_status svc st) = addGangRole X svc"
    by (intro ext) (simp add: addGangRole_def)
  then show "BuildPodGroup X (with_status svc st) = BuildPodGroup X svc"
    by (simp add: BuildPodGroup_def)
  have "GenerateEPPConfig (with_status svc st) = GenerateEPPConfig svc"
    by (intro ext) (simp add: GenerateEPPConfig_def generatePDDisaggregationConfig_def)
  then show "BuildEPPConfigMap X (with_status svc st) = BuildEPPConfigMap X svc"
    by (intro ext) (simp add: BuildEPPConfigMap_def)
  have "buildPoolSelector (with_status svc st) = buildPoolSelector svc"
    by (intro ext) (simp add: buildPoolSelector_def)
  then show "BuildInferencePool X (with_status svc st) = BuildInferencePool X svc"
    by (intro ext) (simp add: BuildInferencePool_def)
  have "eppContainer X (with_status svc st) = eppContainer X svc"
    by (simp add: eppContainer_def)
  then have "eppPodSpec X (with_status svc st) = eppPodSpec X svc"
    by (simp add: eppPodSpec_def)
  then show "BuildEPPDeployment X (with_status svc st) = BuildEPPDeployment X svc"
    by (simp add: BuildEPPDeployment_def)
qed (simp_all add: BuildHTTPRoute_def BuildEPPService_def BuildEPPServiceAccount_def BuildEPPRole_def
    BuildEPPRoleBinding_def fun_eq_iff)

lemma wanted_status [simp]:
  "isvc_key (with_status svc st) = isvc_key svc"
  "workers (with_status svc st) = workers svc"
  "routers (with_status svc st) = routers svc"
  "served_roles (with_status svc st) = served_roles svc"
  "role_keys (with_status svc st) = role_keys svc"
  "carries_role (with_status svc st) = carries_role svc"
  "router_keys (with_status svc st) = router_keys svc"
  "replica_status (with_status svc st) = replica_status svc"
  by (simp_all add: isvc_key_def workers_def routers_def served_roles_def role_keys_def lws_key_def
      carries_role_def role_selector_def router_keys_def account_key_def replica_status_def fun_eq_iff)

lemma converged_status [simp]: "converged X (with_status svc st) = converged X svc"
proof -
  have "replica_lws X (with_status svc st) = replica_lws X svc"
    by (intro ext) (simp add: replica_lws_def replicaConfig_def Let_def)
  then have "role_ok X (with_status svc st) = role_ok X svc"
    by (intro ext) (simp add: role_ok_def replica_labels_def lws_key_def)
  moreover have "router_ok X (with_status svc st) = router_ok X svc"
    by (intro ext) (simp add: router_ok_def router_wants_def account_key_def)
  moreover have "podgroup_ok X (with_status svc st) = podgroup_ok X svc"
    by (intro ext) (simp add: podgroup_ok_def)
  ultimately show ?thesis by (intro ext) (simp add: converged_def)
qed

lemma hypotheses_status [simp]:
  "well_specified X (with_status svc st) = well_specified X svc"
  "labels_sound (with_status svc st) = labels_sound svc"
  "may_change X (with_status svc st) = may_change X svc"
  "service_ready (with_status svc st) = service_ready svc"
  "reports (with_status svc st) = reports svc"
  by (simp_all add: well_specified_def buildable_def labels_sound_def may_change_def
      untouched_by_roles_def service_ready_def reports_def role_phase_def role_aggregate_def fun_eq_iff)

subsection \<open>What is stored after a reconciliation\<close>

text \<open>The status a reconciliation without errors writes for \<open>svc\<close> when the objects are \<open>v\<close>.\<close>

definition good_status ::
  "inference_service \<Rightarrow> (key \<rightharpoonup> kobj) \<Rightarrow> inference_service_status \<Rightarrow> bool" where
  "good_status svc v st \<longleftrightarrow>
     ObservedGeneration st = meta_Generation (isvc_Meta svc) \<and>
     list_all2 (reports svc v) (served_roles svc) (Components st) \<and>
     status_of (Conditions st) ConditionTypeActive = (if service_ready svc v then ConditionTrue else ConditionFalse) \<and>
     status_of (Conditions st) ConditionTypeFailed = status_of (isvc_Conditions svc) ConditionTypeFailed \<and>
     status_of (Conditions st) ConditionTypeInitialized =
       (if isvc_Conditions svc = [] then ConditionTrue
        else status_of (isvc_Conditions svc) ConditionTypeInitialized)"

lemma final_condition_status:
  assumes "condition_laws X" and "list_all2 (reports svc v) (served_roles svc) (Components (isvc_Status svc1))"
  shows "status_of (isvc_Conditions (setFinalCondition X now None svc1)) t =
    (if t = ConditionTypeActive then if service_ready svc v then ConditionTrue else ConditionFalse
     else status_of (isvc_Conditions svc1) t)"
  using all_ready_iff [OF assms(2)] by (simp add: setFinalCondition_def setters_status [OF assms(1)])

lemma setFinalCondition_with_status:
  "\<exists>st. setFinalCondition X now e svc = with_status svc st \<and> Components st = Components (isvc_Status svc) \<and>
     ObservedGeneration st = meta_Generation (isvc_Meta svc)"
  by (auto simp: setFinalCondition_def condition_setters setCondition_def split: option.splits)

context cluster
begin

lemma initialise_view:
  assumes "condition_laws X"
  shows "\<exists>st s'. initialise X A svc s = (with_status svc st, s') \<and> view s' = view s \<and>
    (\<forall>t. status_of (Conditions st) t =
      (if isvc_Conditions svc = [] \<and> t = ConditionTypeInitialized then ConditionTrue
       else status_of (isvc_Conditions svc) t))"
proof (cases "isvc_Conditions svc = []")
  case True
  obtain now s1 where now: "api_Now A s = (now, s1)" by fastforce
  have "setInitCondition X now svc = with_status svc (isvc_Status (setInitCondition X now svc))"
    by (simp add: condition_setters setCondition_def)
  with True now now_view [of s] show ?thesis
    using setters_status(1) [OF assms, of now svc]
    by (intro exI [of _ "isvc_Status (setInitCondition X now svc)"] exI [of _ s1])
      (simp add: initialise_def)
next
  case False
  have "svc = with_status svc (isvc_Status svc)" by simp
  with False show ?thesis
    by (intro exI [of _ "isvc_Status svc"] exI [of _ s]) (simp add: initialise_def)
qed

lemma finishReconcile_exact:
  assumes dist: "distinct (map role_Name (served_roles svc))"
    and stored: "view s (isvc_key svc) = Some (ObjInferSvc (with_status svc st0))"
  shows "\<exists>now st s'. finishReconcile X A svc None s = (Ok (), s') \<and>
    view s' = (view s)(isvc_key svc \<mapsto> ObjInferSvc (with_status svc st)) \<and>
    list_all2 (reports svc (view s)) (served_roles svc) (Components st) \<and> timed A (Components st) \<and>
    setFinalCondition X now None (with_status svc ((isvc_Status svc)\<lparr>Components := Components st\<rparr>)) = with_status svc st"
proof -
  from components_view [OF dist, of s] obtain components s1 where s1:
      "updateComponentStatusInMemory A svc s = (with_status svc ((isvc_Status svc)\<lparr>Components := components\<rparr>), s1)"
      "view s1 = view s" and reports: "list_all2 (reports svc (view s)) (served_roles svc) components" "timed A components"
    by blast
  let ?svc1 = "with_status svc ((isvc_Status svc)\<lparr>Components := components\<rparr>)"
  obtain now s2 where now: "api_Now A s1 = (now, s2)" by fastforce
  with now_view [of s1] s1 have v2: "view s2 = view s" by simp
  from setFinalCondition_with_status [of X now None ?svc1] obtain st where
    st: "setFinalCondition X now None ?svc1 = with_status svc st" "Components st = components" by auto
  from status_update [of s2 "with_status svc st" "with_status svc st0"] stored v2 obtain s3 where
    "api_StatusUpdate A (with_status svc st) s2 = (Inr (), s3)"
    "view s3 = (view s)(isvc_key svc \<mapsto> ObjInferSvc (with_status svc st))" by auto
  with s1 now st reports show ?thesis
    by (intro exI [of _ now] exI [of _ st] exI [of _ s3]) (simp add: finishReconcile_def)
qed

lemma finishReconcile_view:
  assumes laws: "condition_laws X" and dist: "distinct (map role_Name (served_roles svc))"
    and stored: "view s (isvc_key svc) = Some (ObjInferSvc (with_status svc st0))"
  shows "\<exists>st s'. finishReconcile X A svc None s = (Ok (), s') \<and>
    view s' = (view s)(isvc_key svc \<mapsto> ObjInferSvc (with_status svc st)) \<and>
    ObservedGeneration st = meta_Generation (isvc_Meta svc) \<and>
    list_all2 (reports svc (view s)) (served_roles svc) (Components st) \<and>
    (\<forall>t. status_of (Conditions st) t =
       (if t = ConditionTypeActive then if service_ready svc (view s) then ConditionTrue else ConditionFalse
        else status_of (isvc_Conditions svc) t))"
proof -
  from finishReconcile_exact [OF dist stored, of X] obtain now st s' where
    run: "finishReconcile X A svc None s = (Ok (), s')" "view s' = (view s)(isvc_key svc \<mapsto> ObjInferSvc (with_status svc st))"
    and reports: "list_all2 (reports svc (view s)) (served_roles svc) (Components st)"
    and st: "setFinalCondition X now None (with_status svc ((isvc_Status svc)\<lparr>Components := Components st\<rparr>)) = with_status svc st"
    by blast
  let ?svc1 = "with_status svc ((isvc_Status svc)\<lparr>Components := Components st\<rparr>)"
  have "status_of (Conditions st) t =
      (if t = ConditionTypeActive then if service_ready svc (view s) then ConditionTrue else ConditionFalse
       else status_of (isvc_Conditions svc) t)" for t
    using final_condition_status [OF laws, of svc "view s" ?svc1 now t] reports st by simp
  moreover from setFinalCondition_with_status [of X now None ?svc1] obtain st' where
    "with_status svc st = with_status svc st'" "ObservedGeneration st' = meta_Generation (isvc_Meta svc)" by (auto simp: st)
  then have "ObservedGeneration st = meta_Generation (isvc_Meta svc)"
    by (metis inference_service.select_convs(3) inference_service.surjective inference_service.update_convs(3))
  ultimately show ?thesis using run reports by blast
qed

theorem reconcile_achieves:
  assumes laws: "condition_laws X" and spec: "well_specified X svc"
    and dist: "distinct (map role_Name (served_roles svc))"
    and sound: "labels_sound svc (view s)" and stored: "view s (isvc_key svc) = Some (ObjInferSvc svc)"
  shows "\<exists>st s'. Reconcile X A (isvc_Namespace svc) (isvc_Name svc) s = (Ok (), s') \<and>
    view s' (isvc_key svc) = Some (ObjInferSvc (with_status svc st)) \<and>
    good_status svc (view s') st \<and> converged X svc (view s') \<and>
    (\<forall>k. k \<noteq> isvc_key svc \<and> \<not> may_change X svc (view s) k \<longrightarrow> view s' k = view s k)"
proof -
  from stored have key: "inferencesvc_kind.key_of svc = isvc_key svc" by (simp add: kind_keys isvc_key_def)
  from inferencesvcs.typed_get_found [of s svc "ObjInferSvc svc"] stored obtain s1 where
    s1: "typed_get A inferencesvc_ops (isvc_Namespace svc) (isvc_Name svc) s = (Inr svc, s1)" "view s1 = view s"
    by (auto simp: key) (auto simp: inferencesvc_ops_def)
  from initialise_view [OF laws, of svc s1] obtain st1 s2 where
    s2: "initialise X A svc s1 = (with_status svc st1, s2)" "view s2 = view s1"
    and cond1: "\<forall>t. status_of (Conditions st1) t =
      (if isvc_Conditions svc = [] \<and> t = ConditionTypeInitialized then ConditionTrue
       else status_of (isvc_Conditions svc) t)" by blast
  from children_converge [of X "with_status svc st1" s2] spec sound s1(2) s2(2) obtain s3 where
    s3: "reconcileChildren X A (with_status svc st1) s2 = (Ok (), s3)"
    and conv: "converged X svc (view s3)"
    and frame: "\<forall>k. \<not> may_change X svc (view s) k \<longrightarrow> view s3 k = view s k" by auto
  have "view s3 (isvc_key svc) = Some (ObjInferSvc svc)"
    using frame may_not_change_isvc stored by metis
  then have "view s3 (isvc_key (with_status svc st1)) =
      Some (ObjInferSvc (with_status (with_status svc st1) (isvc_Status svc)))" by simp
  from finishReconcile_view [OF laws _ this] dist obtain st s4 where
    s4: "finishReconcile X A (with_status svc st1) None s3 = (Ok (), s4)"
    and v4: "view s4 = (view s3)(isvc_key svc \<mapsto> ObjInferSvc (with_status svc st))"
    and st: "ObservedGeneration st = meta_Generation (isvc_Meta svc)"
      "list_all2 (reports svc (view s3)) (served_roles svc) (Components st)"
      "\<forall>t. status_of (Conditions st) t =
         (if t = ConditionTypeActive then if service_ready svc (view s3) then ConditionTrue else ConditionFalse
          else status_of (Conditions st1) t)"
    by auto
  have same: "replica_status svc role (view s4) = replica_status svc role (view s3)" for role
    by (auto simp: replica_status_def v4 lws_key_def isvc_key_def fun_eq_iff)
  then have "service_ready svc (view s4) = service_ready svc (view s3)"
    "reports svc (view s4) = reports svc (view s3)"
    by (simp_all add: service_ready_def reports_def role_phase_def role_aggregate_def fun_eq_iff)
  with st cond1 have "good_status svc (view s4) st" by (simp add: good_status_def)
  moreover have "converged X svc (view s4)"
    by (rule converged_cong [OF _ conv]) (simp add: v4)
  moreover have "Reconcile X A (isvc_Namespace svc) (isvc_Name svc) s = (Ok (), s4)"
    using s1 s2 s3 s4 by (simp add: Reconcile_def)
  ultimately show ?thesis
    using v4 frame by (intro exI [of _ st] exI [of _ s4]) auto
qed

theorem reconcile_missing:
  assumes "view s (KindInferenceService, ns, n) = None"
  shows "\<exists>s'. Reconcile X A ns n s = (Ok (), s') \<and> view s' = view s"
  using get_missing [OF assms] by (auto simp: Reconcile_def typed_get_def inferencesvc_ops_def)

end

end
