(* ===== verification/Trace.thy ===== *)
theory Trace
  imports Reconciliation
begin

section \<open>The order of writes\<close>

text \<open>
  \<open>log_api A\<close> is the server \<open>A\<close> with a log of the writes the controller attempts: the state gets a list
  of events, and every call behaves as before. Nothing is assumed of \<open>A\<close>, which may fail at any call.
  \<open>logged f a b m m'\<close> says that \<open>m'\<close>, run on the logging server, does what \<open>m\<close> does on \<open>A\<close>, and that
  the events it adds have stages (numbers given by \<open>f\<close>) that do not decrease and lie between \<open>a\<close>
  and \<open>b\<close>. It is proved for the operations of the controller one after the other.
\<close>

datatype event =
    Created kobj
  | Updated kobj
  | Deleted kobj
  | StatusWritten inference_service

definition log_call ::
  "event \<Rightarrow> ('s \<Rightarrow> (error + unit) \<times> 's) \<Rightarrow> 's \<times> event list \<Rightarrow> (error + unit) \<times> ('s \<times> event list)" where
  "log_call e f st = (case f (fst st) of (r, s') \<Rightarrow> (r, (s', snd st @ [e])))"

definition quiet_call :: "('s \<Rightarrow> 'r \<times> 's) \<Rightarrow> 's \<times> event list \<Rightarrow> 'r \<times> ('s \<times> event list)" where
  "quiet_call f st = (case f (fst st) of (r, s') \<Rightarrow> (r, (s', snd st)))"

definition log_api :: "'s api \<Rightarrow> ('s \<times> event list) api" where
  "log_api A = \<lparr>
     api_Get = (\<lambda>k ns n. quiet_call (api_Get A k ns n)),
     api_Create = (\<lambda>ob. log_call (Created ob) (api_Create A ob)),
     api_Update = (\<lambda>ob. log_call (Updated ob) (api_Update A ob)),
     api_Delete = (\<lambda>ob. log_call (Deleted ob) (api_Delete A ob)),
     api_ListLWS = (\<lambda>ns sel. quiet_call (api_ListLWS A ns sel)),
     api_StatusUpdate = (\<lambda>svc. log_call (StatusWritten svc) (api_StatusUpdate A svc)),
     api_Now = quiet_call (api_Now A),
     api_SetControllerReference = api_SetControllerReference A\<rparr>"

lemma log_api_simps [simp]:
  "api_Get (log_api A) k ns n = quiet_call (api_Get A k ns n)"
  "api_Create (log_api A) ob = log_call (Created ob) (api_Create A ob)"
  "api_Update (log_api A) ob = log_call (Updated ob) (api_Update A ob)"
  "api_Delete (log_api A) ob = log_call (Deleted ob) (api_Delete A ob)"
  "api_ListLWS (log_api A) ns sel = quiet_call (api_ListLWS A ns sel)"
  "api_StatusUpdate (log_api A) svc = log_call (StatusWritten svc) (api_StatusUpdate A svc)"
  "api_Now (log_api A) = quiet_call (api_Now A)"
  "api_SetControllerReference (log_api A) = api_SetControllerReference A"
  by (simp_all add: log_api_def)

text \<open>The stages of a reconciliation. An event of stage 4 would write the service other than its status.\<close>

fun kind_stage :: "kind \<Rightarrow> nat" where
  "kind_stage KindPodGroup = 0"
| "kind_stage KindLWS = 1"
| "kind_stage KindInferenceService = 4"
| "kind_stage _ = 2"

fun stage :: "event \<Rightarrow> nat" where
  "stage (Created ob) = kind_stage (kobj_kind ob)"
| "stage (Updated ob) = kind_stage (kobj_kind ob)"
| "stage (Deleted ob) = kind_stage (kobj_kind ob)"
| "stage (StatusWritten svc) = 3"

text \<open>The steps of \<open>reconcileRouter\<close>.\<close>

fun router_step :: "kind \<Rightarrow> nat" where
  "router_step KindServiceAccount = 1"
| "router_step KindRole = 2"
| "router_step KindRoleBinding = 3"
| "router_step KindConfigMap = 4"
| "router_step KindDeployment = 5"
| "router_step KindService = 6"
| "router_step KindInferencePool = 7"
| "router_step KindHTTPRoute = 8"
| "router_step _ = 9"

fun event_step :: "event \<Rightarrow> nat" where
  "event_step (Created ob) = router_step (kobj_kind ob)"
| "event_step (Updated ob) = router_step (kobj_kind ob)"
| "event_step (Deleted ob) = 9"
| "event_step (StatusWritten svc) = 9"

definition logged ::
  "(event \<Rightarrow> nat) \<Rightarrow> nat \<Rightarrow> nat \<Rightarrow> ('s, 'a) op \<Rightarrow> ('s \<times> event list, 'a) op \<Rightarrow> bool" where
  "logged f a b m m' \<longleftrightarrow>
     (\<forall>s lg. \<exists>es. m' (s, lg) = (fst (m s), snd (m s), lg @ es) \<and>
        sorted (map f es) \<and> (\<forall>e \<in> set es. a \<le> f e \<and> f e \<le> b))"

subsection \<open>Rules\<close>

lemma logged_silent:
  assumes "\<And>s lg. m' (s, lg) = (fst (m s), snd (m s), lg)"
  shows "logged f a b m m'"
  unfolding logged_def using assms by (intro allI exI [of _ "[]"]) simp

lemma logged_return [intro]: "logged f a b (return_op x) (return_op x)"
  by (rule logged_silent) simp

lemma logged_panic [intro]: "logged f a b panic_op panic_op"
  by (rule logged_silent) simp

lemma logged_weaken: "logged f a b m m' \<Longrightarrow> c \<le> a \<Longrightarrow> b \<le> d \<Longrightarrow> logged f c d m m'"
  unfolding logged_def by (meson order_trans)

lemma logged_bind:
  assumes m: "logged f a b m m'" and g: "\<And>x. logged f b c (g x) (g' x)" and ab: "a \<le> b" "b \<le> c"
  shows "logged f a c (bind_op m g) (bind_op m' g')"
  unfolding logged_def
proof (intro allI)
  fix s lg
  from m obtain es where es: "m' (s, lg) = (fst (m s), snd (m s), lg @ es)" "sorted (map f es)"
    "\<forall>e \<in> set es. a \<le> f e \<and> f e \<le> b" unfolding logged_def by blast
  obtain r s1 where ms: "m s = (r, s1)" by (cases "m s")
  show "\<exists>es. bind_op m' g' (s, lg) = (fst (bind_op m g s), snd (bind_op m g s), lg @ es) \<and>
      sorted (map f es) \<and> (\<forall>e \<in> set es. a \<le> f e \<and> f e \<le> c)"
  proof (cases r)
    case (Ok x)
    from g [of x] obtain es2 where es2: "g' x (s1, lg @ es) = (fst (g x s1), snd (g x s1), (lg @ es) @ es2)"
      "sorted (map f es2)" "\<forall>e \<in> set es2. b \<le> f e \<and> f e \<le> c" unfolding logged_def by blast
    have "sorted (map f (es @ es2))"
      using es(2,3) es2(2,3) by (auto simp: sorted_append intro: order_trans)
    with es es2 ms Ok ab show ?thesis
      by (intro exI [of _ "es @ es2"]) (auto simp: bind_op_def intro: order_trans)
  qed (use es ms ab in \<open>auto simp: bind_op_def intro!: exI [of _ es] intro: order_trans\<close>)
qed

lemma logged_wrap:
  assumes "logged f a b m m'"
  shows "logged f a b (wrap_op p m) (wrap_op p m')"
  unfolding logged_def
proof (intro allI)
  fix s lg
  from assms obtain es where "m' (s, lg) = (fst (m s), snd (m s), lg @ es)" "sorted (map f es)"
    "\<forall>e \<in> set es. a \<le> f e \<and> f e \<le> b" unfolding logged_def by blast
  then show "\<exists>es. wrap_op p m' (s, lg) = (fst (wrap_op p m s), snd (wrap_op p m s), lg @ es) \<and>
      sorted (map f es) \<and> (\<forall>e \<in> set es. a \<le> f e \<and> f e \<le> b)"
    by (intro exI [of _ es]) (cases "m s", auto simp: wrap_op_def split: outcome.split)
qed

lemma logged_loop:
  assumes "\<And>x acc. logged f a a (body x acc) (body' x acc)"
  shows "logged f a a (loop_op body xs acc) (loop_op body' xs acc)"
proof (induction xs arbitrary: acc)
  case (Cons x xs)
  from logged_bind [OF assms Cons.IH] show ?case by simp
qed (simp add: logged_return)

lemma logged_call:
  "f e = a \<Longrightarrow> logged f a a (call_op c) (call_op (log_call e c))"
  unfolding logged_def by (auto simp: call_op_def log_call_def split: prod.split sum.split)

lemma typed_get_log:
  "typed_get (log_api A) K ns n (s, lg) = (fst (typed_get A K ns n s), snd (typed_get A K ns n s), lg)"
  by (simp add: typed_get_def quiet_call_def split: prod.split sum.split option.split)

lemma logged_set_owner: "logged f a b (set_owner A K owner obj) (set_owner (log_api A) K owner obj)"
  by (rule logged_silent) (simp add: set_owner_def split: sum.split)

lemma logged_createOrUpdate:
  fixes A :: "'s api"
  assumes "\<And>obj. f (Created (ko_Inject K obj)) = a" and "\<And>obj. f (Updated (ko_Inject K obj)) = a"
  shows "logged f a a (createOrUpdate A K obj) (createOrUpdate (log_api A) K obj)"
    and "logged f a a (createIfMissing A K obj) (createIfMissing (log_api A) K obj)"
proof -
  have call: "\<exists>es. call_op (log_call e c) (s, lg) = (fst (call_op c s), snd (call_op c s), lg @ es) \<and>
      sorted (map f es) \<and> (\<forall>e \<in> set es. a \<le> f e \<and> f e \<le> a)" if "f e = a" for e c and s :: 's and lg
    using logged_call [of f e a c] that unfolding logged_def by blast
  show "logged f a a (createOrUpdate A K obj) (createOrUpdate (log_api A) K obj)"
    unfolding logged_def
  proof (intro allI)
    fix s :: 's and lg
    let ?get = "typed_get A K (meta_Namespace (ko_Meta K obj)) (meta_Name (ko_Meta K obj)) s"
    show "\<exists>es. createOrUpdate (log_api A) K obj (s, lg) =
        (fst (createOrUpdate A K obj s), snd (createOrUpdate A K obj s), lg @ es) \<and>
        sorted (map f es) \<and> (\<forall>e \<in> set es. a \<le> f e \<and> f e \<le> a)"
      using call [OF assms(1)] call [OF assms(2)]
      by (cases ?get, cases "fst ?get") (auto simp: createOrUpdate_def typed_get_log)
  qed
  show "logged f a a (createIfMissing A K obj) (createIfMissing (log_api A) K obj)"
    unfolding logged_def
  proof (intro allI)
    fix s :: 's and lg
    let ?get = "typed_get A K (meta_Namespace (ko_Meta K obj)) (meta_Name (ko_Meta K obj)) s"
    show "\<exists>es. createIfMissing (log_api A) K obj (s, lg) =
        (fst (createIfMissing A K obj s), snd (createIfMissing A K obj s), lg @ es) \<and>
        sorted (map f es) \<and> (\<forall>e \<in> set es. a \<le> f e \<and> f e \<le> a)"
      using call [OF assms(1)]
      by (cases ?get, cases "fst ?get") (auto simp: createIfMissing_def typed_get_log)
  qed
qed

lemma logged_ensure:
  assumes "\<And>obj. f (Created (ko_Inject K obj)) = a" and "\<And>obj. f (Updated (ko_Inject K obj)) = a"
  shows "logged f a a (ensure A K owner obj) (ensure (log_api A) K owner obj)"
  unfolding ensure_def
  by (intro logged_bind [where b = a] logged_set_owner logged_createOrUpdate assms order_refl)

subsection \<open>The operations of the controller\<close>

lemma stage_kinds:
  "stage (Created (ko_Inject podgroup_ops x1)) = 0" "stage (Updated (ko_Inject podgroup_ops x1)) = 0"
  "stage (Created (ko_Inject lws_ops x2)) = 1" "stage (Updated (ko_Inject lws_ops x2)) = 1"
  "stage (Created (ko_Inject serviceaccount_ops x3)) = 2" "stage (Updated (ko_Inject serviceaccount_ops x3)) = 2"
  "stage (Created (ko_Inject role_ops x4)) = 2" "stage (Updated (ko_Inject role_ops x4)) = 2"
  "stage (Created (ko_Inject rolebinding_ops x5)) = 2" "stage (Updated (ko_Inject rolebinding_ops x5)) = 2"
  "stage (Created (ko_Inject configmap_ops x6)) = 2" "stage (Updated (ko_Inject configmap_ops x6)) = 2"
  "stage (Created (ko_Inject deployment_ops x7)) = 2" "stage (Updated (ko_Inject deployment_ops x7)) = 2"
  "stage (Created (ko_Inject service_ops x8)) = 2" "stage (Updated (ko_Inject service_ops x8)) = 2"
  "stage (Created (ko_Inject pool_ops x9)) = 2" "stage (Updated (ko_Inject pool_ops x9)) = 2"
  "stage (Created (ko_Inject route_ops x10)) = 2" "stage (Updated (ko_Inject route_ops x10)) = 2"
  by (simp_all add: kind_ops_defs)

lemma step_kinds:
  "event_step (Created (ko_Inject serviceaccount_ops x3)) = 1"
  "event_step (Updated (ko_Inject serviceaccount_ops x3)) = 1"
  "event_step (Created (ko_Inject role_ops x4)) = 2" "event_step (Updated (ko_Inject role_ops x4)) = 2"
  "event_step (Created (ko_Inject rolebinding_ops x5)) = 3" "event_step (Updated (ko_Inject rolebinding_ops x5)) = 3"
  "event_step (Created (ko_Inject configmap_ops x6)) = 4" "event_step (Updated (ko_Inject configmap_ops x6)) = 4"
  "event_step (Created (ko_Inject deployment_ops x7)) = 5" "event_step (Updated (ko_Inject deployment_ops x7)) = 5"
  "event_step (Created (ko_Inject service_ops x8)) = 6" "event_step (Updated (ko_Inject service_ops x8)) = 6"
  "event_step (Created (ko_Inject pool_ops x9)) = 7" "event_step (Updated (ko_Inject pool_ops x9)) = 7"
  "event_step (Created (ko_Inject route_ops x10)) = 8" "event_step (Updated (ko_Inject route_ops x10)) = 8"
  by (simp_all add: kind_ops_defs)

lemma logged_reconcilePodGroup:
  "logged stage 0 0 (reconcilePodGroup X A svc) (reconcilePodGroup X (log_api A) svc)"
proof (cases "NeedsGangScheduling svc")
  case True
  have "logged stage 0 0
      (bind_op (wrap_op p (set_owner A podgroup_ops owner obj)) (createOrUpdate A podgroup_ops))
      (bind_op (wrap_op p (set_owner (log_api A) podgroup_ops owner obj)) (createOrUpdate (log_api A) podgroup_ops))"
    for p owner obj
    by (intro logged_bind [where b = 0] logged_wrap logged_set_owner logged_createOrUpdate stage_kinds order_refl)
  with True show ?thesis by (simp add: reconcilePodGroup_def)
qed (simp add: reconcilePodGroup_def logged_return)

lemma logged_reconcileReplica:
  "logged stage 1 1 (reconcileReplica X A svc role g i D) (reconcileReplica X (log_api A) svc role g i D)"
proof (cases "BuildLWS X svc role (replicaConfig svc role g i)")
  case (Some l)
  have "logged stage 1 1
      (bind_op (wrap_op p (set_owner A lws_ops owner l)) (\<lambda>owned. bind_op (createOrUpdate A lws_ops owned) (\<lambda>_. return_op D')))
      (bind_op (wrap_op p (set_owner (log_api A) lws_ops owner l))
        (\<lambda>owned. bind_op (createOrUpdate (log_api A) lws_ops owned) (\<lambda>_. return_op D')))" for p owner D'
    by (intro logged_bind [where b = 1] logged_wrap logged_set_owner logged_createOrUpdate stage_kinds
        logged_return order_refl)
  with Some show ?thesis by (simp add: reconcileReplica_def)
qed (simp add: reconcileReplica_def logged_panic)

lemma logged_deleteOrphan: "logged stage 1 1 (deleteOrphan A D l u) (deleteOrphan (log_api A) D l u)"
  unfolding logged_def
  by (auto simp: deleteOrphan_def log_call_def split: prod.split sum.split)

lemma logged_list:
  "logged f a b (call_op (api_ListLWS A ns sel)) (call_op (api_ListLWS (log_api A) ns sel))"
  by (rule logged_silent) (simp add: call_op_def quiet_call_def split: prod.split sum.split)

lemma logged_reconcileLWS:
  "logged stage 1 1 (reconcileLWS X A svc role) (reconcileLWS X (log_api A) svc role)"
  unfolding reconcileLWS_def Let_def cleanupOrphanLWS_def
  by (intro logged_bind [where b = 1] logged_loop logged_wrap logged_list logged_deleteOrphan
      logged_reconcileReplica order_refl)

lemmas router_methods =
  reconcileEPPServiceAccount_def reconcileEPPRole_def reconcileEPPRoleBinding_def
  reconcileEPPConfigMap_def reconcileEPPDeployment_def reconcileEPPService_def
  reconcileInferencePool_def reconcileHTTPRoute_def

lemma logged_reconcileRouter:
  "logged stage 2 2 (reconcileRouter X A svc role ws) (reconcileRouter X (log_api A) svc role ws)"
  unfolding reconcileRouter_def router_methods
  by (intro logged_bind [where b = 2] logged_wrap logged_set_owner logged_ensure logged_createOrUpdate
      stage_kinds order_refl)

lemma logged_reconcileChildren:
  "logged stage 0 2 (reconcileChildren X A svc) (reconcileChildren X (log_api A) svc)"
proof -
  have role: "logged stage 1 1 (reconcileRole X A svc role ws) (reconcileRole X (log_api A) svc role ws)"
    for role ws
    unfolding reconcileRole_def
    by (auto intro!: logged_bind [where b = 1] logged_reconcileLWS logged_return simp del: One_nat_def)
  have router: "logged stage 2 2 (reconcileRouterRole X A svc ws role u) (reconcileRouterRole X (log_api A) svc ws role u)"
    for role ws u
    unfolding reconcileRouterRole_def by (auto intro!: logged_reconcileRouter)
  show ?thesis
    unfolding reconcileChildren_def
    by (intro logged_bind [where b = 1] logged_weaken [OF logged_reconcilePodGroup] logged_loop role
        logged_weaken [OF logged_loop [OF router]]) simp_all
qed

text \<open>Within one router: the account, its rights, the configuration, then what serves and routes.\<close>

lemma logged_next:
  assumes "logged f a a m m'" and "logged f (a + 1) c k k'" and "a < c"
  shows "logged f a c (bind_op (wrap_op p m) (\<lambda>_. k)) (bind_op (wrap_op p m') (\<lambda>_. k'))"
  using assms
  by (intro logged_bind [where b = a] logged_wrap) (auto intro: logged_weaken)

lemma logged_last: "logged f a a m m' \<Longrightarrow> a \<le> c \<Longrightarrow> logged f a c (wrap_op p m) (wrap_op p m')"
  by (auto intro: logged_wrap logged_weaken)

lemma logged_router_steps:
  "logged event_step 1 8 (reconcileRouter X A svc role ws) (reconcileRouter X (log_api A) svc role ws)"
proof -
  have account: "logged event_step 1 1
      (bind_op (set_owner A serviceaccount_ops owner obj) (createIfMissing A serviceaccount_ops))
      (bind_op (set_owner (log_api A) serviceaccount_ops owner obj) (createIfMissing (log_api A) serviceaccount_ops))"
    for owner obj
    by (intro logged_bind [where b = 1] logged_set_owner logged_createOrUpdate step_kinds order_refl)
  show ?thesis
    unfolding reconcileRouter_def router_methods
    by (intro logged_next logged_last account logged_ensure) (simp_all add: kind_ops_defs)
qed

subsection \<open>The whole reconciliation\<close>

lemma getLWSStatus_log:
  "getLWSStatus (log_api A) svc role i (s, lg) =
     (fst (getLWSStatus A svc role i s), snd (getLWSStatus A svc role i s), lg)"
  by (simp add: getLWSStatus_def typed_get_log split: prod.split sum.split)

lemma aggregateLoop_log:
  "aggregateLoop (log_api A) svc role is agg (s, lg) =
     (fst (aggregateLoop A svc role is agg s), snd (aggregateLoop A svc role is agg s), lg)"
  by (induction "is" arbitrary: agg s) (simp_all add: getLWSStatus_log split: prod.split)

lemma aggregateLWSStatus_log:
  "aggregateLWSStatus (log_api A) svc role (s, lg) =
     (fst (aggregateLWSStatus A svc role s), snd (aggregateLWSStatus A svc role s), lg)"
  by (simp add: aggregateLWSStatus_def Let_def aggregateLoop_log split: prod.split)

lemma componentsLoop_log:
  "componentsLoop (log_api A) svc roles cs (s, lg) =
     (fst (componentsLoop A svc roles cs s), snd (componentsLoop A svc roles cs s), lg)"
  by (induction roles arbitrary: cs s)
    (simp_all add: Let_def aggregateLWSStatus_log quiet_call_def split: prod.split)

lemma updateComponentStatus_log:
  "updateComponentStatusInMemory (log_api A) svc (s, lg) =
     (fst (updateComponentStatusInMemory A svc s), snd (updateComponentStatusInMemory A svc s), lg)"
  by (simp add: updateComponentStatusInMemory_def componentsLoop_log split: prod.split)

lemma initialise_log:
  "initialise X (log_api A) svc (s, lg) = (fst (initialise X A svc s), snd (initialise X A svc s), lg)"
  by (simp add: initialise_def quiet_call_def split: prod.split)

text \<open>The status that \<open>finishReconcile\<close> writes.\<close>

definition final_service ::
  "externals \<Rightarrow> 's api \<Rightarrow> inference_service \<Rightarrow> error option \<Rightarrow> 's \<Rightarrow> inference_service" where
  "final_service X A svc err s =
     (case updateComponentStatusInMemory A svc s of
        (svc, s) \<Rightarrow> setFinalCondition X (fst (api_Now A s)) err svc)"

lemma finishReconcile_log:
  "finishReconcile X (log_api A) svc err (s, lg) =
     (fst (finishReconcile X A svc err s), snd (finishReconcile X A svc err s),
      lg @ [StatusWritten (final_service X A svc err s)])"
  by (simp add: finishReconcile_def final_service_def Let_def updateComponentStatus_log quiet_call_def
      log_call_def split: prod.split sum.split option.split)

text \<open>Everything a reconciliation writes, and what it returns.\<close>

primrec outcome_error :: "'a outcome \<Rightarrow> error option" where
  "outcome_error (Ok x) = None"
| "outcome_error (Err e) = Some e"
| "outcome_error Panic = None"

lemma Reconcile_run:
  assumes "typed_get A inferencesvc_ops ns n s = (Inr svc, s1)" and "initialise X A svc s1 = (svc1, s2)"
    and "reconcileChildren X A svc1 s2 = (r, s3)"
  shows "Reconcile X A ns n s =
    (if r = Panic then (Panic, s3) else finishReconcile X A svc1 (outcome_error r) s3)"
  using assms by (cases r) (simp_all add: Reconcile_def)

lemma Reconcile_log:
  assumes "typed_get A inferencesvc_ops ns n s = (Inr svc, s1)" and "initialise X A svc s1 = (svc1, s2)"
    and "reconcileChildren X A svc1 s2 = (r, s3)"
  shows "\<exists>cs. sorted (map stage cs) \<and> (\<forall>e \<in> set cs. stage e \<le> 2) \<and>
    Reconcile X (log_api A) ns n (s, lg) =
      (fst (Reconcile X A ns n s), snd (Reconcile X A ns n s),
       lg @ cs @ (if r = Panic then [] else [StatusWritten (final_service X A svc1 (outcome_error r) s3)]))"
proof -
  from logged_reconcileChildren [of X A svc1, unfolded logged_def, rule_format, of s2 lg] assms(3)
  obtain cs where cs: "reconcileChildren X (log_api A) svc1 (s2, lg) = (r, s3, lg @ cs)"
      "sorted (map stage cs)" "\<forall>e \<in> set cs. stage e \<le> 2" by auto
  have "Reconcile X (log_api A) ns n (s, lg) =
      (if r = Panic then (Panic, s3, lg @ cs)
       else finishReconcile X (log_api A) svc1 (outcome_error r) (s3, lg @ cs))"
    by (rule Reconcile_run [of "log_api A" ns n "(s, lg)" svc "(s1, lg)" X svc1 "(s2, lg)"])
      (use assms cs(1) in \<open>simp_all add: typed_get_log initialise_log\<close>)
  with cs Reconcile_run [OF assms] show ?thesis
    by (intro exI [of _ cs]) (simp add: finishReconcile_log)
qed

lemma Reconcile_unread_log:
  assumes "typed_get A inferencesvc_ops ns n s = (Inl e, s1)"
  shows "Reconcile X (log_api A) ns n (s, lg) = (fst (Reconcile X A ns n s), snd (Reconcile X A ns n s), lg)"
  using assms by (simp add: Reconcile_def typed_get_log)

text \<open>The final condition agrees with the error.\<close>

lemma final_service_error:
  "\<exists>svc1 now. final_service X A svc (Some e) s = setFailedCondition X now svc1 e \<and>
     isvc_Conditions svc1 = isvc_Conditions svc \<and> isvc_Meta svc1 = isvc_Meta svc"
  by (auto simp: final_service_def setFinalCondition_def updateComponentStatusInMemory_def split: prod.split)

subsection \<open>Errors that name the step\<close>

definition names_step :: "('s, unit) op \<Rightarrow> bool" where
  "names_step m \<longleftrightarrow>
     (\<forall>s. case fst (m s) of
        Ok _ \<Rightarrow> True
      | Err e \<Rightarrow> (\<exists>p e0. e = Wrapped p e0 \<and> prefix ''failed to reconcile '' p)
      | Panic \<Rightarrow> False)"

lemma own_and_write_calm:
  "fst (bind_op (set_owner A K owner obj) (createOrUpdate A K) s) \<noteq> Panic"
  "fst (bind_op (set_owner A K owner obj) (createIfMissing A K) s) \<noteq> Panic"
  by (auto simp: bind_op_def set_owner_def createOrUpdate_def createIfMissing_def call_op_def
      split: prod.splits sum.splits outcome.splits if_splits)

lemma names_step_wrap:
  "(\<And>s. fst (m s) \<noteq> Panic) \<Longrightarrow> prefix ''failed to reconcile '' p \<Longrightarrow> names_step (wrap_op p m)"
  unfolding names_step_def
proof
  fix s assume "\<And>s. fst (m s) \<noteq> Panic" and p: "prefix ''failed to reconcile '' p"
  then have "fst (m s) \<noteq> Panic" by blast
  with p show "case fst (wrap_op p m s) of Ok _ \<Rightarrow> True
      | Err e \<Rightarrow> (\<exists>p e0. e = Wrapped p e0 \<and> prefix ''failed to reconcile '' p) | Panic \<Rightarrow> False"
    by (cases "m s", cases "fst (m s)") (simp_all add: wrap_op_def)
qed

lemma names_step_bind:
  assumes "names_step m" and "names_step m'"
  shows "names_step (bind_op m (\<lambda>_. m'))"
  unfolding names_step_def
proof
  fix s
  from assms(1) have m: "case fst (m s) of Ok _ \<Rightarrow> True
      | Err e \<Rightarrow> (\<exists>p e0. e = Wrapped p e0 \<and> prefix ''failed to reconcile '' p) | Panic \<Rightarrow> False"
    by (simp add: names_step_def)
  from assms(2) have m': "case fst (m' (snd (m s))) of Ok _ \<Rightarrow> True
      | Err e \<Rightarrow> (\<exists>p e0. e = Wrapped p e0 \<and> prefix ''failed to reconcile '' p) | Panic \<Rightarrow> False"
    by (simp add: names_step_def)
  show "case fst (bind_op m (\<lambda>_. m') s) of Ok _ \<Rightarrow> True
      | Err e \<Rightarrow> (\<exists>p e0. e = Wrapped p e0 \<and> prefix ''failed to reconcile '' p) | Panic \<Rightarrow> False"
    using m m' by (cases "m s", cases "fst (m s)") (simp_all add: bind_op_def)
qed

lemma reconcileRouter_names_step: "names_step (reconcileRouter X A svc role ws)"
  unfolding reconcileRouter_def router_methods ensure_def
  by (intro names_step_bind names_step_wrap own_and_write_calm) simp_all

end
