(* ===== verification/Lifecycle.thy ===== *)
theory Lifecycle
  imports Trace
begin

section \<open>The life of a service's conditions\<close>

text \<open>
  The status of a service changes only when a reconciliation writes it; its specification and its
  generation change when a user edits it. \<open>status_step\<close> is the resulting step relation, for any
  results of the API calls, and \<open>reachable\<close> the states a service gets into from one without
  conditions. \<open>final_service_step\<close> ties the relation to the controller: what a reconciliation writes
  is a step from what it read.
\<close>

abbreviation begun :: "externals \<Rightarrow> time \<Rightarrow> inference_service \<Rightarrow> inference_service" where
  "begun X t svc \<equiv> (if isvc_Conditions svc = [] then setInitCondition X t svc else svc)"

abbreviation with_components ::
  "inference_service \<Rightarrow> (string \<times> component_status) list \<Rightarrow> inference_service" where
  "with_components svc cs \<equiv> svc\<lparr>isvc_Status := (isvc_Status svc)\<lparr>Components := cs\<rparr>\<rparr>"

inductive status_step :: "externals \<Rightarrow> inference_service \<Rightarrow> inference_service \<Rightarrow> bool" for X where
  reconciled: "status_step X svc (setFinalCondition X t err (with_components (begun X t0 svc) cs))"
| edited: "isvc_Status svc' = isvc_Status svc \<Longrightarrow> status_step X svc svc'"

inductive reachable :: "externals \<Rightarrow> inference_service \<Rightarrow> bool" for X where
  created: "isvc_Conditions svc = [] \<Longrightarrow> reachable X svc"
| stepped: "reachable X svc \<Longrightarrow> status_step X svc svc' \<Longrightarrow> reachable X svc'"

text \<open>The only status a reconciliation writes, and how it is made of the service that was read.\<close>

lemma written_status:
  assumes "typed_get A inferencesvc_ops ns n s = (Inr svc, s1)" and "initialise X A svc s1 = (svc1, s2)"
    and "reconcileChildren X A svc1 s2 = (r, s3)"
  shows "\<exists>es. snd (snd (Reconcile X (log_api A) ns n (s, lg))) = lg @ es \<and>
    (\<forall>w. StatusWritten w \<in> set es \<longrightarrow> w = final_service X A svc1 (outcome_error r) s3)"
proof -
  let ?w = "final_service X A svc1 (outcome_error r) s3"
  from Reconcile_log [OF assms, of lg] obtain cs where cs: "\<forall>e \<in> set cs. stage e \<le> 2" and
    log: "snd (snd (Reconcile X (log_api A) ns n (s, lg))) = lg @ cs @ (if r = Panic then [] else [StatusWritten ?w])"
    by auto
  have "StatusWritten x \<notin> set cs" for x using cs by fastforce
  with log show ?thesis
    by (intro exI [of _ "cs @ (if r = Panic then [] else [StatusWritten ?w])"]) auto
qed

lemma final_service_form:
  assumes "initialise X A svc s1 = (svc1, s2)"
  shows "\<exists>t t0 cs. final_service X A svc1 err s = setFinalCondition X t err (with_components (begun X t0 svc) cs)"
proof -
  from assms obtain t0 where svc1: "svc1 = begun X t0 svc"
    by (auto simp: initialise_def split: if_splits prod.splits)
  obtain cs s' where "updateComponentStatusInMemory A svc1 s = (with_components svc1 cs, s')"
    by (cases "componentsLoop A svc1 (isvc_Roles svc1) [] s") (simp add: updateComponentStatusInMemory_def)
  then have "final_service X A svc1 err s =
      setFinalCondition X (fst (api_Now A s')) err (with_components (begun X t0 svc) cs)"
    by (simp add: final_service_def svc1)
  then show ?thesis by metis
qed

lemma final_service_step: "initialise X A svc s1 = (svc1, s2) \<Longrightarrow> status_step X svc (final_service X A svc1 err s)"
  using final_service_form [of X A svc s1 svc1 s2 err s] status_step.reconciled by metis

subsection \<open>Statuses after a step\<close>

lemma status_of_Nil [simp]: "status_of [] t = ''''"
  by (simp add: status_of_def)

lemma begun_status:
  assumes "condition_laws X"
  shows "status_of (isvc_Conditions (begun X t0 svc)) t =
    (if isvc_Conditions svc = [] \<and> t = ConditionTypeInitialized then ConditionTrue
     else status_of (isvc_Conditions svc) t)"
  by (simp add: setters_status [OF assms])

lemma reconciled_status:
  fixes X t err t0 svc cs
  defines "svc' \<equiv> setFinalCondition X t err (with_components (begun X t0 svc) cs)"
  assumes "condition_laws X"
  shows "status_of (isvc_Conditions svc') ConditionTypeInitialized =
      (if isvc_Conditions svc = [] then ConditionTrue
       else status_of (isvc_Conditions svc) ConditionTypeInitialized)"
    and "status_of (isvc_Conditions svc') ConditionTypeFailed =
      (if err = None then status_of (isvc_Conditions svc) ConditionTypeFailed else ConditionTrue)"
    and "status_of (isvc_Conditions svc') ConditionTypeActive =
      (if err \<noteq> None then status_of (isvc_Conditions svc) ConditionTypeActive
       else if cs \<noteq> [] \<and> list_all (\<lambda>(name, st). cs_Phase st = PhaseRunning) cs then ConditionTrue
       else ConditionFalse)"
  unfolding svc'_def
  by (simp_all add: setFinalCondition_def setters_status [OF assms(2)] checkAllComponentsReady_def
      split: option.split)

lemma reconciled_generation:
  "ObservedGeneration (isvc_Status (setFinalCondition X t err svc)) = meta_Generation (isvc_Meta svc)"
  by (simp add: setFinalCondition_def split: option.split)

lemma reconciled_message:
  assumes "condition_laws X"
  shows "\<exists>c. find_condition (isvc_Conditions (setFailedCondition X t svc e)) ConditionTypeFailed = Some c \<and>
    cond_Status c = ConditionTrue \<and> cond_Message c = error_message e"
  using assms by (simp add: condition_laws_def condition_setters)

subsection \<open>The invariant\<close>

text \<open>
  Either nothing has been recorded, or the service is initialised and one of the other two conditions
  is set; \<open>Failed\<close> is never false.
\<close>

definition conditions_ok :: "condition list \<Rightarrow> bool" where
  "conditions_ok cs \<longleftrightarrow>
     cs = [] \<or>
     status_of cs ConditionTypeInitialized = ConditionTrue \<and>
     status_of cs ConditionTypeFailed \<in> {'''', ConditionTrue} \<and>
     status_of cs ConditionTypeActive \<in> {'''', ConditionTrue, ConditionFalse} \<and>
     (status_of cs ConditionTypeActive = '''' \<longrightarrow> status_of cs ConditionTypeFailed = ConditionTrue)"

lemma conditions_ok_step:
  assumes "condition_laws X" and "status_step X svc svc'" and "conditions_ok (isvc_Conditions svc)"
  shows "conditions_ok (isvc_Conditions svc')"
  using assms(2,3)
proof (cases rule: status_step.cases)
  case (reconciled t err t0 cs)
  then show ?thesis
    using assms(3) reconciled_status [OF assms(1), where t = t and err = err and svc = svc and t0 = t0 and cs = cs]
    by (auto simp: conditions_ok_def ConditionTrue_def ConditionFalse_def)
qed simp

lemma reachable_ok: "condition_laws X \<Longrightarrow> reachable X svc \<Longrightarrow> conditions_ok (isvc_Conditions svc)"
proof -
  assume laws: "condition_laws X" and "reachable X svc"
  from this(2) show ?thesis
    by induction (auto simp: conditions_ok_def [of "[]"] intro: conditions_ok_step [OF laws])
qed

lemma failed_stays:
  assumes "condition_laws X" and "(status_step X)\<^sup>*\<^sup>* svc svc'"
    and "status_of (isvc_Conditions svc) ConditionTypeFailed = ConditionTrue"
  shows "status_of (isvc_Conditions svc') ConditionTypeFailed = ConditionTrue"
  using assms(2,3)
proof (induction rule: rtranclp_induct)
  case (step svc1 svc2)
  from step.hyps(2) show ?case
  proof (cases rule: status_step.cases)
    case (reconciled t err t0 cs)
    then show ?thesis
      using step.IH step.prems reconciled_status(2) [OF assms(1), where t = t and err = err and svc = svc1 and t0 = t0 and cs = cs] by simp
  qed (use step in simp)
qed

end
