(* ===== verification/Writes.thy ===== *)
theory Writes
  imports Reconciliation
begin

section \<open>What a reconciliation may write, whatever it reads\<close>

text \<open>
  A client may read through a cache, and calls may fail. The locale \<open>writes\<close> says only what the writes of
  an API \<open>B\<close> may do to the store \<open>w\<close>: a create or update stores an object of that key with these labels or
  nothing, a delete removes the object of that key or nothing, a status update changes the status of a
  stored service or nothing; reads change nothing, and a \<open>Get\<close> returns an object with the key asked for,
  from whatever time. \<open>preserves w P m Q\<close>: \<open>m\<close> leaves a store of which \<open>P\<close> holds, and a result, if it has
  one, of which \<open>Q\<close> holds. \<open>Reconcile_keeps\<close>: if the writes that are wanted for the service that was read
  keep \<open>P\<close>, and so does the clean-up of its roles, then the whole reconciliation does.
\<close>

subsection \<open>Operations that keep a property of the store\<close>

definition preserves ::
  "('t \<Rightarrow> key \<rightharpoonup> kobj) \<Rightarrow> ((key \<rightharpoonup> kobj) \<Rightarrow> bool) \<Rightarrow> ('t, 'a) op \<Rightarrow> ('a \<Rightarrow> bool) \<Rightarrow> bool" where
  "preserves w P m Q \<longleftrightarrow> (\<forall>t. P (w t) \<longrightarrow> P (w (snd (m t))) \<and> (\<forall>x. fst (m t) = Ok x \<longrightarrow> Q x))"

lemma preservesI:
  assumes "\<And>t r t'. m t = (r, t') \<Longrightarrow> P (w t) \<Longrightarrow> P (w t') \<and> (\<forall>x. r = Ok x \<longrightarrow> Q x)"
  shows "preserves w P m Q"
  using assms by (simp add: preserves_def) (metis prod.collapse)

lemma preservesD:
  assumes "preserves w P m Q" and "m t = (r, t')" and "P (w t)"
  shows "P (w t')" and "r = Ok x \<Longrightarrow> Q x"
  using assms unfolding preserves_def by (metis fst_conv snd_conv)+

lemma preserves_return: "Q x \<Longrightarrow> preserves w P (return_op x) Q"
  by (simp add: preserves_def)

lemma preserves_panic: "preserves w P panic_op Q"
  by (simp add: preserves_def)

lemma preserves_bind:
  assumes m: "preserves w P m Q" and f: "\<And>x. Q x \<Longrightarrow> preserves w P (f x) R"
  shows "preserves w P (bind_op m f) R"
proof (rule preservesI)
  fix t r t' assume "bind_op m f t = (r, t')" and P: "P (w t)"
  then show "P (w t') \<and> (\<forall>x. r = Ok x \<longrightarrow> R x)"
  proof (cases rule: bind_op_cases)
    case (1 x t1)
    from preservesD [OF m 1(1) P] have "P (w t1)" and "Q x" by auto
    with preservesD [OF f 1(2)] show ?thesis by blast
  qed (use preservesD [OF m _ P] in auto)
qed

lemma preserves_wrap:
  assumes m: "preserves w P m Q"
  shows "preserves w P (wrap_op p m) Q"
proof (rule preservesI)
  fix t r t' assume wr: "wrap_op p m t = (r, t')" and P: "P (w t)"
  obtain r1 t1 where "m t = (r1, t1)" by fastforce
  with wr preservesD [OF m this P] show "P (w t') \<and> (\<forall>x. r = Ok x \<longrightarrow> Q x)"
    by (cases r1) (auto simp: wrap_op_def)
qed

lemma preserves_loop:
  assumes "\<And>x acc. x \<in> set xs \<Longrightarrow> preserves w P (body x acc) (\<lambda>_. True)"
  shows "preserves w P (loop_op body xs acc) (\<lambda>_. True)"
  using assms
proof (induction xs arbitrary: acc)
  case (Cons x xs)
  then show ?case by (auto intro!: preserves_bind [where Q = "\<lambda>_. True"])
qed (simp add: preserves_return)

subsection \<open>The wanted objects\<close>

definition wanted :: "externals \<Rightarrow> inference_service \<Rightarrow> (key \<times> label_map) set" where
  "wanted X svc =
     (if NeedsGangScheduling svc then {want podgroup_ops (BuildPodGroup X svc)} else {}) \<union>
     (\<Union>role \<in> set (workers svc).
        (\<lambda>i. (lws_key svc role i, replica_labels X svc role i)) ` set (replicas_of role)) \<union>
     (\<Union>role \<in> set (routers svc).
        insert (want serviceaccount_ops (BuildEPPServiceAccount svc)) (set (router_wants X svc role (workers svc))))"

lemma wanted_cases:
  assumes "(k, ls) \<in> wanted X svc"
  obtains (group) "NeedsGangScheduling svc" "k = (KindPodGroup, isvc_Namespace svc, isvc_Name svc)"
      "(k, ls) = want podgroup_ops (BuildPodGroup X svc)"
  | (replica) role i where "role \<in> set (workers svc)" "i \<in> set (replicas_of role)"
      "k = lws_key svc role i" "ls = replica_labels X svc role i"
  | (router) role where "role \<in> set (routers svc)" "k \<in> set (router_keys svc)"
      "k = account_key svc \<or> (k, ls) \<in> set (router_wants X svc role (workers svc))"
proof -
  have account: "fst (want serviceaccount_ops (BuildEPPServiceAccount svc)) = account_key svc"
    by (simp add: want_def account_key_def kind_keys)
  have router_key: "k \<in> set (router_keys svc)" if "(k, ls) \<in> set (router_wants X svc role ws)" for role ws
    using that router_wants_keys [of svc X role ws] by (metis fst_conv image_eqI list.set_intros(2) list.set_map)
  consider "NeedsGangScheduling svc" "(k, ls) = want podgroup_ops (BuildPodGroup X svc)"
    | role i where "role \<in> set (workers svc)" "i \<in> set (replicas_of role)"
        "k = lws_key svc role i" "ls = replica_labels X svc role i"
    | role where "role \<in> set (routers svc)"
        "(k, ls) = want serviceaccount_ops (BuildEPPServiceAccount svc) \<or>
         (k, ls) \<in> set (router_wants X svc role (workers svc))"
  proof -
    from assms consider "NeedsGangScheduling svc" "(k, ls) = want podgroup_ops (BuildPodGroup X svc)"
      | role where "role \<in> set (workers svc)"
          "(k, ls) \<in> (\<lambda>i. (lws_key svc role i, replica_labels X svc role i)) ` set (replicas_of role)"
      | role where "role \<in> set (routers svc)"
          "(k, ls) \<in> insert (want serviceaccount_ops (BuildEPPServiceAccount svc))
            (set (router_wants X svc role (workers svc)))"
      unfolding wanted_def UN_iff Un_iff by (simp split: if_splits) blast+
    then show ?thesis by cases (use that in blast)+
  qed
  then show ?thesis
  proof cases
    case 1
    with podgroup_want [of X svc] show ?thesis by (intro group) (metis fst_conv)+
  next
    case 3
    have "account_key svc \<in> set (router_keys svc)" by (simp add: router_keys_def)
    with 3 account router_key show ?thesis by (intro router [OF 3(1)]) (metis fst_conv)+
  qed (rule replica)
qed

lemma wanted_kind: "(k, ls) \<in> wanted X svc \<Longrightarrow> fst k \<noteq> KindInferenceService"
  by (erule wanted_cases) (auto simp: lws_key_def router_keys_def account_key_def)

lemma wanted_lws:
  assumes "(k, ls) \<in> wanted X svc" and "fst k = KindLWS"
  obtains role i where "role \<in> set (workers svc)" "i \<in> set (replicas_of role)"
    "k = lws_key svc role i" "ls = replica_labels X svc role i"
  using assms by (cases rule: wanted_cases) (auto simp: router_keys_def account_key_def)

lemma converged_settled:
  assumes "converged X svc v" and "(k, ls) \<in> wanted X svc" and "fst k \<noteq> KindServiceAccount"
  shows "settled k ls v"
  using assms(2)
proof (cases rule: wanted_cases)
  case group
  with assms(1) show ?thesis by (metis converged_def podgroup_ok_def fst_conv snd_conv)
next
  case (replica role i)
  with assms(1) show ?thesis by (simp add: converged_def role_ok_def)
next
  case (router role)
  with assms(1,3) show ?thesis by (auto simp: converged_def router_ok_def account_key_def)
qed

lemma wanted_set_status [simp]: "wanted X (with_status svc st) = wanted X svc"
proof -
  have "replica_lws X (with_status svc st) = replica_lws X svc"
    by (intro ext) (simp add: replica_lws_def replicaConfig_def Let_def)
  then have "replica_labels X (with_status svc st) = replica_labels X svc"
    by (intro ext) (simp add: replica_labels_def)
  then show ?thesis by (simp add: wanted_def router_wants_def lws_key_def)
qed

text \<open>The service stays stored, with some status.\<close>

definition stored :: "inference_service \<Rightarrow> (key \<rightharpoonup> kobj) \<Rightarrow> bool" where
  "stored svc v \<longleftrightarrow> (\<exists>st. v (isvc_key svc) = Some (ObjInferSvc (with_status svc st)))"

lemma stored_self: "v (isvc_key svc) = Some (ObjInferSvc svc) \<Longrightarrow> stored svc v"
  unfolding stored_def by (intro exI [of _ "isvc_Status svc"]) simp

subsection \<open>An API by its writes\<close>

definition puts :: "key \<Rightarrow> label_map \<Rightarrow> (key \<rightharpoonup> kobj) \<Rightarrow> (key \<rightharpoonup> kobj) \<Rightarrow> bool" where
  "puts k ls v v' \<longleftrightarrow> (\<exists>ob. v' = v(k \<mapsto> ob) \<and> kobj_key ob = k \<and> kobj_labels ob = ls)"

locale writes =
  fixes B :: "'t api" and w :: "'t \<Rightarrow> key \<rightharpoonup> kobj"
  assumes get_keeps: "w (snd (api_Get B k ns n t)) = w t"
    and get_key: "fst (api_Get B k ns n t) = Inr ob \<Longrightarrow> kobj_key ob = (k, ns, n)"
    and list_keeps: "w (snd (api_ListLWS B ns sel t)) = w t"
    and now_keeps: "w (snd (api_Now B t)) = w t"
    and create_puts: "w (snd (api_Create B ob t)) = w t \<or>
      puts (kobj_key ob) (kobj_labels ob) (w t) (w (snd (api_Create B ob t)))"
    and update_puts: "w (snd (api_Update B ob t)) = w t \<or>
      puts (kobj_key ob) (kobj_labels ob) (w t) (w (snd (api_Update B ob t)))"
    and delete_removes: "w (snd (api_Delete B ob t)) = w t \<or>
      w (snd (api_Delete B ob t)) = (w t)(kobj_key ob := None)"
    and status_puts: "w (snd (api_StatusUpdate B svc t)) = w t \<or>
      (\<exists>old. w t (isvc_key svc) = Some (ObjInferSvc old) \<and>
        w (snd (api_StatusUpdate B svc t)) = (w t)(isvc_key svc \<mapsto> ObjInferSvc (with_status old (isvc_Status svc))))"
    and owner_keeps: "api_SetControllerReference B owner m = Inr m' \<Longrightarrow>
      meta_Name m' = meta_Name m \<and> meta_Namespace m' = meta_Namespace m \<and> meta_Labels m' = meta_Labels m"
begin

lemma typed_get_keeps: "w (snd (typed_get B K ns n t)) = w t"
  using get_keeps [of "ko_Kind K" ns n t]
  by (auto simp: typed_get_def split: prod.split sum.split option.split)

lemma call_keeps:
  assumes "w (snd (f t)) = w t \<or> puts k ls (w t) (w (snd (f t)))" and "P (w t)"
    and "\<And>ob. kobj_key ob = k \<Longrightarrow> kobj_labels ob = ls \<Longrightarrow> P ((w t)(k \<mapsto> ob))"
  shows "P (w (snd (call_op f t)))"
  using assms by (auto simp: call_op_def puts_def split: prod.split sum.split)

lemma list_preserves: "preserves w P (call_op (api_ListLWS B ns sel)) (\<lambda>_. True)"
proof -
  have "w (snd (call_op (api_ListLWS B ns sel) t)) = w t" for t
    using list_keeps [of ns sel t] by (auto simp: call_op_def split: prod.split sum.split)
  then show ?thesis by (simp add: preserves_def)
qed

end

locale written_kind = writes B w + resource_kind K
  for B :: "'t api" and w :: "'t \<Rightarrow> key \<rightharpoonup> kobj" and K :: "'o kind_ops"
begin

lemma typed_get_key:
  assumes "fst (typed_get B K ns n t) = Inr x"
  shows "key_of x = (ko_Kind K, ns, n)"
proof -
  from assms obtain ob where ob: "fst (api_Get B (ko_Kind K) ns n t) = Inr ob" "ko_Project K ob = Some x"
    by (auto simp: typed_get_def split: prod.splits sum.splits option.splits)
  from get_key [OF ob(1)] have key: "kobj_key ob = (ko_Kind K, ns, n)" .
  then have "kobj_kind ob = ko_Kind K" by (simp add: kobj_key_def)
  from inject_project [OF this] ob(2) project_inject have "ob = ko_Inject K x" by auto
  with key show ?thesis by (simp add: kobj_key_inject)
qed

lemma createOrUpdate_preserves:
  assumes put: "\<And>v ob. P v \<Longrightarrow> kobj_key ob = key_of obj \<Longrightarrow> kobj_labels ob = meta_Labels (ko_Meta K obj) \<Longrightarrow>
    P (v(key_of obj \<mapsto> ob))"
  shows "preserves w P (createOrUpdate B K obj) (\<lambda>_. True)"
    and "preserves w P (createIfMissing B K obj) (\<lambda>_. True)"
proof -
  let ?get = "typed_get B K (meta_Namespace (ko_Meta K obj)) (meta_Name (ko_Meta K obj))"
  have create: "P (w (snd (call_op (api_Create B (ko_Inject K obj)) t)))" if P: "P (w t)" for t
  proof (rule call_keeps [where k = "key_of obj" and ls = "meta_Labels (ko_Meta K obj)"])
    show "w (snd (api_Create B (ko_Inject K obj) t)) = w t \<or>
        puts (key_of obj) (meta_Labels (ko_Meta K obj)) (w t) (w (snd (api_Create B (ko_Inject K obj) t)))"
      using create_puts [of "ko_Inject K obj" t] by (simp add: kobj_key_inject inject_meta)
  qed (rule P, rule put [OF P])
  have update: "P (w (snd (call_op (api_Update B (ko_Inject K (ko_Merge K x obj))) t)))"
    if P: "P (w t)" and x: "key_of x = key_of obj" for t x
  proof -
    from x have "key_of (ko_Merge K x obj) = key_of obj" by (simp add: key_of_def merge_meta)
    with update_puts [of "ko_Inject K (ko_Merge K x obj)" t]
    have "w (snd (api_Update B (ko_Inject K (ko_Merge K x obj)) t)) = w t \<or>
        puts (key_of obj) (meta_Labels (ko_Meta K obj)) (w t) (w (snd (api_Update B (ko_Inject K (ko_Merge K x obj)) t)))"
      by (simp add: kobj_key_inject inject_meta merge_meta)
    then show ?thesis by (rule call_keeps) (rule P, rule put [OF P])
  qed
  have got: "P (w t')" "r = Inr x \<Longrightarrow> key_of x = key_of obj" if "?get t = (r, t')" "P (w t)" for t r t' x
    using that typed_get_keeps [of K "meta_Namespace (ko_Meta K obj)" "meta_Name (ko_Meta K obj)" t]
      typed_get_key [of "meta_Namespace (ko_Meta K obj)" "meta_Name (ko_Meta K obj)" t x]
    by (simp_all add: key_of_def)
  show "preserves w P (createOrUpdate B K obj) (\<lambda>_. True)"
  proof (rule preservesI)
    fix t r0 t0 assume c: "createOrUpdate B K obj t = (r0, t0)" and t: "P (w t)"
    obtain r t' where get: "?get t = (r, t')" by fastforce
    from got [OF get t] create update have "P (w (snd (createOrUpdate B K obj t)))"
      by (cases r) (simp_all add: createOrUpdate_def get)
    with c show "P (w t0) \<and> (\<forall>x. r0 = Ok x \<longrightarrow> True)" by simp
  qed
  show "preserves w P (createIfMissing B K obj) (\<lambda>_. True)"
  proof (rule preservesI)
    fix t r0 t0 assume c: "createIfMissing B K obj t = (r0, t0)" and t: "P (w t)"
    obtain r t' where get: "?get t = (r, t')" by fastforce
    from got [OF get t] create have "P (w (snd (createIfMissing B K obj t)))"
      by (cases r) (simp_all add: createIfMissing_def get)
    with c show "P (w t0) \<and> (\<forall>x. r0 = Ok x \<longrightarrow> True)" by simp
  qed
qed

lemma set_owner_preserves:
  "preserves w P (set_owner B K owner obj)
     (\<lambda>x. key_of x = key_of obj \<and> meta_Labels (ko_Meta K x) = meta_Labels (ko_Meta K obj))"
proof (rule preservesI)
  fix t r t' assume "set_owner B K owner obj t = (r, t')" and "P (w t)"
  then show "P (w t') \<and> (\<forall>x. r = Ok x \<longrightarrow> key_of x = key_of obj \<and> meta_Labels (ko_Meta K x) = meta_Labels (ko_Meta K obj))"
    using owner_keeps [of owner "ko_Meta K obj"]
    by (cases "api_SetControllerReference B owner (ko_Meta K obj)") (auto simp: set_owner_def key_of_def with_meta)
qed

lemma own_and_keep:
  assumes put: "\<And>v ob. P v \<Longrightarrow> kobj_key ob = key_of obj \<Longrightarrow> kobj_labels ob = meta_Labels (ko_Meta K obj) \<Longrightarrow>
    P (v(key_of obj \<mapsto> ob))"
  shows "preserves w P (bind_op (wrap_op p (set_owner B K owner obj)) (createOrUpdate B K)) (\<lambda>_. True)"
    and "preserves w P (ensure B K owner obj) (\<lambda>_. True)"
    and "preserves w P (bind_op (set_owner B K owner obj) (createIfMissing B K)) (\<lambda>_. True)"
  unfolding ensure_def
  by (rule preserves_bind, rule preserves_wrap set_owner_preserves, (rule set_owner_preserves)?,
      rule createOrUpdate_preserves, use put in \<open>simp add: fun_upd_def\<close>)+

end

subsection \<open>A whole reconciliation\<close>

definition puts_keep :: "externals \<Rightarrow> inference_service \<Rightarrow> ((key \<rightharpoonup> kobj) \<Rightarrow> bool) \<Rightarrow> bool" where
  "puts_keep X svc P \<longleftrightarrow>
     (\<forall>v k ob. P v \<longrightarrow> (k, kobj_labels ob) \<in> wanted X svc \<longrightarrow> kobj_key ob = k \<longrightarrow> P (v(k \<mapsto> ob)))"

definition status_keeps :: "inference_service \<Rightarrow> ((key \<rightharpoonup> kobj) \<Rightarrow> bool) \<Rightarrow> bool" where
  "status_keeps svc P \<longleftrightarrow>
     (\<forall>v old st. P v \<longrightarrow> v (isvc_key svc) = Some (ObjInferSvc old) \<longrightarrow>
        P (v(isvc_key svc \<mapsto> ObjInferSvc (with_status old st))))"

definition cleanup_keeps ::
  "'t api \<Rightarrow> ('t \<Rightarrow> key \<rightharpoonup> kobj) \<Rightarrow> inference_service \<Rightarrow> ((key \<rightharpoonup> kobj) \<Rightarrow> bool) \<Rightarrow> bool" where
  "cleanup_keeps B w svc P \<longleftrightarrow>
     (\<forall>role \<in> set (workers svc). \<forall>D. snd ` snd ` role_keys svc role \<subseteq> D \<longrightarrow>
        preserves w P (cleanupOrphanLWS B svc role D) (\<lambda>_. True))"

lemma keeps_status [simp]:
  "puts_keep X (with_status svc st) = puts_keep X svc"
  "status_keeps (with_status svc st) = status_keeps svc"
  "cleanup_keeps B w (with_status svc st) = cleanup_keeps B w svc"
  by (simp_all add: puts_keep_def status_keeps_def cleanup_keeps_def cleanupOrphanLWS_def fun_eq_iff)

context writes
begin

lemma deleteOrphan_keeps:
  assumes "deleteOrphan B D l u t = (r, t')"
  shows "w t' = w t \<or> meta_Name (lws_Meta l) \<notin> D \<and> w t' = (w t)(kobj_key (ObjLWS l) := None)"
  using assms delete_removes [of "ObjLWS l" t]
  by (auto simp: deleteOrphan_def split: prod.splits sum.splits if_splits)

text \<open>A clean-up deletes only what it has listed and does not want.\<close>

lemma cleanup_preserves:
  assumes listed: "\<And>t ls l. fst (api_ListLWS B (isvc_Namespace svc) (role_selector svc role) t) = Inr ls \<Longrightarrow> l \<in> set ls \<Longrightarrow> L l"
    and removed: "\<And>v l. P v \<Longrightarrow> L l \<Longrightarrow> meta_Name (lws_Meta l) \<notin> D \<Longrightarrow> P (v(kobj_key (ObjLWS l) := None))"
  shows "preserves w P (cleanupOrphanLWS B svc role D) (\<lambda>_. True)"
proof -
  have delete: "preserves w P (deleteOrphan B D l u) (\<lambda>_. True)" if "L l" for l u
    by (rule preservesI) (use deleteOrphan_keeps removed that in fastforce)
  have "preserves w P (loop_op (deleteOrphan B D) items ()) (\<lambda>_. True)" if "\<forall>l \<in> set items. L l" for items
    by (rule preserves_loop) (use delete that in blast)
  moreover have "preserves w P (wrap_op p (call_op (api_ListLWS B (isvc_Namespace svc) (role_selector svc role))))
      (\<lambda>items. \<forall>l \<in> set items. L l)" for p
  proof (rule preserves_wrap, rule preservesI)
    fix t r t' assume c: "call_op (api_ListLWS B (isvc_Namespace svc) (role_selector svc role)) t = (r, t')" and "P (w t)"
    with list_keeps [of "isvc_Namespace svc" "role_selector svc role" t] listed [of t]
    show "P (w t') \<and> (\<forall>x. r = Ok x \<longrightarrow> (\<forall>l \<in> set x. L l))"
      by (auto simp: call_op_def split: prod.splits sum.splits)
  qed
  ultimately show ?thesis
    unfolding cleanupOrphanLWS_def role_selector_def [symmetric] by (rule preserves_bind [rotated])
qed

lemma kinds_written:
  "written_kind B w podgroup_ops" "written_kind B w lws_ops" "written_kind B w serviceaccount_ops"
  "written_kind B w role_ops" "written_kind B w rolebinding_ops" "written_kind B w configmap_ops"
  "written_kind B w deployment_ops" "written_kind B w service_ops" "written_kind B w pool_ops"
  "written_kind B w route_ops" "written_kind B w inferencesvc_ops"
  by (intro written_kind.intro writes_axioms podgroup_kind.resource_kind_axioms lws_kind.resource_kind_axioms
      serviceaccount_kind.resource_kind_axioms role_kind.resource_kind_axioms rolebinding_kind.resource_kind_axioms
      configmap_kind.resource_kind_axioms deployment_kind.resource_kind_axioms service_kind.resource_kind_axioms
      pool_kind.resource_kind_axioms route_kind.resource_kind_axioms inferencesvc_kind.resource_kind_axioms)+

lemma wanted_put:
  assumes "puts_keep X svc P" and "want K obj \<in> wanted X svc"
    and "P v" "kobj_key ob = resource_kind.key_of K obj" "kobj_labels ob = meta_Labels (ko_Meta K obj)"
  shows "P (v(resource_kind.key_of K obj \<mapsto> ob))"
  using assms unfolding puts_keep_def want_def by metis

lemma write_wanted:
  assumes "written_kind B w K" and "puts_keep X svc P" and "want K obj \<in> wanted X svc"
  shows "preserves w P (bind_op (wrap_op p (set_owner B K owner obj)) (createOrUpdate B K)) (\<lambda>_. True)"
    and "preserves w P (ensure B K owner obj) (\<lambda>_. True)"
    and "preserves w P (bind_op (set_owner B K owner obj) (createIfMissing B K)) (\<lambda>_. True)"
  by (rule written_kind.own_and_keep [OF assms(1)], rule wanted_put [OF assms(2,3)], assumption+)+

lemma reconcileReplica_preserves:
  assumes kept: "puts_keep X svc P" and role: "role \<in> set (workers svc)" and i: "i \<in> set (replicas_of role)"
  shows "preserves w P (reconcileReplica X B svc role (NeedsGangSchedulingForRole svc role) i D)
    (\<lambda>D'. D' = insert (snd (snd (lws_key svc role i))) D)"
proof (cases "replica_lws X svc role i")
  case (Some l)
  note l = replica_lws_key [OF Some]
  have "want lws_ops l = (lws_key svc role i, replica_labels X svc role i)"
    using l by (simp add: want_def lws_ops_def)
  with role i have "want lws_ops l \<in> wanted X svc" by (auto simp: wanted_def)
  note own = write_wanted(1) [OF kinds_written(2) kept this]
  have shape: "reconcileReplica X B svc role (NeedsGangSchedulingForRole svc role) i D =
      bind_op (bind_op (wrap_op ''failed to set owner reference on LWS: ''
          (set_owner B lws_ops (isvc_Meta svc) l)) (createOrUpdate B lws_ops))
        (\<lambda>_. return_op (insert (snd (snd (lws_key svc role i))) D))"
    using Some l(2) by (simp add: reconcileReplica_def replica_lws_def bind_op_assoc)
  show ?thesis unfolding shape by (rule preserves_bind, rule own) (rule preserves_return, rule refl)
qed (simp add: reconcileReplica_def replica_lws_def preserves_panic)

lemma replica_loop_preserves:
  assumes kept: "puts_keep X svc P" and role: "role \<in> set (workers svc)" and "set is \<subseteq> set (replicas_of role)"
  shows "preserves w P (loop_op (reconcileReplica X B svc role (NeedsGangSchedulingForRole svc role)) is D)
    (\<lambda>D'. D' = D \<union> (\<lambda>i. snd (snd (lws_key svc role i))) ` set is)"
  using assms(3)
proof (induction "is" arbitrary: D)
  case (Cons i "is")
  let ?k = "\<lambda>i. snd (snd (lws_key svc role i))"
  show ?case
    unfolding loop_op.simps
  proof (rule preserves_bind, rule reconcileReplica_preserves [OF kept role])
    show "i \<in> set (replicas_of role)" using Cons.prems by simp
    fix D' assume "D' = insert (?k i) D"
    then have "D' \<union> ?k ` set is = D \<union> ?k ` set (i # is)" by auto
    with Cons.IH [of D'] Cons.prems
    show "preserves w P (loop_op (reconcileReplica X B svc role (NeedsGangSchedulingForRole svc role)) is D')
        (\<lambda>D'. D' = D \<union> ?k ` set (i # is))" by simp
  qed
qed (simp add: preserves_return)

lemma reconcileLWS_preserves:
  assumes kept: "puts_keep X svc P" "cleanup_keeps B w svc P" and role: "role \<in> set (workers svc)"
  shows "preserves w P (reconcileLWS X B svc role) (\<lambda>_. True)"
  unfolding reconcileLWS_def Let_def
  by (rule preserves_bind, rule replica_loop_preserves [OF kept(1) role subset_refl])
    (use kept(2) role in \<open>auto simp: cleanup_keeps_def role_keys_def image_comp\<close>)

lemma roles_loop_preserves:
  assumes kept: "puts_keep X svc P" "cleanup_keeps B w svc P" and "set rs \<subseteq> set (isvc_Roles svc)"
  shows "preserves w P (loop_op (reconcileRole X B svc) rs ws)
    (\<lambda>ws'. ws' = ws @ filter (\<lambda>r. isWorkerType (role_ComponentType r)) rs)"
  using assms(3)
proof (induction rs arbitrary: ws)
  case (Cons r rs)
  have "preserves w P (reconcileRole X B svc r ws)
      (\<lambda>ws'. ws' = (if isWorkerType (role_ComponentType r) then ws @ [r] else ws))"
  proof (cases "isWorkerType (role_ComponentType r)")
    case True
    with Cons.prems have "r \<in> set (workers svc)" by (simp add: workers_def)
    with True show ?thesis
      by (auto simp: reconcileRole_def intro!: preserves_bind [OF reconcileLWS_preserves [OF kept]] preserves_return)
  qed (simp add: reconcileRole_def preserves_return)
  moreover have "preserves w P (loop_op (reconcileRole X B svc) rs ws')
      (\<lambda>ws''. ws'' = ws @ filter (\<lambda>r. isWorkerType (role_ComponentType r)) (r # rs))"
    if "ws' = (if isWorkerType (role_ComponentType r) then ws @ [r] else ws)" for ws'
    using Cons.IH [of ws'] Cons.prems that by (simp split: if_splits)
  ultimately show ?case unfolding loop_op.simps by (rule preserves_bind)
qed (simp add: preserves_return)

lemma reconcileRouter_preserves:
  assumes kept: "puts_keep X svc P" and role: "role \<in> set (routers svc)"
  shows "preserves w P (reconcileRouter X B svc role (workers svc)) (\<lambda>_. True)"
proof -
  have "want serviceaccount_ops (BuildEPPServiceAccount svc) \<in> wanted X svc"
    and mem: "p \<in> set (router_wants X svc role (workers svc)) \<Longrightarrow> p \<in> wanted X svc" for p
    using role by (auto simp: wanted_def)
  note rules = write_wanted(3) [OF kinds_written(3) kept this(1)] write_wanted(2) [OF kinds_written(4) kept mem]
    write_wanted(2) [OF kinds_written(5) kept mem] write_wanted(2) [OF kinds_written(6) kept mem]
    write_wanted(2) [OF kinds_written(7) kept mem] write_wanted(2) [OF kinds_written(8) kept mem]
    write_wanted(2) [OF kinds_written(9) kept mem] write_wanted(2) [OF kinds_written(10) kept mem]
  show ?thesis
    unfolding reconcileRouter_def reconcileEPPServiceAccount_def reconcileEPPRole_def
      reconcileEPPRoleBinding_def reconcileEPPConfigMap_def reconcileEPPDeployment_def
      reconcileEPPService_def reconcileInferencePool_def reconcileHTTPRoute_def
    by (rule rules preserves_wrap preserves_bind [where Q = "\<lambda>_. True"] | simp add: router_wants_def)+
qed

lemma reconcileChildren_preserves:
  assumes kept: "puts_keep X svc P" "cleanup_keeps B w svc P"
  shows "preserves w P (reconcileChildren X B svc) (\<lambda>_. True)"
proof -
  have group: "preserves w P (reconcilePodGroup X B svc) (\<lambda>_. True)"
    unfolding reconcilePodGroup_def
    by (auto intro!: preserves_return write_wanted(1) [OF kinds_written(1) kept(1)] simp: wanted_def)
  have router: "preserves w P (reconcileRouterRole X B svc ws role u) (\<lambda>_. True)"
    if "role \<in> set (isvc_Roles svc)" "ws = workers svc" for ws role u
    using that unfolding reconcileRouterRole_def
    by (auto intro!: preserves_return reconcileRouter_preserves [OF kept(1)] simp: routers_def)
  show ?thesis
    unfolding reconcileChildren_def
    by (rule preserves_bind, rule group, rule preserves_bind, rule roles_loop_preserves [OF kept subset_refl])
      (auto intro!: preserves_loop router simp: workers_def)
qed

lemma componentsLoop_keeps: "w (snd (componentsLoop B svc roles cs t)) = w t"
proof -
  have get: "w (snd (getLWSStatus B svc role i t)) = w t" for role i t
    using typed_get_keeps [of lws_ops "isvc_Namespace svc"
        "GenerateLWSNameWithIndex (isvc_Name svc) (role_Name role) (Some i)" t]
    by (auto simp: getLWSStatus_def split: prod.split sum.split)
  have loop: "w (snd (aggregateLoop B svc role is agg t)) = w t" for role "is" agg t
  proof (induction "is" arbitrary: agg t)
    case (Cons i "is")
    then show ?case using get [of role i t] by (auto split: prod.split)
  qed simp
  have "w (snd (aggregateLWSStatus B svc role t)) = w t" for role t
    using loop [of role "int32_range (GetReplicaCount role)" initialAggregate t]
    by (auto simp: aggregateLWSStatus_def Let_def split: prod.split)
  then show ?thesis
  proof (induction roles arbitrary: cs t)
    case (Cons role roles)
    obtain st t1 where st: "aggregateLWSStatus B svc role t = (st, t1)" by fastforce
    with Cons.prems [of role t] have "w t1 = w t" by simp
    moreover from this have "w (snd (api_Now B t1)) = w t" by (simp add: now_keeps)
    ultimately show ?case using Cons.IH [OF Cons.prems] by (simp add: Let_def st case_prod_unfold)
  qed simp
qed

lemma finishReconcile_preserves:
  assumes put: "status_keeps svc P"
  shows "preserves w P (finishReconcile X B svc e) (\<lambda>_. True)"
proof (rule preservesI)
  fix t r t' assume fin: "finishReconcile X B svc e t = (r, t')" and P: "P (w t)"
  obtain cs t1 where cs: "componentsLoop B svc (isvc_Roles svc) [] t = (cs, t1)" by fastforce
  with componentsLoop_keeps [of svc "isvc_Roles svc" "[]" t] have v1: "w t1 = w t" by simp
  let ?svc = "with_status svc ((isvc_Status svc)\<lparr>Components := cs\<rparr>)"
  obtain st where st: "setFinalCondition X (fst (api_Now B t1)) e ?svc = with_status svc st"
    using setFinalCondition_with_status [of X "fst (api_Now B t1)" e ?svc] by auto
  let ?t2 = "snd (api_Now B t1)"
  have P2: "P (w ?t2)" using P v1 now_keeps by simp
  have "P (w (snd (api_StatusUpdate B (with_status svc st) ?t2)))"
    using status_puts [of "with_status svc st" ?t2] P2 put by (auto simp: status_keeps_def)
  moreover have "t' = snd (api_StatusUpdate B (with_status svc st) ?t2)"
    using fin st by (auto simp: finishReconcile_def updateComponentStatusInMemory_def cs Let_def case_prod_unfold
        split: sum.splits option.splits)
  ultimately show "P (w t') \<and> (\<forall>x. r = Ok x \<longrightarrow> True)" by simp
qed

lemma initialise_keeps: "\<exists>st t'. initialise X B svc t = (with_status svc st, t') \<and> w t' = w t"
proof (cases "isvc_Conditions svc = []")
  case True
  have "setInitCondition X now svc = with_status svc (isvc_Status (setInitCondition X now svc))" for now
    by (simp add: condition_setters setCondition_def)
  then have "\<exists>st. setInitCondition X now svc = with_status svc st" for now by blast
  with True now_keeps [of t] show ?thesis by (cases "api_Now B t") (auto simp: initialise_def)
next
  case False
  have "svc = with_status svc (isvc_Status svc)" by simp
  with False show ?thesis by (intro exI [of _ "isvc_Status svc"] exI [of _ t]) (simp add: initialise_def)
qed

theorem Reconcile_keeps:
  assumes read: "\<And>svc. isvc_Namespace svc = ns \<Longrightarrow> isvc_Name svc = n \<Longrightarrow>
      fst (typed_get B inferencesvc_ops ns n t) = Inr svc \<Longrightarrow>
      puts_keep X svc P \<and> cleanup_keeps B w svc P \<and> status_keeps svc P"
    and P: "P (w t)"
  shows "P (w (snd (Reconcile X B ns n t)))"
proof -
  obtain q t1 where get: "typed_get B inferencesvc_ops ns n t = (q, t1)" by fastforce
  with typed_get_keeps [of inferencesvc_ops ns n t] P have P1: "P (w t1)" by simp
  show ?thesis
  proof (cases q)
    case (Inl e)
    with get P1 show ?thesis by (simp add: Reconcile_def)
  next
    case (Inr svc)
    from written_kind.typed_get_key [OF kinds_written(11), of ns n t svc] get Inr
    have "isvc_Namespace svc = ns" "isvc_Name svc = n"
      by (simp_all add: kind_keys)
    with read [of svc] get Inr have keeps: "puts_keep X svc P" "cleanup_keeps B w svc P" "status_keeps svc P" by auto
    from initialise_keeps [of X svc t1] obtain st t2 where
      ini: "initialise X B svc t1 = (with_status svc st, t2)" "w t2 = w t1" by blast
    let ?svc = "with_status svc st"
    obtain p t3 where ch: "reconcileChildren X B ?svc t2 = (p, t3)" by fastforce
    have "puts_keep X ?svc P" "cleanup_keeps B w ?svc P" using keeps by simp_all
    from preservesD(1) [OF reconcileChildren_preserves [OF this] ch] ini(2) P1 have P3: "P (w t3)" by simp
    have "status_keeps ?svc P" using keeps by simp
    from finishReconcile_preserves [OF this] P3 have "P (w (snd (finishReconcile X B ?svc e t3)))" for e
      unfolding preserves_def by blast
    with P3 get Inr ini ch show ?thesis by (simp add: Reconcile_def split: outcome.split)
  qed
qed

end

end
