(* ===== verification/Faults.thy ===== *)
theory Faults
  imports Writes
begin

section \<open>Reconciling against a server that fails\<close>

text \<open>
  \<open>Reconcile\<close> is run again by the controller runtime when it returns an error, and after a restart of
  the manager. \<open>faulty_api A\<close> is the server \<open>A\<close> behind a schedule of faults, one for each call: a call
  works, or is refused without effect (a conflict, a quota, a network error on the way there), or has
  its effect and reports an error all the same (a time-out on the way back). A manager that dies in the
  middle of a reconciliation is a schedule that refuses every later call. When the schedule is used up
  every call works.
  \<^item> \<open>tracks m m'\<close>: what \<open>m'\<close>, run on the faulty server, does when it succeeds or when no fault is left
    is what \<open>m\<close> does on \<open>A\<close>.
  \<^item> A faulty server writes nothing the server would not write (\<open>faulty_writes\<close>).
\<close>

datatype fault =
    Works
  | Refused string
  | Unanswered string

fun unreliable :: "('s \<Rightarrow> (error + 'r) \<times> 's) \<Rightarrow> 's \<times> fault list \<Rightarrow> (error + 'r) \<times> ('s \<times> fault list)" where
  "unreliable f (s, []) = (fst (f s), (snd (f s), []))"
| "unreliable f (s, Works # fs) = (fst (f s), (snd (f s), fs))"
| "unreliable f (s, Refused m # fs) = (Inl (OtherError m), (s, fs))"
| "unreliable f (s, Unanswered m # fs) = (Inl (OtherError m), (snd (f s), fs))"

definition faulty_api :: "'s api \<Rightarrow> ('s \<times> fault list) api" where
  "faulty_api A = \<lparr>
     api_Get = (\<lambda>k ns n. unreliable (api_Get A k ns n)),
     api_Create = (\<lambda>ob. unreliable (api_Create A ob)),
     api_Update = (\<lambda>ob. unreliable (api_Update A ob)),
     api_Delete = (\<lambda>ob. unreliable (api_Delete A ob)),
     api_ListLWS = (\<lambda>ns sel. unreliable (api_ListLWS A ns sel)),
     api_StatusUpdate = (\<lambda>svc. unreliable (api_StatusUpdate A svc)),
     api_Now = (\<lambda>t. (fst (api_Now A (fst t)), (snd (api_Now A (fst t)), snd t))),
     api_SetControllerReference = api_SetControllerReference A\<rparr>"

lemma faulty_api_simps [simp]:
  "api_Get (faulty_api A) k ns n = unreliable (api_Get A k ns n)"
  "api_Create (faulty_api A) ob = unreliable (api_Create A ob)"
  "api_Update (faulty_api A) ob = unreliable (api_Update A ob)"
  "api_Delete (faulty_api A) ob = unreliable (api_Delete A ob)"
  "api_ListLWS (faulty_api A) ns sel = unreliable (api_ListLWS A ns sel)"
  "api_StatusUpdate (faulty_api A) svc = unreliable (api_StatusUpdate A svc)"
  "api_Now (faulty_api A) t = (fst (api_Now A (fst t)), (snd (api_Now A (fst t)), snd t))"
  "api_SetControllerReference (faulty_api A) = api_SetControllerReference A"
  by (simp_all add: faulty_api_def)

text \<open>The cases of a call: it ran, or it reports an error that is not a missing object.\<close>

lemma unreliable_cases:
  assumes "unreliable f (s, fs) = (r, (s', fs'))"
  obtains (ran) "f s = (r, s')" "fs' = tl fs"
  | (refused) m where "fs \<noteq> []" "fs' = tl fs" "r = Inl (OtherError m)" "s' = s"
  | (unanswered) m where "fs \<noteq> []" "fs' = tl fs" "r = Inl (OtherError m)" "s' = snd (f s)"
  using assms by (cases "(f, s, fs)" rule: unreliable.cases) auto

lemma unreliable_state:
  "fst (snd (unreliable f t)) = fst t \<or> fst (snd (unreliable f t)) = snd (f (fst t))"
  by (cases "(f, t)" rule: unreliable.cases) auto

lemma unreliable_rest: "snd (snd (unreliable f t)) = tl (snd t)"
  by (cases "(f, t)" rule: unreliable.cases) auto

lemma typed_get_faulty: "typed_get (faulty_api A) K ns n = unreliable (typed_get A K ns n)"
proof
  fix t
  show "typed_get (faulty_api A) K ns n t = unreliable (typed_get A K ns n) t"
    by (cases "(api_Get A (ko_Kind K) ns n, t)" rule: unreliable.cases)
      (auto simp: typed_get_def split: prod.split sum.split option.split)
qed

subsection \<open>What success means\<close>

definition tracks :: "('s, 'a) op \<Rightarrow> ('s \<times> fault list, 'a) op \<Rightarrow> bool" where
  "tracks m m' \<longleftrightarrow> (\<forall>s fs r s' fs'. m' (s, fs) = (r, (s', fs')) \<longrightarrow>
     (\<forall>x. r = Ok x \<longrightarrow> m s = (Ok x, s')) \<and>
     (fs = [] \<longrightarrow> m s = (r, s') \<and> fs' = []) \<and>
     length fs' \<le> length fs)"

lemma tracksI:
  assumes "\<And>s fs r s' fs'. m' (s, fs) = (r, (s', fs')) \<Longrightarrow>
     (\<forall>x. r = Ok x \<longrightarrow> m s = (Ok x, s')) \<and> (fs = [] \<longrightarrow> m s = (r, s') \<and> fs' = []) \<and> length fs' \<le> length fs"
  shows "tracks m m'"
  unfolding tracks_def using assms by blast

lemma tracksD:
  assumes "tracks m m'" and "m' (s, fs) = (r, (s', fs'))"
  shows "r = Ok x \<Longrightarrow> m s = (Ok x, s')" and "fs = [] \<Longrightarrow> m s = (r, s')" and "fs = [] \<Longrightarrow> fs' = []"
    and "length fs' \<le> length fs"
  using assms unfolding tracks_def by blast+

lemma tracks_return: "tracks (return_op x) (return_op x)"
  by (rule tracksI) simp

lemma tracks_panic: "tracks panic_op panic_op"
  by (rule tracksI) simp

lemma tracks_fail: "tracks (fail_op e) (fail_op e)"
  by (rule tracksI) simp

lemma tracks_bind:
  assumes m: "tracks m m'" and g: "\<And>x. tracks (g x) (g' x)"
  shows "tracks (bind_op m g) (bind_op m' g')"
proof (rule tracksI)
  fix s fs r s' fs' assume "bind_op m' g' (s, fs) = (r, (s', fs'))"
  then show "(\<forall>x. r = Ok x \<longrightarrow> bind_op m g s = (Ok x, s')) \<and>
      (fs = [] \<longrightarrow> bind_op m g s = (r, s') \<and> fs' = []) \<and> length fs' \<le> length fs"
  proof (cases rule: bind_op_cases)
    case (1 x t)
    obtain s1 fs1 where t: "t = (s1, fs1)" by (cases t)
    note ms = tracksD [OF m 1(1) [unfolded t]] and gs = tracksD [OF g 1(2) [unfolded t]]
    from ms(1) have "bind_op m g s = g x s1" by (simp add: bind_op_Ok)
    with ms gs show ?thesis by auto
  next
    case (2 e)
    with tracksD [OF m 2(1)] show ?thesis by (simp add: bind_op_Err)
  next
    case 3
    with tracksD [OF m 3(1)] show ?thesis by (simp add: bind_op_Panic)
  qed
qed

lemma tracks_wrap:
  assumes "tracks m m'"
  shows "tracks (wrap_op p m) (wrap_op p m')"
proof (rule tracksI)
  fix s fs r s' fs' assume w: "wrap_op p m' (s, fs) = (r, (s', fs'))"
  obtain r1 s1 fs1 where m': "m' (s, fs) = (r1, (s1, fs1))" by (metis prod.exhaust)
  note ms = tracksD [OF assms m']
  show "(\<forall>x. r = Ok x \<longrightarrow> wrap_op p m s = (Ok x, s')) \<and>
      (fs = [] \<longrightarrow> wrap_op p m s = (r, s') \<and> fs' = []) \<and> length fs' \<le> length fs"
    using w ms by (cases r1) (auto simp: wrap_op_def m')
qed

lemma tracks_loop:
  assumes "\<And>x acc. tracks (body x acc) (body' x acc)"
  shows "tracks (loop_op body xs acc) (loop_op body' xs acc)"
  by (induction xs arbitrary: acc) (simp_all add: tracks_return tracks_bind assms)

lemma tracks_call: "tracks (call_op f) (call_op (unreliable f))"
proof (rule tracksI)
  fix s fs r s' fs' assume c: "call_op (unreliable f) (s, fs) = (r, (s', fs'))"
  obtain a s1 fs1 where u: "unreliable f (s, fs) = (a, (s1, fs1))" by (metis prod.exhaust)
  from u show "(\<forall>x. r = Ok x \<longrightarrow> call_op f s = (Ok x, s')) \<and>
      (fs = [] \<longrightarrow> call_op f s = (r, s') \<and> fs' = []) \<and> length fs' \<le> length fs"
    using c by (cases rule: unreliable_cases) (auto simp: call_op_def u split: sum.splits)
qed

lemma tracks_set_owner: "tracks (set_owner A K owner obj) (set_owner (faulty_api A) K owner obj)"
  by (rule tracksI) (auto simp: set_owner_def split: sum.splits)

text \<open>Reading before writing: a read that fails ends the operation, unless the object is missing.\<close>

lemma tracks_read_then:
  assumes "\<And>x. tracks (found x) (found' x)" and "\<And>e. tracks (missing e) (missing' e)"
    and "\<And>m s. missing' (OtherError m) s = (Err (OtherError m), s)"
  shows "tracks (\<lambda>s. case g s of (Inl e, s) \<Rightarrow> missing e s | (Inr x, s) \<Rightarrow> found x s)
    (\<lambda>s. case unreliable g s of (Inl e, s) \<Rightarrow> missing' e s | (Inr x, s) \<Rightarrow> found' x s)"
proof (rule tracksI, goal_cases)
  case (1 s fs r s' fs')
  obtain a s1 fs1 where u: "unreliable g (s, fs) = (a, (s1, fs1))" by (metis prod.exhaust)
  from u show ?case
  proof (cases rule: unreliable_cases)
    case ran
    then have "length fs' \<le> length fs1 \<Longrightarrow> length fs' \<le> length fs" by simp
    then show ?thesis
      using 1 u ran tracksD [OF assms(1), of _ s1 fs1 r s' fs'] tracksD [OF assms(2), of _ s1 fs1 r s' fs']
      by (cases a) auto
  qed (use 1 u assms(3) in auto)
qed

lemma tracks_createOrUpdate: "tracks (createOrUpdate A K obj) (createOrUpdate (faulty_api A) K obj)"
proof -
  let ?missing = "\<lambda>A err. if IsNotFound err then call_op (api_Create A (ko_Inject K obj)) else fail_op err"
  let ?found = "\<lambda>A existing. if hash_label (ko_Meta K existing) \<noteq> hash_label (ko_Meta K obj)
    then call_op (api_Update A (ko_Inject K (ko_Merge K existing obj))) else return_op ()"
  have shape: "createOrUpdate B K obj = (\<lambda>s.
      case typed_get B K (meta_Namespace (ko_Meta K obj)) (meta_Name (ko_Meta K obj)) s of
        (Inl e, s) \<Rightarrow> ?missing B e s | (Inr x, s) \<Rightarrow> ?found B x s)" for B :: "'t api"
    by (rule ext) (auto simp: createOrUpdate_def split: prod.split sum.split)
  show ?thesis
    unfolding shape typed_get_faulty
    by (rule tracks_read_then) (simp_all add: tracks_call tracks_return tracks_fail del: run_op_simps, simp)
qed

lemma tracks_createIfMissing: "tracks (createIfMissing A K obj) (createIfMissing (faulty_api A) K obj)"
proof -
  let ?missing = "\<lambda>A err. if IsNotFound err then call_op (api_Create A (ko_Inject K obj)) else fail_op err"
  have shape: "createIfMissing B K obj = (\<lambda>s.
      case typed_get B K (meta_Namespace (ko_Meta K obj)) (meta_Name (ko_Meta K obj)) s of
        (Inl e, s) \<Rightarrow> ?missing B e s | (Inr x, s) \<Rightarrow> return_op () s)" for B :: "'t api"
    by (rule ext) (auto simp: createIfMissing_def split: prod.split sum.split)
  show ?thesis
    unfolding shape typed_get_faulty
    by (rule tracks_read_then) (simp_all add: tracks_call tracks_return tracks_fail del: run_op_simps, simp)
qed

lemma tracks_deleteOrphan: "tracks (deleteOrphan A D l u) (deleteOrphan (faulty_api A) D l u)"
proof (rule tracksI)
  fix s fs r s' fs' assume d: "deleteOrphan (faulty_api A) D l u (s, fs) = (r, (s', fs'))"
  obtain a s1 fs1 where c: "unreliable (api_Delete A (ObjLWS l)) (s, fs) = (a, (s1, fs1))"
    by (metis prod.exhaust)
  from c show "(\<forall>x. r = Ok x \<longrightarrow> deleteOrphan A D l u s = (Ok x, s')) \<and>
      (fs = [] \<longrightarrow> deleteOrphan A D l u s = (r, s') \<and> fs' = []) \<and> length fs' \<le> length fs"
    using d by (cases rule: unreliable_cases) (auto simp: deleteOrphan_def c split: sum.splits if_splits)
qed

lemmas tracks_rules =
  tracks_return tracks_panic tracks_bind tracks_wrap tracks_loop tracks_call tracks_set_owner
  tracks_createOrUpdate tracks_createIfMissing tracks_deleteOrphan

lemma tracks_reconcilePodGroup:
  "tracks (reconcilePodGroup X A svc) (reconcilePodGroup X (faulty_api A) svc)"
  by (simp add: reconcilePodGroup_def tracks_rules)

lemma tracks_reconcileReplica:
  "tracks (reconcileReplica X A svc role g i D) (reconcileReplica X (faulty_api A) svc role g i D)"
  by (simp add: reconcileReplica_def tracks_rules split: option.split)

lemma tracks_reconcileLWS: "tracks (reconcileLWS X A svc role) (reconcileLWS X (faulty_api A) svc role)"
  by (simp add: reconcileLWS_def cleanupOrphanLWS_def Let_def tracks_rules tracks_reconcileReplica)

lemma tracks_reconcileRouter:
  "tracks (reconcileRouter X A svc role ws) (reconcileRouter X (faulty_api A) svc role ws)"
  unfolding reconcileRouter_def reconcileEPPServiceAccount_def reconcileEPPRole_def
    reconcileEPPRoleBinding_def reconcileEPPConfigMap_def reconcileEPPDeployment_def
    reconcileEPPService_def reconcileInferencePool_def reconcileHTTPRoute_def ensure_def
  by (intro tracks_rules)

lemma tracks_reconcileChildren:
  "tracks (reconcileChildren X A svc) (reconcileChildren X (faulty_api A) svc)"
proof -
  have "tracks (reconcileRole X A svc role ws) (reconcileRole X (faulty_api A) svc role ws)" for role ws
    by (simp add: reconcileRole_def tracks_rules tracks_reconcileLWS)
  moreover have "tracks (reconcileRouterRole X A svc ws role u) (reconcileRouterRole X (faulty_api A) svc ws role u)"
    for ws role u
    by (simp add: reconcileRouterRole_def tracks_rules tracks_reconcileRouter)
  ultimately show ?thesis
    unfolding reconcileChildren_def by (intro tracks_bind tracks_loop tracks_reconcilePodGroup)
qed

subsection \<open>What a faulty server may write\<close>

lemma unreliable_result: "fst (unreliable f t) = Inr x \<Longrightarrow> fst (f (fst t)) = Inr x"
  by (cases "(f, t)" rule: unreliable.cases) auto

lemma faulty_writes:
  assumes "writes B w"
  shows "writes (faulty_api B) (\<lambda>t. w (fst t))"
proof (rule writes.intro, goal_cases)
  case (1 k ns n t)
  show ?case
    using unreliable_state [of "api_Get B k ns n" t] writes.get_keeps [OF assms, of k ns n "fst t"] by auto
next
  case (2 k ns n t ob)
  then show ?case using writes.get_key [OF assms] unreliable_result by fastforce
next
  case (3 ns sel t)
  show ?case
    using unreliable_state [of "api_ListLWS B ns sel" t] writes.list_keeps [OF assms, of ns sel "fst t"] by auto
next
  case (4 t)
  then show ?case using writes.now_keeps [OF assms] by simp
next
  case (5 ob t)
  show ?case
    using unreliable_state [of "api_Create B ob" t] writes.create_puts [OF assms, of ob "fst t"] by auto
next
  case (6 ob t)
  show ?case
    using unreliable_state [of "api_Update B ob" t] writes.update_puts [OF assms, of ob "fst t"] by auto
next
  case (7 ob t)
  show ?case
    using unreliable_state [of "api_Delete B ob" t] writes.delete_removes [OF assms, of ob "fst t"] by auto
next
  case (8 svc t)
  show ?case
    using unreliable_state [of "api_StatusUpdate B svc" t] writes.status_puts [OF assms, of svc "fst t"] by auto
next
  case (9 owner m m')
  then show ?case using writes.owner_keeps [OF assms] by simp
qed

context cluster
begin

lemma cluster_writes: "writes A view"
proof (rule writes.intro, goal_cases)
  case (1 k ns n s)
  then show ?case using get_found [of s k ns n] get_missing [of s k ns n] by (cases "view s (k, ns, n)") auto
next
  case (2 k ns n s ob)
  then show ?case
    using get_found [of s k ns n] get_missing [of s k ns n] view_key by (cases "view s (k, ns, n)") auto
next
  case (3 ns sel s)
  then show ?case using list_lws [of ns sel s] by auto
next
  case (4 s)
  then show ?case by (rule now_view)
next
  case (5 ob s)
  then show ?case
    using create_fresh [of s ob] create_taken [of s ob] by (cases "view s (kobj_key ob)") (auto simp: puts_def)
next
  case (6 ob s)
  then show ?case
    using update_existing [of s ob] update_missing [of s ob] by (cases "view s (kobj_key ob)") (auto simp: puts_def)
next
  case (7 ob s)
  then show ?case
    using delete_existing [of s ob] delete_missing [of s ob] by (cases "view s (kobj_key ob)") auto
next
  case (8 svc s)
  show ?case
  proof (cases "view s (isvc_key svc)")
    case (Some ob)
    with view_key [OF Some] obtain old where "ob = ObjInferSvc old" by (cases ob) (simp_all add: kobj_key_def isvc_key_def)
    with Some status_update [of s svc old] show ?thesis by auto
  qed (use status_missing [of s svc] in auto)
next
  case (9 owner m m')
  then show ?case using set_owner [of owner m] by auto
qed

end

sublocale cluster \<subseteq> faulty: writes "faulty_api A" "\<lambda>t. view (fst t)"
  by (rule faulty_writes [OF cluster_writes])

subsection \<open>Reads under faults\<close>

context cluster
begin

lemma reads_view:
  "view (snd (api_Get A k ns n s)) = view s"
  "view (snd (api_ListLWS A ns sel s)) = view s"
proof -
  show "view (snd (api_Get A k ns n s)) = view s"
    using get_found [of s k ns n] get_missing [of s k ns n] by (cases "view s (k, ns, n)") auto
  show "view (snd (api_ListLWS A ns sel s)) = view s"
    using list_lws [of ns sel s] by auto
qed

lemma typed_get_view: "view (snd (typed_get A K ns n s)) = view s"
  using reads_view(1) [of "ko_Kind K" ns n s]
  by (auto simp: typed_get_def split: prod.split sum.split option.split)

lemma faulty_typed_get_view: "view (fst (snd (typed_get (faulty_api A) K ns n t))) = view (fst t)"
  unfolding typed_get_faulty using unreliable_state [of "typed_get A K ns n" t] typed_get_view [of K ns n "fst t"]
  by auto


end

context managed
begin

lemma faulty_typed_get:
  assumes "typed_get (faulty_api A) K (meta_Namespace (ko_Meta K obj)) (meta_Name (ko_Meta K obj)) t = (r, t')"
  shows "view (fst t') = view (fst t)"
    and "r = Inl e \<Longrightarrow> IsNotFound e \<Longrightarrow> view (fst t) (key_of obj) = None"
    and "r = Inr x \<Longrightarrow> view (fst t) (key_of obj) = Some (ko_Inject K x)"
proof -
  let ?get = "typed_get A K (meta_Namespace (ko_Meta K obj)) (meta_Name (ko_Meta K obj))"
  obtain s fs s' fs' where t: "t = (s, fs)" "t' = (s', fs')" by (cases t, cases t')
  have u: "unreliable ?get (s, fs) = (r, (s', fs'))" using assms by (simp add: typed_get_faulty t)
  show "view (fst t') = view (fst t)"
    using faulty_typed_get_view [of K "meta_Namespace (ko_Meta K obj)" "meta_Name (ko_Meta K obj)" t] assms by simp
  have real: "?get s = (r, s') \<Longrightarrow> (case r of Inl e \<Rightarrow> view s (key_of obj) = None
      | Inr x \<Rightarrow> view s (key_of obj) = Some (ko_Inject K x))"
    using typed_get_found [of s obj] typed_get_missing [of s obj]
    by (cases "view s (key_of obj)") auto
  from u real show "r = Inl e \<Longrightarrow> IsNotFound e \<Longrightarrow> view (fst t) (key_of obj) = None"
    and "r = Inr x \<Longrightarrow> view (fst t) (key_of obj) = Some (ko_Inject K x)"
    by (cases rule: unreliable_cases; auto simp: t)+
qed

end

subsection \<open>The status under faults\<close>

lemma getLWSStatus_rest: "length (snd (snd (getLWSStatus (faulty_api A) svc role i t))) \<le> length (snd t)"
proof -
  let ?get = "unreliable (typed_get A lws_ops (isvc_Namespace svc)
    (GenerateLWSNameWithIndex (isvc_Name svc) (role_Name role) (Some i))) t"
  have "snd (getLWSStatus (faulty_api A) svc role i t) = snd ?get"
    by (simp add: getLWSStatus_def typed_get_faulty split: prod.split sum.split)
  then show ?thesis by (simp add: unreliable_rest)
qed

lemma getLWSStatus_healthy:
  "getLWSStatus (faulty_api A) svc role i (s, []) =
     (fst (getLWSStatus A svc role i s), snd (getLWSStatus A svc role i s), [])"
  by (simp add: getLWSStatus_def typed_get_faulty split: prod.split sum.split)

lemma components_rest:
  "length (snd (snd (aggregateLoop (faulty_api A) svc role is agg t))) \<le> length (snd t)"
  "length (snd (snd (componentsLoop (faulty_api A) svc roles cs t))) \<le> length (snd t)"
proof -
  show loop: "length (snd (snd (aggregateLoop (faulty_api A) svc role is agg t))) \<le> length (snd t)"
    for role "is" agg t
  proof (induction "is" arbitrary: agg t)
    case (Cons i "is")
    obtain got t1 where get: "getLWSStatus (faulty_api A) svc role i t = (got, t1)" by fastforce
    with getLWSStatus_rest [of A svc role i t] have "length (snd t1) \<le> length (snd t)" by simp
    with Cons.IH [of "addLWSStatus (GetNodeCount role) got agg" t1] show ?case by (simp add: get)
  qed simp
  have agg: "length (snd (snd (aggregateLWSStatus (faulty_api A) svc role t))) \<le> length (snd t)" for role t
    using loop [of role "int32_range (GetReplicaCount role)" initialAggregate t]
    by (auto simp: aggregateLWSStatus_def Let_def split: prod.split)
  show "length (snd (snd (componentsLoop (faulty_api A) svc roles cs t))) \<le> length (snd t)"
  proof (induction roles arbitrary: cs t)
    case (Cons role roles)
    obtain st t1 where st: "aggregateLWSStatus (faulty_api A) svc role t = (st, t1)" by fastforce
    with agg [of role t] have "length (snd t1) \<le> length (snd t)" by simp
    with Cons.IH [of _ "(_, snd t1)"] Cons.IH [of cs t] show ?case
      by (auto simp: Let_def st intro: order_trans)
  qed simp
qed

lemma components_healthy:
  "aggregateLoop (faulty_api A) svc role is agg (s, []) =
     (fst (aggregateLoop A svc role is agg s), snd (aggregateLoop A svc role is agg s), [])"
  "componentsLoop (faulty_api A) svc roles cs (s, []) =
     (fst (componentsLoop A svc roles cs s), snd (componentsLoop A svc roles cs s), [])"
proof -
  show loop: "aggregateLoop (faulty_api A) svc role is agg (s, []) =
     (fst (aggregateLoop A svc role is agg s), snd (aggregateLoop A svc role is agg s), [])" for role "is" agg s
    by (induction "is" arbitrary: agg s) (simp_all add: getLWSStatus_healthy split: prod.split)
  have "aggregateLWSStatus (faulty_api A) svc role (s, []) =
     (fst (aggregateLWSStatus A svc role s), snd (aggregateLWSStatus A svc role s), [])" for role s
    by (simp add: aggregateLWSStatus_def Let_def loop split: prod.split)
  then show "componentsLoop (faulty_api A) svc roles cs (s, []) =
     (fst (componentsLoop A svc roles cs s), snd (componentsLoop A svc roles cs s), [])"
    by (induction roles arbitrary: cs s) (simp_all add: Let_def split: prod.split)
qed

lemma initialise_faulty:
  "initialise X (faulty_api A) svc t = (fst (initialise X A svc (fst t)), snd (initialise X A svc (fst t)), snd t)"
  by (cases t) (simp add: initialise_def split: prod.split)


subsection \<open>Running again\<close>

text \<open>The server and the remaining faults after \<open>n\<close> runs, whatever each of them returned.\<close>

definition after_runs ::
  "externals \<Rightarrow> 's api \<Rightarrow> string \<Rightarrow> string \<Rightarrow> nat \<Rightarrow> 's \<times> fault list \<Rightarrow> 's \<times> fault list" where
  "after_runs X A ns nm n = ((\<lambda>t. snd (Reconcile X (faulty_api A) ns nm t)) ^^ n)"

lemma finishReconcile_rest:
  "length (snd (snd (finishReconcile X (faulty_api A) svc e t))) \<le> length (snd t)"
proof -
  obtain cs t1 where cs: "componentsLoop (faulty_api A) svc (isvc_Roles svc) [] t = (cs, t1)" by fastforce
  with components_rest(2) [of A svc "isvc_Roles svc" "[]" t] have "length (snd t1) \<le> length (snd t)" by simp
  moreover have "length (snd (snd (unreliable f t2))) \<le> length (snd t2)"
    for f :: "'s \<Rightarrow> (error + unit) \<times> 's" and t2 :: "'s \<times> fault list"
    by (simp add: unreliable_rest)
  ultimately show ?thesis
    by (auto simp: finishReconcile_def updateComponentStatusInMemory_def cs Let_def
        split: prod.split sum.split option.split intro: order_trans dest!: arg_cong [where f = "\<lambda>x. snd (snd x)"]
        simp add: unreliable_rest)
qed

lemma finishReconcile_healthy:
  "finishReconcile X (faulty_api A) svc e (s, []) =
     (fst (finishReconcile X A svc e s), snd (finishReconcile X A svc e s), [])"
  by (simp add: finishReconcile_def updateComponentStatusInMemory_def components_healthy Let_def
      split: prod.split sum.split option.split)

lemma Reconcile_rest: "length (snd (snd (Reconcile X (faulty_api A) ns n t))) \<le> length (snd t) - 1"
proof -
  obtain r s1 fs1 where get: "typed_get (faulty_api A) inferencesvc_ops ns n t = (r, (s1, fs1))"
    by (metis prod.exhaust)
  then have fs1: "fs1 = tl (snd t)"
    using unreliable_rest [of "typed_get A inferencesvc_ops ns n" t] by (simp add: typed_get_faulty)
  show ?thesis
  proof (cases r)
    case (Inl e)
    with get fs1 show ?thesis by (simp add: Reconcile_def)
  next
    case (Inr svc)
    obtain svc1 s2 where ini: "initialise X A svc s1 = (svc1, s2)" by fastforce
    obtain q s3 fs3 where ch: "reconcileChildren X (faulty_api A) svc1 (s2, fs1) = (q, (s3, fs3))"
      by (metis prod.exhaust)
    have "length fs3 \<le> length fs1" by (rule tracksD(4) [OF tracks_reconcileChildren ch])
    moreover have "length (snd (snd (finishReconcile X (faulty_api A) svc1 e (s3, fs3)))) \<le> length fs3" for e
      using finishReconcile_rest [of X A svc1 e "(s3, fs3)"] by simp
    ultimately show ?thesis
      using get Inr ini ch fs1
      by (cases q) (auto simp: Reconcile_def initialise_faulty intro: order_trans)
  qed
qed

lemma Reconcile_healthy:
  "Reconcile X (faulty_api A) ns n (s, []) = (fst (Reconcile X A ns n s), snd (Reconcile X A ns n s), [])"
proof -
  have children: "reconcileChildren X (faulty_api A) svc (s, []) =
      (fst (reconcileChildren X A svc s), snd (reconcileChildren X A svc s), [])" for svc s
  proof -
    obtain q s3 fs3 where ch: "reconcileChildren X (faulty_api A) svc (s, []) = (q, (s3, fs3))"
      by (metis prod.exhaust)
    from tracksD(2,3) [OF tracks_reconcileChildren this] ch show ?thesis by simp
  qed
  show ?thesis
    by (simp add: Reconcile_def typed_get_faulty initialise_faulty children finishReconcile_healthy
        split: prod.split sum.split outcome.split)
qed

lemma after_runs_rest: "length (snd (after_runs X A ns nm n t)) \<le> length (snd t) - n"
proof (induction n)
  case (Suc n)
  then show ?case
    using Reconcile_rest [of X A ns nm "after_runs X A ns nm n t"] by (simp add: after_runs_def)
qed (simp add: after_runs_def)

context cluster
begin

lemma read_service:
  assumes "typed_get (faulty_api A) inferencesvc_ops (isvc_Namespace svc) (isvc_Name svc) t = (q, t1)"
  shows "q = Inr w \<Longrightarrow> view (fst t) (isvc_key svc) = Some (ObjInferSvc w)"
    and "q = Inl e \<Longrightarrow> IsNotFound e \<Longrightarrow> view (fst t) (isvc_key svc) = None"
proof -
  have ops: "ko_Meta inferencesvc_ops svc = isvc_Meta svc" "ko_Inject inferencesvc_ops w = ObjInferSvc w"
    by (simp_all add: inferencesvc_ops_def)
  have key: "inferencesvc_kind.key_of svc = isvc_key svc" by (simp add: kind_keys isvc_key_def)
  note found = inferencesvcs.faulty_typed_get [of svc t q t1, unfolded ops key, OF assms]
  show "q = Inr w \<Longrightarrow> view (fst t) (isvc_key svc) = Some (ObjInferSvc w)"
    and "q = Inl e \<Longrightarrow> IsNotFound e \<Longrightarrow> view (fst t) (isvc_key svc) = None"
    using found by (simp_all add: ops)
qed

lemma initialise_same: "\<exists>st s'. initialise X A svc s = (with_status svc st, s') \<and> view s' = view s"
proof (cases "isvc_Conditions svc = []")
  case True
  have "setInitCondition X now svc = with_status svc (isvc_Status (setInitCondition X now svc))" for now
    by (simp add: condition_setters setCondition_def)
  then have "\<exists>st. setInitCondition X now svc = with_status svc st" for now by blast
  with True now_view [of s] show ?thesis by (cases "api_Now A s") (auto simp: initialise_def)
next
  case False
  have "svc = with_status svc (isvc_Status svc)" by simp
  with False show ?thesis by (intro exI [of _ "isvc_Status svc"] exI [of _ s]) (simp add: initialise_def)
qed

end

end
