(* ===== verification/Footprint.thy ===== *)
theory Footprint
  imports Faults
begin

section \<open>What a reconciliation may touch\<close>

text \<open>
  The abstract specification of a reconciliation, whatever happens to its API calls: a sequence of
  touches (\<open>touch\<close>), each of which stores an object that is wanted for the service, deletes a
  LeaderWorkerSet that carries the labels of one of its roles without being one of its replicas, or
  writes the status of the service. \<open>Reconcile_touches\<close> shows that every run of \<open>Reconcile\<close>, behind
  every schedule of faults, with every specification, whether it succeeds, fails or panics, is such a
  sequence. As a schedule may refuse everything from any call on, this also covers the states in the
  middle of a run. Invariants of the store then follow by induction over the touches.
\<close>

inductive touch ::
  "externals \<Rightarrow> inference_service \<Rightarrow> (key \<rightharpoonup> kobj) \<Rightarrow> (key \<rightharpoonup> kobj) \<Rightarrow> bool"
  for X :: externals and svc :: inference_service where
  put: "(k, kobj_labels ob) \<in> wanted X svc \<Longrightarrow> kobj_key ob = k \<Longrightarrow> touch X svc v (v(k \<mapsto> ob))"
| remove: "role \<in> set (workers svc) \<Longrightarrow> carries_role svc role k (v k) \<Longrightarrow> k \<notin> role_keys svc role \<Longrightarrow>
    touch X svc v (v(k := None))"
| status: "v (isvc_key svc) = Some (ObjInferSvc (with_status svc st)) \<Longrightarrow>
    touch X svc v (v(isvc_key svc \<mapsto> ObjInferSvc (with_status svc st')))"

abbreviation touches ::
  "externals \<Rightarrow> inference_service \<Rightarrow> (key \<rightharpoonup> kobj) \<Rightarrow> (key \<rightharpoonup> kobj) \<Rightarrow> bool" where
  "touches X svc \<equiv> (touch X svc)\<^sup>*\<^sup>*"

definition kept_by :: "externals \<Rightarrow> inference_service \<Rightarrow> ((key \<rightharpoonup> kobj) \<Rightarrow> bool) \<Rightarrow> bool" where
  "kept_by X svc P \<longleftrightarrow> (\<forall>v v'. P v \<longrightarrow> touch X svc v v' \<longrightarrow> P v')"

lemma kept_byD: "kept_by X svc P \<Longrightarrow> P v \<Longrightarrow> touch X svc v v' \<Longrightarrow> P v'"
  unfolding kept_by_def by blast

lemma kept_by_touches: "kept_by X svc P \<Longrightarrow> touches X svc v v' \<Longrightarrow> P v \<Longrightarrow> P v'"
  by (rotate_tac 1, induction rule: rtranclp_induct) (auto dest: kept_byD)

lemma kept_by_reached: "kept_by X svc (touches X svc v)"
  by (auto simp: kept_by_def)

lemma kept_by_conj: "kept_by X svc P \<Longrightarrow> kept_by X svc Q \<Longrightarrow> kept_by X svc (\<lambda>v. P v \<and> Q v)"
  by (auto simp: kept_by_def)

lemma kept_by_puts: "kept_by X svc P \<Longrightarrow> puts_keep X svc P"
  unfolding puts_keep_def using kept_byD touch.put by blast

text \<open>The same, case by case.\<close>

lemma kept_byI:
  assumes "\<And>v k ob. P v \<Longrightarrow> (k, kobj_labels ob) \<in> wanted X svc \<Longrightarrow> kobj_key ob = k \<Longrightarrow> P (v(k \<mapsto> ob))"
    and "\<And>v k role. P v \<Longrightarrow> role \<in> set (workers svc) \<Longrightarrow> carries_role svc role k (v k) \<Longrightarrow>
      k \<notin> role_keys svc role \<Longrightarrow> P (v(k := None))"
    and "\<And>v st st'. P v \<Longrightarrow> v (isvc_key svc) = Some (ObjInferSvc (with_status svc st)) \<Longrightarrow>
      P (v(isvc_key svc \<mapsto> ObjInferSvc (with_status svc st')))"
  shows "kept_by X svc P"
  unfolding kept_by_def
proof (intro allI impI)
  fix v v' assume P: "P v" and "touch X svc v v'"
  from this(2) show "P v'" by cases (use assms P in blast)+
qed

lemma kept_by_withI:
  assumes Q: "kept_by X svc Q"
    and "\<And>v k ob. P v \<Longrightarrow> Q v \<Longrightarrow> (k, kobj_labels ob) \<in> wanted X svc \<Longrightarrow> P (v(k \<mapsto> ob))"
    and "\<And>v k role. P v \<Longrightarrow> Q v \<Longrightarrow> role \<in> set (workers svc) \<Longrightarrow> carries_role svc role k (v k) \<Longrightarrow>
      k \<notin> role_keys svc role \<Longrightarrow> P (v(k := None))"
    and "\<And>v w. P v \<Longrightarrow> Q v \<Longrightarrow> P (v(isvc_key svc \<mapsto> ObjInferSvc w))"
  shows "kept_by X svc (\<lambda>v. P v \<and> Q v)"
  unfolding kept_by_def
proof (intro allI impI, elim conjE)
  fix v v' assume P: "P v" "Q v" and t: "touch X svc v v'"
  from t have "P v'" by cases (use assms(2-) P in blast)+
  with kept_byD [OF Q P(2) t] show "P v' \<and> Q v'" by simp
qed

subsection \<open>Touches of a service\<close>

lemma touch_status [simp]: "touch X (with_status svc st) = touch X svc"
proof (intro ext iffI)
  show "touch X svc v v'" if "touch X (with_status svc st) v v'" for v v'
    using that by cases (auto intro: touch.intros)
  show "touch X (with_status svc st) v v'" if "touch X svc v v'" for v v'
    using that by cases (auto intro: touch.put touch.remove touch.status [of _ "with_status svc st", simplified])
qed

lemma kept_by_status: "kept_by X (with_status svc st) P = kept_by X svc P"
  by (simp only: kept_by_def touch_status)

lemma stored_kept: "kept_by X svc (stored svc)"
  by (rule kept_byI) (auto simp: stored_def carries_role_def isvc_key_def dest!: wanted_kind)

subsection \<open>Every step of a reconciliation is a touch\<close>

context cluster
begin

lemma deleteOrphan_faulty_view:
  assumes "deleteOrphan (faulty_api A) D l u t = (r, t')"
  shows "view (fst t') = view (fst t) \<or>
    meta_Name (lws_Meta l) \<notin> D \<and> view (fst t') = (view (fst t))(kobj_key (ObjLWS l) := None)"
proof -
  let ?k = "kobj_key (ObjLWS l)"
  have "view (snd (api_Delete A (ObjLWS l) (fst t))) = (view (fst t))(?k := None)"
    using delete_existing [of "fst t" "ObjLWS l"] delete_missing [of "fst t" "ObjLWS l"]
    by (cases "view (fst t) ?k") auto
  then show ?thesis
    using assms unreliable_state [of "api_Delete A (ObjLWS l)" t]
    by (auto simp: deleteOrphan_def split: prod.splits sum.splits if_splits)
qed

lemma deleteOrphans_keep:
  assumes kept: "kept_by X svc P" and role: "role \<in> set (workers svc)"
    and D: "\<And>l. meta_Name (lws_Meta l) \<notin> D \<Longrightarrow> kobj_key (ObjLWS l) \<notin> role_keys svc role"
    and l: "\<forall>l \<in> set ls. carries_role svc role (kobj_key (ObjLWS l)) (Some (ObjLWS l)) \<and>
      view (fst t) (kobj_key (ObjLWS l)) \<in> {None, Some (ObjLWS l)}"
    and P: "P (view (fst t))"
  shows "P (view (fst (snd (loop_op (deleteOrphan (faulty_api A) D) ls () t))))"
  using l P
proof (induction ls arbitrary: t)
  case (Cons l ls)
  obtain r t' where d: "deleteOrphan (faulty_api A) D l () t = (r, t')" by fastforce
  let ?k = "kobj_key (ObjLWS l)"
  from deleteOrphan_faulty_view [OF d] consider "view (fst t') = view (fst t)"
    | "?k \<notin> role_keys svc role" "view (fst t') = (view (fst t))(?k := None)"
    using D by blast
  then have "P (view (fst t')) \<and> (\<forall>l \<in> set ls. view (fst t') (kobj_key (ObjLWS l)) \<in> {None, Some (ObjLWS l)})"
  proof cases
    case 2
    have "P ((view (fst t))(?k := None))"
    proof (cases "view (fst t) ?k")
      case None
      then have "(view (fst t))(?k := None) = view (fst t)" by auto
      with Cons.prems(2) show ?thesis by simp
    next
      case (Some ob)
      with Cons.prems(1) have "carries_role svc role ?k (view (fst t) ?k)" by auto
      from touch.remove [of role svc ?k "view (fst t)" X, OF role this 2(1)] show ?thesis
        by (rule kept_byD [OF kept Cons.prems(2)])
    qed
    with 2(2) Cons.prems(1) show ?thesis by auto
  qed (use Cons.prems in auto)
  with Cons.IH [of t'] Cons.prems(1) d show ?case
    by (cases r) (auto simp: calls)
qed simp

lemma list_faulty:
  assumes "call_op (api_ListLWS (faulty_api A) ns sel) t = (r, t')"
  shows "view (fst t') = view (fst t)"
    and "r = Ok ls \<Longrightarrow> l \<in> set ls \<Longrightarrow>
      (\<exists>n. view (fst t) (KindLWS, ns, n) = Some (ObjLWS l)) \<and> labels_match sel (meta_Labels (lws_Meta l))"
proof -
  obtain s fs where t: "t = (s, fs)" by (cases t)
  obtain a s1 fs1 where u: "unreliable (api_ListLWS A ns sel) (s, fs) = (a, (s1, fs1))" by (metis prod.exhaust)
  with assms t have "t' = (s1, fs1)" "r = (case a of Inl e \<Rightarrow> Err e | Inr x \<Rightarrow> Ok x)"
    by (auto simp: call_op_def split: sum.splits)
  with u list_lws [of ns sel s] show "view (fst t') = view (fst t)"
    and "r = Ok ls \<Longrightarrow> l \<in> set ls \<Longrightarrow>
      (\<exists>n. view (fst t) (KindLWS, ns, n) = Some (ObjLWS l)) \<and> labels_match sel (meta_Labels (lws_Meta l))"
    by (cases rule: unreliable_cases; auto simp: t)+
qed

lemma cleanup_preserves:
  assumes kept: "kept_by X svc P" and role: "role \<in> set (workers svc)"
    and D: "snd ` snd ` role_keys svc role \<subseteq> D"
  shows "preserves (\<lambda>t. view (fst t)) P (cleanupOrphanLWS (faulty_api A) svc role D) (\<lambda>_. True)"
proof (rule preservesI)
  fix t r t' assume c: "cleanupOrphanLWS (faulty_api A) svc role D t = (r, t')" and P: "P (view (fst t))"
  obtain q t1 where ls: "call_op (api_ListLWS (faulty_api A) (isvc_Namespace svc) (role_selector svc role)) t = (q, t1)"
    by fastforce
  note listed = list_faulty [OF ls]
  have desired: "kobj_key (ObjLWS l) \<notin> role_keys svc role" if "meta_Name (lws_Meta l) \<notin> D" for l
    using D that by (force simp: kobj_key_def)
  show "P (view (fst t')) \<and> (\<forall>x. r = Ok x \<longrightarrow> True)"
  proof (cases q)
    case (Ok items)
    have "carries_role svc role (kobj_key (ObjLWS l)) (Some (ObjLWS l)) \<and>
        view (fst t1) (kobj_key (ObjLWS l)) \<in> {None, Some (ObjLWS l)}" if "l \<in> set items" for l
    proof -
      from listed(2) [OF Ok that] obtain n where n: "view (fst t) (KindLWS, isvc_Namespace svc, n) = Some (ObjLWS l)"
        "labels_match (role_selector svc role) (meta_Labels (lws_Meta l))" by blast
      with view_key [OF n(1)] listed(1) show ?thesis by (auto simp: carries_role_def)
    qed
    then have "P (view (fst (snd (loop_op (deleteOrphan (faulty_api A) D) items () t1))))"
      using deleteOrphans_keep [OF kept role desired, of D items t1] P listed(1) by auto
    moreover have "loop_op (deleteOrphan (faulty_api A) D) items () t1 = (r, t')"
      using c ls Ok by (simp add: cleanupOrphanLWS_def role_selector_def calls)
    ultimately show ?thesis by simp
  qed (use c ls P listed(1) in \<open>auto simp: cleanupOrphanLWS_def role_selector_def calls\<close>)
qed

end

context cluster
begin

lemma kept_by_keeps:
  assumes kept: "kept_by X svc P"
  shows "puts_keep X svc P" and "cleanup_keeps (faulty_api A) (\<lambda>t. view (fst t)) svc P"
proof -
  show "puts_keep X svc P" by (rule kept_by_puts [OF kept])
  show "cleanup_keeps (faulty_api A) (\<lambda>t. view (fst t)) svc P"
    unfolding cleanup_keeps_def using cleanup_preserves [OF kept] by blast
qed

lemma status_touch: "status_keeps svc (\<lambda>v. touches X svc v0 v \<and> stored svc v)"
  unfolding status_keeps_def
proof (intro allI impI)
  fix v old st assume v: "touches X svc v0 v \<and> stored svc v" and old: "v (isvc_key svc) = Some (ObjInferSvc old)"
  then obtain st0 where "old = with_status svc st0" by (auto simp: stored_def)
  with touch.status [of v svc st0 X st] old
  have "touch X svc v (v(isvc_key svc \<mapsto> ObjInferSvc (with_status old st)))" by simp
  then show "touches X svc v0 (v(isvc_key svc \<mapsto> ObjInferSvc (with_status old st))) \<and>
      stored svc (v(isvc_key svc \<mapsto> ObjInferSvc (with_status old st)))"
    using v kept_byD [OF stored_kept, of svc v] by (blast intro: rtranclp.rtrancl_into_rtrancl)
qed

text \<open>The refinement: whatever becomes of its calls, a reconciliation is a sequence of touches.\<close>

theorem Reconcile_touches:
  assumes run: "Reconcile X (faulty_api A) (isvc_Namespace svc) (isvc_Name svc) t = (r, t')"
    and at: "view (fst t) (isvc_key svc) = Some (ObjInferSvc svc)"
  shows "touches X svc (view (fst t)) (view (fst t'))"
proof -
  let ?P = "\<lambda>v. touches X svc (view (fst t)) v \<and> stored svc v"
  note kept = kept_by_conj [OF kept_by_reached [of X svc "view (fst t)"] stored_kept]
  have "?P (view (fst (snd (Reconcile X (faulty_api A) (isvc_Namespace svc) (isvc_Name svc) t))))"
  proof (rule faulty.Reconcile_keeps)
    fix svc' assume "fst (typed_get (faulty_api A) inferencesvc_ops (isvc_Namespace svc) (isvc_Name svc) t) = Inr svc'"
    then have "svc' = svc" using read_service(1) [of svc t "Inr svc'"] at by (metis kobj.inject(11) option.inject prod.collapse)
    then show "puts_keep X svc' ?P \<and> cleanup_keeps (faulty_api A) (\<lambda>t. view (fst t)) svc' ?P \<and> status_keeps svc' ?P"
      using kept_by_keeps [OF kept] status_touch by blast
  qed (simp add: stored_self [of "view (fst t)" svc, OF at])
  with run show ?thesis by simp
qed

lemma Reconcile_unstored:
  assumes run: "Reconcile X (faulty_api A) ns n t = (r, t')"
    and "view (fst t) (KindInferenceService, ns, n) = None"
  shows "view (fst t') = view (fst t)"
proof -
  obtain q t1 where get: "typed_get (faulty_api A) inferencesvc_ops ns n t = (q, t1)" by fastforce
  let ?svc = "undefined\<lparr>isvc_Meta := (undefined :: object_meta)\<lparr>meta_Namespace := ns, meta_Name := n\<rparr>\<rparr>"
  note read = read_service [of ?svc t q t1, simplified, OF get]
  show ?thesis
  proof (cases q)
    case (Inl e)
    with run get faulty_typed_get_view [of inferencesvc_ops ns n t] show ?thesis
      by (auto simp: Reconcile_def split: if_splits)
  next
    case (Inr w)
    with read(1) assms(2) show ?thesis by (simp add: isvc_key_def)
  qed
qed

text \<open>One run, of any key, seen from the store.\<close>

lemma Reconcile_cases:
  assumes run: "Reconcile X (faulty_api A) ns n t = (r, t')"
  obtains (none) "view (fst t') = view (fst t)"
  | (some) svc where "isvc_Namespace svc = ns" "isvc_Name svc = n"
      "view (fst t) (isvc_key svc) = Some (ObjInferSvc svc)" "touches X svc (view (fst t)) (view (fst t'))"
proof (cases "view (fst t) (KindInferenceService, ns, n)")
  case None
  from Reconcile_unstored [OF run None] show ?thesis by (rule none)
next
  case (Some ob)
  with view_key have key: "kobj_key ob = (KindInferenceService, ns, n)" by blast
  then obtain svc where ob: "ob = ObjInferSvc svc" by (cases ob) (simp_all add: kobj_key_def)
  with key have "isvc_Namespace svc = ns" "isvc_Name svc = n" by (simp_all add: isvc_key_def)
  with some [of svc] Some ob Reconcile_touches [of X svc t r t'] run show ?thesis by (simp add: isvc_key_def)
qed

end

subsection \<open>Nothing else changes\<close>

lemma wanted_may_change: "(k, ls) \<in> wanted X svc \<Longrightarrow> may_change X svc v k"
  by (erule wanted_cases) (auto simp: may_change_def untouched_by_roles_def role_keys_def)

lemma may_change_cong: "v' k = v k \<Longrightarrow> may_change X svc v' k = may_change X svc v k"
  by (simp add: may_change_def untouched_by_roles_def)

lemma touches_frame:
  assumes "touches X svc v v'" and k: "\<not> may_change X svc v k" "k \<noteq> isvc_key svc"
  shows "v' k = v k"
proof -
  have "kept_by X svc (\<lambda>v'. v' k = v k)"
  proof (rule kept_byI)
    fix w k' ob assume "w k = v k" and "(k', kobj_labels ob) \<in> wanted X svc"
    with k(1) wanted_may_change show "(w(k' \<mapsto> ob)) k = v k" by fastforce
  next
    fix w k' role assume w: "w k = v k" and r: "role \<in> set (workers svc)" "carries_role svc role k' (w k')"
    from k(1) r(1) w have "\<not> carries_role svc role k (w k)"
      by (auto simp: may_change_def untouched_by_roles_def)
    with r w show "(w(k' := None)) k = v k" by auto
  qed (use k(2) in auto)
  from kept_by_touches [OF this assms(1)] show ?thesis by simp
qed

context cluster
begin

theorem Reconcile_frame:
  assumes run: "Reconcile X (faulty_api A) (isvc_Namespace svc) (isvc_Name svc) t = (r, t')"
    and at: "view (fst t) (isvc_key svc) = Some (ObjInferSvc svc)"
  shows "stored svc (view (fst t'))"
    and "k \<noteq> isvc_key svc \<Longrightarrow> \<not> may_change X svc (view (fst t)) k \<Longrightarrow> view (fst t') k = view (fst t) k"
proof -
  note touches = Reconcile_touches [OF run at]
  show "stored svc (view (fst t'))"
    by (rule kept_by_touches [OF stored_kept touches]) (rule stored_self [of "view (fst t)" svc, OF at])
  show "k \<noteq> isvc_key svc \<Longrightarrow> \<not> may_change X svc (view (fst t)) k \<Longrightarrow> view (fst t') k = view (fst t) k"
    using touches_frame [OF touches] by simp
qed

end

end
