(* ===== verification/Recovery.thy ===== *)
theory Recovery
  imports Footprint
begin

section \<open>Running again after faults\<close>

text \<open>
  What a later reconciliation relies on is \<open>intact\<close>: the service is stored, with some status, and no
  stored LeaderWorkerSet has the name of one role and the labels of another. No touch breaks it, so no
  run of \<open>Reconcile\<close> does, however it ends. \<open>faults_then_converged\<close>: when the faults are used up, the
  next run converges. \<open>success_converges\<close>: a run that returns no error has converged, whatever failed
  on the way. \<open>refused_reads_hidden\<close>: but errors of the reads behind the status are lost.
\<close>

definition intact :: "inference_service \<Rightarrow> (key \<rightharpoonup> kobj) \<Rightarrow> bool" where
  "intact svc v \<longleftrightarrow> labels_sound svc v \<and> stored svc v"

lemma replica_labels_role:
  "labels_match (role_selector svc role') (replica_labels X svc role i) \<Longrightarrow> role_Name role = role_Name role'"
  using replica_labels_match [of X svc role i _ role']
  by (cases "replica_lws X svc role i") (auto simp: replica_labels_def role_selector_def label_of_def)

lemma role_keys_kind: "k \<in> role_keys svc role \<Longrightarrow> fst k = KindLWS"
  by (auto simp: role_keys_def lws_key_def)

lemma labels_sound_kept: "kept_by X svc (labels_sound svc)"
proof (rule kept_byI)
  fix v k ob assume sound: "labels_sound svc v" and w: "(k, kobj_labels ob) \<in> wanted X svc"
  show "labels_sound svc (v(k \<mapsto> ob))"
    unfolding labels_sound_def
  proof (intro ballI impI)
    fix role role' k' assume r: "role \<in> set (workers svc)" "role' \<in> set (workers svc)" "k' \<in> role_keys svc role"
      and c: "carries_role svc role' k' ((v(k \<mapsto> ob)) k')"
    show "role_Name role' = role_Name role"
    proof (cases "k' = k")
      case True
      with w role_keys_kind [OF r(3)] obtain r0 i where "i \<in> set (replicas_of r0)" "k = lws_key svc r0 i"
        "kobj_labels ob = replica_labels X svc r0 i" by (auto elim: wanted_lws)
      with True r(3) c show ?thesis
        using role_keys_disjoint [of k svc r0 role] replica_labels_role [of svc role' X r0 i]
        by (auto simp: carries_role_def role_keys_def)
    qed (use labels_soundD [OF sound r] c in simp)
  qed
next
  fix v k role assume "labels_sound svc v"
  moreover have "carries_role svc r' k' ((v(k := None)) k') \<Longrightarrow> carries_role svc r' k' (v k')" for r' k'
    by (cases "k' = k") (simp_all add: carries_role_def)
  ultimately show "labels_sound svc (v(k := None))"
    unfolding labels_sound_def by blast
next
  fix v st st' assume "labels_sound svc v"
  then show "labels_sound svc (v(isvc_key svc \<mapsto> ObjInferSvc (with_status svc st')))"
    by (rule labels_sound_cong) (auto simp: isvc_key_def)
qed

lemma intact_kept: "kept_by X svc (intact svc)"
  unfolding intact_def by (rule kept_by_conj [OF labels_sound_kept stored_kept])

lemma intact_with_status [simp]: "intact (with_status svc st) = intact svc"
  by (rule ext) (simp add: intact_def stored_def)

context cluster
begin

lemma after_runs_touches:
  assumes "stored svc (view (fst t))"
  shows "touches X svc (view (fst t)) (view (fst (after_runs X A (isvc_Namespace svc) (isvc_Name svc) n t)))"
proof (induction n)
  case (Suc n)
  let ?t = "after_runs X A (isvc_Namespace svc) (isvc_Name svc) n t"
  obtain r t' where run: "Reconcile X (faulty_api A) (isvc_Namespace svc) (isvc_Name svc) ?t = (r, t')" by fastforce
  from kept_by_touches [OF stored_kept Suc.IH assms] obtain st
    where "view (fst ?t) (isvc_key svc) = Some (ObjInferSvc (with_status svc st))" by (auto simp: stored_def)
  with Reconcile_touches [of X "with_status svc st" ?t r t'] run
  have "touches X svc (view (fst ?t)) (view (fst t'))" by simp
  with Suc.IH run show ?case by (simp add: after_runs_def)
qed (simp add: after_runs_def)

lemma after_runs_intact:
  assumes "intact svc (view (fst t))"
  shows "intact svc (view (fst (after_runs X A (isvc_Namespace svc) (isvc_Name svc) n t)))"
  using kept_by_touches [OF intact_kept after_runs_touches assms] assms by (simp add: intact_def)

text \<open>The LeaderWorkerSets of a role that has left the specification are out of reach.\<close>

lemma former_role_frozen:
  assumes same: "isvc_key svc0 = isvc_key svc" and l: "replica_lws X0 svc0 old i = Some l"
    and i: "i \<in> set (replicas_of old)" and gone: "role_Name old \<notin> role_Name ` set (workers svc)"
    and v: "v (lws_key svc0 old i) = Some (ObjLWS l)"
  shows "\<not> may_change X svc v (lws_key svc0 old i)"
proof -
  have names: "isvc_Namespace svc0 = isvc_Namespace svc" "isvc_Name svc0 = isvc_Name svc"
    using same by (simp_all add: isvc_key_def)
  have "lws_key svc0 old i \<in> role_keys svc old"
    using i names by (simp add: role_keys_def lws_key_def)
  with gone have "lws_key svc0 old i \<notin> role_keys svc role" if "role \<in> set (workers svc)" for role
    using role_keys_disjoint that by blast
  moreover have "\<not> carries_role svc role (lws_key svc0 old i) (v (lws_key svc0 old i))"
    if "role \<in> set (workers svc)" for role
    using replica_labels_match [OF l, of role] replica_lws_key(3) [OF l] v gone that names
    by (auto simp: carries_role_def role_selector_def)
  ultimately show ?thesis
    by (auto simp: may_change_def untouched_by_roles_def lws_key_def dest: router_keys_kind)
qed

lemma former_role_kept:
  assumes "isvc_key svc0 = isvc_key svc" and "replica_lws X0 svc0 old i = Some l"
    and "i \<in> set (replicas_of old)" and "role_Name old \<notin> role_Name ` set (workers svc)"
    and at: "view (fst t) (lws_key svc0 old i) = Some (ObjLWS l)" and "stored svc (view (fst t))"
  shows "view (fst (after_runs X A (isvc_Namespace svc) (isvc_Name svc) n t)) (lws_key svc0 old i) = Some (ObjLWS l)"
  using touches_frame [OF after_runs_touches [OF assms(6)] former_role_frozen [where v = "view (fst t)", OF assms(1-4) at]] at
  by (simp add: lws_key_def isvc_key_def)

theorem faults_then_converged:
  assumes laws: "condition_laws X" and spec: "well_specified X svc"
    and dist: "distinct (map role_Name (served_roles svc))"
    and sound: "labels_sound svc (view s)" and stored: "view s (isvc_key svc) = Some (ObjInferSvc svc)"
  shows "\<exists>st0 st s'.
    Reconcile X (faulty_api A) (isvc_Namespace svc) (isvc_Name svc)
      (after_runs X A (isvc_Namespace svc) (isvc_Name svc) (length fs) (s, fs)) = (Ok (), (s', [])) \<and>
    view s' (isvc_key svc) = Some (ObjInferSvc (with_status svc st)) \<and>
    good_status (with_status svc st0) (view s') st \<and> converged X svc (view s')"
proof -
  let ?t = "after_runs X A (isvc_Namespace svc) (isvc_Name svc) (length fs) (s, fs)"
  obtain s1 where t: "?t = (s1, [])"
    using after_runs_rest [of X A "isvc_Namespace svc" "isvc_Name svc" "length fs" "(s, fs)"]
    by (cases ?t) simp
  from sound stored_self [of "view s" svc, OF stored] have "intact svc (view s)" by (simp add: intact_def)
  with after_runs_intact [of svc "(s, fs)" X "length fs"] t have "intact svc (view s1)" by simp
  then obtain st0 where s1: "labels_sound svc (view s1)"
    "view s1 (isvc_key svc) = Some (ObjInferSvc (with_status svc st0))" by (auto simp: intact_def stored_def)
  from reconcile_achieves [OF laws, of "with_status svc st0" s1] spec dist s1 obtain st s' where
    "Reconcile X A (isvc_Namespace svc) (isvc_Name svc) s1 = (Ok (), s')"
    "view s' (isvc_key svc) = Some (ObjInferSvc (with_status svc st))"
    "good_status (with_status svc st0) (view s') st" "converged X svc (view s')" by auto
  with t show ?thesis by (auto simp: Reconcile_healthy)
qed

text \<open>A run that returns no error has reconciled the children as the server without faults does.\<close>

lemma success_children:
  assumes stored: "view s (isvc_key svc) = Some (ObjInferSvc svc)"
    and ok: "Reconcile X (faulty_api A) (isvc_Namespace svc) (isvc_Name svc) (s, fs) = (Ok (), t)"
  obtains s1 st s2 s3 fs3 where
    "typed_get A inferencesvc_ops (isvc_Namespace svc) (isvc_Name svc) s = (Inr svc, s1)"
    and "initialise X A svc s1 = (with_status svc st, s2)" and "view s2 = view s"
    and "reconcileChildren X A (with_status svc st) s2 = (Ok (), s3)"
    and "finishReconcile X (faulty_api A) (with_status svc st) None (s3, fs3) = (Ok (), t)"
proof -
  obtain q s1 fs1 where get: "typed_get (faulty_api A) inferencesvc_ops (isvc_Namespace svc) (isvc_Name svc) (s, fs) =
      (q, (s1, fs1))" by (metis prod.exhaust)
  with faulty_typed_get_view [of inferencesvc_ops "isvc_Namespace svc" "isvc_Name svc" "(s, fs)"]
  have v1: "view s1 = view s" by simp
  have q: "q = Inr svc"
  proof (cases q)
    case (Inl e)
    with read_service(2) [OF get] stored have "\<not> IsNotFound e" by auto
    with ok get Inl show ?thesis by (simp add: Reconcile_def)
  next
    case (Inr w)
    with read_service(1) [OF get] stored show ?thesis by simp
  qed
  from initialise_same [of X svc s1] v1 obtain st s2 where
    ini: "initialise X A svc s1 = (with_status svc st, s2)" "view s2 = view s" by auto
  let ?svc = "with_status svc st"
  obtain p s3 fs3 where ch: "reconcileChildren X (faulty_api A) ?svc (s2, fs1) = (p, (s3, fs3))"
    by (metis prod.exhaust)
  have run: "Reconcile X (faulty_api A) (isvc_Namespace svc) (isvc_Name svc) (s, fs) =
      (case p of Panic \<Rightarrow> (Panic, (s3, fs3))
       | Err e \<Rightarrow> finishReconcile X (faulty_api A) ?svc (Some e) (s3, fs3)
       | Ok _ \<Rightarrow> finishReconcile X (faulty_api A) ?svc None (s3, fs3))"
    using get q ini ch by (simp add: Reconcile_def initialise_faulty split: outcome.split)
  have "fst (finishReconcile X (faulty_api A) ?svc (Some e) u) \<noteq> Ok ()" for e u
    by (simp add: finishReconcile_def split: prod.split sum.split)
  with run ok have p: "p = Ok ()" by (cases p) (simp_all, metis fst_conv)
  then have A: "reconcileChildren X A ?svc s2 = (Ok (), s3)"
    using tracksD(1) [OF tracks_reconcileChildren ch] by simp
  from get have "unreliable (typed_get A inferencesvc_ops (isvc_Namespace svc) (isvc_Name svc)) (s, fs) = (Inr svc, (s1, fs1))"
    by (simp add: typed_get_faulty q)
  then have "typed_get A inferencesvc_ops (isvc_Namespace svc) (isvc_Name svc) s = (Inr svc, s1)"
    by (cases rule: unreliable_cases) auto
  with ini A run ok p show ?thesis by (intro that) simp_all
qed

lemma finish_converged:
  assumes "converged X svc (view s)" and "finishReconcile X (faulty_api A) (with_status svc st) None (s, fs) = (Ok (), t)"
  shows "converged X svc (view (fst t))"
proof -
  have "status_keeps svc (converged X svc)"
    unfolding status_keeps_def by (auto intro: converged_cong [rotated])
  then have "status_keeps (with_status svc st) (converged X svc)" by simp
  from faulty.finishReconcile_preserves [OF this] assms show ?thesis
    using preservesD(1) [of "\<lambda>t. view (fst t)" "converged X svc" "finishReconcile X (faulty_api A) (with_status svc st) None"
        "\<lambda>_. True" "(s, fs)" "Ok ()" t] by simp
qed

theorem success_converges:
  assumes spec: "well_specified X svc" and sound: "labels_sound svc (view s)"
    and stored: "view s (isvc_key svc) = Some (ObjInferSvc svc)"
    and ok: "Reconcile X (faulty_api A) (isvc_Namespace svc) (isvc_Name svc) (s, fs) = (Ok (), t)"
  shows "converged X svc (view (fst t))"
proof -
  from success_children [OF stored ok] obtain s1 st s2 s3 fs3 where
    "view s2 = view s" "reconcileChildren X A (with_status svc st) s2 = (Ok (), s3)"
    and fin: "finishReconcile X (faulty_api A) (with_status svc st) None (s3, fs3) = (Ok (), t)" .
  with children_converge [of X "with_status svc st" s2] spec sound have "converged X svc (view s3)" by auto
  from finish_converged [OF this fin] show ?thesis .
qed

end


subsection \<open>Read errors are not reported\<close>

text \<open>
  The reads behind the component status, in the order of the code. \<open>aggregateLWSStatus\<close> goes on to the
  next replica when one of them fails, so a LeaderWorkerSet that cannot be read counts as one that does
  not exist.
\<close>

definition status_reads :: "role list \<Rightarrow> nat" where
  "status_reads roles = sum_list (map (\<lambda>role. length (replicas_of role)) roles)"

lemma getLWSStatus_refused:
  "getLWSStatus (faulty_api A) svc role i (s, Refused m # fs) = (None, (s, fs))"
  by (simp add: getLWSStatus_def typed_get_faulty)

lemma aggregateLoop_refused:
  "aggregateLoop (faulty_api A) svc role is agg (s, replicate (length is) (Refused m) @ fs) = (agg, (s, fs))"
  by (induction "is" arbitrary: agg) (simp_all add: getLWSStatus_refused addLWSStatus_def)

lemma aggregateLWSStatus_refused:
  assumes "0 < sint (GetReplicaCount role)"
  shows "\<exists>c. aggregateLWSStatus (faulty_api A) svc role
      (s, replicate (length (replicas_of role)) (Refused m) @ fs) = (c, (s, fs)) \<and> cs_Phase c = PhasePending"
  using assms aggregateLoop_refused [of A svc role "replicas_of role" initialAggregate s m fs]
  by (simp add: aggregateLWSStatus_def Let_def initialAggregate_def aggregatePhase_def)

lemma componentsLoop_refused:
  assumes "\<forall>role \<in> set (filter (\<lambda>r. role_ComponentType r \<noteq> ComponentTypeRouter) roles). 0 < sint (GetReplicaCount role)"
    and "\<forall>(n, c) \<in> set cs. cs_Phase c = PhasePending"
  shows "\<exists>cs' s'. componentsLoop (faulty_api A) svc roles cs
      (s, replicate (status_reads (filter (\<lambda>r. role_ComponentType r \<noteq> ComponentTypeRouter) roles)) (Refused m) @ fs) =
        (cs', (s', fs)) \<and>
    (\<forall>(n, c) \<in> set cs'. cs_Phase c = PhasePending)"
  using assms
proof (induction roles arbitrary: cs s)
  case (Cons role roles)
  show ?case
  proof (cases "role_ComponentType role = ComponentTypeRouter")
    case False
    let ?rest = "replicate (status_reads (filter (\<lambda>r. role_ComponentType r \<noteq> ComponentTypeRouter) roles)) (Refused m) @ fs"
    from Cons.prems(1) False have "0 < sint (GetReplicaCount role)" by simp
    from aggregateLWSStatus_refused [OF this, of A svc s m ?rest] obtain c where
      c: "aggregateLWSStatus (faulty_api A) svc role
        (s, replicate (length (replicas_of role)) (Refused m) @ ?rest) = (c, (s, ?rest))" "cs_Phase c = PhasePending"
      by blast
    let ?c = "c\<lparr>cs_NodesPerReplica := GetNodeCount role, cs_DesiredReplicas := GetReplicaCount role,
      cs_TotalPods := GetReplicaCount role * GetNodeCount role, cs_LastUpdateTime := Some (fst (api_Now A s))\<rparr>"
    have "\<forall>(n, d) \<in> set (AList.update (role_Name role) ?c cs). cs_Phase d = PhasePending"
      using Cons.prems(2) c(2) by (induction cs) auto
    from Cons.IH [OF _ this, of "snd (api_Now A s)"] Cons.prems(1) False c(1) show ?thesis
      by (simp add: Let_def status_reads_def replicate_add case_prod_unfold)
  qed (use Cons in auto)
qed (simp add: status_reads_def)


context cluster
begin

theorem refused_reads_hidden:
  assumes laws: "condition_laws X" and stored: "view s (isvc_key svc) = Some (ObjInferSvc (with_status svc st0))"
    and roles: "served_roles svc \<noteq> []" "\<forall>role \<in> set (served_roles svc). 0 < sint (GetReplicaCount role)"
  shows "\<exists>st s'. finishReconcile X (faulty_api A) svc None (s, replicate (status_reads (served_roles svc)) (Refused m)) =
      (Ok (), (s', [])) \<and>
    view s' = (view s)(isvc_key svc \<mapsto> ObjInferSvc (with_status svc st)) \<and>
    (\<forall>(n, c) \<in> set (Components st). cs_Phase c = PhasePending) \<and>
    status_of (Conditions st) ConditionTypeActive = ConditionFalse"
proof -
  from componentsLoop_refused [of "isvc_Roles svc" "[]" A svc s m "[]"] roles(2)
  obtain cs s1 where cs: "componentsLoop (faulty_api A) svc (isvc_Roles svc) []
      (s, replicate (status_reads (served_roles svc)) (Refused m)) = (cs, (s1, []))"
    and pending: "\<forall>(n, c) \<in> set cs. cs_Phase c = PhasePending"
    by (auto simp: served_roles_def)
  with faulty.componentsLoop_keeps [of svc "isvc_Roles svc" "[]" "(s, replicate (status_reads (served_roles svc)) (Refused m))"]
  have v1: "view s1 = view s" by simp
  let ?svc = "with_status svc ((isvc_Status svc)\<lparr>Components := cs\<rparr>)"
  obtain now s2 where now: "api_Now A s1 = (now, s2)" by fastforce
  with now_view [of s1] v1 have v2: "view s2 = view s" by simp
  have "\<not> checkAllComponentsReady ?svc"
    using pending by (cases cs) (auto simp: checkAllComponentsReady_def)
  then have active: "status_of (isvc_Conditions (setFinalCondition X now None ?svc)) ConditionTypeActive = ConditionFalse"
    by (simp add: setFinalCondition_def setters_status [OF laws])
  obtain st where st: "setFinalCondition X now None ?svc = with_status svc st" "Components st = cs"
    using setFinalCondition_with_status [of X now None ?svc] by auto
  from stored v2 status_update [of s2 "with_status svc st" "with_status svc st0"] obtain s3 where
    "api_StatusUpdate A (with_status svc st) s2 = (Inr (), s3)"
    "view s3 = (view s)(isvc_key svc \<mapsto> ObjInferSvc (with_status svc st))" by auto
  with cs now st pending active show ?thesis
    by (intro exI [of _ st] exI [of _ s3]) (simp add: finishReconcile_def updateComponentStatusInMemory_def)
qed

end

end
