(* ===== verification/Caches.thy ===== *)
theory Caches
  imports Faults
begin

section \<open>Reading through a cache\<close>

text \<open>
  The client that \<open>cmd/main.go\<close> gives the controllers (\<open>mgr.GetClient()\<close>) writes to the API server but
  reads from a cache, which watches keep up to date with a delay. \<open>cached_api A cs\<close> is the server \<open>A\<close>
  behind such a client: its state is that of the server and the number of reads so far, and read number
  \<open>j\<close> sees the snapshot \<open>cs j\<close>, so that the cache may change between two reads of one reconciliation.
  Nothing is assumed here of how the snapshots and the server are related. As a client behind a cache it
  still satisfies \<open>writes\<close>, with any schedule of faults (\<open>cached_writes\<close>).
\<close>

definition cached_api :: "'s api \<Rightarrow> (nat \<Rightarrow> 's) \<Rightarrow> ('s \<times> nat) api" where
  "cached_api A cs = \<lparr>
     api_Get = (\<lambda>k ns n (s, j). (fst (api_Get A k ns n (cs j)), (s, Suc j))),
     api_Create = (\<lambda>ob (s, j). (fst (api_Create A ob s), (snd (api_Create A ob s), j))),
     api_Update = (\<lambda>ob (s, j). (fst (api_Update A ob s), (snd (api_Update A ob s), j))),
     api_Delete = (\<lambda>ob (s, j). (fst (api_Delete A ob s), (snd (api_Delete A ob s), j))),
     api_ListLWS = (\<lambda>ns sel (s, j). (fst (api_ListLWS A ns sel (cs j)), (s, Suc j))),
     api_StatusUpdate = (\<lambda>svc (s, j). (fst (api_StatusUpdate A svc s), (snd (api_StatusUpdate A svc s), j))),
     api_Now = (\<lambda>(s, j). (fst (api_Now A s), (snd (api_Now A s), j))),
     api_SetControllerReference = api_SetControllerReference A\<rparr>"

lemma cached_api_simps [simp]:
  "api_Get (cached_api A cs) k ns n t = (fst (api_Get A k ns n (cs (snd t))), (fst t, Suc (snd t)))"
  "api_Create (cached_api A cs) ob t = (fst (api_Create A ob (fst t)), (snd (api_Create A ob (fst t)), snd t))"
  "api_Update (cached_api A cs) ob t = (fst (api_Update A ob (fst t)), (snd (api_Update A ob (fst t)), snd t))"
  "api_Delete (cached_api A cs) ob t = (fst (api_Delete A ob (fst t)), (snd (api_Delete A ob (fst t)), snd t))"
  "api_ListLWS (cached_api A cs) ns sel t = (fst (api_ListLWS A ns sel (cs (snd t))), (fst t, Suc (snd t)))"
  "api_StatusUpdate (cached_api A cs) svc t =
     (fst (api_StatusUpdate A svc (fst t)), (snd (api_StatusUpdate A svc (fst t)), snd t))"
  "api_Now (cached_api A cs) t = (fst (api_Now A (fst t)), (snd (api_Now A (fst t)), snd t))"
  "api_SetControllerReference (cached_api A cs) = api_SetControllerReference A"
  by (simp_all add: cached_api_def case_prod_unfold)

context cluster
begin

lemma cached_plain_writes: "writes (cached_api A cs) (\<lambda>t. view (fst t))"
proof -
  note w = cluster_writes
  show ?thesis
    by (rule writes.intro)
      (simp_all add: writes.get_key [OF w] writes.now_keeps [OF w] writes.create_puts [OF w] writes.update_puts [OF w]
        writes.delete_removes [OF w] writes.status_puts [OF w] writes.owner_keeps [OF w])
qed

lemma cached_writes: "writes (faulty_api (cached_api A cs)) (\<lambda>t. view (fst (fst t)))"
  by (rule faulty_writes [OF cached_plain_writes])

text \<open>What a list returns was stored in one of the snapshots.\<close>

lemma cached_listed:
  assumes "fst (api_ListLWS (faulty_api (cached_api A cs)) ns sel t) = Inr ls" and "l \<in> set ls"
  shows "\<exists>j n. view (cs j) (KindLWS, ns, n) = Some (ObjLWS l) \<and> kobj_key (ObjLWS l) = (KindLWS, ns, n) \<and>
    labels_match sel (meta_Labels (lws_Meta l))"
proof -
  from unreliable_result [of "api_ListLWS (cached_api A cs) ns sel" t ls] assms(1)
  have "fst (api_ListLWS A ns sel (cs (snd (fst t)))) = Inr ls" by simp
  with list_lws [of ns sel "cs (snd (fst t))"] assms(2) obtain n where
    "view (cs (snd (fst t))) (KindLWS, ns, n) = Some (ObjLWS l)" "labels_match sel (meta_Labels (lws_Meta l))" by auto
  with view_key show ?thesis by blast
qed

lemma cached_cleanup:
  assumes "\<And>v l j n. P v \<Longrightarrow> view (cs j) (KindLWS, isvc_Namespace svc, n) = Some (ObjLWS l) \<Longrightarrow>
      kobj_key (ObjLWS l) = (KindLWS, isvc_Namespace svc, n) \<Longrightarrow>
      labels_match (role_selector svc role) (meta_Labels (lws_Meta l)) \<Longrightarrow>
      P (v((KindLWS, isvc_Namespace svc, n) := None))"
  shows "preserves (\<lambda>t. view (fst (fst t))) P (cleanupOrphanLWS (faulty_api (cached_api A cs)) svc role D) (\<lambda>_. True)"
proof (rule writes.cleanup_preserves [OF cached_writes, where L =
      "\<lambda>l. \<exists>j n. view (cs j) (KindLWS, isvc_Namespace svc, n) = Some (ObjLWS l) \<and>
        kobj_key (ObjLWS l) = (KindLWS, isvc_Namespace svc, n) \<and>
        labels_match (role_selector svc role) (meta_Labels (lws_Meta l))"])
  fix t ls l assume "fst (api_ListLWS (faulty_api (cached_api A cs)) (isvc_Namespace svc) (role_selector svc role) t) = Inr ls"
    and "l \<in> set ls"
  from cached_listed [OF this] show "\<exists>j n. view (cs j) (KindLWS, isvc_Namespace svc, n) = Some (ObjLWS l) \<and>
      kobj_key (ObjLWS l) = (KindLWS, isvc_Namespace svc, n) \<and>
      labels_match (role_selector svc role) (meta_Labels (lws_Meta l))" .
next
  fix v l assume "P v" and "\<exists>j n. view (cs j) (KindLWS, isvc_Namespace svc, n) = Some (ObjLWS l) \<and>
      kobj_key (ObjLWS l) = (KindLWS, isvc_Namespace svc, n) \<and>
      labels_match (role_selector svc role) (meta_Labels (lws_Meta l))"
  with assms show "P (v(kobj_key (ObjLWS l) := None))" by metis
qed

end

end
