(* ===== verification/Fleet.thy ===== *)
theory Fleet
  imports Recovery Caches
begin

section \<open>Many services on one server\<close>

text \<open>
  The controller reconciles every InferenceService of the cluster, one run after the other, while users
  and other controllers change the store. The runs are steps of a state machine over the server
  (\<open>reachable_fleet\<close>), each with its own schedule of faults, and may read through a cache that lags behind.
  \<^item> \<open>named\<close> is the invariant of the reachable states: a LeaderWorkerSet that carries the labels of a
    service and of a role has the name the builder gives to a replica of that role. It implies
    \<open>labels_sound\<close> for every service, which convergence needs.
  \<^item> \<open>apart a b\<close>: the names of the two services cannot give the same LeaderWorkerSet name. Then no touch
    of \<open>b\<close> undoes what is converged for \<open>a\<close> (\<open>converged_kept_apart\<close>), and neither does a touch of \<open>a\<close>
    itself (\<open>converged_kept\<close>).
  \<^item> \<open>fleet_runs\<close> is a sequence of runs with the list of their outcomes, \<open>rounds\<close> passes again and again
    over a list of services behind one schedule of faults.
\<close>

subsection \<open>Names and labels of LeaderWorkerSets\<close>

definition well_named :: "key \<Rightarrow> label_map \<Rightarrow> bool" where
  "well_named k ls \<longleftrightarrow> fst k = KindLWS \<longrightarrow>
     (\<forall>s r. ls LabelService = Some s \<longrightarrow> ls LabelRoleName = Some r \<longrightarrow>
        (\<exists>i. 0 \<le> sint i \<and> snd (snd k) = GenerateLWSNameWithIndex s r (Some i)))"

definition named :: "(key \<rightharpoonup> kobj) \<Rightarrow> bool" where
  "named v \<longleftrightarrow> (\<forall>k ob. v k = Some ob \<longrightarrow> well_named k (kobj_labels ob))"

lemma named_put: "named v \<Longrightarrow> well_named k (kobj_labels ob) \<Longrightarrow> named (v(k \<mapsto> ob))"
  by (simp add: named_def)

lemma named_remove: "named v \<Longrightarrow> named (v(k := None))"
  by (simp add: named_def)

lemma named_carries:
  assumes "named v" and "carries_role svc role k (v k)"
  shows "\<exists>i. 0 \<le> sint i \<and> k = lws_key svc role i"
proof -
  from assms(2) obtain n l where k: "k = (KindLWS, isvc_Namespace svc, n)" "v k = Some (ObjLWS l)"
    "meta_Labels (lws_Meta l) LabelService = Some (isvc_Name svc)"
    "meta_Labels (lws_Meta l) LabelRoleName = Some (role_Name role)"
    by (auto simp: carries_role_def role_selector_def)
  from assms(1) k(2) have "well_named k (kobj_labels (ObjLWS l))" unfolding named_def by blast
  with k show ?thesis by (auto simp: well_named_def lws_key_def)
qed

lemma named_sound: "named v \<Longrightarrow> labels_sound svc v"
  unfolding labels_sound_def role_keys_def
  by (auto dest!: named_carries simp: lws_key_inject in_int32_range)

lemma replica_well_named:
  assumes "i \<in> set (replicas_of role)"
  shows "well_named (lws_key svc role i) (replica_labels X svc role i)"
proof (cases "replica_lws X svc role i")
  case (Some l)
  with BuildLWS_meta(3,4) [OF Some [unfolded replica_lws_def]] assms show ?thesis
    by (auto simp: well_named_def replica_labels_def lws_key_def in_int32_range)
qed (simp add: well_named_def replica_labels_def)

lemma wanted_well_named:
  assumes "(k, ls) \<in> wanted X svc"
  shows "well_named k ls"
proof (cases "fst k = KindLWS")
  case True
  with assms obtain role i where "i \<in> set (replicas_of role)" "k = lws_key svc role i"
    "ls = replica_labels X svc role i" by (auto elim: wanted_lws)
  with replica_well_named show ?thesis by simp
qed (simp add: well_named_def)

lemma named_kept: "kept_by X svc named"
  by (rule kept_byI) (auto intro: named_put named_remove wanted_well_named simp: well_named_def isvc_key_def)

subsection \<open>Reachable states\<close>

text \<open>
  What others may do to one object: anything but put the labels of a service and of a role on a
  LeaderWorkerSet that did not have them.
\<close>

definition others_may :: "(key \<rightharpoonup> kobj) \<Rightarrow> key \<Rightarrow> kobj option \<Rightarrow> bool" where
  "others_may v k new \<longleftrightarrow>
     (case new of None \<Rightarrow> True
      | Some ob \<Rightarrow> kobj_key ob = k \<and>
          (fst k = KindLWS \<longrightarrow>
             kobj_labels ob LabelService = None \<or> kobj_labels ob LabelRoleName = None \<or>
             (\<exists>old. v k = Some old \<and> kobj_labels ob = kobj_labels old)))"

text \<open>
  A run reads the server itself, or a cache whose snapshots are reachable states, older or not.
\<close>

inductive reachable_fleet :: "externals \<Rightarrow> 's api \<Rightarrow> 's store_view \<Rightarrow> 's \<Rightarrow> bool"
  for X :: externals and A :: "'s api" and view :: "'s store_view" where
  start: "(\<And>k ob. view s k = Some ob \<Longrightarrow> fst k \<noteq> KindLWS) \<Longrightarrow> reachable_fleet X A view s"
| run: "reachable_fleet X A view s \<Longrightarrow> Reconcile X (faulty_api A) ns n (s, fs) = (r, (s', fs')) \<Longrightarrow>
    reachable_fleet X A view s'"
| cached_run: "reachable_fleet X A view s \<Longrightarrow> (\<And>j. reachable_fleet X A view (cs j)) \<Longrightarrow>
    Reconcile X (faulty_api (cached_api A cs)) ns n ((s, 0), fs) = (r, ((s', j'), fs')) \<Longrightarrow>
    reachable_fleet X A view s'"
| others: "reachable_fleet X A view s \<Longrightarrow> others_may (view s) k new \<Longrightarrow> view s' = (view s)(k := new) \<Longrightarrow>
    reachable_fleet X A view s'"

lemma named_others:
  assumes "named v" and "others_may v k new"
  shows "named (v(k := new))"
proof (cases new)
  case (Some ob)
  have "well_named k (kobj_labels ob)"
    using assms Some by (auto simp: others_may_def named_def well_named_def)
  with assms(1) Some show ?thesis by (simp add: named_put)
qed (simp add: assms(1) named_remove)

context cluster
begin

lemma Reconcile_named:
  assumes "Reconcile X (faulty_api A) ns n t = (r, t')" and "named (view (fst t))"
  shows "named (view (fst t'))"
  using assms(1) by (cases rule: Reconcile_cases) (use assms(2) kept_by_touches [OF named_kept] in auto)

lemma cached_named:
  assumes "named (view s)"
  shows "named (view (fst (fst (snd (Reconcile X (faulty_api (cached_api A cs)) ns n ((s, j), fs))))))"
proof -
  have puts: "puts_keep X svc named" for svc by (rule kept_by_puts [OF named_kept])
  have cleanup: "cleanup_keeps (faulty_api (cached_api A cs)) (\<lambda>t. view (fst (fst t))) svc named" for svc
    unfolding cleanup_keeps_def by (intro ballI allI impI cached_cleanup named_remove)
  have status: "status_keeps svc named" for svc
    by (auto simp: status_keeps_def isvc_key_def well_named_def intro: named_put)
  from writes.Reconcile_keeps [OF cached_writes [of cs], of ns n "((s, j), fs)" X named] puts cleanup status assms
  show ?thesis by simp
qed

theorem reachable_named:
  assumes "reachable_fleet X A view s"
  shows "named (view s)"
  using assms
proof (induction rule: reachable_fleet.induct)
  case (start s)
  then show ?case by (auto simp: named_def well_named_def)
next
  case (run s ns n fs r s' fs')
  with Reconcile_named [OF run.hyps(2)] show ?case by simp
next
  case (cached_run s cs ns n fs r s' j' fs')
  with cached_named [of s X cs ns n 0 fs] show ?case by simp
next
  case (others s k new s')
  from named_others [OF others.IH others.hyps(2)] others.hyps(3) show ?case by (simp only:)
qed

end

subsection \<open>Services that keep apart\<close>

definition apart :: "inference_service \<Rightarrow> inference_service \<Rightarrow> bool" where
  "apart a b \<longleftrightarrow> isvc_Namespace a \<noteq> isvc_Namespace b \<or>
     \<not> prefix (isvc_Name a @ ''-'') (isvc_Name b @ ''-'') \<and> \<not> prefix (isvc_Name b @ ''-'') (isvc_Name a @ ''-'')"

lemma apart_names: "apart a b \<Longrightarrow> isvc_Namespace a \<noteq> isvc_Namespace b \<or> isvc_Name a \<noteq> isvc_Name b"
  by (auto simp: apart_def)

lemma apart_isvc_key: "apart a b \<Longrightarrow> isvc_key a \<noteq> isvc_key b"
  by (auto simp: isvc_key_def dest: apart_names)

lemma apart_lws_keys:
  assumes "apart a b"
  shows "lws_key a role i \<noteq> lws_key b role' j"
proof
  assume eq: "lws_key a role i = lws_key b role' j"
  let ?n = "\<lambda>svc role i. isvc_Name svc @ ''-'' @ role_Name role @ ''-'' @ fmt_d (sint i)"
  from eq have n: "?n a role i = ?n b role' j" and ns: "isvc_Namespace a = isvc_Namespace b"
    by (simp_all add: lws_key_def GenerateLWSNameWithIndex_def)
  have "prefix (isvc_Name a @ ''-'') (?n a role i)" by (simp add: prefix_def)
  moreover have "prefix (isvc_Name b @ ''-'') (?n a role i)" unfolding n by (simp add: prefix_def)
  ultimately have "prefix (isvc_Name a @ ''-'') (isvc_Name b @ ''-'') \<or> prefix (isvc_Name b @ ''-'') (isvc_Name a @ ''-'')"
    by (rule prefix_same_cases)
  with assms ns show False by (auto simp: apart_def)
qed

lemma apart_router_keys: "apart a b \<Longrightarrow> set (router_keys a) \<inter> set (router_keys b) = {}"
  by (auto simp: router_keys_def account_key_def router_names dest: apart_names)

lemma apart_wanted:
  assumes "apart a b" and "(k, ls) \<in> wanted X a" and "(k, ls') \<in> wanted X b"
  shows False
  using assms(2)
proof (cases rule: wanted_cases)
  case group
  from assms(3) group(2) apart_names [OF assms(1)] show False
    by (cases rule: wanted_cases) (auto simp: lws_key_def router_keys_def account_key_def)
next
  case (replica role i)
  with assms(3) have "fst k = KindLWS" by (simp add: lws_key_def)
  with assms(3) obtain role' j where "k = lws_key b role' j" by (auto elim: wanted_lws)
  with replica(3) apart_lws_keys [OF assms(1)] show False by metis
next
  case (router role)
  from assms(3) show False
  proof (cases rule: wanted_cases)
    case (router role')
    with \<open>k \<in> set (router_keys a)\<close> apart_router_keys [OF assms(1)] show False by blast
  qed (use router(2) in \<open>auto simp: lws_key_def router_keys_def account_key_def\<close>)
qed

subsection \<open>What is converged stays converged\<close>

text \<open>
  A converged store, object by object: what is wanted is settled, and what carries the labels of a
  role is one of its replicas.
\<close>

lemma converged_iff:
  "converged X svc v \<longleftrightarrow>
     (\<forall>p \<in> wanted X svc. if fst p = account_key svc then v (fst p) \<noteq> None else settled (fst p) (snd p) v) \<and>
     (\<forall>role \<in> set (workers svc). \<forall>k. carries_role svc role k (v k) \<longrightarrow> k \<in> role_keys svc role)"
proof -
  let ?P = "\<lambda>p. if fst p = account_key svc then v (fst p) \<noteq> None else settled (fst p) (snd p) v"
  have "fst (want podgroup_ops (BuildPodGroup X svc)) \<noteq> account_key svc" by (simp add: podgroup_want account_key_def)
  then have "podgroup_ok X svc v \<longleftrightarrow>
      (\<forall>p \<in> (if NeedsGangScheduling svc then {want podgroup_ops (BuildPodGroup X svc)} else {}). ?P p)"
    by (simp add: podgroup_ok_def)
  moreover have "lws_key svc role i \<noteq> account_key svc" for role i by (simp add: account_key_def lws_key_def)
  then have "(\<forall>i \<in> set (replicas_of role). settled (lws_key svc role i) (replica_labels X svc role i) v) \<longleftrightarrow>
      (\<forall>p \<in> (\<lambda>i. (lws_key svc role i, replica_labels X svc role i)) ` set (replicas_of role). ?P p)" for role
    by simp
  moreover have "router_ok X svc role ws v \<longleftrightarrow>
      (\<forall>p \<in> insert (want serviceaccount_ops (BuildEPPServiceAccount svc)) (set (router_wants X svc role ws)). ?P p)"
    for role ws
  proof -
    have account: "fst (want serviceaccount_ops (BuildEPPServiceAccount svc)) = account_key svc"
      by (simp add: want_def account_key_def kind_keys)
    have "fst p \<noteq> account_key svc" if "p \<in> set (router_wants X svc role ws)" for p
      using distinct_router_keys [of svc] that unfolding router_wants_keys [of svc X role ws, symmetric] by force
    then have "(\<forall>p \<in> set (router_wants X svc role ws). ?P p) \<longleftrightarrow>
        (\<forall>p \<in> set (router_wants X svc role ws). settled (fst p) (snd p) v)"
      by (intro ball_cong refl) (simp only: if_False)
    then show ?thesis by (simp only: router_ok_def ball_simps(7) account case_prod_unfold simp_thms if_True)
  qed
  ultimately have "converged X svc v \<longleftrightarrow>
      (\<forall>p \<in> (if NeedsGangScheduling svc then {want podgroup_ops (BuildPodGroup X svc)} else {}). ?P p) \<and>
      (\<forall>role \<in> set (workers svc).
        (\<forall>p \<in> (\<lambda>i. (lws_key svc role i, replica_labels X svc role i)) ` set (replicas_of role). ?P p) \<and>
        (\<forall>k. carries_role svc role k (v k) \<longrightarrow> k \<in> role_keys svc role)) \<and>
      (\<forall>role \<in> set (routers svc). \<forall>p \<in> insert (want serviceaccount_ops (BuildEPPServiceAccount svc))
        (set (router_wants X svc role (workers svc))). ?P p)"
    unfolding converged_def role_ok_def by (simp only:)
  moreover have split: "(\<forall>p \<in> G \<union> (\<Union>r \<in> W. F r) \<union> (\<Union>r \<in> R. H r). Q p) \<longleftrightarrow>
      (\<forall>p \<in> G. Q p) \<and> (\<forall>r \<in> W. \<forall>p \<in> F r. Q p) \<and> (\<forall>r \<in> R. \<forall>p \<in> H r. Q p)"
    for G :: "(key \<times> label_map) set" and W R :: "role set" and F H Q by blast
  moreover have regroup: "a \<and> (\<forall>r \<in> W. f r \<and> g r) \<and> h \<longleftrightarrow> (a \<and> (\<forall>r \<in> W. f r) \<and> h) \<and> (\<forall>r \<in> W. g r)"
    for a h :: bool and W :: "role set" and f g by blast
  ultimately show ?thesis unfolding wanted_def split by (simp only: regroup)
qed

lemma workers_name_inj:
  "well_specified X svc \<Longrightarrow> r \<in> set (workers svc) \<Longrightarrow> r' \<in> set (workers svc) \<Longrightarrow> role_Name r = role_Name r' \<Longrightarrow> r = r'"
  by (auto simp: well_specified_def distinct_map inj_on_def)

lemma routers_same:
  assumes "well_specified X svc" and "r \<in> set (routers svc)" and "r' \<in> set (routers svc)"
  shows "r = r'"
proof -
  from assms(1) have "length (routers svc) \<le> 1" by (simp add: well_specified_def)
  with assms(2,3) show ?thesis by (cases "routers svc") auto
qed

lemma wanted_unique:
  assumes spec: "well_specified X svc" and k: "(k, ls) \<in> wanted X svc" "(k, ls') \<in> wanted X svc" "k \<noteq> account_key svc"
  shows "ls = ls'"
  using k(1)
proof (cases rule: wanted_cases)
  case group
  with k(2) show ?thesis
    by (cases rule: wanted_cases) (auto simp: lws_key_def router_keys_def account_key_def, metis snd_conv)
next
  case (replica r i)
  with k(2) have "fst k = KindLWS" by (simp add: lws_key_def)
  with k(2) obtain r' j where r': "r' \<in> set (workers svc)" "j \<in> set (replicas_of r')" "k = lws_key svc r' j"
    "ls' = replica_labels X svc r' j" by (auto elim: wanted_lws)
  with replica have "role_Name r = role_Name r' \<and> i = j" using lws_key_inject [of i j svc r r'] by (simp add: in_int32_range)
  with replica r' workers_name_inj [OF spec, of r r'] show ?thesis by auto
next
  case (router r)
  note r = this
  from k(2) show ?thesis
  proof (cases rule: wanted_cases)
    case (router r')
    with r k(3) routers_same [OF spec, of r r']
    have "(k, ls) \<in> set (router_wants X svc r (workers svc))" "(k, ls') \<in> set (router_wants X svc r (workers svc))" by auto
    moreover have "distinct (map fst (router_wants X svc r (workers svc)))"
      using distinct_router_keys [of svc] unfolding router_wants_keys [of svc X r "workers svc", symmetric] by simp
    ultimately show ?thesis by (rule eq_key_imp_eq_value [rotated])
  qed (use r(2) in \<open>auto simp: lws_key_def router_keys_def account_key_def\<close>)
qed

lemma wanted_replica:
  assumes spec: "well_specified X svc" and role: "role \<in> set (workers svc)" and w: "(lws_key svc role i, ls) \<in> wanted X svc"
    and i: "0 \<le> sint i"
  shows "lws_key svc role i \<in> role_keys svc role"
proof -
  have "fst (lws_key svc role i) = KindLWS" by (simp add: lws_key_def)
  with w obtain r j where r: "r \<in> set (workers svc)" "j \<in> set (replicas_of r)" "lws_key svc role i = lws_key svc r j"
    by (auto elim: wanted_lws)
  with i have "role_Name role = role_Name r \<and> i = j" by (simp add: lws_key_inject in_int32_range)
  with r role workers_name_inj [OF spec, of role r] show ?thesis by (auto simp: role_keys_def)
qed

lemma converged_put:
  assumes conv: "converged X a v"
    and w: "\<And>ls. (k, ls) \<in> wanted X a \<Longrightarrow> k \<noteq> account_key a \<Longrightarrow> ls = kobj_labels ob"
    and c: "\<And>role. role \<in> set (workers a) \<Longrightarrow> carries_role a role k (Some ob) \<Longrightarrow> k \<in> role_keys a role"
  shows "converged X a (v(k \<mapsto> ob))"
  unfolding converged_iff
proof (intro conjI ballI allI impI, goal_cases)
  case (1 p)
  with conv have "if fst p = account_key a then v (fst p) \<noteq> None else settled (fst p) (snd p) v"
    unfolding converged_iff by blast
  with 1 w [of "snd p"] show ?case by (cases "fst p = k") (auto simp: settled_def)
next
  case (2 role k')
  with conv c show ?case by (cases "k' = k") (auto simp: converged_iff)
qed

lemma converged_remove:
  assumes conv: "converged X a v" and w: "\<And>ls. (k, ls) \<notin> wanted X a"
  shows "converged X a (v(k := None))"
  unfolding converged_iff
proof (intro conjI ballI allI impI, goal_cases)
  case (1 p)
  with conv have "if fst p = account_key a then v (fst p) \<noteq> None else settled (fst p) (snd p) v"
    unfolding converged_iff by blast
  with 1 w [of "snd p"] show ?case by (cases "fst p = k") (auto simp: settled_def)
next
  case (2 role k')
  with conv show ?case by (cases "k' = k") (auto simp: converged_iff carries_role_def)
qed

theorem converged_kept:
  assumes spec: "well_specified X svc"
  shows "kept_by X svc (\<lambda>v. converged X svc v \<and> named v)"
proof -
  have "converged X svc (v(k \<mapsto> ob))" if "converged X svc v" and w: "(k, kobj_labels ob) \<in> wanted X svc" for v k ob
  proof (rule converged_put [OF that(1)])
    fix role assume role: "role \<in> set (workers svc)" "carries_role svc role k (Some ob)"
    then have "fst k = KindLWS" by (auto simp: carries_role_def)
    with w obtain r i where r: "r \<in> set (workers svc)" "i \<in> set (replicas_of r)" "k = lws_key svc r i"
      "kobj_labels ob = replica_labels X svc r i" by (auto elim: wanted_lws)
    with role(2) have "role_Name r = role_Name role"
      using replica_labels_role [of svc role X r i] by (auto simp: carries_role_def)
    with r role(1) workers_name_inj [OF spec, of r role] show "k \<in> role_keys svc role" by (auto simp: role_keys_def)
  qed (use wanted_unique [OF spec _ w] in blast)
  moreover have "converged X svc (v(k := None))" if "converged X svc v" "named v" and role: "role \<in> set (workers svc)"
      "carries_role svc role k (v k)" "k \<notin> role_keys svc role" for v k role
  proof (rule converged_remove [OF that(1)])
    from named_carries [OF that(2) role(2)] obtain i where "0 \<le> sint i" "k = lws_key svc role i" by blast
    with wanted_replica [OF spec role(1)] role(3) show "(k, ls) \<notin> wanted X svc" for ls by metis
  qed
  moreover have "converged X svc (v(isvc_key svc \<mapsto> ObjInferSvc w))" if "converged X svc v" for v w
    by (rule converged_cong [OF _ that]) simp
  ultimately show ?thesis by (intro kept_by_withI [OF named_kept]) blast+
qed

theorem converged_kept_apart:
  assumes ab: "apart a b"
  shows "kept_by X b (\<lambda>v. converged X a v \<and> named v)"
proof -
  have "converged X a (v(k \<mapsto> ob))" if "converged X a v" and w: "(k, kobj_labels ob) \<in> wanted X b" for v k ob
  proof (rule converged_put [OF that(1)])
    fix role assume role: "carries_role a role k (Some ob)"
    then have "fst k = KindLWS" by (auto simp: carries_role_def)
    with w obtain r i where r: "k = lws_key b r i" "kobj_labels ob = replica_labels X b r i" by (auto elim: wanted_lws)
    with role have "isvc_Namespace a = isvc_Namespace b" "replica_labels X b r i LabelService = Some (isvc_Name a)"
      by (auto simp: carries_role_def role_selector_def lws_key_def)
    moreover from this(2) have "isvc_Name a = isvc_Name b"
      using BuildLWS_meta(3) [of X b r] by (fastforce simp: replica_labels_def replica_lws_def split: option.splits)
    ultimately show "k \<in> role_keys a role" using apart_names [OF ab] by simp
  qed (use apart_wanted [OF ab _ w] in blast)
  moreover have "converged X a (v(k := None))" if "converged X a v" "named v" "carries_role b role k (v k)" for v k role
  proof (rule converged_remove [OF that(1)])
    from named_carries [OF that(2,3)] obtain i where k: "k = lws_key b role i" by blast
    show "(k, ls) \<notin> wanted X a" for ls
    proof
      assume "(k, ls) \<in> wanted X a"
      with k obtain r j where "k = lws_key a r j" by (auto elim!: wanted_lws simp: lws_key_def)
      with k apart_lws_keys [OF ab] show False by metis
    qed
  qed
  moreover have "converged X a (v(isvc_key b \<mapsto> ObjInferSvc w))" if "converged X a v" for v w
    by (rule converged_put [OF that]) (auto simp: carries_role_def dest: wanted_kind)
  ultimately show ?thesis by (intro kept_by_withI [OF named_kept]) blast+
qed

subsection \<open>Stale reads\<close>

text \<open>The keys a service may write to by its name alone, whatever its specification was or will be.\<close>

definition own_key :: "inference_service \<Rightarrow> key \<Rightarrow> bool" where
  "own_key svc k \<longleftrightarrow> k = isvc_key svc \<or> k = (KindPodGroup, isvc_Namespace svc, isvc_Name svc) \<or>
     k \<in> set (router_keys svc) \<or> (\<exists>role i. 0 \<le> sint i \<and> k = lws_key svc role i)"

lemma own_key_cong:
  assumes "isvc_Namespace a = isvc_Namespace b" and "isvc_Name a = isvc_Name b"
  shows "own_key a k = own_key b k" and "lws_key a = lws_key b"
  using assms by (auto simp: own_key_def isvc_key_def router_keys_def account_key_def lws_key_def fun_eq_iff)

lemma wanted_own: "(k, ls) \<in> wanted X svc \<Longrightarrow> own_key svc k"
  by (erule wanted_cases) (auto simp: own_key_def in_int32_range)

lemma apart_own_key:
  assumes ab: "apart a b" and "own_key a k"
  shows "\<not> own_key b k"
proof
  assume b: "own_key b k"
  note kinds = own_key_def isvc_key_def lws_key_def router_keys_def account_key_def
  from assms(2) consider "k = isvc_key a" | "k = (KindPodGroup, isvc_Namespace a, isvc_Name a)"
    | "k \<in> set (router_keys a)" | role i where "k = lws_key a role i" by (auto simp: own_key_def)
  then show False
  proof cases
    case 3
    then have "k \<notin> set (router_keys b)" using apart_router_keys [OF ab] by blast
    with b 3 show False by (auto simp: kinds)
  next
    case (4 role i)
    with b obtain role' j where "k = lws_key b role' j" by (auto simp: kinds)
    with 4 apart_lws_keys [OF ab] show False by metis
  qed (use b apart_names [OF ab] in \<open>auto simp: kinds\<close>)
qed

context cluster
begin

text \<open>A clean-up that reads a stale list deletes LeaderWorkerSets under the service's own names only.\<close>

lemma cached_delete_own:
  assumes "named (view c)" and "view c (KindLWS, isvc_Namespace svc, n) = Some (ObjLWS l)"
    and "labels_match (role_selector svc role) (meta_Labels (lws_Meta l))"
  shows "\<exists>i. 0 \<le> sint i \<and> (KindLWS, isvc_Namespace svc, n) = lws_key svc role i"
  by (rule named_carries [OF assms(1)]) (use assms(2,3) in \<open>auto simp: carries_role_def\<close>)

lemma cached_run_keeps:
  assumes named: "\<And>j. named (view (cs j))"
    and puts: "\<And>svc'. isvc_Namespace svc' = isvc_Namespace svc \<Longrightarrow> isvc_Name svc' = isvc_Name svc \<Longrightarrow> puts_keep X svc' P"
    and remove: "\<And>v role i. P v \<Longrightarrow> 0 \<le> sint i \<Longrightarrow> P (v(lws_key svc role i := None))"
    and status: "status_keeps svc P" and P: "P (view s)"
  shows "P (view (fst (fst (snd (Reconcile X (faulty_api (cached_api A cs)) (isvc_Namespace svc) (isvc_Name svc) ((s, j), fs))))))"
proof (rule writes.Reconcile_keeps [OF cached_writes [of cs], of "isvc_Namespace svc" "isvc_Name svc" "((s, j), fs)" X P])
  fix svc' assume svc': "isvc_Namespace svc' = isvc_Namespace svc" "isvc_Name svc' = isvc_Name svc"
  have "cleanup_keeps (faulty_api (cached_api A cs)) (\<lambda>t. view (fst (fst t))) svc' P"
    unfolding cleanup_keeps_def
  proof (intro ballI allI impI cached_cleanup)
    fix role v l j n assume "P v" and l: "view (cs j) (KindLWS, isvc_Namespace svc', n) = Some (ObjLWS l)"
      "labels_match (role_selector svc' role) (meta_Labels (lws_Meta l))"
    with cached_delete_own [OF named l] remove own_key_cong(2) [OF svc']
    show "P (v((KindLWS, isvc_Namespace svc', n) := None))" by metis
  qed
  moreover have "status_keeps svc' P" using status svc' by (simp add: status_keeps_def isvc_key_def)
  ultimately show "puts_keep X svc' P \<and> cleanup_keeps (faulty_api (cached_api A cs)) (\<lambda>t. view (fst (fst t))) svc' P \<and>
      status_keeps svc' P" using puts [OF svc'] by blast
qed (simp add: P)

theorem cached_run_frame:
  assumes named: "\<And>j. named (view (cs j))" and k: "\<not> own_key svc k"
    and run: "Reconcile X (faulty_api (cached_api A cs)) (isvc_Namespace svc) (isvc_Name svc) ((s, j), fs) = (r, ((s', j'), fs'))"
  shows "view s' k = view s k"
proof -
  have "(\<lambda>v. v k = view s k) (view (fst (fst (snd (Reconcile X (faulty_api (cached_api A cs))
      (isvc_Namespace svc) (isvc_Name svc) ((s, j), fs))))))"
  proof (rule cached_run_keeps [OF named])
    fix svc' assume "isvc_Namespace svc' = isvc_Namespace svc" "isvc_Name svc' = isvc_Name svc"
    with k wanted_own own_key_cong(1) [of svc' svc] have "(k, ls) \<notin> wanted X svc'" for ls by blast
    then show "puts_keep X svc' (\<lambda>v. v k = view s k)" by (auto simp: puts_keep_def)
  next
    fix v role and i :: int32 assume "v k = view s k" and "0 \<le> sint i"
    with k show "(v(lws_key svc role i := None)) k = view s k" by (auto simp: own_key_def)
  next
    from k show "status_keeps svc (\<lambda>v. v k = view s k)" by (auto simp: status_keeps_def own_key_def)
  qed simp
  with run show ?thesis by simp
qed

theorem cached_run_apart:
  assumes named: "\<And>j. named (view (cs j))" and ab: "apart a b" and conv: "converged X a (view s)"
    and run: "Reconcile X (faulty_api (cached_api A cs)) (isvc_Namespace b) (isvc_Name b) ((s, j), fs) = (r, ((s', j'), fs'))"
    and s: "named (view s)"
  shows "converged X a (view s')"
proof -
  let ?P = "\<lambda>v. converged X a v \<and> named v"
  have "?P (view (fst (fst (snd (Reconcile X (faulty_api (cached_api A cs)) (isvc_Namespace b) (isvc_Name b) ((s, j), fs))))))"
  proof (rule cached_run_keeps [OF named])
    fix svc' assume "isvc_Namespace svc' = isvc_Namespace b" "isvc_Name svc' = isvc_Name b"
    with ab have "apart a svc'" by (simp add: apart_def)
    then show "puts_keep X svc' ?P" by (intro kept_by_puts converged_kept_apart)
  next
    fix v role and i :: int32 assume v: "?P v" and "0 \<le> sint i"
    then have "own_key b (lws_key b role i)" by (auto simp: own_key_def)
    with apart_own_key [OF ab] wanted_own have "(lws_key b role i, ls) \<notin> wanted X a" for ls by blast
    with v show "?P (v(lws_key b role i := None))" by (simp add: converged_remove named_remove)
  next
    show "status_keeps b ?P"
      unfolding status_keeps_def
    proof (intro allI impI conjI)
      fix v old st assume v: "?P v"
      then show "converged X a (v(isvc_key b \<mapsto> ObjInferSvc (with_status old st)))"
        by (intro converged_put) (auto simp: carries_role_def dest: wanted_kind)
      from v show "named (v(isvc_key b \<mapsto> ObjInferSvc (with_status old st)))"
        by (intro named_put) (simp_all add: well_named_def isvc_key_def)
    qed
  qed (simp add: conv s)
  with run show ?thesis by simp
qed

end

subsection \<open>Sequences of runs\<close>

text \<open>The runs of the work queue, each with its own faults, and what each of them returned.\<close>

fun fleet_runs ::
  "externals \<Rightarrow> 's api \<Rightarrow> (string \<times> string \<times> fault list) list \<Rightarrow> 's \<Rightarrow> (string \<times> string \<times> unit outcome) list \<times> 's" where
  "fleet_runs X A [] s = ([], s)"
| "fleet_runs X A ((ns, n, fs) # rest) s =
     (case Reconcile X (faulty_api A) ns n (s, fs) of (r, (s', _)) \<Rightarrow>
        case fleet_runs X A rest s' of (log, s'') \<Rightarrow> ((ns, n, r) # log, s''))"

text \<open>One pass over a list of services; the runs share one schedule of faults.\<close>

definition pass :: "externals \<Rightarrow> 's api \<Rightarrow> inference_service list \<Rightarrow> 's \<times> fault list \<Rightarrow> 's \<times> fault list" where
  "pass X A = fold (\<lambda>svc t. snd (Reconcile X (faulty_api A) (isvc_Namespace svc) (isvc_Name svc) t))"

definition rounds :: "externals \<Rightarrow> 's api \<Rightarrow> inference_service list \<Rightarrow> nat \<Rightarrow> 's \<times> fault list \<Rightarrow> 's \<times> fault list" where
  "rounds X A svcs n = (pass X A svcs ^^ n)"

definition fleet :: "externals \<Rightarrow> inference_service set \<Rightarrow> bool" where
  "fleet X S \<longleftrightarrow> (\<forall>a \<in> S. well_specified X a \<and> distinct (map role_Name (served_roles a))) \<and>
     (\<forall>a \<in> S. \<forall>b \<in> S. a \<noteq> b \<longrightarrow> apart a b)"

definition fleet_stored :: "inference_service set \<Rightarrow> (key \<rightharpoonup> kobj) \<Rightarrow> bool" where
  "fleet_stored S v \<longleftrightarrow> named v \<and> (\<forall>a \<in> S. stored a v)"

lemma stored_kept_apart: "apart a b \<Longrightarrow> kept_by X b (stored a)"
  by (rule kept_byI)
    (auto simp: stored_def carries_role_def isvc_key_def dest!: wanted_kind dest: apart_names)

lemma fleet_stored_kept:
  assumes "fleet X S" and "b \<in> S"
  shows "kept_by X b (fleet_stored S)"
proof -
  have "kept_by X b (stored a)" if "a \<in> S" for a
    using assms that stored_kept stored_kept_apart by (cases "a = b") (auto simp: fleet_def)
  then show ?thesis
    using named_kept [of X b] unfolding kept_by_def fleet_stored_def by blast
qed

lemma fleet_converged_kept:
  assumes "fleet X S" and "a \<in> S" and "b \<in> S"
  shows "kept_by X b (\<lambda>v. converged X a v \<and> named v)"
  using assms converged_kept [of X a] converged_kept_apart [of a b X] by (cases "a = b") (auto simp: fleet_def)

context cluster
begin

text \<open>One run for a service of the fleet.\<close>

lemma fleet_run:
  assumes fleet: "fleet X S" and b: "b \<in> S" and s: "fleet_stored S (view (fst t))"
    and run: "Reconcile X (faulty_api A) (isvc_Namespace b) (isvc_Name b) t = (r, t')"
  shows "fleet_stored S (view (fst t'))"
    and "a \<in> S \<Longrightarrow> converged X a (view (fst t)) \<Longrightarrow> converged X a (view (fst t'))"
    and "r = Ok () \<Longrightarrow> converged X b (view (fst t'))"
proof -
  from s b obtain st where at: "view (fst t) (isvc_key b) = Some (ObjInferSvc (with_status b st))"
    by (auto simp: fleet_stored_def stored_def)
  from at have touches: "touches X b (view (fst t)) (view (fst t'))"
    using Reconcile_touches [of X "with_status b st" t r t'] run by simp
  from kept_by_touches [OF fleet_stored_kept [OF fleet b] touches s] show "fleet_stored S (view (fst t'))" .
  show "a \<in> S \<Longrightarrow> converged X a (view (fst t)) \<Longrightarrow> converged X a (view (fst t'))"
    using kept_by_touches [OF fleet_converged_kept [OF fleet _ b] touches] s by (auto simp: fleet_stored_def)
  show "converged X b (view (fst t'))" if "r = Ok ()"
  proof -
    have "labels_sound (with_status b st) (view (fst t))" using s named_sound by (simp add: fleet_stored_def)
    moreover have "well_specified X (with_status b st)" using fleet b by (simp add: fleet_def)
    ultimately show ?thesis
      using success_converges [of X "with_status b st" "fst t" "snd t" t'] at run that by simp
  qed
qed

text \<open>A service that has converged, or has had one successful run, is converged at the end.\<close>

theorem fleet_runs_converge:
  assumes fleet: "fleet X S" and "fleet_stored S (view s)"
    and "\<forall>(ns, n, fs) \<in> set sched. \<exists>b \<in> S. ns = isvc_Namespace b \<and> n = isvc_Name b"
    and "fleet_runs X A sched s = (log, s')" and a: "a \<in> S"
    and "converged X a (view s) \<or> (isvc_Namespace a, isvc_Name a, Ok ()) \<in> set log"
  shows "converged X a (view s')"
  using assms(2-4,6)
proof (induction sched arbitrary: s log)
  case (Cons p sched)
  from Cons.prems(2) obtain b fs where b: "b \<in> S" "p = (isvc_Namespace b, isvc_Name b, fs)"
    by (cases p) auto
  obtain r s1 fs1 where run: "Reconcile X (faulty_api A) (isvc_Namespace b) (isvc_Name b) (s, fs) = (r, (s1, fs1))"
    by (metis prod.exhaust)
  obtain log1 s2 where rest: "fleet_runs X A sched s1 = (log1, s2)" by fastforce
  from Cons.prems(3) run rest b(2) have log: "log = (isvc_Namespace b, isvc_Name b, r) # log1" "s' = s2" by auto
  from fleet_run [OF fleet b(1) _ run] Cons.prems(1) have step: "fleet_stored S (view s1)"
    "converged X a (view s) \<Longrightarrow> converged X a (view s1)" "r = Ok () \<Longrightarrow> converged X b (view s1)"
    using a by auto
  have "a = b" if "isvc_Namespace a = isvc_Namespace b" "isvc_Name a = isvc_Name b"
    using that fleet a b(1) apart_names [of a b] by (auto simp: fleet_def)
  with Cons.prems(4) step log have "converged X a (view s1) \<or> (isvc_Namespace a, isvc_Name a, Ok ()) \<in> set log1"
    by auto
  with Cons.IH [OF step(1) _ _ this] Cons.prems(2) rest log show ?case by auto
qed simp

lemma pass_rest:
  "length (snd (pass X A svcs t)) \<le> length (snd t)"
  "svcs \<noteq> [] \<Longrightarrow> length (snd (pass X A svcs t)) \<le> length (snd t) - 1"
proof -
  show le: "length (snd (pass X A svcs t)) \<le> length (snd t)" for svcs t
  proof (induction svcs arbitrary: t)
    case (Cons b svcs)
    let ?t = "snd (Reconcile X (faulty_api A) (isvc_Namespace b) (isvc_Name b) t)"
    from Cons [of ?t] Reconcile_rest [of X A "isvc_Namespace b" "isvc_Name b" t] show ?case
      by (simp add: pass_def)
  qed (simp add: pass_def)
  show "svcs \<noteq> [] \<Longrightarrow> length (snd (pass X A svcs t)) \<le> length (snd t) - 1"
  proof (cases svcs)
    case (Cons b rest)
    let ?t = "snd (Reconcile X (faulty_api A) (isvc_Namespace b) (isvc_Name b) t)"
    from Cons le [of rest ?t] Reconcile_rest [of X A "isvc_Namespace b" "isvc_Name b" t] show ?thesis
      by (simp add: pass_def)
  qed simp
qed

lemma rounds_rest: "svcs \<noteq> [] \<Longrightarrow> length (snd (rounds X A svcs n t)) \<le> length (snd t) - n"
proof (induction n)
  case (Suc n)
  with pass_rest(2) [of svcs X "rounds X A svcs n t"] show ?case by (simp add: rounds_def)
qed (simp add: rounds_def)

lemma pass_stored:
  assumes fleet: "fleet X S"
  shows "set svcs \<subseteq> S \<Longrightarrow> fleet_stored S (view (fst t)) \<Longrightarrow> fleet_stored S (view (fst (pass X A svcs t)))"
proof (induction svcs arbitrary: t)
  case (Cons b svcs)
  obtain r t1 where run: "Reconcile X (faulty_api A) (isvc_Namespace b) (isvc_Name b) t = (r, t1)" by fastforce
  from fleet_run(1) [OF fleet _ Cons.prems(2) run] Cons.prems(1) Cons.IH [of t1] run show ?case
    by (simp add: pass_def)
qed (simp add: pass_def)

lemma rounds_stored:
  assumes "fleet X (set svcs)" and "fleet_stored (set svcs) (view (fst t))"
  shows "fleet_stored (set svcs) (view (fst (rounds X A svcs n t)))"
proof (induction n)
  case (Suc n)
  with pass_stored [OF assms(1) subset_refl, of "rounds X A svcs n t"] show ?case by (simp add: rounds_def)
qed (simp add: rounds_def assms(2))

lemma healthy_pass:
  assumes laws: "condition_laws X" and fleet: "fleet X S"
  shows "set svcs \<subseteq> S \<Longrightarrow> fleet_stored S (view s) \<Longrightarrow>
    (\<forall>a \<in> S. converged X a (view s) \<or> a \<in> set svcs \<longrightarrow> converged X a (view (fst (pass X A svcs (s, [])))))"
proof (induction svcs arbitrary: s)
  case (Cons b svcs)
  then have b: "b \<in> S" by simp
  with Cons.prems(2) obtain st where at: "view s (isvc_key b) = Some (ObjInferSvc (with_status b st))"
    by (auto simp: fleet_stored_def stored_def)
  from fleet b Cons.prems(2) have "well_specified X b" "distinct (map role_Name (served_roles b))" "labels_sound b (view s)"
    by (auto simp: fleet_def fleet_stored_def named_sound)
  with reconcile_achieves [OF laws, of "with_status b st" s] at obtain s1 where
    "Reconcile X A (isvc_Namespace b) (isvc_Name b) s = (Ok (), s1)" by auto
  then have run: "Reconcile X (faulty_api A) (isvc_Namespace b) (isvc_Name b) (s, []) = (Ok (), (s1, []))"
    by (simp add: Reconcile_healthy)
  from fleet_run [OF fleet b _ run] Cons.prems(2) have step: "fleet_stored S (view s1)"
    "a \<in> S \<Longrightarrow> converged X a (view s) \<Longrightarrow> converged X a (view s1)" "converged X b (view s1)" for a
    by auto
  with Cons.IH [of s1] Cons.prems(1) run show ?case by (auto simp: pass_def)
qed (simp add: pass_def)

theorem rounds_converge:
  assumes laws: "condition_laws X" and fleet: "fleet X (set svcs)" and s: "fleet_stored (set svcs) (view s)"
    and a: "a \<in> set svcs"
  shows "converged X a (view (fst (rounds X A svcs (Suc (length fs)) (s, fs))))"
proof -
  from a have "svcs \<noteq> []" by auto
  with rounds_rest [of svcs X "length fs" "(s, fs)"] obtain s1 where s1: "rounds X A svcs (length fs) (s, fs) = (s1, [])"
    by (cases "rounds X A svcs (length fs) (s, fs)") auto
  with rounds_stored [OF fleet, of "(s, fs)" "length fs"] s have "fleet_stored (set svcs) (view s1)" by simp
  from healthy_pass [OF laws fleet subset_refl this] a s1 show ?thesis by (simp add: rounds_def)
qed

end

end
