(* ===== verification/Setup.thy ===== *)
theory Setup
  imports Trace
begin

section \<open>What the controller watches and what it may do\<close>

text \<open>
  \<open>SetupWithManager\<close> of \<open>inferenceservice_controller.go\<close> lists the kinds whose objects trigger a
  reconciliation of their owner; the \<open>kubebuilder:rbac\<close> markers above \<open>Reconcile\<close> list rights of the
  controller's account (\<open>Privileges\<close> adds those that other roles of \<open>config/rbac\<close> give it). \<open>kind_resource\<close> gives the API group and resource of each kind; the group of the
  InferencePool is the constant \<open>InferencePoolGroup\<close> of \<open>httproute.go\<close>, which the backend references of
  the built routes carry as well.
  The lemmas compare both lists with the kinds the controller writes.
\<close>

definition SetupWithManager_For :: kind where
  "SetupWithManager_For = KindInferenceService"

definition SetupWithManager_Owns :: "kind list" where
  "SetupWithManager_Owns =
     [KindLWS, KindPodGroup, KindConfigMap, KindService, KindServiceAccount, KindDeployment, KindRole,
      KindRoleBinding, KindInferencePool, KindHTTPRoute]"

fun kind_resource :: "kind \<Rightarrow> string \<times> string" where
  "kind_resource KindLWS = (''leaderworkerset.x-k8s.io'', ''leaderworkersets'')"
| "kind_resource KindPodGroup = (''scheduling.volcano.sh'', ''podgroups'')"
| "kind_resource KindConfigMap = ('''', ''configmaps'')"
| "kind_resource KindDeployment = (''apps'', ''deployments'')"
| "kind_resource KindService = ('''', ''services'')"
| "kind_resource KindServiceAccount = ('''', ''serviceaccounts'')"
| "kind_resource KindRole = (''rbac.authorization.k8s.io'', ''roles'')"
| "kind_resource KindRoleBinding = (''rbac.authorization.k8s.io'', ''rolebindings'')"
| "kind_resource KindInferencePool = (InferencePoolGroup, ''inferencepools'')"
| "kind_resource KindHTTPRoute = (''gateway.networking.k8s.io'', ''httproutes'')"
| "kind_resource KindInferenceService = (''fusioninfer.io'', ''inferenceservices'')"

definition all_verbs :: "string list" where
  "all_verbs = [''get'', ''list'', ''watch'', ''create'', ''update'', ''patch'', ''delete'']"

definition rbac_marker :: "string \<Rightarrow> string list \<Rightarrow> string list \<Rightarrow> policy_rule" where
  "rbac_marker grp resources verbs =
     \<lparr>rule_APIGroups = [grp], rule_Resources = resources, rule_Verbs = verbs\<rparr>"

definition manager_rules :: "policy_rule list" where
  "manager_rules =
     [rbac_marker ''fusioninfer.io'' [''inferenceservices''] all_verbs,
      rbac_marker ''fusioninfer.io'' [''inferenceservices/status''] [''get'', ''update'', ''patch''],
      rbac_marker ''fusioninfer.io'' [''inferenceservices/finalizers''] [''update''],
      rbac_marker ''leaderworkerset.x-k8s.io'' [''leaderworkersets''] all_verbs,
      rbac_marker ''scheduling.volcano.sh'' [''podgroups''] all_verbs,
      rbac_marker '''' [''configmaps'', ''services'', ''serviceaccounts''] all_verbs,
      rbac_marker ''apps'' [''deployments''] all_verbs,
      rbac_marker ''inference.networking.x-k8s.io'' [''inferencepools''] all_verbs,
      rbac_marker ''gateway.networking.k8s.io'' [''httproutes''] all_verbs,
      rbac_marker ''rbac.authorization.k8s.io'' [''roles'', ''rolebindings''] all_verbs]"

text \<open>The markers of \<open>modelloader_controller.go\<close>, which go into the same ClusterRole.\<close>

definition modelloader_rules :: "policy_rule list" where
  "modelloader_rules =
     [rbac_marker ''fusioninfer.io'' [''modelloaders''] all_verbs,
      rbac_marker ''fusioninfer.io'' [''modelloaders/status''] [''get'', ''update'', ''patch''],
      rbac_marker ''fusioninfer.io'' [''modelloaders/finalizers''] [''update'']]"

definition manager_role :: "policy_rule list" where
  "manager_role = manager_rules @ modelloader_rules"

text \<open>Role-based access control: some rule lists the group, the resource and the verb.\<close>

definition permits :: "policy_rule list \<Rightarrow> string \<times> string \<Rightarrow> string \<Rightarrow> bool" where
  "permits rules gr verb =
     list_ex (\<lambda>r. fst gr \<in> set (rule_APIGroups r) \<and> snd gr \<in> set (rule_Resources r) \<and>
       verb \<in> set (rule_Verbs r)) rules"

lemma permits_simps [simp]:
  "\<not> permits [] gr verb"
  "permits (rbac_marker g rs vs # rules) gr verb \<longleftrightarrow>
     (fst gr = g \<and> snd gr \<in> set rs \<and> verb \<in> set vs) \<or> permits rules gr verb"
  by (auto simp: permits_def rbac_marker_def)

subsection \<open>Properties\<close>

text \<open>
  The controller is told about changes of exactly the kinds of objects it creates, so an object that
  is changed or deleted by hand is put back.
\<close>

theorem owns_what_it_writes:
  "List.member SetupWithManager_Owns k \<longleftrightarrow> k \<noteq> SetupWithManager_For"
  by (cases k) (simp_all add: SetupWithManager_Owns_def SetupWithManager_For_def List.member_iff)

text \<open>
  The rights of the controller cover every verb on every kind it manages, except InferencePools, on
  which it has no right at all.
\<close>

theorem rights_cover_all_but_pools:
  assumes "verb \<in> set all_verbs"
  shows "permits manager_role (kind_resource k) verb \<longleftrightarrow> k \<noteq> KindInferencePool"
  using assms
  by (cases k) (simp_all add: manager_role_def manager_rules_def modelloader_rules_def InferencePoolGroup_def)

theorem rights_cover_all_but_pools_witness:
  "permits manager_role (kind_resource KindHTTPRoute) ''create'' \<and>
   \<not> permits manager_role (kind_resource KindInferencePool) ''create''"
  by (subst (1 2) rights_cover_all_but_pools) (simp_all add: all_verbs_def)

text \<open>
  C27: If the API refuses to let the controller read InferencePools, no service with a router is ever
  reconciled: \<open>reconcileRouter\<close> does not succeed, however often it is tried.
\<close>

theorem forbidden_pools_block_router:
  assumes "\<And>ns n s. \<exists>e s'. api_Get A KindInferencePool ns n s = (Inl e, s') \<and> \<not> IsNotFound e"
  shows "fst (reconcileRouter X A svc role ws s) \<noteq> Ok ()"
proof -
  have pool: "fst (reconcileInferencePool X A svc ws t) \<noteq> Ok ()" for t
  proof -
    have "fst (createOrUpdate A pool_ops pool t) \<noteq> Ok ()" for pool t
    proof -
      from assms obtain e t' where
        "api_Get A KindInferencePool (meta_Namespace (pool_Meta pool)) (meta_Name (pool_Meta pool)) t = (Inl e, t')"
        "\<not> IsNotFound e" by blast
      then show ?thesis by (simp add: createOrUpdate_def typed_get_def)
    qed
    then show ?thesis
      by (auto simp: reconcileInferencePool_def ensure_def bind_op_def split: prod.split outcome.split)
  qed
  have bind: "(\<And>x t. fst (f x t) \<noteq> Ok ()) \<Longrightarrow> fst (bind_op m f t) \<noteq> Ok ()"
    for m :: "('a, unit) op" and f :: "unit \<Rightarrow> ('a, unit) op" and t
    by (auto simp: bind_op_def split: prod.split outcome.split)
  have first: "(\<And>t. fst (m t) \<noteq> Ok ()) \<Longrightarrow> fst (bind_op (wrap_op p m) f t) \<noteq> Ok ()"
    for m :: "('a, unit) op" and f :: "unit \<Rightarrow> ('a, unit) op" and p t
  proof -
    assume m: "\<And>t. fst (m t) \<noteq> Ok ()"
    show ?thesis
      using m [of t] by (cases "m t", cases "fst (m t)") (simp_all add: bind_op_def wrap_op_def)
  qed
  show ?thesis
    unfolding reconcileRouter_def
    by (rule bind, rule bind, rule bind, rule bind, rule bind, rule bind, rule first, rule pool)
qed

theorem forbidden_pools_block_router_witness:
  "fst (reconcileRouter sample_externals
     (list_api\<lparr>api_Get := (\<lambda>k ns n s. if k = KindInferencePool then (Inl (OtherError ''forbidden''), s)
        else api_Get list_api k ns n s)\<rparr>)
     (sample_service ''a'' []) (sample_role ''r'' ComponentTypeRouter 1 1) []
     \<lparr>srv_Objects = [], srv_Clock = 0\<rparr>) \<noteq> Ok ()"
  by (rule forbidden_pools_block_router) simp

end
