(* ===== verification/Quiet.thy ===== *)
theory Quiet
  imports Trace Faults
begin

section \<open>When a reconciliation writes nothing\<close>

text \<open>
  The controller is told about every change of the objects it owns, so a reconciliation that writes one of
  them starts the next one. This theory shows when that ends. \<open>audited w P R m\<close> says of an operation on the
  logging server that whenever it succeeds, it has logged a write if and only if \<open>P\<close> does not hold of the
  store it started from, that it leaves the store alone if \<open>P\<close> does, and that its result satisfies \<open>R\<close>. It is
  proved for the operations of the controller one after the other, and ends in \<open>Reconcile_quiet\<close>: a run
  that succeeds writes nothing but the status exactly if the store had converged. Nothing is assumed of the
  specification of the service, so this also tells which services never come to rest.
\<close>

definition audited ::
  "'s store_view \<Rightarrow> ((key \<rightharpoonup> kobj) \<Rightarrow> bool) \<Rightarrow> ('a \<Rightarrow> bool) \<Rightarrow> ('s \<times> event list, 'a) op \<Rightarrow> bool" where
  "audited w P R m \<longleftrightarrow>
     (\<forall>s lg x t lg'. m (s, lg) = (Ok x, (t, lg')) \<longrightarrow>
        R x \<and> (\<exists>es. lg' = lg @ es \<and> (es = [] \<longleftrightarrow> P (w s))) \<and> (P (w s) \<longrightarrow> w t = w s))"

subsection \<open>Rules\<close>

lemma auditedI:
  assumes "\<And>s lg x t lg'. m (s, lg) = (Ok x, (t, lg')) \<Longrightarrow>
    R x \<and> (\<exists>es. lg' = lg @ es \<and> (es = [] \<longleftrightarrow> P (w s))) \<and> (P (w s) \<longrightarrow> w t = w s)"
  shows "audited w P R m"
  unfolding audited_def using assms by blast

lemma auditedD:
  assumes "audited w P R m" and "m (s, lg) = (Ok x, (t, lg'))"
  shows "R x" and "\<exists>es. lg' = lg @ es \<and> (es = [] \<longleftrightarrow> P (w s))" and "P (w s) \<Longrightarrow> w t = w s"
  using assms unfolding audited_def by blast+

lemma audited_return: "R x \<Longrightarrow> audited w (\<lambda>_. True) R (return_op x)"
  by (rule auditedI) simp

lemma audited_panic: "audited w P R panic_op"
  by (rule auditedI) simp

lemma audited_weaken: "audited w P R m \<Longrightarrow> (\<And>x. R x \<Longrightarrow> S x) \<Longrightarrow> audited w P S m"
  unfolding audited_def by blast

lemma audited_cong: "audited w P R m \<Longrightarrow> (\<And>v. P v \<longleftrightarrow> Q v) \<Longrightarrow> audited w Q R m"
  by (simp add: audited_def)

lemma audited_bind:
  assumes m: "audited w P R m" and g: "\<And>x. R x \<Longrightarrow> audited w Q S (g x)"
  shows "audited w (\<lambda>v. P v \<and> Q v) S (bind_op m g)"
proof (rule auditedI)
  fix s lg y t lg' assume "bind_op m g (s, lg) = (Ok y, (t, lg'))"
  then obtain x s1 lg1 where 1: "m (s, lg) = (Ok x, (s1, lg1))" and 2: "g x (s1, lg1) = (Ok y, (t, lg'))"
    by (auto simp: bind_op_def split: prod.splits outcome.splits)
  note m1 = auditedD [OF m 1] and g2 = auditedD [OF g [OF m1(1)] 2]
  from m1(2) g2(2) obtain es es' where "lg1 = lg @ es" "es = [] \<longleftrightarrow> P (w s)" "lg' = lg1 @ es'" "es' = [] \<longleftrightarrow> Q (w s1)"
    by blast
  with m1(3) g2(1,3) show "S y \<and> (\<exists>es. lg' = lg @ es \<and> (es = [] \<longleftrightarrow> P (w s) \<and> Q (w s))) \<and>
      (P (w s) \<and> Q (w s) \<longrightarrow> w t = w s)" by auto
qed

lemma audited_then:
  "audited w P R m \<Longrightarrow> (\<And>x. R x \<Longrightarrow> audited w (\<lambda>_. True) S (g x)) \<Longrightarrow> audited w P S (bind_op m g)"
  using audited_bind [of w P R m "\<lambda>_. True" S g] by simp

lemma audited_first:
  "audited w (\<lambda>_. True) R m \<Longrightarrow> (\<And>x. R x \<Longrightarrow> audited w P S (g x)) \<Longrightarrow> audited w P S (bind_op m g)"
  using audited_bind [of w "\<lambda>_. True" R m P S g] by simp

lemma audited_wrap: "audited w P R m \<Longrightarrow> audited w P R (wrap_op p m)"
  unfolding audited_def by (fastforce simp: wrap_op_def split: prod.splits outcome.splits)

text \<open>A loop whose body turns the accumulator \<open>acc\<close> into \<open>f x acc\<close>.\<close>

lemma audited_loop:
  assumes "\<And>x acc. x \<in> set xs \<Longrightarrow> audited w (P x) (\<lambda>r. r = f x acc) (body x acc)"
  shows "audited w (\<lambda>v. \<forall>x \<in> set xs. P x v) (\<lambda>r. r = fold f xs acc) (loop_op body xs acc)"
  using assms
proof (induction xs arbitrary: acc)
  case Nil
  show ?case by (simp add: audited_def)
next
  case (Cons x xs)
  have "audited w (\<lambda>v. P x v \<and> (\<forall>x \<in> set xs. P x v)) (\<lambda>r. r = fold f (x # xs) acc) (loop_op body (x # xs) acc)"
    using Cons by (auto intro!: audited_bind [where R = "\<lambda>r. r = f x acc"])
  then show ?case by (rule audited_cong) simp
qed

subsection \<open>One object\<close>

context managed
begin

lemma audited_set_owner:
  "audited view (\<lambda>_. True) (\<lambda>obj'. key_of obj' = key_of obj \<and> meta_Labels (ko_Meta K obj') = meta_Labels (ko_Meta K obj))
     (set_owner (log_api A) K owner obj)"
  by (rule auditedI, insert set_owner [of owner "ko_Meta K obj"])
    (auto simp: set_owner_def key_of_def with_meta)

lemma audited_createOrUpdate:
  "audited view (settled (key_of obj) (meta_Labels (ko_Meta K obj))) (\<lambda>_. True) (createOrUpdate (log_api A) K obj)"
proof (rule auditedI)
  fix s lg and x :: unit and t lg'
  assume run: "createOrUpdate (log_api A) K obj (s, lg) = (Ok x, (t, lg'))"
  show "True \<and> (\<exists>es. lg' = lg @ es \<and> (es = [] \<longleftrightarrow> settled (key_of obj) (meta_Labels (ko_Meta K obj)) (view s))) \<and>
      (settled (key_of obj) (meta_Labels (ko_Meta K obj)) (view s) \<longrightarrow> view t = view s)"
  proof (cases "view s (key_of obj)")
    case None
    from typed_get_missing [OF None] run None show ?thesis
      by (auto simp: createOrUpdate_def typed_get_log call_op_def log_call_def settled_def split: prod.splits sum.splits)
  next
    case (Some ob)
    from typed_get_found [OF Some] run Some show ?thesis
      by (auto simp: createOrUpdate_def typed_get_log call_op_def log_call_def settled_def inject_meta hash_label_def
          split: prod.splits sum.splits if_splits)
  qed
qed

lemma audited_createIfMissing:
  "audited view (\<lambda>v. v (key_of obj) \<noteq> None) (\<lambda>_. True) (createIfMissing (log_api A) K obj)"
proof (rule auditedI)
  fix s lg and x :: unit and t lg'
  assume run: "createIfMissing (log_api A) K obj (s, lg) = (Ok x, (t, lg'))"
  show "True \<and> (\<exists>es. lg' = lg @ es \<and> (es = [] \<longleftrightarrow> view s (key_of obj) \<noteq> None)) \<and>
      (view s (key_of obj) \<noteq> None \<longrightarrow> view t = view s)"
  proof (cases "view s (key_of obj)")
    case None
    from typed_get_missing [OF None] run None show ?thesis
      by (auto simp: createIfMissing_def typed_get_log call_op_def log_call_def split: prod.splits sum.splits)
  next
    case (Some ob)
    from typed_get_found [OF Some] run Some show ?thesis
      by (auto simp: createIfMissing_def typed_get_log)
  qed
qed

lemma audited_ensure:
  "audited view (settled (key_of obj) (meta_Labels (ko_Meta K obj))) (\<lambda>_. True) (ensure (log_api A) K owner obj)"
  unfolding ensure_def by (rule audited_first [OF audited_set_owner]) (metis audited_createOrUpdate)

end

subsection \<open>The operations of the controller\<close>

context cluster
begin

lemma audited_reconcilePodGroup:
  "audited view (podgroup_ok X svc) (\<lambda>_. True) (reconcilePodGroup X (log_api A) svc)"
proof (cases "NeedsGangScheduling svc")
  case True
  have "audited view (settled (podgroup_kind.key_of pg) (meta_Labels (ko_Meta podgroup_ops pg))) (\<lambda>_. True)
      (bind_op (wrap_op p (set_owner (log_api A) podgroup_ops owner pg)) (createOrUpdate (log_api A) podgroup_ops))"
    for p owner pg
    by (rule audited_first [OF audited_wrap [OF podgroups.audited_set_owner]]) (metis podgroups.audited_createOrUpdate)
  from audited_cong [OF this, of "BuildPodGroup X svc" "podgroup_ok X svc"] True show ?thesis
    by (simp add: reconcilePodGroup_def podgroup_ok_def want_def)
qed (simp add: audited_def reconcilePodGroup_def podgroup_ok_def)

lemma audited_reconcileReplica:
  "audited view (settled (lws_key svc role i) (replica_labels X svc role i))
     (\<lambda>D'. D' = insert (snd (snd (lws_key svc role i))) D)
     (reconcileReplica X (log_api A) svc role (NeedsGangSchedulingForRole svc role) i D)"
proof (cases "replica_lws X svc role i")
  case None
  then show ?thesis by (simp add: reconcileReplica_def replica_lws_def audited_def)
next
  case (Some l)
  note key = replica_lws_key [OF Some]
  have "audited view (settled (lws_kind.key_of l) (meta_Labels (lws_Meta l))) (\<lambda>D'. D' = insert (meta_Name (lws_Meta l)) D)
      (bind_op (wrap_op p (set_owner (log_api A) lws_ops (isvc_Meta svc) l))
        (\<lambda>owned. bind_op (createOrUpdate (log_api A) lws_ops owned) (\<lambda>_. return_op (insert (meta_Name (lws_Meta l)) D))))"
    for p
  proof (rule audited_first [OF audited_wrap [OF workloads.audited_set_owner]], rule audited_then)
    fix owned assume "lws_kind.key_of owned = lws_kind.key_of l \<and>
        meta_Labels (ko_Meta lws_ops owned) = meta_Labels (ko_Meta lws_ops l)"
    then show "audited view (settled (lws_kind.key_of l) (meta_Labels (lws_Meta l))) (\<lambda>_. True)
        (createOrUpdate (log_api A) lws_ops owned)"
      using workloads.audited_createOrUpdate [of owned] by (simp add: kind_ops_defs)
  qed (rule audited_return, simp)
  with Some key show ?thesis
    by (simp add: reconcileReplica_def replica_lws_def)
qed

text \<open>The names a role wants.\<close>

definition replica_names :: "inference_service \<Rightarrow> role \<Rightarrow> string set" where
  "replica_names svc role = (snd \<circ> snd \<circ> lws_key svc role) ` set (replicas_of role)"

lemma audited_replicas:
  "audited view (\<lambda>v. \<forall>i \<in> set (replicas_of role). settled (lws_key svc role i) (replica_labels X svc role i) v)
     (\<lambda>D. D = replica_names svc role)
     (loop_op (reconcileReplica X (log_api A) svc role (NeedsGangSchedulingForRole svc role)) (replicas_of role) {})"
proof -
  let ?f = "\<lambda>i. insert (snd (snd (lws_key svc role i)))"
  have names: "fold ?f is D = D \<union> (snd \<circ> snd \<circ> lws_key svc role) ` set is" for "is" D
    by (induction "is" arbitrary: D) auto
  have "audited view (\<lambda>v. \<forall>i \<in> set (replicas_of role). settled (lws_key svc role i) (replica_labels X svc role i) v)
      (\<lambda>D. D = fold ?f (replicas_of role) {})
      (loop_op (reconcileReplica X (log_api A) svc role (NeedsGangSchedulingForRole svc role)) (replicas_of role) {})"
    by (rule audited_loop) (rule audited_reconcileReplica)
  then show ?thesis by (simp add: names replica_names_def)
qed

lemma audited_deleteOrphan:
  "audited w (\<lambda>_. meta_Name (lws_Meta l) \<in> D) (\<lambda>r. r = ()) (deleteOrphan (log_api A) D l u)"
  by (rule auditedI) (auto simp: deleteOrphan_def log_call_def split: prod.splits sum.splits if_splits)

lemma audited_cleanup:
  "audited view (\<lambda>v. \<forall>k. carries_role svc role k (v k) \<longrightarrow> snd (snd k) \<in> D) (\<lambda>_. True)
     (cleanupOrphanLWS (log_api A) svc role D)"
proof (rule auditedI)
  fix s lg and x :: unit and t lg'
  assume run: "cleanupOrphanLWS (log_api A) svc role D (s, lg) = (Ok x, (t, lg'))"
  from list_lws [of "isvc_Namespace svc" "role_selector svc role" s] obtain ls s1 where ls:
      "api_ListLWS A (isvc_Namespace svc) (role_selector svc role) s = (Inr ls, s1)" "view s1 = view s"
      "set ls = {l. \<exists>n. view s (KindLWS, isvc_Namespace svc, n) = Some (ObjLWS l) \<and>
        labels_match (role_selector svc role) (meta_Labels (lws_Meta l))}"
    by blast
  then have loop: "loop_op (deleteOrphan (log_api A) D) ls () (s1, lg) = (Ok x, (t, lg'))"
    using run by (simp add: cleanupOrphanLWS_def role_selector_def calls quiet_call_def)
  have "carries_role svc role k (view s k) \<longleftrightarrow> (\<exists>l \<in> set ls. k = kobj_key (ObjLWS l))" for k
    unfolding ls(3) carries_role_def using view_key by fastforce
  then have "(\<forall>l \<in> set ls. meta_Name (lws_Meta l) \<in> D) \<longleftrightarrow>
      (\<forall>k. carries_role svc role k (view s k) \<longrightarrow> snd (snd k) \<in> D)"
    by (simp add: kobj_key_def) (metis snd_conv)
  with auditedD(2,3) [OF audited_loop [OF audited_deleteOrphan] loop] ls(2)
  show "True \<and> (\<exists>es. lg' = lg @ es \<and> (es = [] \<longleftrightarrow> (\<forall>k. carries_role svc role k (view s k) \<longrightarrow> snd (snd k) \<in> D))) \<and>
      ((\<forall>k. carries_role svc role k (view s k) \<longrightarrow> snd (snd k) \<in> D) \<longrightarrow> view t = view s)"
    by auto
qed

lemma audited_reconcileLWS: "audited view (role_ok X svc role) (\<lambda>_. True) (reconcileLWS X (log_api A) svc role)"
proof -
  have "audited view (\<lambda>v. (\<forall>i \<in> set (replicas_of role). settled (lws_key svc role i) (replica_labels X svc role i) v) \<and>
        (\<forall>k. carries_role svc role k (v k) \<longrightarrow> snd (snd k) \<in> replica_names svc role)) (\<lambda>_. True)
      (reconcileLWS X (log_api A) svc role)"
    unfolding reconcileLWS_def Let_def
    by (rule audited_bind [OF audited_replicas]) (simp add: audited_cleanup)
  then show ?thesis
    by (rule audited_cong) (use role_names_keys [of svc role _ _ "replicas_of role"] in
      \<open>auto simp: role_ok_def role_keys_def replica_names_def\<close>)
qed

lemma audited_ensure_want:
  assumes "managed A view K"
  shows "audited view (settled (fst (want K obj)) (snd (want K obj))) (\<lambda>_. True) (ensure (log_api A) K owner obj)"
  using managed.audited_ensure [OF assms] by (simp add: want_def)

lemma audited_account:
  "audited view (\<lambda>v. v (account_key svc) \<noteq> None) (\<lambda>_. True) (reconcileEPPServiceAccount (log_api A) svc)"
proof -
  have "audited view (\<lambda>v. v (serviceaccount_kind.key_of ac) \<noteq> None) (\<lambda>_. True)
      (bind_op (set_owner (log_api A) serviceaccount_ops owner ac) (createIfMissing (log_api A) serviceaccount_ops))"
    for owner ac
    by (rule audited_first [OF accounts.audited_set_owner]) (metis accounts.audited_createIfMissing)
  from audited_cong [OF this, of "BuildEPPServiceAccount svc" "\<lambda>v. v (account_key svc) \<noteq> None"] show ?thesis
    by (simp add: reconcileEPPServiceAccount_def account_key_def kind_keys)
qed

lemma audited_router_step:
  assumes "managed A view K" and "audited view Q (\<lambda>_. True) m"
  shows "audited view (\<lambda>v. settled (fst (want K obj)) (snd (want K obj)) v \<and> Q v) (\<lambda>_. True)
    (bind_op (wrap_op p (ensure (log_api A) K owner obj)) (\<lambda>_. m))"
  by (rule audited_bind [OF audited_wrap [OF audited_ensure_want [OF assms(1)]] assms(2)])

lemma audited_reconcileRouter:
  "audited view (router_ok X svc role ws) (\<lambda>_. True) (reconcileRouter X (log_api A) svc role ws)"
proof -
  have "audited view (\<lambda>v. v (account_key svc) \<noteq> None \<and>
      (let P = \<lambda>w. settled (fst w) (snd w) v in
       P (want role_ops (BuildEPPRole X svc)) \<and> P (want rolebinding_ops (BuildEPPRoleBinding X svc)) \<and>
       P (want configmap_ops (BuildEPPConfigMap X svc role)) \<and>
       P (want deployment_ops (BuildEPPDeployment X svc)) \<and> P (want service_ops (BuildEPPService X svc)) \<and>
       P (want pool_ops (BuildInferencePool X svc ws)) \<and> P (want route_ops (BuildHTTPRoute X svc role))))
      (\<lambda>_. True) (reconcileRouter X (log_api A) svc role ws)"
    unfolding reconcileRouter_def Let_def reconcileEPPRole_def reconcileEPPRoleBinding_def
      reconcileEPPConfigMap_def reconcileEPPDeployment_def reconcileEPPService_def
      reconcileInferencePool_def reconcileHTTPRoute_def
    by (intro audited_bind [OF audited_wrap [OF audited_account]] audited_router_step managed_kinds
        audited_wrap audited_ensure_want)
  then show ?thesis
    by (rule audited_cong) (simp add: router_ok_def router_wants_def Let_def case_prod_unfold)
qed

lemma audited_roles:
  "audited view (\<lambda>v. \<forall>role \<in> set (workers svc). role_ok X svc role v) (\<lambda>ws. ws = workers svc)
     (loop_op (reconcileRole X (log_api A) svc) (isvc_Roles svc) [])"
proof -
  let ?f = "\<lambda>role ws. if isWorkerType (role_ComponentType role) then ws @ [role] else ws"
  have step: "audited view (\<lambda>v. isWorkerType (role_ComponentType role) \<longrightarrow> role_ok X svc role v) (\<lambda>r. r = ?f role ws)
      (reconcileRole X (log_api A) svc role ws)" for role ws
    unfolding reconcileRole_def
    using audited_then [OF audited_reconcileLWS audited_return, of "\<lambda>r. r = ws @ [role]"]
    by (auto simp: audited_def)
  have names: "fold ?f rs ws = ws @ filter (\<lambda>r. isWorkerType (role_ComponentType r)) rs" for rs ws
    by (induction rs arbitrary: ws) auto
  have "audited view (\<lambda>v. \<forall>role \<in> set (isvc_Roles svc). isWorkerType (role_ComponentType role) \<longrightarrow> role_ok X svc role v)
      (\<lambda>ws. ws = fold ?f (isvc_Roles svc) []) (loop_op (reconcileRole X (log_api A) svc) (isvc_Roles svc) [])"
    by (rule audited_loop) (rule step)
  then have "audited view (\<lambda>v. \<forall>role \<in> set (isvc_Roles svc). isWorkerType (role_ComponentType role) \<longrightarrow> role_ok X svc role v)
      (\<lambda>ws. ws = workers svc) (loop_op (reconcileRole X (log_api A) svc) (isvc_Roles svc) [])"
    by (simp add: names workers_def)
  then show ?thesis by (rule audited_cong) (auto simp: workers_def)
qed

lemma audited_routers:
  "audited view (\<lambda>v. \<forall>role \<in> set (routers svc). router_ok X svc role ws v) (\<lambda>_. True)
     (loop_op (reconcileRouterRole X (log_api A) svc ws) (isvc_Roles svc) ())"
proof -
  have step: "audited view (\<lambda>v. role_ComponentType role = ComponentTypeRouter \<longrightarrow> router_ok X svc role ws v)
      (\<lambda>r. r = ()) (reconcileRouterRole X (log_api A) svc ws role u)" for role u
    unfolding reconcileRouterRole_def using audited_reconcileRouter [of X svc role ws] by (auto simp: audited_def)
  have "audited view (\<lambda>v. \<forall>role \<in> set (isvc_Roles svc). role_ComponentType role = ComponentTypeRouter \<longrightarrow>
      router_ok X svc role ws v) (\<lambda>r. r = fold (\<lambda>_ _. ()) (isvc_Roles svc) ())
      (loop_op (reconcileRouterRole X (log_api A) svc ws) (isvc_Roles svc) ())"
    by (rule audited_loop) (rule step)
  then have "audited view (\<lambda>v. \<forall>role \<in> set (routers svc). router_ok X svc role ws v)
      (\<lambda>r. r = fold (\<lambda>_ _. ()) (isvc_Roles svc) ()) (loop_op (reconcileRouterRole X (log_api A) svc ws) (isvc_Roles svc) ())"
    by (rule audited_cong) (auto simp: routers_def)
  then show ?thesis by (rule audited_weaken) simp
qed

lemma audited_reconcileChildren:
  "audited view (converged X svc) (\<lambda>_. True) (reconcileChildren X (log_api A) svc)"
proof -
  have "audited view (\<lambda>v. podgroup_ok X svc v \<and> (\<forall>role \<in> set (workers svc). role_ok X svc role v) \<and>
      (\<forall>role \<in> set (routers svc). router_ok X svc role (workers svc) v)) (\<lambda>_. True)
      (reconcileChildren X (log_api A) svc)"
    unfolding reconcileChildren_def
    by (rule audited_bind [OF audited_reconcilePodGroup], rule audited_bind [OF audited_roles])
      (simp add: audited_routers)
  then show ?thesis by (rule audited_cong) (simp add: converged_def)
qed

subsection \<open>The whole reconciliation\<close>

theorem Reconcile_quiet:
  assumes stored: "view s (isvc_key svc) = Some (ObjInferSvc svc)"
    and run: "Reconcile X (log_api A) (isvc_Namespace svc) (isvc_Name svc) (s, lg) = (Ok (), (s', lg'))"
  shows "\<exists>cs w. lg' = lg @ cs @ [StatusWritten w] \<and> (cs = [] \<longleftrightarrow> converged X svc (view s))"
proof -
  from stored obtain s1 where get: "typed_get A inferencesvc_ops (isvc_Namespace svc) (isvc_Name svc) s = (Inr svc, s1)"
    and v1: "view s1 = view s"
    using get_found [of s KindInferenceService] by (fastforce simp: typed_get_def kind_ops_defs isvc_key_def)
  from initialise_same [of X svc s1] v1 obtain st s2 where
    ini: "initialise X A svc s1 = (with_status svc st, s2)" and v2: "view s2 = view s" by auto
  obtain r s3 lg3 where ch: "reconcileChildren X (log_api A) (with_status svc st) (s2, lg) = (r, (s3, lg3))"
    by (metis prod.exhaust)
  with run get ini have "r = Ok ()" and fin: "finishReconcile X (log_api A) (with_status svc st) None (s3, lg3) = (Ok (), (s', lg'))"
    by (auto simp: Reconcile_def typed_get_log initialise_log finishReconcile_log finishReconcile_def Let_def
        split: outcome.splits prod.splits sum.splits)
  from auditedD(2) [OF audited_reconcileChildren ch [unfolded this(1)]] v2 obtain cs where
    "lg3 = lg @ cs" "cs = [] \<longleftrightarrow> converged X svc (view s)" by auto
  with fin show ?thesis by (auto simp: finishReconcile_log)
qed

text \<open>The logging server succeeds where the server does.\<close>

lemma reconcile_logged:
  assumes "condition_laws X" and "well_specified X svc" and "distinct (map role_Name (served_roles svc))"
    and "labels_sound svc (view s)" and stored: "view s (isvc_key svc) = Some (ObjInferSvc svc)"
  shows "\<exists>s' es. Reconcile X (log_api A) (isvc_Namespace svc) (isvc_Name svc) (s, lg) = (Ok (), (s', es))"
proof -
  obtain got s1 where got: "typed_get A inferencesvc_ops (isvc_Namespace svc) (isvc_Name svc) s = (got, s1)" by fastforce
  from reconcile_achieves [OF assms] have ok: "fst (Reconcile X A (isvc_Namespace svc) (isvc_Name svc) s) = Ok ()" by auto
  show ?thesis
  proof (cases got)
    case (Inl e)
    with Reconcile_unread_log [of A "isvc_Namespace svc" "isvc_Name svc" s e s1 X lg] got ok show ?thesis by auto
  next
    case (Inr w)
    obtain svc1 s2 where ini: "initialise X A w s1 = (svc1, s2)" by fastforce
    obtain r s3 where "reconcileChildren X A svc1 s2 = (r, s3)" by fastforce
    from Reconcile_log [OF got [unfolded Inr] ini this, of lg] ok show ?thesis by metis
  qed
qed

end

end
