(* ===== verification/Steady.thy ===== *)
theory Steady
  imports Reconciliation
begin

section \<open>The status in a converged store\<close>

text \<open>
  Every reconciliation writes a status, also when there is nothing else to do. \<open>final_status X svc v st\<close> says
  how \<open>Reconcile\<close> computes the status \<open>st\<close> from the service it has read and the objects \<open>v\<close>. Two runs one
  after the other in a converged store write statuses that agree in everything but the time each role was
  looked at (\<open>agrees\<close>): the conditions are the same, with the times of their last transition, and the
  components report the same.
\<close>

definition untimed :: "(string \<times> component_status) list \<Rightarrow> (string \<times> component_status) list" where
  "untimed = map (\<lambda>p. (fst p, (snd p)\<lparr>cs_LastUpdateTime := None\<rparr>))"

definition agrees :: "inference_service_status \<Rightarrow> inference_service_status \<Rightarrow> bool" where
  "agrees st st' \<longleftrightarrow>
     ObservedGeneration st' = ObservedGeneration st \<and> untimed (Components st') = untimed (Components st) \<and>
     (\<forall>t. find_condition (Conditions st') t = find_condition (Conditions st) t)"

definition final_status ::
  "externals \<Rightarrow> inference_service \<Rightarrow> (key \<rightharpoonup> kobj) \<Rightarrow> inference_service_status \<Rightarrow> bool" where
  "final_status X svc v st \<longleftrightarrow>
     (\<exists>first now. list_all2 (reports svc v) (served_roles svc) (Components st) \<and>
        with_status svc st = setFinalCondition X now None
          (let svc1 = (if isvc_Conditions svc = [] then setInitCondition X first svc else svc)
           in with_status svc ((isvc_Status svc1)\<lparr>Components := Components st\<rparr>)))"

lemma with_status_inject [simp]: "with_status svc st = with_status svc st' \<longleftrightarrow> st = st'"
  by (metis inference_service.select_convs(3) inference_service.surjective inference_service.update_convs(3))

lemma reports_untimed:
  "reports svc v role p \<Longrightarrow> reports svc v role q \<Longrightarrow>
    (fst p, (snd p)\<lparr>cs_LastUpdateTime := None\<rparr>) = (fst q, (snd q)\<lparr>cs_LastUpdateTime := None\<rparr>)"
  by (cases p; cases q) (auto simp: reports_def intro!: component_status.equality)

lemma all_reports_untimed:
  assumes "list_all2 (reports svc v) roles cs" and "list_all2 (reports svc v) roles cs'"
  shows "untimed cs = untimed cs'"
proof (rule nth_equalityI)
  from assms have len: "length cs = length roles" "length cs' = length roles" by (auto dest: list_all2_lengthD)
  then show "length (untimed cs) = length (untimed cs')" by (simp add: untimed_def)
  fix n assume "n < length (untimed cs)"
  with len have "n < length roles" by (simp add: untimed_def)
  with len list_all2_nthD [OF assms(1), of n] list_all2_nthD [OF assms(2), of n]
  have "reports svc v (roles ! n) (cs ! n)" "reports svc v (roles ! n) (cs' ! n)" by simp_all
  from reports_untimed [OF this] len \<open>n < length roles\<close> show "untimed cs ! n = untimed cs' ! n"
    by (simp add: untimed_def)
qed

text \<open>The condition a run without errors ends with.\<close>

definition active_condition :: "bool \<Rightarrow> time \<Rightarrow> condition" where
  "active_condition ready now =
     (if ready
      then newCondition ConditionTypeActive ConditionTrue ReasonInferenceServiceAvailable ''InferenceService is ready'' now
      else newCondition ConditionTypeActive ConditionFalse ReasonInferenceServiceProcessing
        ''InferenceService is being reconciled'' now)"

lemma active_condition_type [simp]: "cond_Type (active_condition b now) = ConditionTypeActive"
  by (simp add: active_condition_def newCondition_def)

lemma active_condition_time:
  "(active_condition b now)\<lparr>cond_LastTransitionTime := t\<rparr> = active_condition b t"
  by (simp add: active_condition_def newCondition_def)

lemma final_condition_find:
  assumes laws: "condition_laws X" and reports: "list_all2 (reports svc v) (served_roles svc) (Components (isvc_Status svc1))"
  shows "find_condition (isvc_Conditions (setFinalCondition X now None svc1)) t =
    (if t = ConditionTypeActive
     then Some (active_condition (service_ready svc v)
       (transition_time (find_condition (isvc_Conditions svc1) t) (active_condition (service_ready svc v) now)))
     else find_condition (isvc_Conditions svc1) t)"
proof -
  have "setFinalCondition X now None svc1 = setCondition X (active_condition (service_ready svc v) now) svc1"
    using all_ready_iff [OF reports] by (simp add: setFinalCondition_def condition_setters active_condition_def)
  with laws show ?thesis by (simp add: condition_laws_def active_condition_time)
qed

lemma transition_kept:
  "transition_time (Some (active_condition b t)) (active_condition b now) = t"
  by (simp add: transition_time_def active_condition_def newCondition_def)

lemma final_status_parts:
  assumes "condition_laws X" and "final_status X svc v st"
  obtains now cs0 where "list_all2 (reports svc v) (served_roles svc) (Components st)"
    and "ObservedGeneration st = meta_Generation (isvc_Meta svc)"
    and "\<And>t. find_condition (Conditions st) t =
      (if t = ConditionTypeActive
       then Some (active_condition (service_ready svc v)
         (transition_time (find_condition cs0 t) (active_condition (service_ready svc v) now)))
       else find_condition cs0 t)"
    and "isvc_Conditions svc \<noteq> [] \<Longrightarrow> cs0 = isvc_Conditions svc"
proof -
  from assms(2) obtain first now where r: "list_all2 (reports svc v) (served_roles svc) (Components st)"
    and e: "with_status svc st = setFinalCondition X now None (with_status svc
      ((isvc_Status (if isvc_Conditions svc = [] then setInitCondition X first svc else svc))\<lparr>Components := Components st\<rparr>))"
    unfolding final_status_def Let_def by blast
  let ?st0 = "isvc_Status (if isvc_Conditions svc = [] then setInitCondition X first svc else svc)"
  let ?svc1 = "with_status svc (?st0\<lparr>Components := Components st\<rparr>)"
  have "list_all2 (reports svc v) (served_roles svc) (Components (isvc_Status ?svc1))" using r by simp
  from final_condition_find [OF assms(1) this, of now, folded e]
  have f: "find_condition (Conditions st) t = (if t = ConditionTypeActive
      then Some (active_condition (service_ready svc v)
        (transition_time (find_condition (Conditions ?st0) t) (active_condition (service_ready svc v) now)))
      else find_condition (Conditions ?st0) t)" for t by simp
  from setFinalCondition_with_status [of X now None ?svc1, folded e]
  have "ObservedGeneration st = meta_Generation (isvc_Meta svc)" by auto
  with r f show ?thesis by (intro that [of "Conditions ?st0" now]) auto
qed

theorem final_status_agrees:
  assumes laws: "condition_laws X" and st: "final_status X svc v st" and st': "final_status X (with_status svc st) v' st'"
    and same: "reports svc v' = reports svc v" "service_ready svc v' = service_ready svc v"
  shows "agrees st st'"
proof -
  let ?b = "service_ready svc v"
  from final_status_parts [OF laws st] obtain now cs0 where
    r: "list_all2 (reports svc v) (served_roles svc) (Components st)" and g: "ObservedGeneration st = meta_Generation (isvc_Meta svc)"
    and f: "\<And>t. find_condition (Conditions st) t = (if t = ConditionTypeActive
      then Some (active_condition ?b (transition_time (find_condition cs0 t) (active_condition ?b now)))
      else find_condition cs0 t)" by metis
  from f [of ConditionTypeActive] have "Conditions st \<noteq> []" by auto
  then have "isvc_Conditions (with_status svc st) \<noteq> []" by simp
  with final_status_parts [OF laws st'] obtain now' where
    r': "list_all2 (reports svc v) (served_roles svc) (Components st')" and g': "ObservedGeneration st' = meta_Generation (isvc_Meta svc)"
    and f': "\<And>t. find_condition (Conditions st') t = (if t = ConditionTypeActive
      then Some (active_condition ?b (transition_time (find_condition (Conditions st) t) (active_condition ?b now')))
      else find_condition (Conditions st) t)"
    unfolding hypotheses_status wanted_status same by (metis inference_service.select_convs(1,3)
      inference_service.surjective inference_service.update_convs(3))
  from f' f [of ConditionTypeActive] have "find_condition (Conditions st') t = find_condition (Conditions st) t" for t
    by (simp add: transition_kept)
  with g g' all_reports_untimed [OF r' r] show ?thesis by (simp add: agrees_def)
qed

text \<open>If the clock has not moved either, the second status is the first.\<close>

lemma timed_untimed:
  assumes "untimed cs = untimed cs'" and "timed A cs" and "timed A cs'" and "\<forall>s. fst (api_Now A s) = now"
  shows "cs = cs'"
proof -
  have "map (\<lambda>p. (fst p, (snd p)\<lparr>cs_LastUpdateTime := Some now\<rparr>)) (untimed ps) = ps" if "timed A ps" for ps
  proof -
    from that assms(4) have "\<forall>p \<in> set ps. cs_LastUpdateTime (snd p) = Some now" by (simp add: timed_def)
    then show ?thesis by (induction ps) (auto simp: untimed_def)
  qed
  with assms(1-3) show ?thesis by metis
qed

lemma final_status_same:
  assumes laws: "condition_laws X" "condition_stable X"
    and st: "final_status X svc v st" and st': "final_status X (with_status svc st) v' st'"
    and same: "reports svc v' = reports svc v" "service_ready svc v' = service_ready svc v"
    and comps: "Components st' = Components st"
  shows "st' = st"
proof -
  let ?svc = "with_status svc (st\<lparr>Components := Components st'\<rparr>)" and ?b = "service_ready svc v"
  from final_status_parts [OF laws(1) st] obtain now cs0 where
    g: "ObservedGeneration st = meta_Generation (isvc_Meta svc)"
    and f: "find_condition (Conditions st) ConditionTypeActive = Some (active_condition ?b
      (transition_time (find_condition cs0 ConditionTypeActive) (active_condition ?b now)))" by metis
  then have "Conditions st \<noteq> []" by auto
  with st' obtain now' where r: "list_all2 (reports svc v') (served_roles svc) (Components st')"
    and e: "with_status svc st' = setFinalCondition X now' None ?svc"
    by (auto simp: final_status_def hypotheses_status)
  have "setFinalCondition X now' None ?svc = setCondition X (active_condition ?b now') ?svc"
    using all_ready_iff [of svc v' ?svc] r same by (simp add: setFinalCondition_def condition_setters active_condition_def)
  moreover have "ext_SetStatusCondition X (Conditions st) (active_condition ?b now') = Conditions st"
    using laws(2) f by (simp add: condition_stable_def transition_kept active_condition_time)
  ultimately have "with_status svc st' = with_status svc (st\<lparr>Components := Components st',
      ObservedGeneration := meta_Generation (isvc_Meta svc)\<rparr>)"
    using e by (simp add: setCondition_def)
  with g comps show ?thesis by simp
qed

subsection \<open>Runs in a converged store\<close>

lemma reports_cong:
  assumes "\<And>k. fst k = KindLWS \<Longrightarrow> v' k = v k"
  shows "reports svc v' = reports svc v" and "service_ready svc v' = service_ready svc v"
proof -
  have "replica_status svc role v' = replica_status svc role v" for role
    using assms by (auto simp: replica_status_def lws_key_def fun_eq_iff)
  then show "reports svc v' = reports svc v" and "service_ready svc v' = service_ready svc v"
    by (simp_all add: service_ready_def reports_def role_phase_def role_aggregate_def fun_eq_iff)
qed

context cluster
begin

theorem reconcile_final:
  assumes spec: "well_specified X svc" and dist: "distinct (map role_Name (served_roles svc))"
    and conv: "converged X svc (view s)" and stored: "view s (isvc_key svc) = Some (ObjInferSvc svc)"
  shows "\<exists>st s'. Reconcile X A (isvc_Namespace svc) (isvc_Name svc) s = (Ok (), s') \<and>
    view s' = (view s)(isvc_key svc \<mapsto> ObjInferSvc (with_status svc st)) \<and> final_status X svc (view s) st \<and>
    timed A (Components st)"
proof -
  from stored have key: "inferencesvc_kind.key_of svc = isvc_key svc" by (simp add: kind_keys isvc_key_def)
  from inferencesvcs.typed_get_found [of s svc "ObjInferSvc svc"] stored obtain s1 where
    s1: "typed_get A inferencesvc_ops (isvc_Namespace svc) (isvc_Name svc) s = (Inr svc, s1)" "view s1 = view s"
    by (auto simp: key) (auto simp: inferencesvc_ops_def)
  obtain first s2 where now: "api_Now A s1 = (first, s2)" by fastforce
  let ?st0 = "isvc_Status (if isvc_Conditions svc = [] then setInitCondition X first svc else svc)"
  have "(if isvc_Conditions svc = [] then setInitCondition X first svc else svc) = with_status svc ?st0"
    by (simp add: condition_setters setCondition_def)
  then obtain s3 where s3: "initialise X A svc s1 = (with_status svc ?st0, s3)" "view s3 = view s"
    using now now_view [of s1] s1(2) by (cases "isvc_Conditions svc = []") (auto simp: initialise_def)
  from children_idempotent [of "with_status svc ?st0" X s3] spec conv s3(2) obtain s4 where
    s4: "reconcileChildren X A (with_status svc ?st0) s3 = (Ok (), s4)" "view s4 = view s"
    by (auto simp: well_specified_def buildable_def)
  with stored have "view s4 (isvc_key (with_status svc ?st0)) =
      Some (ObjInferSvc (with_status (with_status svc ?st0) (isvc_Status svc)))" by simp
  from finishReconcile_exact [OF _ this, of X] dist obtain now st s5 where
    s5: "finishReconcile X A (with_status svc ?st0) None s4 = (Ok (), s5)"
      "view s5 = (view s4)(isvc_key svc \<mapsto> ObjInferSvc (with_status svc st))"
    and st: "list_all2 (reports svc (view s4)) (served_roles svc) (Components st)" "timed A (Components st)"
      "setFinalCondition X now None (with_status svc (?st0\<lparr>Components := Components st\<rparr>)) = with_status svc st"
    by auto
  from st(1,3) s4(2) have "final_status X svc (view s) st"
    unfolding final_status_def Let_def by (intro exI [of _ first] exI [of _ now]) simp
  with s1 s3 s4 s5 st(2) show ?thesis by (intro exI [of _ st] exI [of _ s5]) (simp add: Reconcile_def)
qed

corollary reconcile_stable:
  assumes "well_specified X svc" and "distinct (map role_Name (served_roles svc))"
    and "converged X svc (view s)" and "view s (isvc_key svc) = Some (ObjInferSvc svc)"
  shows "\<exists>st s'. Reconcile X A (isvc_Namespace svc) (isvc_Name svc) s = (Ok (), s') \<and>
    view s' = (view s)(isvc_key svc \<mapsto> ObjInferSvc (with_status svc st))"
  using reconcile_final [OF assms] by blast

text \<open>Two runs in a row.\<close>

theorem reconcile_twice:
  assumes laws: "condition_laws X" and spec: "well_specified X svc"
    and dist: "distinct (map role_Name (served_roles svc))"
    and conv: "converged X svc (view s)" and stored: "view s (isvc_key svc) = Some (ObjInferSvc svc)"
  shows "\<exists>st s1 st' s2.
    Reconcile X A (isvc_Namespace svc) (isvc_Name svc) s = (Ok (), s1) \<and>
    view s1 = (view s)(isvc_key svc \<mapsto> ObjInferSvc (with_status svc st)) \<and>
    Reconcile X A (isvc_Namespace svc) (isvc_Name svc) s1 = (Ok (), s2) \<and>
    view s2 = (view s)(isvc_key svc \<mapsto> ObjInferSvc (with_status svc st')) \<and> agrees st st'"
proof -
  from reconcile_final [OF spec dist conv stored] obtain st s1 where
    s1: "Reconcile X A (isvc_Namespace svc) (isvc_Name svc) s = (Ok (), s1)"
      "view s1 = (view s)(isvc_key svc \<mapsto> ObjInferSvc (with_status svc st))"
    and st: "final_status X svc (view s) st" by blast
  have "converged X (with_status svc st) (view s1)"
    using converged_cong [OF _ conv, of "view s1"] s1(2) by simp
  with reconcile_final [of X "with_status svc st" s1] spec dist s1(2) obtain st' s2 where
    s2: "Reconcile X A (isvc_Namespace svc) (isvc_Name svc) s1 = (Ok (), s2)"
      "view s2 = (view s)(isvc_key svc \<mapsto> ObjInferSvc (with_status svc st'))"
    and st': "final_status X (with_status svc st) (view s1) st'" by auto
  have "agrees st st'"
    by (rule final_status_agrees [OF laws st st']; rule reports_cong) (auto simp: s1(2) isvc_key_def)
  with s1 s2 show ?thesis by blast
qed

text \<open>A run after one in a converged store changes nothing at all while the clock stands still.\<close>

theorem reconcile_rests:
  assumes laws: "condition_laws X" "condition_stable X" and spec: "well_specified X svc"
    and dist: "distinct (map role_Name (served_roles svc))" and clock: "\<forall>u. fst (api_Now A u) = now"
    and conv: "converged X svc (view s)" and stored: "view s (isvc_key svc) = Some (ObjInferSvc (with_status svc st))"
    and st: "final_status X svc v st" "timed A (Components st)" "\<And>k. fst k = KindLWS \<Longrightarrow> v k = view s k"
  shows "\<exists>s'. Reconcile X A (isvc_Namespace svc) (isvc_Name svc) s = (Ok (), s') \<and> view s' = view s"
proof -
  from reconcile_final [of X "with_status svc st" s] spec dist conv stored obtain st' s' where
    s': "Reconcile X A (isvc_Namespace svc) (isvc_Name svc) s = (Ok (), s')"
      "view s' = (view s)(isvc_key svc \<mapsto> ObjInferSvc (with_status svc st'))"
    and st': "final_status X (with_status svc st) (view s) st'" "timed A (Components st')" by auto
  have same: "reports svc (view s) = reports svc v" "service_ready svc (view s) = service_ready svc v"
    by (rule reports_cong; simp add: st(3))+
  have "Components st' = Components st"
    using final_status_agrees [OF laws(1) st(1) st'(1) same] timed_untimed [OF _ st'(2) st(2) clock]
    by (simp add: agrees_def)
  from final_status_same [OF laws st(1) st'(1) same this] s' stored show ?thesis by (auto simp: fun_upd_idem)
qed

end

end
