(* ===== verification/EventLoop.thy ===== *)
theory EventLoop
  imports Setup Quiet Steady Recovery
begin

section \<open>Reconciling until nothing asks for more\<close>

text \<open>
  A reconciliation is run again when it returned an error, and when an object of a kind named in
  \<open>SetupWithManager\<close> has changed: the service itself (\<open>For\<close>) or an object it owns (\<open>Owns\<close>). So a run that writes
  starts the next one. \<open>work\<close> is that loop for one service that nobody else changes, on a server with a schedule
  of faults and a log of the writes; it need not end, and \<open>None\<close> says that it does not.
  \<^item> \<open>work_converged\<close>: when the loop ends the objects of the service are as wanted, for any specification
    and any faults.
  \<^item> \<open>work_ends\<close>: it ends for every well-specified service and every schedule of faults, as long as the clock
    does not move on from one run to the next (it counts seconds).
  \<^item> \<open>work_endless\<close>: it never ends for a service that wants one object in two ways.
  \<^item> \<open>work_ticking\<close>: it never ends if the clock does move on in every run, as each run stamps the status.
\<close>

fun wakes :: "event \<Rightarrow> bool" where
  "wakes (Created ob) = (kobj_kind ob \<in> set SetupWithManager_Owns)"
| "wakes (Updated ob) = (kobj_kind ob \<in> set SetupWithManager_Owns)"
| "wakes (Deleted ob) = (kobj_kind ob \<in> set SetupWithManager_Owns)"
| "wakes (StatusWritten svc) = False"

definition asks_again ::
  "string \<Rightarrow> string \<Rightarrow> (key \<rightharpoonup> kobj) \<Rightarrow> unit outcome \<Rightarrow> event list \<Rightarrow> (key \<rightharpoonup> kobj) \<Rightarrow> bool" where
  "asks_again ns n before r es after \<longleftrightarrow>
     r \<noteq> Ok () \<or> list_ex wakes es \<or>
     after (SetupWithManager_For, ns, n) \<noteq> before (SetupWithManager_For, ns, n)"

partial_function (option) work ::
  "externals \<Rightarrow> 's api \<Rightarrow> 's store_view \<Rightarrow> string \<Rightarrow> string \<Rightarrow> 's \<times> fault list \<Rightarrow> ('s \<times> fault list) option" where
  "work X A view ns n t =
     (case Reconcile X (faulty_api (log_api A)) ns n ((fst t, []), snd t) of
        (r, ((s, es), fs)) \<Rightarrow>
          if asks_again ns n (view (fst t)) r es (view s) then work X A view ns n (s, fs) else Some (s, fs))"

text \<open>One round of the loop.\<close>

lemma work_step:
  assumes "Reconcile X (faulty_api (log_api A)) ns n ((s, []), fs) = (r, ((s', es), fs'))"
  shows "work X A view ns n (s, fs) =
    (if asks_again ns n (view s) r es (view s') then work X A view ns n (s', fs') else Some (s', fs'))"
  by (subst work.simps) (simp add: assms)

lemma work_healthy:
  assumes "Reconcile X (log_api A) ns n (s, []) = (r, (s', es))"
  shows "work X A view ns n (s, []) =
    (if asks_again ns n (view s) r es (view s') then work X A view ns n (s', []) else Some (s', []))"
  by (rule work_step) (simp add: Reconcile_healthy assms)

text \<open>Every write of the children is of a kind the controller watches.\<close>

lemma wakes_iff: "wakes e \<longleftrightarrow> stage e < 3"
proof -
  have "k \<in> set SetupWithManager_Owns \<longleftrightarrow> kind_stage k < 3" for k
    by (cases k) (simp_all add: SetupWithManager_Owns_def)
  then show ?thesis by (cases e) simp_all
qed

subsection \<open>The log of a run\<close>

text \<open>The end of a run reads and writes the status, and so adds to the log but takes nothing from it.\<close>

lemma getLWSStatus_keeps_log:
  "snd (fst (snd (getLWSStatus (faulty_api (log_api A)) svc role i t))) = snd (fst t)"
proof -
  have "snd (fst (snd (unreliable (typed_get (log_api A) lws_ops ns n) t))) = snd (fst t)" for ns n
    using unreliable_state [of "typed_get (log_api A) lws_ops ns n" t]
    by (cases "fst t") (auto simp: typed_get_log split: prod.splits)
  then show ?thesis
    by (simp add: getLWSStatus_def typed_get_faulty split: prod.split sum.split) (metis snd_conv)
qed

lemma aggregateLoop_keeps_log:
  "snd (fst (snd (aggregateLoop (faulty_api (log_api A)) svc role is agg t))) = snd (fst t)"
proof (induction "is" arbitrary: agg t)
  case (Cons i "is")
  then show ?case
    using getLWSStatus_keeps_log [of A svc role i t] by (simp split: prod.split) (metis snd_conv)
qed simp

lemma componentsLoop_keeps_log:
  "snd (fst (snd (componentsLoop (faulty_api (log_api A)) svc roles cs t))) = snd (fst t)"
proof (induction roles arbitrary: cs t)
  case (Cons role roles)
  then show ?case
    using aggregateLoop_keeps_log [of A svc role "int32_range (GetReplicaCount role)" initialAggregate t]
    by (auto simp: aggregateLWSStatus_def Let_def quiet_call_def split: prod.split)
qed simp

lemma finishReconcile_extends_log:
  "\<exists>es. snd (fst (snd (finishReconcile X (faulty_api (log_api A)) svc e ((s, lg), fs)))) = lg @ es"
proof -
  obtain cs s1 lg1 fs1 where cs: "componentsLoop (faulty_api (log_api A)) svc (isvc_Roles svc) [] ((s, lg), fs) =
      (cs, ((s1, lg1), fs1))" by (metis prod.exhaust)
  with componentsLoop_keeps_log [of A svc "isvc_Roles svc" "[]" "((s, lg), fs)"] have lg1: "lg1 = lg" by simp
  obtain now s2 where now: "api_Now A s1 = (now, s2)" by fastforce
  let ?svc = "setFinalCondition X now e (svc\<lparr>isvc_Status := (isvc_Status svc)\<lparr>Components := cs\<rparr>\<rparr>)"
  obtain q s3 lg3 fs3 where put: "unreliable (log_call (StatusWritten ?svc) (api_StatusUpdate A ?svc)) ((s2, lg), fs1) =
      (q, ((s3, lg3), fs3))" by (metis prod.exhaust)
  with unreliable_state [of "log_call (StatusWritten ?svc) (api_StatusUpdate A ?svc)" "((s2, lg), fs1)"]
  have "lg3 = lg \<or> lg3 = lg @ [StatusWritten ?svc]"
    by (auto simp: log_call_def split: prod.splits)
  with cs now put show ?thesis
    by (auto simp: lg1 finishReconcile_def updateComponentStatusInMemory_def Let_def quiet_call_def
        split: sum.split option.split)
qed

subsection \<open>When the loop ends\<close>

context cluster
begin

text \<open>The logging server is a server like the other.\<close>

lemma cluster_log: "cluster (log_api A) (\<lambda>t. view (fst t))"
proof -
  have q: "quiet_call f t = (fst (f (fst t)), (snd (f (fst t)), snd t))"
    and l: "log_call e g t = (fst (g (fst t)), (snd (g (fst t)), snd t @ [e]))" for f :: "'a \<Rightarrow> 'r \<times> 'a" and e g t
    by (simp_all add: quiet_call_def log_call_def split: prod.split)
  show ?thesis
  proof (unfold_locales, goal_cases)
    case (1 t) then show ?case by (rule view_key)
  next
    case 2 from get_found [OF this] show ?case by (auto simp: q)
  next
    case 3 from get_missing [OF this] show ?case by (auto simp: q)
  next
    case (4 ns sel t) from list_lws [of ns sel "fst t"] show ?case by (auto simp: q)
  next
    case (5 t) then show ?case by (simp add: q now_view)
  next
    case 6 from create_fresh [OF this] show ?case by (auto simp: l)
  next
    case 7 from create_taken [OF this] show ?case by (auto simp: l)
  next
    case 8 from update_existing [OF this] show ?case by (auto simp: l)
  next
    case 9 from update_missing [OF this] show ?case by (auto simp: l)
  next
    case 10 from delete_existing [OF this] show ?case by (auto simp: l)
  next
    case 11 from delete_missing [OF this] show ?case by (auto simp: l)
  next
    case 12 from status_update [OF this] show ?case by (auto simp: l)
  next
    case 13 from status_missing [OF this] show ?case by (auto simp: l)
  next
    case (14 owner m) then show ?case using set_owner [of owner m] by simp
  qed
qed

text \<open>A run that returns no error and wakes nobody has found, and left, the objects of the service as wanted.\<close>

lemma rest_converged:
  assumes stored: "view s (isvc_key svc) = Some (ObjInferSvc svc)" and quiet: "\<not> list_ex wakes es"
    and run: "Reconcile X (faulty_api (log_api A)) (isvc_Namespace svc) (isvc_Name svc) ((s, []), fs) = (Ok (), ((s', es), fs'))"
  shows "converged X svc (view s')"
proof -
  have "view (fst (s, [])) (isvc_key svc) = Some (ObjInferSvc svc)" using stored by simp
  note children = cluster.success_children [OF cluster_log this run]
  obtain t1 st t2 t3 fs3 where
    get: "typed_get (log_api A) inferencesvc_ops (isvc_Namespace svc) (isvc_Name svc) (s, []) = (Inr svc, t1)"
    and ini: "initialise X (log_api A) svc t1 = (with_status svc st, t2)" and v2: "view (fst t2) = view s"
    and ch: "reconcileChildren X (log_api A) (with_status svc st) t2 = (Ok (), t3)"
    and fin: "finishReconcile X (faulty_api (log_api A)) (with_status svc st) None (t3, fs3) = (Ok (), ((s', es), fs'))"
    by (rule children) (rule that, simp_all)
  obtain s2 where t2: "t2 = (s2, [])"
    using get ini by (cases t1; cases t2) (simp add: typed_get_log initialise_log)
  obtain s3 es3 where t3: "t3 = (s3, es3)" by fastforce
  from logged_reconcileChildren [of X A "with_status svc st"] ch t2 t3
  have "\<forall>e \<in> set es3. stage e \<le> 2" unfolding logged_def by (metis Pair_inject append_Nil)
  moreover from finishReconcile_extends_log [of X A "with_status svc st" None s3 es3 fs3] fin t3
  obtain es' where "es = es3 @ es'" by auto
  ultimately have "es3 = []"
    using quiet by (cases es3) (auto simp: wakes_iff list_ex_iff)
  with auditedD(2,3) [OF audited_reconcileChildren ch [unfolded t2 t3]] v2 t2
  have "converged X svc (view s3)" by simp
  with cluster.finish_converged [OF cluster_log _ fin] t3 show ?thesis by simp
qed

text \<open>Whatever a run does, the service stays stored, and as many entries of the schedule are used up.\<close>

lemma run_intact:
  assumes "Reconcile X (faulty_api (log_api A)) (isvc_Namespace svc) (isvc_Name svc) ((s, lg), fs) = (r, ((s', es), fs'))"
  shows "stored svc (view s) \<Longrightarrow> stored svc (view s')" and "intact svc (view s) \<Longrightarrow> intact svc (view s')"
proof -
  have t: "touches X svc (view s) (view s')" if "stored svc (view s)"
  proof -
    from that obtain st where st: "view s (isvc_key (with_status svc st)) = Some (ObjInferSvc (with_status svc st))"
      by (auto simp: stored_def)
    from cluster.Reconcile_touches [OF cluster_log, of X "with_status svc st"] assms st
    show ?thesis by fastforce
  qed
  show "stored svc (view s) \<Longrightarrow> stored svc (view s')" and "intact svc (view s) \<Longrightarrow> intact svc (view s')"
    using kept_by_touches [OF stored_kept t] kept_by_touches [OF intact_kept t] by (auto simp: intact_def)
qed

end

theorem work_converged:
  assumes "work X A view ns n t = Some u" and "cluster A view" and "ns = isvc_Namespace svc" and "n = isvc_Name svc"
    and "stored svc (view (fst t))"
  shows "converged X svc (view (fst u))"
  using assms(2-5)
proof (induction rule: work.raw_induct [OF _ assms(1)])
  case (1 again X A view ns n t u)
  obtain r s es fs where run: "Reconcile X (faulty_api (log_api A)) ns n ((fst t, []), snd t) = (r, ((s, es), fs))"
    by (metis prod.exhaust)
  note run' = run [unfolded "1.prems"(2,3)]
  show ?case
  proof (cases "asks_again ns n (view (fst t)) r es (view s)")
    case True
    with 1(2) run have "again X A view ns n (s, fs) = Some u" by simp
    from 1(1) [OF this "1.prems"(1-3)] cluster.run_intact(1) [OF "1.prems"(1) run' "1.prems"(4)]
    show ?thesis by simp
  next
    case False
    with 1(2) run have u: "u = (s, fs)" by simp
    from "1.prems"(4) obtain st where "view (fst t) (isvc_key svc) = Some (ObjInferSvc (with_status svc st))"
      by (auto simp: stored_def)
    with cluster.rest_converged [OF "1.prems"(1), of "fst t" "with_status svc st" es X "snd t" s fs] run' False
    show ?thesis by (simp add: u asks_again_def)
  qed
qed

text \<open>Without faults the status it leaves describes the objects, too.\<close>

theorem work_status:
  assumes "work X A view ns n t = Some u" and "cluster A view" and "ns = isvc_Namespace svc" and "n = isvc_Name svc"
    and "condition_laws X" and "well_specified X svc" and "distinct (map role_Name (served_roles svc))"
    and "intact svc (view (fst t))" and "snd t = []"
  shows "\<exists>st0 st. view (fst u) (isvc_key svc) = Some (ObjInferSvc (with_status svc st)) \<and>
    good_status (with_status svc st0) (view (fst u)) st"
  using assms(2-9)
proof (induction rule: work.raw_induct [OF _ assms(1)])
  case (1 again X A view ns n t u)
  note log = cluster.cluster_log [OF "1.prems"(1)]
  from "1.prems"(7) obtain st0 where st0: "view (fst t) (isvc_key svc) = Some (ObjInferSvc (with_status svc st0))"
    and sound: "labels_sound svc (view (fst t))" by (auto simp: intact_def stored_def)
  have "\<exists>st u'. Reconcile X (log_api A) ns n (fst t, []) = (Ok (), u') \<and>
      view (fst u') (isvc_key svc) = Some (ObjInferSvc (with_status svc st)) \<and> good_status (with_status svc st0) (view (fst u')) st"
    using cluster.reconcile_achieves [OF log, of X "with_status svc st0" "(fst t, [])"] "1.prems"(2-6) st0 sound by auto
  then obtain st s es where run: "Reconcile X (log_api A) ns n (fst t, []) = (Ok (), (s, es))"
    and st: "view s (isvc_key svc) = Some (ObjInferSvc (with_status svc st))" "good_status (with_status svc st0) (view s) st"
    by auto
  then have faulty: "Reconcile X (faulty_api (log_api A)) ns n ((fst t, []), []) = (Ok (), ((s, es), []))"
    by (simp add: Reconcile_healthy)
  note intact = cluster.run_intact(2) [OF "1.prems"(1) faulty [unfolded "1.prems"(2,3)] "1.prems"(7)]
  show ?case
  proof (cases "asks_again ns n (view (fst t)) (Ok ()) es (view s)")
    case True
    with 1(2) faulty "1.prems"(8) have "again X A view ns n (s, []) = Some u" by simp
    from 1(1) [OF this "1.prems"(1-6)] intact show ?thesis by simp
  next
    case False
    with 1(2) faulty "1.prems"(8) have "u = (s, [])" by simp
    with st show ?thesis by auto
  qed
qed

subsection \<open>That it ends\<close>

context cluster
begin

text \<open>A run in a converged store rests if it leaves the service as it was.\<close>

lemma work_rests:
  assumes conv: "converged X svc (view s)" and stored: "view s (isvc_key svc) = Some (ObjInferSvc (with_status svc st))"
    and run: "Reconcile X (log_api A) (isvc_Namespace svc) (isvc_Name svc) (s, []) = (Ok (), (s', es))" and same: "view s' = view s"
  shows "work X A view (isvc_Namespace svc) (isvc_Name svc) (s, []) = Some (s', [])"
proof -
  from Reconcile_quiet [of s "with_status svc st" X "[]" s' es] conv stored run obtain w where "es = [StatusWritten w]"
    by auto
  with same run show ?thesis by (simp add: work_healthy [OF run] asks_again_def isvc_key_def SetupWithManager_For_def)
qed

text \<open>Without faults: at most two runs that write, and one that does not.\<close>

lemma work_ends_converged:
  assumes laws: "condition_laws X" "condition_stable X" and spec: "well_specified X svc"
    and dist: "distinct (map role_Name (served_roles svc))" and clock: "\<forall>u. fst (api_Now A u) = now"
    and conv: "converged X svc (view s)" and stored: "view s (isvc_key svc) = Some (ObjInferSvc (with_status svc st))"
  shows "\<exists>u. work X A view (isvc_Namespace svc) (isvc_Name svc) (s, []) = Some u"
proof -
  let ?ns = "isvc_Namespace svc" and ?n = "isvc_Name svc" and ?svc = "with_status svc st"
  from cluster.reconcile_final [OF cluster_log, of X ?svc "(s, [])"] spec dist conv stored obtain st' t where
    t: "Reconcile X (log_api A) ?ns ?n (s, []) = (Ok (), t)"
      "view (fst t) = (view s)(isvc_key svc \<mapsto> ObjInferSvc (with_status svc st'))"
    and st': "final_status X ?svc (view s) st'" "timed (log_api A) (Components st')" by auto
  obtain s1 es where run: "Reconcile X (log_api A) ?ns ?n (s, []) = (Ok (), (s1, es))" and t': "t = (s1, es)"
    using t by (cases t) simp
  have conv1: "converged X svc (view s1)"
    using converged_cong [OF _ conv, of "view s1"] t(2) t' by simp
  have clock': "\<forall>u. fst (api_Now (log_api A) u) = now" using clock by (simp add: quiet_call_def split: prod.split) (metis fst_conv)
  from cluster.reconcile_rests [OF cluster_log laws _ _ clock', of ?svc "(s1, [])" st' "view s"] spec dist conv1 t(2) t' st'
  obtain t2 where "Reconcile X (log_api A) ?ns ?n (s1, []) = (Ok (), t2)" "view (fst t2) = view s1"
    by (auto simp: isvc_key_def)
  with work_rests [OF conv1, of st'] t(2) t' have "work X A view ?ns ?n (s1, []) = Some (fst t2, [])"
    by (cases t2) simp
  with work_healthy [OF run, of view] show ?thesis by (cases "asks_again ?ns ?n (view s) (Ok ()) es (view s1)") simp_all
qed

theorem work_ends:
  assumes laws: "condition_laws X" "condition_stable X" and spec: "well_specified X svc"
    and dist: "distinct (map role_Name (served_roles svc))" and clock: "\<forall>u. fst (api_Now A u) = now"
    and "intact svc (view s)"
  shows "\<exists>u. work X A view (isvc_Namespace svc) (isvc_Name svc) (s, fs) = Some u"
  using assms(6)
proof (induction "length fs" arbitrary: s fs rule: less_induct)
  case less
  let ?ns = "isvc_Namespace svc" and ?n = "isvc_Name svc"
  obtain r s1 es fs1 where run: "Reconcile X (faulty_api (log_api A)) ?ns ?n ((s, []), fs) = (r, ((s1, es), fs1))"
    by (metis prod.exhaust)
  from run_intact(2) [OF run less.prems] have intact: "intact svc (view s1)" .
  show ?case
  proof (cases "fs = []")
    case False
    from Reconcile_rest [of X "log_api A" ?ns ?n "((s, []), fs)"] run False have "length fs1 < length fs"
      by (cases fs) auto
    from less.hyps [OF this intact] work_step [OF run, of view] show ?thesis
      by (cases "asks_again ?ns ?n (view s) r es (view s1)") simp_all
  next
    case True
    from less.prems obtain st0 where st0: "view s (isvc_key svc) = Some (ObjInferSvc (with_status svc st0))"
      and sound: "labels_sound svc (view s)" by (auto simp: intact_def stored_def)
    from cluster.reconcile_achieves [OF cluster_log laws(1), of "with_status svc st0" "(s, [])"] spec dist st0 sound
    obtain st t where t: "Reconcile X (log_api A) ?ns ?n (s, []) = (Ok (), t)"
      "view (fst t) (isvc_key svc) = Some (ObjInferSvc (with_status svc st))" "converged X svc (view (fst t))" by auto
    obtain s2 es2 where t': "t = (s2, es2)" by fastforce
    from work_ends_converged [OF laws spec dist clock t(3,2)] work_healthy [OF t(1) [unfolded t'], of view] t' True
    show ?thesis by (cases "asks_again ?ns ?n (view s) (Ok ()) es2 (view s2)") simp_all
  qed
qed

end

text \<open>A service that wants one object in two ways works for ever.\<close>

theorem work_endless:
  assumes "cluster A view" and "stored svc (view s)"
    and "(k, ls) \<in> wanted X svc" and "(k, ls') \<in> wanted X svc" and "fst k \<noteq> KindServiceAccount"
    and "label_of ls LabelSpecHash \<noteq> label_of ls' LabelSpecHash"
  shows "work X A view (isvc_Namespace svc) (isvc_Name svc) (s, fs) = None"
proof (rule ccontr)
  assume "work X A view (isvc_Namespace svc) (isvc_Name svc) (s, fs) \<noteq> None"
  then obtain u where "work X A view (isvc_Namespace svc) (isvc_Name svc) (s, fs) = Some u" by auto
  from work_converged [OF this assms(1) refl refl] assms(2) have "converged X svc (view (fst u))" by simp
  then have "settled k ls (view (fst u))" "settled k ls' (view (fst u))" using converged_settled assms(3-5) by blast+
  with assms(6) show False by (auto simp: settled_def)
qed

subsection \<open>A clock that moves on\<close>

text \<open>The server's clock shows a time that no component of a stored service carries.\<close>

definition ticking :: "'s api \<Rightarrow> 's store_view \<Rightarrow> bool" where
  "ticking A view \<longleftrightarrow>
     (\<forall>s k svc p. view s k = Some (ObjInferSvc svc) \<longrightarrow> p \<in> set (Components (isvc_Status svc)) \<longrightarrow>
        cs_LastUpdateTime (snd p) \<noteq> Some (fst (api_Now A s)))"

context writes
begin

text \<open>Some component carries a time that was read while the store was as it is.\<close>

lemma componentsLoop_stamps:
  assumes "(\<exists>p \<in> set cs. \<exists>u. w u = w t \<and> cs_LastUpdateTime (snd p) = Some (fst (api_Now B u))) \<or>
    (\<exists>role \<in> set roles. role_ComponentType role \<noteq> ComponentTypeRouter)"
  shows "\<exists>p \<in> set (fst (componentsLoop B svc roles cs t)).
    \<exists>u. w u = w t \<and> cs_LastUpdateTime (snd p) = Some (fst (api_Now B u))"
  using assms
proof (induction roles arbitrary: cs t)
  case (Cons role roles)
  show ?case
  proof (cases "role_ComponentType role = ComponentTypeRouter")
    case False
    obtain st t1 where st: "aggregateLWSStatus B svc role t = (st, t1)" by fastforce
    let ?st = "st\<lparr>cs_NodesPerReplica := GetNodeCount role, cs_DesiredReplicas := GetReplicaCount role,
      cs_TotalPods := GetReplicaCount role * GetNodeCount role, cs_LastUpdateTime := Some (fst (api_Now B t1))\<rparr>"
    let ?t2 = "snd (api_Now B t1)" and ?cs = "AList.update (role_Name role) ?st cs"
    from componentsLoop_keeps [of svc "[role]" cs t] False st have w2: "w ?t2 = w t"
      by (simp add: Let_def case_prod_unfold)
    then have w1: "w t1 = w ?t2" by (simp add: now_keeps)
    have "(role_Name role, ?st) \<in> set ?cs" by (induction cs) auto
    with w1 have "\<exists>p \<in> set ?cs. \<exists>u. w u = w ?t2 \<and> cs_LastUpdateTime (snd p) = Some (fst (api_Now B u))"
      by (intro bexI [of _ "(role_Name role, ?st)"] exI [of _ t1]) simp_all
    with Cons.IH [of ?cs ?t2] w2 False st show ?thesis by (simp add: Let_def case_prod_unfold)
  qed (use Cons in auto)
qed simp

lemma children_keep_service: "preserves w (\<lambda>v. v (isvc_key svc) = ob) (reconcileChildren X B svc) (\<lambda>_. True)"
proof (rule reconcileChildren_preserves)
  show "puts_keep X svc (\<lambda>v. v (isvc_key svc) = ob)"
    unfolding puts_keep_def
  proof (intro allI impI)
    fix v k o' assume "v (isvc_key svc) = ob" and "(k, kobj_labels o') \<in> wanted X svc"
    with wanted_kind [of k "kobj_labels o'" X svc] show "(v(k \<mapsto> o')) (isvc_key svc) = ob"
      by (auto simp: isvc_key_def)
  qed
  show "cleanup_keeps B w svc (\<lambda>v. v (isvc_key svc) = ob)"
    unfolding cleanup_keeps_def
    by (auto intro!: cleanup_preserves [where L = "\<lambda>_. True"] simp: isvc_key_def kobj_key_def)
qed

end

context cluster
begin

text \<open>With such a clock every status that is written differs from the one before.\<close>

lemma finish_ticks:
  assumes tick: "ticking A view" and roles: "served_roles svc \<noteq> []"
    and stored: "view s (isvc_key svc) = Some (ObjInferSvc (with_status svc st0))"
    and fin: "finishReconcile X (faulty_api A) svc None (s, fs) = (Ok (), t)"
  shows "view (fst t) (isvc_key svc) \<noteq> view s (isvc_key svc)"
proof
  assume same: "view (fst t) (isvc_key svc) = view s (isvc_key svc)"
  obtain cs s1 fs1 where cs: "componentsLoop (faulty_api A) svc (isvc_Roles svc) [] (s, fs) = (cs, (s1, fs1))"
    by (metis prod.exhaust)
  from faulty.componentsLoop_keeps [of svc "isvc_Roles svc" "[]" "(s, fs)"] cs have v1: "view s1 = view s" by simp
  let ?svc = "with_status svc ((isvc_Status svc)\<lparr>Components := cs\<rparr>)"
  obtain now s2 where now: "api_Now A s1 = (now, s2)" by fastforce
  with now_view [of s1] v1 have v2: "view s2 = view s" by simp
  from setFinalCondition_with_status [of X now None ?svc] obtain st where
    st: "setFinalCondition X now None ?svc = with_status svc st" "Components st = cs" by auto
  obtain q s3 fs3 where put: "unreliable (api_StatusUpdate A (with_status svc st)) (s2, fs1) = (q, (s3, fs3))"
    by (metis prod.exhaust)
  with fin cs now st have "q = Inr ()" and t: "t = (s3, fs3)"
    by (auto simp: finishReconcile_def updateComponentStatusInMemory_def Let_def split: sum.splits)
  with put have "api_StatusUpdate A (with_status svc st) s2 = (Inr (), s3)"
    by (cases rule: unreliable_cases) auto
  moreover from status_update [of s2 "with_status svc st" "with_status svc st0"] stored v2 obtain s3' where
    "api_StatusUpdate A (with_status svc st) s2 = (Inr (), s3')"
    "view s3' = (view s)(isvc_key svc \<mapsto> ObjInferSvc (with_status svc st))" by auto
  ultimately have "st = st0" using same t stored by simp
  moreover obtain p u where "p \<in> set cs" "view (fst u) = view s" "cs_LastUpdateTime (snd p) = Some (fst (api_Now A (fst u)))"
    using faulty.componentsLoop_stamps [of "[]" "(s, fs)" "isvc_Roles svc" svc] cs roles
    by (auto simp: served_roles_def filter_empty_conv)
  moreover have "view s k = Some (ObjInferSvc v) \<Longrightarrow> p \<in> set (Components (isvc_Status v)) \<Longrightarrow>
      cs_LastUpdateTime (snd p) \<noteq> Some (fst (api_Now A u))" if "view u = view s" for k v p u
    using tick that unfolding ticking_def by metis
  ultimately show False using stored st(2) by fastforce
qed

lemma ticking_log: "ticking A view \<Longrightarrow> ticking (log_api A) (\<lambda>t. view (fst t))"
  unfolding ticking_def by (simp add: quiet_call_def split: prod.split) (metis fst_conv)

lemma run_ticks:
  assumes tick: "ticking A view" and roles: "served_roles svc \<noteq> []"
    and stored: "view s (isvc_key svc) = Some (ObjInferSvc svc)"
    and run: "Reconcile X (faulty_api A) (isvc_Namespace svc) (isvc_Name svc) (s, fs) = (Ok (), t)"
  shows "view (fst t) (isvc_key svc) \<noteq> view s (isvc_key svc)"
proof -
  from success_children [OF stored run] obtain s1 st s2 s3 fs3 where v2: "view s2 = view s"
    and ch: "reconcileChildren X A (with_status svc st) s2 = (Ok (), s3)"
    and fin: "finishReconcile X (faulty_api A) (with_status svc st) None (s3, fs3) = (Ok (), t)" .
  have "view s3 (isvc_key svc) = Some (ObjInferSvc svc)"
    using preservesD(1) [OF writes.children_keep_service [OF cluster_writes] ch] v2 stored by simp
  with finish_ticks [OF tick _ _ fin, of "isvc_Status svc"] roles stored show ?thesis by simp
qed

end

theorem work_ticking:
  assumes "work X A view ns n t = Some u" and "cluster A view" and "ns = isvc_Namespace svc" and "n = isvc_Name svc"
    and "stored svc (view (fst t))" and "ticking A view" and "served_roles svc \<noteq> []"
  shows False
  using assms(2-7)
proof (induction rule: work.raw_induct [OF _ assms(1)])
  case (1 again X A view ns n t u)
  obtain r s es fs where run: "Reconcile X (faulty_api (log_api A)) ns n ((fst t, []), snd t) = (r, ((s, es), fs))"
    by (metis prod.exhaust)
  note run' = run [unfolded "1.prems"(2,3)]
  from "1.prems"(4) obtain st where st: "view (fst t) (isvc_key svc) = Some (ObjInferSvc (with_status svc st))"
    by (auto simp: stored_def)
  have "asks_again ns n (view (fst t)) r es (view s)"
  proof (cases "r = Ok ()")
    case True
    from cluster.run_ticks [OF cluster.cluster_log [OF "1.prems"(1)] cluster.ticking_log [OF "1.prems"(1,5)],
        of "with_status svc st" "(fst t, [])" X "snd t" "((s, es), fs)"] "1.prems"(6) st run' True
    show ?thesis by (simp add: asks_again_def "1.prems"(2,3) SetupWithManager_For_def isvc_key_def)
  qed (simp add: asks_again_def)
  with 1(2) run have "again X A view ns n (s, fs) = Some u" by simp
  from 1(1) [OF this "1.prems"(1-3) _ "1.prems"(5,6)] cluster.run_intact(1) [OF "1.prems"(1) run' "1.prems"(4)]
  show ?case by simp
qed

end
