(* ===== verification/Worlds.thy ===== *)
theory Worlds
  imports Lifecycle Fleet EventLoop
begin

section \<open>Sample servers and services\<close>

text \<open>
  Inputs for whole reconciliations: \<open>sample_world svc\<close> is a list-based server that stores only the
  service; \<open>demo_service\<close> has a multi-node prefiller, a decoder and a router; \<open>idle_service\<close> has one
  worker role with no replica. \<open>failing\<close> makes one kind of call of a server fail.
\<close>

definition sample_world :: "inference_service \<Rightarrow> server" where
  "sample_world svc = \<lparr>srv_Objects = [(isvc_key svc, ObjInferSvc svc)], srv_Clock = 0\<rparr>"

definition sample_conditions :: externals where
  "sample_conditions = sample_externals\<lparr>ext_SetStatusCondition := upsert_condition\<rparr>"

lemma sample_condition_laws: "condition_laws sample_conditions"
  by (rule upsert_condition_laws) (simp add: sample_conditions_def)

lemma sample_condition_stable: "condition_stable sample_conditions"
  by (rule upsert_condition_stable) (simp add: sample_conditions_def)

text \<open>The list-based server with a clock that stands still.\<close>

definition still_api :: "server api" where
  "still_api = list_api\<lparr>api_Now := (\<lambda>s. (0, s))\<rparr>"

lemma still_cluster: "cluster still_api srv_lookup"
  using list_server.cluster_axioms
  by (simp add: still_api_def cluster_def cluster_axioms_def cluster_reads_def)

text \<open>The list-based server with a clock that is past every time in a stored status.\<close>

fun stamps :: "kobj \<Rightarrow> time list" where
  "stamps (ObjInferSvc svc) = map (\<lambda>p. the (cs_LastUpdateTime (snd p))) (Components (isvc_Status svc))"
| "stamps _ = []"

definition latest :: "server \<Rightarrow> time" where
  "latest s = foldr max (concat (map (stamps \<circ> snd) (srv_Objects s))) 0"

definition moving_api :: "server api" where
  "moving_api = list_api\<lparr>api_Now := (\<lambda>s. (latest s + 1, s))\<rparr>"

lemma moving_cluster: "cluster moving_api srv_lookup"
  using list_server.cluster_axioms
  by (simp add: moving_api_def cluster_def cluster_axioms_def cluster_reads_def)

lemma moving_ticks: "ticking moving_api srv_lookup"
  unfolding ticking_def
proof (intro allI impI)
  fix s k svc p assume "srv_lookup s k = Some (ObjInferSvc svc)" and p: "p \<in> set (Components (isvc_Status svc))"
  then have "(k, ObjInferSvc svc) \<in> set (srv_Objects s)"
    by (auto simp: srv_lookup_def split: option.splits if_splits dest: map_of_SomeD)
  with p have "the (cs_LastUpdateTime (snd p)) \<in> set (concat (map (stamps \<circ> snd) (srv_Objects s)))"
    by (auto intro!: bexI [of _ "(k, ObjInferSvc svc)"])
  moreover have "t \<in> set ts \<Longrightarrow> t \<le> foldr max ts 0" for t :: time and ts
    by (induction ts) auto
  ultimately have "the (cs_LastUpdateTime (snd p)) \<le> latest s" by (simp only: latest_def)
  then show "cs_LastUpdateTime (snd p) \<noteq> Some (fst (api_Now moving_api s))" by (auto simp: moving_api_def)
qed

lemma sample_world_lookup:
  "srv_lookup (sample_world svc) k = (if k = isvc_key svc then Some (ObjInferSvc svc) else None)"
  by (simp add: srv_lookup_def sample_world_def)

lemma sample_world_sound: "labels_sound svc' (srv_lookup (sample_world svc))"
  by (simp add: labels_sound_def carries_role_def sample_world_lookup isvc_key_def)

definition demo_service :: inference_service where
  "demo_service = sample_service ''demo''
     [sample_role ''p'' ComponentTypePrefiller 1 2, sample_role ''d'' ComponentTypeDecoder 2 1,
      sample_role ''r'' ComponentTypeRouter 1 1]"

lemma demo_service_names [simp]:
  "isvc_Name demo_service = ''demo''" "isvc_Namespace demo_service = ''default''"
  by (simp_all add: demo_service_def)

lemma demo_service_parts:
  "workers demo_service = [sample_role ''p'' ComponentTypePrefiller 1 2, sample_role ''d'' ComponentTypeDecoder 2 1]"
  "routers demo_service = [sample_role ''r'' ComponentTypeRouter 1 1]"
  "served_roles demo_service = [sample_role ''p'' ComponentTypePrefiller 1 2, sample_role ''d'' ComponentTypeDecoder 2 1]"
  by (simp_all add: demo_service_def workers_def routers_def served_roles_def isWorkerType_def)

lemma sample_buildable: "buildable sample_conditions svc (sample_role n t r k)"
  by (simp add: buildable_def buildPodSpec_def Let_def sample_conditions_def)

lemma demo_well_specified: "well_specified sample_conditions demo_service"
  by (simp add: well_specified_def demo_service_parts sample_buildable)

definition idle_service :: inference_service where
  "idle_service = sample_service ''idle'' [sample_role ''w'' ComponentTypeWorker 0 1]"

lemma idle_parts:
  "workers idle_service = [sample_role ''w'' ComponentTypeWorker 0 1]" "routers idle_service = []"
  "served_roles idle_service = [sample_role ''w'' ComponentTypeWorker 0 1]"
  "isvc_Name idle_service = ''idle''" "isvc_Namespace idle_service = ''default''"
  "\<not> NeedsGangScheduling idle_service"
  by (simp_all add: idle_service_def workers_def routers_def served_roles_def isWorkerType_def
      needs_gang_iff_gang_roles gang_roles_def gang_for_role_alt IsPDDisaggregated_iff IsMultiNode_def)

lemma idle_converged: "converged X idle_service (srv_lookup (sample_world idle_service))"
  by (auto simp: converged_def idle_parts podgroup_ok_def role_ok_def carries_role_def sample_world_lookup
      isvc_key_def GetReplicaCount_def in_int32_range)

lemma idle_well_specified: "well_specified sample_conditions idle_service"
  by (simp add: well_specified_def idle_parts sample_buildable)

text \<open>A server that refuses to create anything.\<close>

definition failing_create :: "server api" where
  "failing_create = list_api\<lparr>api_Create := (\<lambda>ob s. (Inl (OtherError ''quota exceeded''), s))\<rparr>"

lemma failing_create_simps [simp]:
  "api_Get failing_create = api_Get list_api"
  "api_Create failing_create ob s = (Inl (OtherError ''quota exceeded''), s)"
  "api_Now failing_create = api_Now list_api"
  "api_SetControllerReference failing_create = api_SetControllerReference list_api"
  by (simp_all add: failing_create_def)

lemma failing_create_get:
  "typed_get failing_create inferencesvc_ops (isvc_Namespace svc) (isvc_Name svc) (sample_world svc) =
     (Inr svc, sample_world svc)"
  by (simp add: typed_get_def list_api_def sample_world_lookup isvc_key_def inferencesvc_ops_def)

lemma demo_needs_gang: "NeedsGangScheduling demo_service"
  by (simp add: demo_service_def NeedsGangScheduling_def IsPDDisaggregated_iff)

lemma failing_podgroup:
  assumes "NeedsGangScheduling svc"
    and "srv_lookup s (KindPodGroup, isvc_Namespace svc, isvc_Name svc) = None"
  shows "reconcilePodGroup X failing_create svc s = (Err (OtherError ''quota exceeded''), s)"
proof -
  obtain pg where pg: "set_owner failing_create podgroup_ops (isvc_Meta svc) (BuildPodGroup X svc) s = (Ok pg, s)"
    "meta_Namespace (pg_Meta pg) = isvc_Namespace svc" "meta_Name (pg_Meta pg) = isvc_Name svc"
    by (simp add: set_owner_def list_api_def podgroup_ops_def)
  with assms have "createOrUpdate failing_create podgroup_ops pg s = (Err (OtherError ''quota exceeded''), s)"
    by (simp add: createOrUpdate_def typed_get_def list_api_def call_op_def)
  with pg(1) assms(1) show ?thesis by (simp add: reconcilePodGroup_def calls)
qed

lemma failing_demo:
  "\<exists>svc1 s2. initialise X failing_create demo_service (sample_world demo_service) = (svc1, s2) \<and>
     reconcilePodGroup X failing_create svc1 s2 = (Err (OtherError ''quota exceeded''), s2)"
proof -
  let ?svc1 = "setInitCondition X 0 demo_service"
  have ini: "initialise X failing_create demo_service (sample_world demo_service) =
      (?svc1, (sample_world demo_service)\<lparr>srv_Clock := 1\<rparr>)"
    by (simp add: initialise_def list_api_def sample_world_def demo_service_def)
  have "?svc1 = with_status demo_service (isvc_Status ?svc1)"
    by (simp add: condition_setters setCondition_def)
  then have "NeedsGangScheduling ?svc1" using demo_needs_gang scheduling_status(2) by metis
  then have "reconcilePodGroup X failing_create ?svc1 ((sample_world demo_service)\<lparr>srv_Clock := 1\<rparr>) =
      (Err (OtherError ''quota exceeded''), (sample_world demo_service)\<lparr>srv_Clock := 1\<rparr>)"
    by (rule failing_podgroup) (simp add: sample_world_lookup isvc_key_def)
  with ini show ?thesis by blast
qed

text \<open>Two services with the same LeaderWorkerSet name.\<close>

definition service_a :: inference_service where
  "service_a = sample_service ''a'' [sample_role ''b-c'' ComponentTypeWorker 1 1]"

definition service_ab :: inference_service where
  "service_ab = sample_service ''a-b'' [sample_role ''c'' ComponentTypeWorker 1 1]"

lemma colliding_parts:
  "workers service_a = [sample_role ''b-c'' ComponentTypeWorker 1 1]" "routers service_a = []"
  "served_roles service_a = [sample_role ''b-c'' ComponentTypeWorker 1 1]"
  "workers service_ab = [sample_role ''c'' ComponentTypeWorker 1 1]" "routers service_ab = []"
  "served_roles service_ab = [sample_role ''c'' ComponentTypeWorker 1 1]"
  "isvc_Name service_a = ''a''" "isvc_Name service_ab = ''a-b''"
  by (simp_all add: service_a_def service_ab_def workers_def routers_def served_roles_def isWorkerType_def)

lemma colliding_keys:
  "lws_key service_a (sample_role ''b-c'' ComponentTypeWorker 1 1) 0 =
   lws_key service_ab (sample_role ''c'' ComponentTypeWorker 1 1) 0"
  by (simp add: lws_key_def GenerateLWSNameWithIndex_def service_a_def service_ab_def)

lemma sample_conditions_hash:
  "ext_Dump sample_conditions = sample_dump" "ext_SafeEncode sample_conditions = (\<lambda>s. s)"
  by (simp_all add: sample_conditions_def)

lemma sample_hash:
  "label_of (replica_labels sample_conditions svc (sample_role n t r k) i) LabelSpecHash =
     dec (unat (fnv_write fnv_offset32 (isvc_Name svc)))"
proof -
  obtain l where l: "replica_lws sample_conditions svc (sample_role n t r k) i = Some l"
    using buildable_lws [OF sample_buildable] by blast
  note build = l [unfolded replica_lws_def]
  have "label_of (tmpl_Labels (lwss_WorkerTemplate (unhashed_spec (lws_Spec l)))) LabelService = isvc_Name svc"
    using BuildLWS_meta(3,6) [OF build]
    by (simp add: unhashed_spec_def drop_hash_label_def label_of_def)
  then have "sample_dump (HashLWSSpec (unhashed_spec (lws_Spec l))) = isvc_Name svc"
    by (simp add: sample_dump_def LabelService_def)
  with BuildLWS_hash_label [OF build] show ?thesis
    by (simp add: replica_labels_def l label_of_def ComputeSpecHash_alt sample_conditions_hash)
qed

lemma colliding_hashes:
  "label_of (replica_labels sample_conditions service_a (sample_role ''b-c'' ComponentTypeWorker 1 1) 0) LabelSpecHash \<noteq>
   label_of (replica_labels sample_conditions service_ab (sample_role ''c'' ComponentTypeWorker 1 1) 0) LabelSpecHash"
  unfolding sample_hash colliding_parts
  by (simp add: fnv_step_def fnv_offset32_def fnv_prime32_def)

lemma service_a_converges: "\<exists>v. converged sample_conditions service_a v"
proof -
  have "well_specified sample_conditions service_a"
    by (simp add: well_specified_def colliding_parts sample_buildable)
  moreover have "srv_lookup (sample_world service_a) (isvc_key service_a) = Some (ObjInferSvc service_a)"
    by (simp add: sample_world_lookup)
  ultimately show ?thesis
    using list_server.reconcile_achieves [OF sample_condition_laws, of service_a "sample_world service_a"]
      sample_world_sound by (auto simp: colliding_parts)
qed

text \<open>A service with two routers of different configurations, and a dump that shows a configuration.\<close>

definition sample_router :: "string \<Rightarrow> role" where
  "sample_router config = (sample_role ''gw'' ComponentTypeRouter 1 1)\<lparr>role_EndpointPickerConfig := config\<rparr>"

definition two_routers :: inference_service where
  "two_routers = sample_service ''twice'' [sample_router ''a'', sample_router ''b'']"

definition config_externals :: externals where
  "config_externals = sample_conditions\<lparr>ext_Dump :=
     (\<lambda>ob. case ob of HashConfigData d \<Rightarrow> label_of d EPPConfigFileName | _ \<Rightarrow> ''x'')\<rparr>"

lemma two_routers_wanted:
  assumes "config = ''a'' \<or> config = ''b''"
  shows "\<exists>ls. ((KindConfigMap, ''default'', GenerateEPPConfigMapName ''twice''), ls) \<in> wanted config_externals two_routers \<and>
    label_of ls LabelSpecHash = dec (unat (fnv_write fnv_offset32 config))"
proof -
  let ?w = "want configmap_ops (BuildEPPConfigMap config_externals two_routers (sample_router config))"
  have "?w \<in> wanted config_externals two_routers"
    using assms by (auto simp: wanted_def router_wants_def routers_def two_routers_def sample_router_def)
  moreover have "label_of (snd ?w) LabelSpecHash = dec (unat (fnv_write fnv_offset32 config))"
    using assms by (auto simp: want_def BuildEPPConfigMap_def kind_ops_defs new_meta_def label_of_def config_externals_def
        ComputeSpecHash_alt GenerateEPPConfig_def sample_router_def sample_conditions_hash)
  moreover have "fst ?w = (KindConfigMap, ''default'', GenerateEPPConfigMapName ''twice'')"
    by (simp add: want_def kind_keys two_routers_def)
  ultimately show ?thesis by (metis prod.collapse)
qed

text \<open>Two services on one server.\<close>

definition two_services :: server where
  "two_services = srv_put (ObjInferSvc service_a) (sample_world demo_service)"

lemma two_services_lookup:
  "srv_lookup two_services k = (if k = isvc_key service_a then Some (ObjInferSvc service_a)
     else if k = isvc_key demo_service then Some (ObjInferSvc demo_service) else None)"
  by (simp add: two_services_def srv_lookup_put sample_world_lookup)

lemma two_services_apart: "apart demo_service service_a" "apart service_a demo_service"
  by (simp_all add: apart_def colliding_parts prefix_def)

lemma two_services_stored:
  "srv_lookup two_services (isvc_key demo_service) = Some (ObjInferSvc demo_service)"
  "srv_lookup two_services (isvc_key service_a) = Some (ObjInferSvc service_a)"
  using apart_isvc_key [OF two_services_apart(1)] by (simp_all add: two_services_lookup)

lemma two_services_fleet: "fleet sample_conditions (set [demo_service, service_a])"
  using two_services_apart
  by (simp add: fleet_def demo_well_specified demo_service_parts well_specified_def colliding_parts sample_buildable)

lemma two_services_reachable: "reachable_fleet sample_conditions list_api srv_lookup two_services"
  by (rule reachable_fleet.start) (auto simp: two_services_lookup isvc_key_def split: if_splits)

abbreviation demo_world :: server where
  "demo_world \<equiv> sample_world demo_service"

lemma demo_world_reachable: "reachable_fleet sample_conditions list_api srv_lookup demo_world"
  by (rule reachable_fleet.start) (auto simp: sample_world_lookup isvc_key_def split: if_splits)

text \<open>A reachable state in which a labelled LeaderWorkerSet is stored.\<close>

lemma wanted_lws_kept:
  "kept_by X svc (\<lambda>v. \<forall>k ob. fst k = KindLWS \<longrightarrow> v k = Some ob \<longrightarrow> (k, kobj_labels ob) \<in> wanted X svc)"
  by (rule kept_byI) (auto simp: isvc_key_def split: if_splits)

lemma demo_replica_stored:
  "\<exists>s ob. reachable_fleet sample_conditions list_api srv_lookup s \<and>
     srv_lookup s (KindLWS, ''default'', ''demo-d-1'') = Some ob \<and>
     kobj_labels ob LabelService = Some ''demo'' \<and> kobj_labels ob LabelRoleName = Some ''d''"
proof -
  let ?d = "sample_role ''d'' ComponentTypeDecoder 2 1" and ?k = "(KindLWS, ''default'', ''demo-d-1'')"
  have stored: "srv_lookup (sample_world demo_service) (isvc_key demo_service) = Some (ObjInferSvc demo_service)"
    by (simp add: sample_world_lookup)
  have "distinct (map role_Name (served_roles demo_service))" by (simp add: demo_service_parts)
  from list_server.reconcile_achieves [OF sample_condition_laws demo_well_specified this sample_world_sound stored]
  obtain s1 where run: "Reconcile sample_conditions list_api ''default'' ''demo'' (sample_world demo_service) = (Ok (), s1)"
    and conv: "converged sample_conditions demo_service (srv_lookup s1)" by auto
  from run have run': "Reconcile sample_conditions (faulty_api list_api) ''default'' ''demo'' (sample_world demo_service, []) =
      (Ok (), (s1, []))" by (simp add: Reconcile_healthy)
  have key: "lws_key demo_service ?d 1 = ?k"
    by (simp add: lws_key_def GenerateLWSNameWithIndex_def fmt_d_def dec.simps)
  from conv have "role_ok sample_conditions demo_service ?d (srv_lookup s1)"
    by (simp add: converged_def demo_service_parts)
  moreover have "(1 :: int32) \<in> set (replicas_of ?d)" by (simp add: in_int32_range GetReplicaCount_def)
  ultimately obtain ob where ob: "srv_lookup s1 ?k = Some ob"
    unfolding role_ok_def settled_def key [symmetric] by blast
  have "touches sample_conditions demo_service (srv_lookup (sample_world demo_service)) (srv_lookup s1)"
    using list_server.Reconcile_touches [of sample_conditions demo_service "(sample_world demo_service, [])"] run' stored
    by simp
  then have "\<forall>k ob. fst k = KindLWS \<longrightarrow> srv_lookup s1 k = Some ob \<longrightarrow>
      (k, kobj_labels ob) \<in> wanted sample_conditions demo_service"
  proof (rule kept_by_touches [OF wanted_lws_kept], intro allI impI)
    fix k ob assume "fst k = KindLWS" "srv_lookup (sample_world demo_service) k = Some ob"
    then show "(k, kobj_labels ob) \<in> wanted sample_conditions demo_service"
      by (cases "k = isvc_key demo_service") (simp_all only: sample_world_lookup isvc_key_kind kind.distinct if_False option.distinct)
  qed
  with ob have "(?k, kobj_labels ob) \<in> wanted sample_conditions demo_service" by (metis fst_conv)
  then obtain role i where r: "i \<in> set (replicas_of role)" "?k = lws_key demo_service role i"
    "kobj_labels ob = replica_labels sample_conditions demo_service role i"
    "role \<in> set (workers demo_service)" by (auto elim: wanted_lws)
  from r(1,2) have "role_Name role = ''d''"
    using lws_key_inject [of 1 i demo_service ?d role] by (simp add: key in_int32_range)
  moreover obtain n t c k where "role = sample_role n t c k" using r(4) by (auto simp: demo_service_parts)
  then have "buildable sample_conditions demo_service role" by (simp add: sample_buildable)
  from buildable_lws [OF this] obtain l where "replica_lws sample_conditions demo_service role i = Some l" by blast
  ultimately have "kobj_labels ob LabelService = Some ''demo''" "kobj_labels ob LabelRoleName = Some ''d''"
    using r(3) BuildLWS_meta(3,4) [of sample_conditions demo_service role _ l]
    by (auto simp: replica_labels_def replica_lws_def)
  with reachable_fleet.run [OF demo_world_reachable run'] ob show ?thesis by blast
qed

end
