(* ===== verification/Collisions.thy ===== *)
theory Collisions
  imports Fleet
begin

section \<open>Two services of which the names collide\<close>

text \<open>
  The name of a LeaderWorkerSet is the names of its service and role with a dash between them, so a dash in
  one of the names can make two services want the same object. \<open>clashing\<close> says that they do, and want it
  with different spec hashes. \<open>fight\<close> is a turn of both services: whoever was reconciled last has what it
  wants, the other has not.
\<close>

definition clashing :: "externals \<Rightarrow> inference_service \<Rightarrow> role \<Rightarrow> inference_service \<Rightarrow> role \<Rightarrow> int32 \<Rightarrow> bool" where
  "clashing X a role b role' i \<longleftrightarrow>
     role \<in> set (workers a) \<and> role' \<in> set (workers b) \<and> i \<in> set (replicas_of role) \<and> i \<in> set (replicas_of role') \<and>
     label_of (replica_labels X a role i) LabelSpecHash \<noteq> label_of (replica_labels X b role' i) LabelSpecHash"

lemma same_lws_key:
  assumes "isvc_Namespace a = isvc_Namespace b"
    and "isvc_Name a @ ''-'' @ role_Name role = isvc_Name b @ ''-'' @ role_Name role'"
  shows "lws_key a role i = lws_key b role' i"
proof -
  have "isvc_Name a @ CHR ''-'' # role_Name role @ r = isvc_Name b @ CHR ''-'' # role_Name role' @ r" for r
    using arg_cong [OF assms(2), of "\<lambda>n. n @ r"] by simp
  with assms show ?thesis by (simp add: lws_key_def GenerateLWSNameWithIndex_def generateLWSName_def)
qed

lemma replica_settled:
  assumes "converged X svc v" and "role \<in> set (workers svc)" and "i \<in> set (replicas_of role)"
  shows "settled (lws_key svc role i) (replica_labels X svc role i) v"
  using assms by (simp add: converged_def role_ok_def)

text \<open>Both cannot have their way, neither at once nor without a write to the object.\<close>

lemma clashing_differ:
  assumes "clashing X a role b role' i" and "lws_key a role i = lws_key b role' i"
    and "converged X a v" and "converged X b v'"
  shows "v (lws_key a role i) \<noteq> v' (lws_key a role i)"
proof -
  from assms(1,3) have "settled (lws_key a role i) (replica_labels X a role i) v"
    by (simp add: clashing_def replica_settled)
  moreover from assms(1,4) have "settled (lws_key a role i) (replica_labels X b role' i) v'"
    unfolding assms(2) by (simp add: clashing_def replica_settled)
  ultimately show ?thesis using assms(1) by (auto simp: settled_def clashing_def)
qed

lemma clashing_excludes:
  assumes "clashing X a role b role' i" and "lws_key a role i = lws_key b role' i"
  shows "\<not> (converged X a v \<and> converged X b v)"
  using clashing_differ [OF assms, of v v] by blast

subsection \<open>Runs in turn\<close>

lemma stored_kept_other:
  assumes "isvc_key a \<noteq> isvc_key b"
  shows "kept_by X b (stored a)"
  by (rule kept_byI) (use assms in \<open>auto simp: stored_def carries_role_def isvc_key_def dest!: wanted_kind\<close>)

definition both_stored :: "inference_service \<Rightarrow> inference_service \<Rightarrow> (key \<rightharpoonup> kobj) \<Rightarrow> bool" where
  "both_stored a b v \<longleftrightarrow> named v \<and> stored a v \<and> stored b v"

lemma both_stored_kept:
  assumes "isvc_key a \<noteq> isvc_key b"
  shows "kept_by X a (both_stored a b)" and "kept_by X b (both_stored a b)"
  unfolding both_stored_def
  using assms named_kept [of X] stored_kept [of X] stored_kept_other [of a b X] stored_kept_other [of b a X]
  by (auto intro!: kept_by_conj)

definition fight :: "externals \<Rightarrow> 's api \<Rightarrow> inference_service \<Rightarrow> inference_service \<Rightarrow> 's \<Rightarrow> 's" where
  "fight X A a b s =
     snd (Reconcile X A (isvc_Namespace b) (isvc_Name b) (snd (Reconcile X A (isvc_Namespace a) (isvc_Name a) s)))"

context cluster
begin

lemma run_keeps_both:
  assumes laws: "condition_laws X" and spec: "well_specified X svc" "distinct (map role_Name (served_roles svc))"
    and svc: "svc = a \<or> svc = b" and ab: "isvc_key a \<noteq> isvc_key b" and s: "both_stored a b (view s)"
  shows "\<exists>s'. Reconcile X A (isvc_Namespace svc) (isvc_Name svc) s = (Ok (), s') \<and>
    converged X svc (view s') \<and> both_stored a b (view s')"
proof -
  from s svc have "stored svc (view s)" "labels_sound svc (view s)" by (auto simp: both_stored_def named_sound)
  then obtain st where at: "view s (isvc_key svc) = Some (ObjInferSvc (with_status svc st))" by (auto simp: stored_def)
  with reconcile_achieves [OF laws, of "with_status svc st" s] spec \<open>labels_sound svc (view s)\<close> obtain s' where
    run: "Reconcile X A (isvc_Namespace svc) (isvc_Name svc) s = (Ok (), s')" "converged X svc (view s')" by auto
  then have "touches X svc (view s) (view s')"
    using Reconcile_touches [of X "with_status svc st" "(s, [])" "Ok ()" "(s', [])"] at by (simp add: Reconcile_healthy)
  moreover have "kept_by X svc (both_stored a b)" using both_stored_kept [OF ab, of X] svc by auto
  ultimately have "both_stored a b (view s')" using kept_by_touches [of X svc "both_stored a b"] s by blast
  with run show ?thesis by blast
qed

lemma fight_stored:
  assumes "condition_laws X" and "well_specified X a" "distinct (map role_Name (served_roles a))"
    and "well_specified X b" "distinct (map role_Name (served_roles b))"
    and "isvc_key a \<noteq> isvc_key b" and "both_stored a b (view s)"
  shows "both_stored a b (view ((fight X A a b ^^ n) s))"
proof (induction n)
  case (Suc n)
  from run_keeps_both [OF assms(1-3) _ assms(6) Suc] obtain s1 where
    s1: "Reconcile X A (isvc_Namespace a) (isvc_Name a) ((fight X A a b ^^ n) s) = (Ok (), s1)" "both_stored a b (view s1)"
    by blast
  from run_keeps_both [OF assms(1,4,5) _ assms(6) s1(2)] s1(1)
  show ?case by (auto simp: fight_def [of X A a b "(fight X A a b ^^ n) s"])
qed (simp add: assms(7))

end

end
