(* ===== verification/Privileges.thy ===== *)
theory Privileges
  imports Setup Faults
begin

section \<open>The rights of the controller against those it hands out\<close>

text \<open>
  For a router the controller creates a Role for the endpoint picker. An API server refuses to store a Role
  that grants more than its author holds, unless the author has the verb \<open>escalate\<close> on roles. Here are all
  rights of the controller's account, from the markers (\<open>manager_role\<close>) and the roles of \<open>config/rbac\<close> that are
  bound to it, and an API server with this check (\<open>guarded_api\<close>) made from one without.
  The lemmas say that the check only matters for Roles, and what a reconciliation does under it.
\<close>

subsection \<open>Rights\<close>

text \<open>\<open>metrics_auth_role.yaml\<close>, bound in the whole cluster.\<close>

definition metrics_auth_rules :: "policy_rule list" where
  "metrics_auth_rules =
     [rbac_marker ''authentication.k8s.io'' [''tokenreviews''] [''create''],
      rbac_marker ''authorization.k8s.io'' [''subjectaccessreviews''] [''create'']]"

text \<open>\<open>leader_election_role.yaml\<close>, bound in the namespace the controller runs in.\<close>

definition leader_election_rules :: "policy_rule list" where
  "leader_election_rules =
     [rbac_marker '''' [''configmaps''] [''get'', ''list'', ''watch'', ''create'', ''update'', ''patch'', ''delete''],
      rbac_marker ''coordination.k8s.io'' [''leases''] [''get'', ''list'', ''watch'', ''create'', ''update'', ''patch'', ''delete''],
      rbac_marker '''' [''events''] [''create'', ''patch'']]"

definition controller_namespace :: string where
  "controller_namespace = ''fusioninfer-system''"

definition controller_rights :: "string \<Rightarrow> policy_rule list" where
  "controller_rights ns =
     manager_role @ metrics_auth_rules @ (if ns = controller_namespace then leader_election_rules else [])"

text \<open>Every right that \<open>granted\<close> gives is among \<open>rights\<close>.\<close>

definition covers :: "policy_rule list \<Rightarrow> policy_rule list \<Rightarrow> bool" where
  "covers rights granted =
     list_all (\<lambda>r. list_all (\<lambda>g. list_all (\<lambda>res. list_all (\<lambda>verb. permits rights (g, res) verb)
       (rule_Verbs r)) (rule_Resources r)) (rule_APIGroups r)) granted"

definition escalates :: "(string \<Rightarrow> policy_rule list) \<Rightarrow> kobj \<Rightarrow> bool" where
  "escalates rights ob =
     (case ob of
        ObjRole rb \<Rightarrow>
          \<not> permits (rights (meta_Namespace (rb_Meta rb))) (''rbac.authorization.k8s.io'', ''roles'') ''escalate'' \<and>
          \<not> covers (rights (meta_Namespace (rb_Meta rb))) (rb_Rules rb)
      | _ \<Rightarrow> False)"

definition guarded_api :: "(string \<Rightarrow> policy_rule list) \<Rightarrow> 's api \<Rightarrow> 's api" where
  "guarded_api rights A = A\<lparr>
     api_Create := (\<lambda>ob s. if escalates rights ob then (Inl (OtherError ''forbidden''), s) else api_Create A ob s),
     api_Update := (\<lambda>ob s. if escalates rights ob then (Inl (OtherError ''forbidden''), s) else api_Update A ob s)\<rparr>"

lemma guarded_api_simps [simp]:
  "api_Get (guarded_api rights A) = api_Get A" "api_Delete (guarded_api rights A) = api_Delete A"
  "api_ListLWS (guarded_api rights A) = api_ListLWS A" "api_Now (guarded_api rights A) = api_Now A"
  "api_StatusUpdate (guarded_api rights A) = api_StatusUpdate A"
  "api_SetControllerReference (guarded_api rights A) = api_SetControllerReference A"
  "\<not> escalates rights ob \<Longrightarrow> api_Create (guarded_api rights A) ob = api_Create A ob"
  "\<not> escalates rights ob \<Longrightarrow> api_Update (guarded_api rights A) ob = api_Update A ob"
  "escalates rights ob \<Longrightarrow> api_Create (guarded_api rights A) ob s = (Inl (OtherError ''forbidden''), s)"
  by (simp_all add: guarded_api_def fun_eq_iff)

lemma escalates_simps [simp]:
  "\<not> escalates rights (ObjLWS l)" "\<not> escalates rights (ObjPodGroup p)" "\<not> escalates rights (ObjServiceAccount a)"
  by (simp_all add: escalates_def)

text \<open>The Role of the endpoint picker lets it read pods, which the controller may not.\<close>

lemma epp_role_escalates:
  assumes "meta_Namespace (rb_Meta rb) = ns" and "rb_Rules rb = eppRules"
  shows "escalates controller_rights (ObjRole rb)"
proof -
  have "\<not> permits (controller_rights ns) ('''', ''pods'') ''list''"
    "\<not> permits (controller_rights ns) (''rbac.authorization.k8s.io'', ''roles'') ''escalate''"
    by (simp_all add: controller_rights_def manager_role_def manager_rules_def modelloader_rules_def
        metrics_auth_rules_def leader_election_rules_def all_verbs_def)
  with assms show ?thesis by (simp add: escalates_def covers_def eppRules_def)
qed

subsection \<open>Operations that write no Role\<close>

lemma guarded_same:
  "typed_get (guarded_api rights A) K ns n = typed_get A K ns n"
  "set_owner (guarded_api rights A) K owner obj = set_owner A K owner obj"
  "initialise X (guarded_api rights A) svc = initialise X A svc"
  by (simp_all add: fun_eq_iff typed_get_def set_owner_def initialise_def)

lemma guarded_writes:
  assumes "\<And>x. \<not> escalates rights (ko_Inject K x)"
  shows "createOrUpdate (guarded_api rights A) K = createOrUpdate A K"
    and "createIfMissing (guarded_api rights A) K = createIfMissing A K"
proof -
  have "api_Create (guarded_api rights A) (ko_Inject K x) = api_Create A (ko_Inject K x)"
    "api_Update (guarded_api rights A) (ko_Inject K x) = api_Update A (ko_Inject K x)" for x
    using assms by simp_all
  then show "createOrUpdate (guarded_api rights A) K = createOrUpdate A K"
    "createIfMissing (guarded_api rights A) K = createIfMissing A K"
    by (intro ext, simp add: createOrUpdate_def createIfMissing_def guarded_same split: prod.split sum.split)+
qed

lemma guarded_kinds:
  "createOrUpdate (guarded_api rights A) podgroup_ops = createOrUpdate A podgroup_ops"
  "createOrUpdate (guarded_api rights A) lws_ops = createOrUpdate A lws_ops"
  "createIfMissing (guarded_api rights A) serviceaccount_ops = createIfMissing A serviceaccount_ops"
  by (rule guarded_writes, simp add: podgroup_ops_def lws_ops_def serviceaccount_ops_def)+

lemma guarded_podgroup: "reconcilePodGroup X (guarded_api rights A) svc = reconcilePodGroup X A svc"
  by (simp add: reconcilePodGroup_def guarded_same guarded_kinds)

lemma guarded_role: "reconcileRole X (guarded_api rights A) svc role ws = reconcileRole X A svc role ws"
proof -
  have "reconcileReplica X (guarded_api rights A) svc role g = reconcileReplica X A svc role g" for g
    by (simp add: fun_eq_iff reconcileReplica_def guarded_same guarded_kinds split: option.split)
  moreover have "deleteOrphan (guarded_api rights A) = deleteOrphan A"
    by (simp add: fun_eq_iff deleteOrphan_def)
  then have "cleanupOrphanLWS (guarded_api rights A) svc role = cleanupOrphanLWS A svc role"
    by (intro ext) (simp add: cleanupOrphanLWS_def)
  ultimately show ?thesis by (simp add: reconcileRole_def reconcileLWS_def)
qed

lemma guarded_account: "reconcileEPPServiceAccount (guarded_api rights A) svc = reconcileEPPServiceAccount A svc"
  by (simp add: reconcileEPPServiceAccount_def guarded_same guarded_kinds)

lemma guarded_status: "finishReconcile X (guarded_api rights A) svc e = finishReconcile X A svc e"
proof -
  have get: "getLWSStatus (guarded_api rights A) = getLWSStatus A"
    by (simp add: fun_eq_iff getLWSStatus_def guarded_same)
  have "aggregateLoop (guarded_api rights A) sv role is agg s = aggregateLoop A sv role is agg s" for sv role "is" agg s
    by (induction "is" arbitrary: agg s) (simp_all add: get split: prod.split)
  then have agg: "aggregateLWSStatus (guarded_api rights A) sv role = aggregateLWSStatus A sv role" for sv role
    by (simp add: fun_eq_iff aggregateLWSStatus_def)
  have "componentsLoop (guarded_api rights A) sv roles cs s = componentsLoop A sv roles cs s" for sv roles cs s
    by (induction roles arbitrary: cs s) (simp_all add: agg split: prod.split)
  then have "updateComponentStatusInMemory (guarded_api rights A) = updateComponentStatusInMemory A"
    by (simp add: fun_eq_iff updateComponentStatusInMemory_def)
  then show ?thesis by (simp add: fun_eq_iff finishReconcile_def)
qed

subsection \<open>A service with a router\<close>

definition forbidden_role :: error where
  "forbidden_role = Wrapped ''failed to reconcile EPP Role: '' (OtherError ''forbidden'')"

definition epp_role_key :: "inference_service \<Rightarrow> key" where
  "epp_role_key svc = (KindRole, isvc_Namespace svc, GenerateEPPDeploymentName (isvc_Name svc))"

lemma epp_role_key_simps [simp]:
  "epp_role_key (with_status svc st) = epp_role_key svc"
  "epp_role_key svc \<noteq> account_key svc" "fst (epp_role_key svc) = KindRole"
  by (simp_all add: epp_role_key_def account_key_def)

context cluster
begin

lemma refused_role:
  assumes "view s (epp_role_key svc) = None"
  shows "\<exists>s'. reconcileEPPRole X (guarded_api controller_rights A) svc s = (Err (OtherError ''forbidden''), s') \<and>
    view s' = view s"
proof -
  let ?G = "guarded_api controller_rights A"
  from set_owner [of "isvc_Meta svc" "rb_Meta (BuildEPPRole X svc)"] obtain m where
    m: "api_SetControllerReference A (isvc_Meta svc) (rb_Meta (BuildEPPRole X svc)) = Inr m"
    "meta_Name m = GenerateEPPDeploymentName (isvc_Name svc)" "meta_Namespace m = isvc_Namespace svc" by auto
  let ?rb = "(BuildEPPRole X svc)\<lparr>rb_Meta := m\<rparr>"
  have "escalates controller_rights (ObjRole ?rb)"
    by (rule epp_role_escalates [OF refl]) (simp add: BuildEPPRole_def Let_def)
  moreover from get_missing [OF assms [unfolded epp_role_key_def]] obtain e s1 where
    "api_Get A KindRole (isvc_Namespace svc) (GenerateEPPDeploymentName (isvc_Name svc)) s = (Inl e, s1)"
    "IsNotFound e" "view s1 = view s" by blast
  ultimately show ?thesis
    using m by (simp add: reconcileEPPRole_def ensure_def bind_op_def set_owner_def role_ops_def createOrUpdate_def
        typed_get_def call_op_def)
qed

lemma refused_router:
  assumes "view s (epp_role_key svc) = None"
  shows "\<exists>s'. reconcileRouter X (guarded_api controller_rights A) svc role ws s = (Err forbidden_role, s') \<and>
    (\<forall>k. k \<noteq> account_key svc \<longrightarrow> view s' k = view s k)"
proof -
  from account_achieves [of svc] obtain s1 where s1: "reconcileEPPServiceAccount A svc s = (Ok (), s1)"
    "provides (account_key svc) (view s) (view s1)" unfolding achieves_def by blast
  with assms provides_other [OF s1(2)] have "view s1 (epp_role_key svc) = None" by simp
  from refused_role [OF this, of X] s1 provides_other [OF s1(2)] show ?thesis
    by (auto simp: reconcileRouter_def guarded_account forbidden_role_def calls)
qed

lemma refused_routers:
  assumes "view s (epp_role_key svc) = None" and "\<exists>r \<in> set rs. role_ComponentType r = ComponentTypeRouter"
  shows "\<exists>s'. loop_op (reconcileRouterRole X (guarded_api controller_rights A) svc ws) rs () s = (Err forbidden_role, s') \<and>
    (\<forall>k. k \<noteq> account_key svc \<longrightarrow> view s' k = view s k)"
  using assms(2)
proof (induction rs)
  case (Cons r rs)
  show ?case
  proof (cases "role_ComponentType r = ComponentTypeRouter")
    case True
    with refused_router [OF assms(1), of X r ws] show ?thesis by (auto simp: reconcileRouterRole_def calls)
  qed (use Cons in \<open>auto simp: reconcileRouterRole_def calls\<close>)
qed simp

lemma worker_roles_run:
  assumes "\<forall>r \<in> set rs. isWorkerType (role_ComponentType r) \<longrightarrow> buildable X svc r"
  shows "\<exists>ws' s'. loop_op (reconcileRole X A svc) rs ws s = (Ok ws', s') \<and>
    (\<forall>k. fst k \<noteq> KindLWS \<longrightarrow> view s' k = view s k)"
  using assms
proof (induction rs arbitrary: ws s)
  case (Cons r rs)
  show ?case
  proof (cases "isWorkerType (role_ComponentType r)")
    case True
    with Cons.prems reconcileLWS_effect [of X svc r s] obtain s1 where
      s1: "reconcileLWS X A svc r s = (Ok (), s1)" "role_effect X svc r (view s) (view s1)" by auto
    have "view s1 k = view s k" if "fst k \<noteq> KindLWS" for k
    proof -
      from that have "k \<notin> role_keys svc r" "\<not> carries_role svc r k (view s k)"
        by (auto simp: role_keys_def lws_key_def carries_role_def)
      with role_effect_rest [OF s1(2)] show ?thesis by simp
    qed
    with s1(1) Cons.IH [of "ws @ [r]" s1] Cons.prems True show ?thesis by (auto simp: reconcileRole_def calls)
  qed (use Cons in \<open>simp add: reconcileRole_def calls\<close>)
qed simp

lemma refused_children:
  assumes "view s (epp_role_key svc) = None" and "routers svc \<noteq> []" and "\<forall>role \<in> set (workers svc). buildable X svc role"
  shows "\<exists>s'. reconcileChildren X (guarded_api controller_rights A) svc s = (Err forbidden_role, s') \<and>
    (\<forall>k. fst k \<notin> {KindPodGroup, KindLWS, KindServiceAccount} \<longrightarrow> view s' k = view s k)"
proof -
  let ?G = "guarded_api controller_rights A"
  from reconcilePodGroup_effect [of X svc s] obtain s1 where s1: "reconcilePodGroup X A svc s = (Ok (), s1)"
    "\<forall>k. fst k \<noteq> KindPodGroup \<longrightarrow> view s1 k = view s k" by fastforce
  have "\<forall>r \<in> set (isvc_Roles svc). isWorkerType (role_ComponentType r) \<longrightarrow> buildable X svc r"
    using assms(3) by (simp add: workers_def)
  from worker_roles_run [OF this, of "[]" s1] obtain ws s2 where
    s2: "loop_op (reconcileRole X A svc) (isvc_Roles svc) [] s1 = (Ok ws, s2)"
    "\<forall>k. fst k \<noteq> KindLWS \<longrightarrow> view s2 k = view s1 k" by blast
  have none: "view s2 (epp_role_key svc) = None" using assms(1) s1(2) s2(2) by simp
  have "\<exists>r \<in> set (isvc_Roles svc). role_ComponentType r = ComponentTypeRouter"
    using assms(2) by (auto simp: routers_def filter_empty_conv)
  from refused_routers [OF none this, of X ws] obtain s3 where
    s3: "loop_op (reconcileRouterRole X ?G svc ws) (isvc_Roles svc) () s2 = (Err forbidden_role, s3)"
    "\<forall>k. k \<noteq> account_key svc \<longrightarrow> view s3 k = view s2 k" by blast
  have "reconcileRole X ?G svc = reconcileRole X A svc" by (simp add: fun_eq_iff guarded_role)
  with s1 s2 s3 have "reconcileChildren X ?G svc s = (Err forbidden_role, s3)"
    by (simp add: reconcileChildren_def guarded_podgroup calls)
  moreover have "view s3 k = view s k" if "fst k \<notin> {KindPodGroup, KindLWS, KindServiceAccount}" for k
  proof -
    from that have "k \<noteq> account_key svc" by (auto simp: account_key_def)
    with that s1(2) s2(2) s3(2) show ?thesis by simp
  qed
  ultimately show ?thesis by blast
qed

lemma failed_status:
  assumes "stored svc (view s)"
  shows "\<exists>s'. finishReconcile X A svc (Some e) s = (Err e, s') \<and> stored svc (view s') \<and>
    (\<forall>k. k \<noteq> isvc_key svc \<longrightarrow> view s' k = view s k)"
proof -
  obtain cs s1 where cs: "componentsLoop A svc (isvc_Roles svc) [] s = (cs, s1)" by fastforce
  with writes.componentsLoop_keeps [OF cluster_writes, of svc "isvc_Roles svc" "[]" s] have v1: "view s1 = view s" by simp
  obtain now s2 where now: "api_Now A s1 = (now, s2)" by fastforce
  with now_view [of s1] v1 have v2: "view s2 = view s" by simp
  let ?svc = "with_status svc ((isvc_Status svc)\<lparr>Components := cs\<rparr>)"
  from setFinalCondition_with_status [of X now "Some e" ?svc] obtain st where
    st: "setFinalCondition X now (Some e) ?svc = with_status svc st" by auto
  from assms obtain st0 where "view s2 (isvc_key svc) = Some (ObjInferSvc (with_status svc st0))"
    by (auto simp: stored_def v2)
  with status_update [of s2 "with_status svc st" "with_status svc st0"] obtain s3 where
    s3: "api_StatusUpdate A (with_status svc st) s2 = (Inr (), s3)"
      "view s3 = (view s)(isvc_key svc \<mapsto> ObjInferSvc (with_status svc st))" by (auto simp: v2)
  with cs now st have "finishReconcile X A svc (Some e) s = (Err e, s3)"
    by (simp add: finishReconcile_def updateComponentStatusInMemory_def)
  moreover have "stored svc (view s3)" unfolding stored_def s3(2) by auto
  ultimately show ?thesis using s3(2) by auto
qed

text \<open>One run: it fails, and the Role and everything that comes after it is as it was.\<close>

lemma refused_run:
  assumes "\<forall>role \<in> set (workers svc). buildable X svc role" and "routers svc \<noteq> []"
    and "stored svc (view s)" and "view s (epp_role_key svc) = None"
  shows "\<exists>s'. Reconcile X (guarded_api controller_rights A) (isvc_Namespace svc) (isvc_Name svc) s = (Err forbidden_role, s') \<and>
    stored svc (view s') \<and>
    (\<forall>k. fst k \<notin> {KindPodGroup, KindLWS, KindServiceAccount, KindInferenceService} \<longrightarrow> view s' k = view s k)"
proof -
  let ?G = "guarded_api controller_rights A"
  from assms(3) obtain st0 where st0: "view s (isvc_key svc) = Some (ObjInferSvc (with_status svc st0))"
    by (auto simp: stored_def)
  let ?svc0 = "with_status svc st0"
  have key: "inferencesvc_kind.key_of ?svc0 = isvc_key svc" by (simp add: kind_keys isvc_key_def)
  from inferencesvcs.typed_get_found [of s ?svc0 "ObjInferSvc ?svc0"] st0 obtain s1 where
    s1: "typed_get A inferencesvc_ops (isvc_Namespace svc) (isvc_Name svc) s = (Inr ?svc0, s1)" "view s1 = view s"
    by (auto simp: key) (auto simp: inferencesvc_ops_def)
  from writes.initialise_keeps [OF cluster_writes, of X ?svc0 s1] obtain st1 s2 where
    s2: "initialise X A ?svc0 s1 = (with_status svc st1, s2)" "view s2 = view s1" by auto
  let ?svc1 = "with_status svc st1"
  from assms s1(2) s2(2) have hyps: "view s2 (epp_role_key ?svc1) = None" "routers ?svc1 \<noteq> []"
    "\<forall>role \<in> set (workers ?svc1). buildable X ?svc1 role" by (simp_all add: buildable_def)
  from refused_children [OF hyps] obtain s3 where
    s3: "reconcileChildren X ?G ?svc1 s2 = (Err forbidden_role, s3)"
    and other3: "\<forall>k. fst k \<notin> {KindPodGroup, KindLWS, KindServiceAccount} \<longrightarrow> view s3 k = view s2 k" by blast
  have "view s3 (isvc_key svc) = Some (ObjInferSvc (with_status ?svc1 st0))"
    using other3 st0 s1(2) s2(2) by simp
  then have "stored ?svc1 (view s3)" unfolding stored_def by auto
  from failed_status [OF this, of X forbidden_role] obtain s4 where
    s4: "finishReconcile X A ?svc1 (Some forbidden_role) s3 = (Err forbidden_role, s4)" "stored ?svc1 (view s4)"
      "\<forall>k. k \<noteq> isvc_key svc \<longrightarrow> view s4 k = view s3 k" by auto
  from s4(2) have "stored svc (view s4)" by (auto simp: stored_def)
  moreover have "view s4 k = view s k"
    if "fst k \<notin> {KindPodGroup, KindLWS, KindServiceAccount, KindInferenceService}" for k
  proof -
    from that have "k \<noteq> isvc_key svc" by auto
    with that other3 s4(3) s1(2) s2(2) show ?thesis by simp
  qed
  moreover have "Reconcile X ?G (isvc_Namespace svc) (isvc_Name svc) s = (Err forbidden_role, s4)"
    using s1 s2 s3 s4(1) by (simp add: Reconcile_def guarded_same guarded_status)
  ultimately show ?thesis by blast
qed

lemma refused_runs:
  assumes "\<forall>role \<in> set (workers svc). buildable X svc role" and "routers svc \<noteq> []"
    and "stored svc (view s)" and "view s (epp_role_key svc) = None"
  shows "let t = ((\<lambda>s. snd (Reconcile X (guarded_api controller_rights A) (isvc_Namespace svc) (isvc_Name svc) s)) ^^ n) s
    in stored svc (view t) \<and>
      (\<forall>k. fst k \<notin> {KindPodGroup, KindLWS, KindServiceAccount, KindInferenceService} \<longrightarrow> view t k = view s k)"
proof (induction n)
  case (Suc n)
  let ?run = "\<lambda>s. Reconcile X (guarded_api controller_rights A) (isvc_Namespace svc) (isvc_Name svc) s"
  let ?t = "((\<lambda>s. snd (?run s)) ^^ n) s"
  from Suc assms(4) have t: "stored svc (view ?t)" "view ?t (epp_role_key svc) = None" by (simp_all add: Let_def)
  from refused_run [OF assms(1,2) t] Suc show ?case by (auto simp: Let_def)
qed (simp add: assms(3))

end

subsection \<open>Properties\<close>

text \<open>
  C28: On an API server that checks for privilege escalation, against the rights that \<open>config/rbac\<close> gives
  the controller, a service with a router is never served. If the Role of its endpoint picker is not there
  already, then every reconciliation, after any number of earlier ones, returns the error of the refused
  Role, and the Role, its binding, the ConfigMap, Deployment and Service of the picker, the InferencePool
  and the HTTPRoute are as they were at the start.
\<close>

theorem escalation_blocks_router:
  assumes "cluster A view" and "\<forall>role \<in> set (workers svc). buildable X svc role" and "routers svc \<noteq> []"
    and "view s (isvc_key svc) = Some (ObjInferSvc svc)"
    and "view s (KindRole, isvc_Namespace svc, GenerateEPPDeploymentName (isvc_Name svc)) = None"
  shows "\<exists>s'. Reconcile X (guarded_api controller_rights A) (isvc_Namespace svc) (isvc_Name svc)
      (((\<lambda>t. snd (Reconcile X (guarded_api controller_rights A) (isvc_Namespace svc) (isvc_Name svc) t)) ^^ n) s) =
        (Err (Wrapped ''failed to reconcile EPP Role: '' (OtherError ''forbidden'')), s') \<and>
    view s' (KindRole, isvc_Namespace svc, GenerateEPPDeploymentName (isvc_Name svc)) = None \<and>
    (\<forall>k. fst k \<in> {KindRole, KindRoleBinding, KindConfigMap, KindDeployment, KindService, KindInferencePool, KindHTTPRoute}
       \<longrightarrow> view s' k = view s k)"
proof -
  let ?run = "\<lambda>t. Reconcile X (guarded_api controller_rights A) (isvc_Namespace svc) (isvc_Name svc) t"
  let ?t = "((\<lambda>t. snd (?run t)) ^^ n) s"
  note none = assms(5) [folded epp_role_key_def]
  have stored: "stored svc (view s)" by (rule stored_self) (rule assms(4))
  from cluster.refused_runs [OF assms(1,2,3) stored none, of n] have t: "stored svc (view ?t)"
    "\<forall>k. fst k \<notin> {KindPodGroup, KindLWS, KindServiceAccount, KindInferenceService} \<longrightarrow> view ?t k = view s k"
    by (simp_all add: Let_def)
  with none have "view ?t (epp_role_key svc) = None" by simp
  from cluster.refused_run [OF assms(1,2,3) t(1) this] obtain s' where s': "?run ?t = (Err forbidden_role, s')"
    "\<forall>k. fst k \<notin> {KindPodGroup, KindLWS, KindServiceAccount, KindInferenceService} \<longrightarrow> view s' k = view ?t k" by blast
  with t(2) have same: "fst k \<notin> {KindPodGroup, KindLWS, KindServiceAccount, KindInferenceService} \<Longrightarrow> view s' k = view s k"
    for k by simp
  then have "view s' (epp_role_key svc) = None" using none by simp
  with s'(1) same show ?thesis
    unfolding forbidden_role_def epp_role_key_def by (intro exI [of _ s'] conjI allI impI) auto
qed

theorem escalation_blocks_router_witness:
  "\<exists>s'. Reconcile sample_externals (guarded_api controller_rights list_api) ''default'' ''a''
     (((\<lambda>t. snd (Reconcile sample_externals (guarded_api controller_rights list_api) ''default'' ''a'' t)) ^^ 3)
       (srv_put (ObjInferSvc (sample_service ''a'' [sample_role ''w'' ComponentTypeWorker 1 1, sample_role ''r'' ComponentTypeRouter 1 1]))
         \<lparr>srv_Objects = [], srv_Clock = 0\<rparr>)) =
     (Err (Wrapped ''failed to reconcile EPP Role: '' (OtherError ''forbidden'')), s') \<and>
   srv_lookup s' (KindRole, ''default'', ''a-epp'') = None \<and> srv_lookup s' (KindDeployment, ''default'', ''a-epp'') = None"
proof -
  let ?svc = "sample_service ''a'' [sample_role ''w'' ComponentTypeWorker 1 1, sample_role ''r'' ComponentTypeRouter 1 1]"
  let ?s = "srv_put (ObjInferSvc ?svc) \<lparr>srv_Objects = [], srv_Clock = 0\<rparr>"
  have parts: "workers ?svc = [sample_role ''w'' ComponentTypeWorker 1 1]" "routers ?svc = [sample_role ''r'' ComponentTypeRouter 1 1]"
    by (simp_all add: workers_def routers_def isWorkerType_def)
  have "srv_lookup ?s = Map.empty(isvc_key ?svc \<mapsto> ObjInferSvc ?svc)"
    by (simp add: srv_lookup_put) (simp add: srv_lookup_def fun_eq_iff)
  then have hyps: "srv_lookup ?s (isvc_key ?svc) = Some (ObjInferSvc ?svc)"
    "srv_lookup ?s (KindRole, isvc_Namespace ?svc, GenerateEPPDeploymentName (isvc_Name ?svc)) = None"
    "srv_lookup ?s (KindDeployment, ''default'', ''a-epp'') = None"
    by (simp_all add: isvc_key_def)
  have "\<forall>role \<in> set (workers ?svc). buildable sample_externals ?svc role"
    by (simp add: parts buildable_def IsMultiNode_def)
  moreover have "routers ?svc \<noteq> []" by (simp add: parts)
  ultimately have "\<exists>s'. Reconcile sample_externals (guarded_api controller_rights list_api) (isvc_Namespace ?svc) (isvc_Name ?svc)
      (((\<lambda>t. snd (Reconcile sample_externals (guarded_api controller_rights list_api) (isvc_Namespace ?svc) (isvc_Name ?svc) t)) ^^ 3) ?s) =
        (Err (Wrapped ''failed to reconcile EPP Role: '' (OtherError ''forbidden'')), s') \<and>
    srv_lookup s' (KindRole, isvc_Namespace ?svc, GenerateEPPDeploymentName (isvc_Name ?svc)) = None \<and>
    (\<forall>k. fst k \<in> {KindRole, KindRoleBinding, KindConfigMap, KindDeployment, KindService, KindInferencePool, KindHTTPRoute}
       \<longrightarrow> srv_lookup s' k = srv_lookup ?s k)"
    using hyps(1,2) by (rule escalation_blocks_router [OF list_server.cluster_axioms])
  with hyps(3) show ?thesis
    unfolding sample_service_simps GenerateEPPDeploymentName_def append.simps
    by (metis (no_types, lifting) fst_conv insert_iff)
qed

end
