(* ===== verification/Resources.thy ===== *)
theory Resources
  imports Scheduling Complex_Main
begin

section \<open>What a PodGroup reserves\<close>

text \<open>
  \<open>addRoleResources\<close> of \<open>podgroup.go\<close> multiplies the limits of the containers with the number of pods and adds
  them up. Limits are quantities of \<open>k8s.io/apimachinery\<close>: decimal numbers such as \<open>500m\<close>, of which the code reads
  \<open>Value()\<close>, rounded up. Here \<open>MinResources\<close> is compared with the sum of limit times pods, over the rational
  numbers, that the pods may really use.
\<close>

subsection \<open>Quantities and limits\<close>

text \<open>
  What the code relies on in \<open>resource.Quantity\<close>, where \<open>amount\<close> is the number a quantity stands for, half a CPU
  for \<open>500m\<close>: \<open>Value\<close> rounds up to the next integer, when that fits into 64 bits; \<open>Set\<close> makes a quantity of the
  given integer; \<open>Add\<close> adds without loss.
\<close>

definition quantity_laws :: "externals \<Rightarrow> (quantity \<Rightarrow> rat) \<Rightarrow> bool" where
  "quantity_laws X amount \<longleftrightarrow>
     (\<forall>q. 0 \<le> amount q \<and> \<lceil>amount q\<rceil> < 2 ^ 63 \<longrightarrow> sint (ext_QuantityValue X q) = \<lceil>amount q\<rceil>) \<and>
     (\<forall>q v. amount (ext_QuantitySet X q v) = of_int (sint v)) \<and>
     (\<forall>a b. amount (ext_QuantityAdd X a b) = amount a + amount b)"

text \<open>
  The specification: the number of pods of a role, as an unbounded integer, and for one resource all limits on it
  in the containers of the gang-scheduled roles, each with the number of pods it applies to.
\<close>

definition pods_of :: "role \<Rightarrow> int" where
  "pods_of role = sint (GetReplicaCount role) * sint (GetNodeCount role)"

definition role_containers :: "externals \<Rightarrow> role \<Rightarrow> container list" where
  "role_containers X role =
     (case raw_bytes (role_Template role) of
        None \<Rightarrow> []
      | Some raw \<Rightarrow> (case ext_ParseTemplate X raw of None \<Rightarrow> [] | Some t \<Rightarrow> pod_Containers (tmpl_Spec t)))"

definition container_limits :: "container \<Rightarrow> (string \<times> quantity) list" where
  "container_limits c = (case con_Limits c of None \<Rightarrow> [] | Some limits \<Rightarrow> limits)"

definition role_limits :: "externals \<Rightarrow> role \<Rightarrow> (string \<times> quantity) list" where
  "role_limits X role = concat (map container_limits (role_containers X role))"

definition gang_limits :: "externals \<Rightarrow> inference_service \<Rightarrow> string \<Rightarrow> (quantity \<times> int) list" where
  "gang_limits X svc n =
     concat (map (\<lambda>role. map (\<lambda>(_, q). (q, pods_of role)) (filter (\<lambda>(m, _). m = n) (role_limits X role)))
       (gang_roles svc))"

text \<open>The total quantities added for one role, in the order the loops reach them.\<close>

definition limit_request :: "externals \<Rightarrow> int32 \<Rightarrow> string \<times> quantity \<Rightarrow> string \<times> quantity" where
  "limit_request X pods entry =
     (fst entry, ext_QuantitySet X (snd entry)
        (ext_QuantityValue X (snd entry) * (word_of_int (sint pods) :: int64)))"

definition container_requests :: "externals \<Rightarrow> int32 \<Rightarrow> container \<Rightarrow> (string \<times> quantity) list" where
  "container_requests X pods c = map (limit_request X pods) (container_limits c)"

definition role_requests :: "externals \<Rightarrow> role \<Rightarrow> (string \<times> quantity) list" where
  "role_requests X role =
     concat (map (container_requests X (GetReplicaCount role * GetNodeCount role)) (role_containers X role))"

definition gang_requests :: "externals \<Rightarrow> inference_service \<Rightarrow> (string \<times> quantity) list" where
  "gang_requests X svc = concat (map (role_requests X) (gang_roles svc))"

definition add_request ::
  "externals \<Rightarrow> string \<times> quantity \<Rightarrow> (string \<rightharpoonup> quantity) \<Rightarrow> (string \<rightharpoonup> quantity)" where
  "add_request X p m =
     m(fst p \<mapsto> (case m (fst p) of Some e \<Rightarrow> ext_QuantityAdd X e (snd p) | None \<Rightarrow> snd p))"

lemma addLimit_request: "addLimit X pods entry m = add_request X (limit_request X pods entry) m"
  by (cases entry) (simp add: addLimit_def add_request_def limit_request_def Let_def split: option.splits)

lemma addContainer_requests:
  "addContainer X pods c m = fold (add_request X) (container_requests X pods c) m"
proof -
  have "fold (addLimit X pods) ls m = fold (add_request X) (map (limit_request X pods) ls) m" for ls
    by (induction ls arbitrary: m) (simp_all add: addLimit_request)
  then show ?thesis
    by (simp add: addContainer_def container_requests_def container_limits_def split: option.splits)
qed

lemma fold_concat: "fold f (concat xss) m = fold (\<lambda>xs. fold f xs) xss m"
  by (induction xss arbitrary: m) simp_all

lemma addRoleResources_requests:
  "addRoleResources X m role (GetReplicaCount role * GetNodeCount role) =
     fold (add_request X) (role_requests X role) m"
proof -
  have "fold (addContainer X pods) cs m = fold (add_request X) (concat (map (container_requests X pods) cs)) m"
    for pods cs
    by (induction cs arbitrary: m) (simp_all add: addContainer_requests)
  then show ?thesis
    by (simp add: addRoleResources_def role_requests_def role_containers_def split: option.splits)
qed

lemma BuildPodGroup_resources:
  "pgs_MinResources (pg_Spec (BuildPodGroup X svc)) = fold (add_request X) (gang_requests X svc) Map.empty"
proof -
  have "snd (snd (fold (addGangRole X svc) roles acc)) =
      fold (add_request X) (concat (map (role_requests X) roles)) (snd (snd acc))"
    if "\<forall>r \<in> set roles. role_ComponentType r \<noteq> ComponentTypeRouter \<and> NeedsGangSchedulingForRole svc r"
    for roles acc
    using that
  proof (induction roles arbitrary: acc)
    case (Cons r rs)
    then have "snd (snd (addGangRole X svc r acc)) = fold (add_request X) (role_requests X r) (snd (snd acc))"
      by (cases acc) (auto simp: addGangRole_def Let_def addRoleResources_requests split: prod.splits)
    with Cons show ?case by simp
  qed simp
  from this [OF gang_roles_gang, of "(0, Map.empty, Map.empty)"] show ?thesis
    by (simp add: BuildPodGroup_spec gang_requests_def)
qed

text \<open>The requests for one resource add up.\<close>

lemma fold_add_request:
  assumes "quantity_laws X amount"
  shows "case fold (add_request X) ps m n of
      None \<Rightarrow> m n = None \<and> filter (\<lambda>p. fst p = n) ps = []
    | Some r \<Rightarrow> amount r = (case m n of None \<Rightarrow> 0 | Some q \<Rightarrow> amount q) +
        (\<Sum>p \<leftarrow> filter (\<lambda>p. fst p = n) ps. amount (snd p))"
proof (induction ps arbitrary: m)
  case (Cons p ps)
  have "amount (ext_QuantityAdd X a b) = amount a + amount b" for a b
    using assms by (simp add: quantity_laws_def)
  with Cons [of "add_request X p m"] show ?case
    by (auto simp: add_request_def split: option.splits if_splits)
qed (simp split: option.split)

text \<open>A request is the limit, rounded up, times the number of pods, when neither product wraps around.\<close>

lemma sint_times64:
  "- (2 ^ 63) \<le> sint a * sint b \<Longrightarrow> sint a * sint b < 2 ^ 63 \<Longrightarrow>
    sint (a * b :: int64) = sint a * sint b"
  by (simp add: sint_word_ariths signed_take_bit_int_eq_self_iff)

lemma sint_word_of_int64: "- (2 ^ 63) \<le> k \<Longrightarrow> k < 2 ^ 63 \<Longrightarrow> sint (word_of_int k :: int64) = k"
  by (simp add: sint_sbintrunc' signed_take_bit_int_eq_self_iff)

lemma limit_request_amount:
  assumes laws: "quantity_laws X amount" and pods: "0 \<le> pods_of role" "pods_of role < 2 ^ 31"
    and q: "0 \<le> amount q" "\<lceil>amount q\<rceil> * pods_of role < 2 ^ 63"
  shows "amount (snd (limit_request X (GetReplicaCount role * GetNodeCount role) (n, q))) =
    of_int (\<lceil>amount q\<rceil> * pods_of role)"
proof -
  let ?p = "GetReplicaCount role * GetNodeCount role"
  have p: "sint ?p = pods_of role" using pods sint_times32 by (simp add: pods_of_def)
  have "sint (ext_QuantityValue X q * (word_of_int (sint ?p) :: int64)) = \<lceil>amount q\<rceil> * pods_of role"
  proof (cases "pods_of role = 0")
    case False
    have up: "0 \<le> \<lceil>amount q\<rceil>" using q(1) by simp
    have "\<lceil>amount q\<rceil> \<le> \<lceil>amount q\<rceil> * pods_of role"
      using mult_left_mono [OF _ up, of 1 "pods_of role"] False pods(1) by simp
    from this q(2) have "\<lceil>amount q\<rceil> < 2 ^ 63" by (rule le_less_trans)
    with laws q(1) have "sint (ext_QuantityValue X q) = \<lceil>amount q\<rceil>" by (simp add: quantity_laws_def)
    moreover have "0 \<le> \<lceil>amount q\<rceil> * pods_of role" using up pods(1) by simp
    moreover have "sint (word_of_int (pods_of role) :: int64) = pods_of role"
      using pods by (intro sint_word_of_int64) simp_all
    ultimately show ?thesis
      using sint_times64 [of "ext_QuantityValue X q" "word_of_int (pods_of role)"] q(2) by (simp add: p)
  qed (simp add: p)
  moreover have "amount (ext_QuantitySet X q v) = of_int (sint v)" for v
    using laws by (simp add: quantity_laws_def)
  ultimately show ?thesis by (simp only: limit_request_def snd_conv)
qed

lemma filter_concat: "filter P (concat xss) = concat (map (filter P) xss)"
  by (induction xss) simp_all

text \<open>The requests for a resource, compared one by one with the limits on it.\<close>

lemma role_requests_for:
  "filter (\<lambda>p. fst p = n) (role_requests X role) =
     map (limit_request X (GetReplicaCount role * GetNodeCount role)) (filter (\<lambda>(m, _). m = n) (role_limits X role))"
  by (simp add: role_requests_def role_limits_def container_requests_def filter_concat map_concat comp_def
      filter_map limit_request_def case_prod_unfold)

lemma requests_none: "filter (\<lambda>p. fst p = n) (gang_requests X svc) = [] \<longleftrightarrow> gang_limits X svc n = []"
  by (simp add: gang_requests_def gang_limits_def filter_concat role_requests_for)

lemma requests_total:
  assumes "quantity_laws X amount"
    and "\<forall>role \<in> set (gang_roles svc). 0 \<le> pods_of role \<and> pods_of role < 2 ^ 31"
    and "\<forall>(q, pods) \<in> set (gang_limits X svc n). 0 \<le> amount q \<and> \<lceil>amount q\<rceil> * pods < 2 ^ 63"
  shows "(\<Sum>p \<leftarrow> filter (\<lambda>p. fst p = n) (gang_requests X svc). amount (snd p)) =
    (\<Sum>(q, pods) \<leftarrow> gang_limits X svc n. of_int (\<lceil>amount q\<rceil> * pods))"
proof -
  have "map (\<lambda>p. amount (snd p)) (filter (\<lambda>p. fst p = n) (role_requests X role)) =
      map (\<lambda>(q, pods). of_int (\<lceil>amount q\<rceil> * pods))
        (map (\<lambda>(_, q). (q, pods_of role)) (filter (\<lambda>(m, _). m = n) (role_limits X role)))"
    if role: "role \<in> set (gang_roles svc)" for role
  proof -
    have "amount (snd (limit_request X (GetReplicaCount role * GetNodeCount role) e)) =
        of_int (\<lceil>amount (snd e)\<rceil> * pods_of role)"
      if e: "e \<in> set (filter (\<lambda>(m, _). m = n) (role_limits X role))" for e
    proof -
      have "(snd e, pods_of role) \<in> set (gang_limits X svc n)" using role e by (force simp: gang_limits_def)
      with assms(2,3) role limit_request_amount [OF assms(1), of role "snd e" "fst e"] show ?thesis by auto
    qed
    then show ?thesis by (simp add: role_requests_for case_prod_unfold)
  qed
  then have "map (\<lambda>p. amount (snd p)) (filter (\<lambda>p. fst p = n) (gang_requests X svc)) =
      map (\<lambda>(q, pods). of_int (\<lceil>amount q\<rceil> * pods)) (gang_limits X svc n)"
    by (simp add: gang_requests_def gang_limits_def filter_concat map_concat comp_def cong: map_cong)
  then show ?thesis by simp
qed

text \<open>Rounding up loses nothing, and gains nothing exactly on integers.\<close>

lemma sum_rounded:
  fixes amount :: "'q \<Rightarrow> rat"
  assumes "\<forall>(q, k) \<in> set ls. 0 \<le> k"
  shows "(\<Sum>(q, k) \<leftarrow> ls. amount q * of_int k) \<le> (\<Sum>(q, k) \<leftarrow> ls. of_int (\<lceil>amount q\<rceil> * k)) \<and>
    ((\<Sum>(q, k) \<leftarrow> ls. of_int (\<lceil>amount q\<rceil> * k)) = (\<Sum>(q, k) \<leftarrow> ls. amount q * of_int k) \<longleftrightarrow>
      (\<forall>(q, k) \<in> set ls. k = 0 \<or> amount q \<in> \<int>))"
  using assms
proof (induction ls)
  case (Cons p ls)
  obtain q k where p: "p = (q, k)" by (cases p)
  have k: "0 \<le> k" using Cons.prems p by simp
  have le: "amount q * of_int k \<le> of_int (\<lceil>amount q\<rceil> * k)"
    using k by (simp add: mult_right_mono)
  have eq: "of_int (\<lceil>amount q\<rceil> * k) = amount q * of_int k \<longleftrightarrow> k = 0 \<or> amount q \<in> \<int>"
    using of_int_ceiling_cancel [of "amount q"] by (auto elim!: Ints_cases intro: Ints_of_int)
  have IH: "(\<Sum>(q, k) \<leftarrow> ls. amount q * of_int k) \<le> (\<Sum>(q, k) \<leftarrow> ls. of_int (\<lceil>amount q\<rceil> * k))"
    "(\<Sum>(q, k) \<leftarrow> ls. of_int (\<lceil>amount q\<rceil> * k)) = (\<Sum>(q, k) \<leftarrow> ls. amount q * of_int k) \<longleftrightarrow>
      (\<forall>(q, k) \<in> set ls. k = 0 \<or> amount q \<in> \<int>)"
    using Cons.IH Cons.prems by (simp_all del: of_int_mult)
  have "(\<Sum>(q, k) \<leftarrow> p # ls. amount q * of_int k) \<le> (\<Sum>(q, k) \<leftarrow> p # ls. of_int (\<lceil>amount q\<rceil> * k))"
    using add_mono [OF le IH(1)] by (simp add: p del: of_int_mult)
  moreover have "a + c = b + d \<longleftrightarrow> a = b \<and> c = d" if "b \<le> a" "d \<le> c" for a b c d :: rat
    using that by auto
  from this [OF le IH(1)] eq IH(2)
  have "(\<Sum>(q, k) \<leftarrow> p # ls. of_int (\<lceil>amount q\<rceil> * k)) = (\<Sum>(q, k) \<leftarrow> p # ls. amount q * of_int k) \<longleftrightarrow>
      (\<forall>(q, k) \<in> set (p # ls). k = 0 \<or> amount q \<in> \<int>)"
    by (simp add: p del: of_int_mult)
  ultimately show ?case by blast
qed simp

text \<open>
  C21: \<open>MinResources\<close> reserves enough. Let no role have a negative number of replicas, and let no number of pods
  overflow 32 bits and no product 64 bits. Then the quantity stored for a resource is the sum, over all limits
  on it in the containers of the gang-scheduled roles, of the limit rounded up to an integer times the number of
  pods of the role; it is at least the sum of limit times pods, and equal to it exactly if every limit that
  applies to some pod is a whole number. Nothing is stored exactly if there is no limit. So the order in
  which Go walks through the maps does not matter.
\<close>

theorem min_resources_total:
  assumes "quantity_laws X amount"
    and "\<forall>role \<in> set (gang_roles svc). 0 \<le> pods_of role \<and> pods_of role < 2 ^ 31"
    and "\<forall>(q, pods) \<in> set (gang_limits X svc n). 0 \<le> amount q \<and> \<lceil>amount q\<rceil> * pods < 2 ^ 63"
  shows "case pgs_MinResources (pg_Spec (BuildPodGroup X svc)) n of
      None \<Rightarrow> gang_limits X svc n = []
    | Some r \<Rightarrow>
        amount r = (\<Sum>(q, pods) \<leftarrow> gang_limits X svc n. of_int (\<lceil>amount q\<rceil> * pods)) \<and>
        (\<Sum>(q, pods) \<leftarrow> gang_limits X svc n. amount q * of_int pods) \<le> amount r \<and>
        (amount r = (\<Sum>(q, pods) \<leftarrow> gang_limits X svc n. amount q * of_int pods) \<longleftrightarrow>
           (\<forall>(q, pods) \<in> set (gang_limits X svc n). pods = 0 \<or> amount q \<in> \<int>))"
proof -
  let ?ls = "gang_limits X svc n"
  have "\<forall>(q, pods) \<in> set ?ls. 0 \<le> pods" using assms(2) by (auto simp: gang_limits_def)
  from sum_rounded [OF this, of amount] show ?thesis
    unfolding BuildPodGroup_resources
    using fold_add_request [OF assms(1), where ps = "gang_requests X svc" and m = Map.empty and n = n] requests_total [OF assms] requests_none [of n X svc]
    by (auto split: option.splits)
qed

text \<open>
  Quantities written as thousandths, and a template with two containers, limited to half a CPU and to one CPU.
\<close>

definition thousandths :: "quantity \<Rightarrow> int" where
  "thousandths q = (case q of c # cs \<Rightarrow> if c = CHR ''-'' then - int (undec cs) else int (undec q) | [] \<Rightarrow> 0)"

lemma thousandths_fmt_d [simp]: "thousandths (fmt_d k) = k"
proof (cases "k < 0")
  case False
  obtain c cs where c: "dec (nat k) = c # cs" by (cases "dec (nat k)") simp_all
  with minus_not_digit [of "nat k"] have "c \<noteq> CHR ''-''" by auto
  with False c undec_dec [of "nat k"] show ?thesis by (simp add: fmt_d_def thousandths_def)
qed (simp add: fmt_d_def thousandths_def undec_dec)

definition half_cpu_template :: pod_template where
  "half_cpu_template = \<lparr>tmpl_Labels = Map.empty, tmpl_Annotations = Map.empty,
     tmpl_Spec = zero_pod_spec\<lparr>pod_Containers :=
       [sample_container\<lparr>con_Limits := Some [(''cpu'', ''500'')]\<rparr>,
        sample_container\<lparr>con_Limits := Some [(''memory'', ''7000''), (''cpu'', ''1000'')]\<rparr>]\<rparr>\<rparr>"

definition half_cpu_externals :: externals where
  "half_cpu_externals = sample_externals\<lparr>
     ext_ParseTemplate := (\<lambda>raw. Some half_cpu_template),
     ext_QuantityValue := (\<lambda>q. word_of_int \<lceil>of_int (thousandths q) / 1000 :: rat\<rceil>),
     ext_QuantitySet := (\<lambda>q v. fmt_d (1000 * sint v)),
     ext_QuantityAdd := (\<lambda>q r. fmt_d (thousandths q + thousandths r))\<rparr>"

lemma half_cpu_laws: "quantity_laws half_cpu_externals (\<lambda>q. of_int (thousandths q) / 1000)"
proof -
  have "sint (word_of_int \<lceil>x\<rceil> :: int64) = \<lceil>x\<rceil>" if "0 \<le> x" "\<lceil>x\<rceil> < 2 ^ 63" for x :: rat
  proof -
    have "0 \<le> \<lceil>x\<rceil>" using that(1) by simp
    with that(2) show ?thesis by (intro sint_word_of_int64) simp_all
  qed
  then show ?thesis
    unfolding quantity_laws_def by (simp add: half_cpu_externals_def add_divide_distrib)
qed

theorem min_resources_total_witness:
  "\<exists>r. pgs_MinResources (pg_Spec (BuildPodGroup half_cpu_externals
       (sample_service ''a'' [sample_role ''w'' ComponentTypeWorker 2 2]))) ''cpu'' = Some r \<and>
     of_int (thousandths r) / 1000 = (8 :: rat)"
proof -
  let ?svc = "sample_service ''a'' [sample_role ''w'' ComponentTypeWorker 2 2]"
  have pods: "pods_of (sample_role ''w'' ComponentTypeWorker 2 2) = 4"
    by (simp add: pods_of_def GetReplicaCount_def GetNodeCount_def)
  have limits: "gang_limits half_cpu_externals ?svc ''cpu'' = [(''500'', 4), (''1000'', 4)]"
    by (simp add: gang_limits_def role_limits_def role_containers_def container_limits_def half_cpu_externals_def
        half_cpu_template_def pods raw_bytes_def)
  have half: "thousandths ''500'' = 500" "thousandths ''1000'' = 1000"
    by (simp_all add: thousandths_def undec_def)
  have "\<lceil>1 / 2 :: rat\<rceil> = 1" by (simp add: ceiling_eq_iff)
  with min_resources_total [OF half_cpu_laws, of ?svc "''cpu''"] show ?thesis
    by (auto simp: limits half pods split: option.splits)
qed

end
