(* ===== verification/Aliasing.thy ===== *)
theory Aliasing
  imports Workload Samples
begin

section \<open>BuildLWS on shared maps\<close>

text \<open>
  In Go a map is a reference. \<open>BuildLWS\<close> of \<open>lws.go\<close> puts one label map into the object and into its pod
  templates, hashes the spec, and then writes the hash into the map of the object, and so into the
  templates as well. Here the function is given once more, statement by statement, on a store of maps, with
  objects that hold the numbers of their maps; \<open>deref\<close> reads an object through the store. The refinement
  \<open>build_lws_refines\<close> shows that what the code leaves in the store is the value \<open>BuildLWS\<close> of \<open>Workload\<close>,
  and that no other map of the store is touched.
\<close>

subsection \<open>A store of maps\<close>

record map_store =
  st_Maps :: "nat \<Rightarrow> label_map"
  st_Next :: nat

definition make_map :: "map_store \<Rightarrow> nat \<times> map_store" where
  "make_map h = (st_Next h, h\<lparr>st_Maps := (st_Maps h)(st_Next h := Map.empty), st_Next := st_Next h + 1\<rparr>)"

definition put_map :: "nat \<Rightarrow> string \<Rightarrow> string \<Rightarrow> map_store \<Rightarrow> map_store" where
  "put_map a k v h = h\<lparr>st_Maps := (st_Maps h)(a := (st_Maps h a)(k \<mapsto> v))\<rparr>"

lemma put_map_simps [simp]:
  "st_Next (put_map a k v h) = st_Next h"
  "st_Maps (put_map a k v h) b = (if b = a then (st_Maps h a)(k \<mapsto> v) else st_Maps h b)"
  by (simp_all add: put_map_def)

text \<open>The objects of \<open>BuildLWS\<close> with references for their maps.\<close>

record template_ref =
  tref_Labels :: nat
  tref_Annotations :: nat
  tref_Spec :: pod_spec

record lws_ref =
  ref_Name :: string
  ref_Namespace :: string
  ref_Labels :: nat
  ref_Replicas :: "int32 option"
  ref_StartupPolicy :: string
  ref_RolloutType :: string
  ref_Size :: "int32 option"
  ref_LeaderTemplate :: "template_ref option"
  ref_WorkerTemplate :: template_ref

definition deref_template :: "map_store \<Rightarrow> template_ref \<Rightarrow> pod_template" where
  "deref_template h t =
     \<lparr>tmpl_Labels = st_Maps h (tref_Labels t), tmpl_Annotations = st_Maps h (tref_Annotations t),
      tmpl_Spec = tref_Spec t\<rparr>"

definition deref_spec :: "map_store \<Rightarrow> lws_ref \<Rightarrow> lws_spec" where
  "deref_spec h r =
     \<lparr>lwss_Replicas = ref_Replicas r, lwss_StartupPolicy = ref_StartupPolicy r,
      lwss_RolloutType = ref_RolloutType r, lwss_Size = ref_Size r,
      lwss_LeaderTemplate = map_option (deref_template h) (ref_LeaderTemplate r),
      lwss_WorkerTemplate = deref_template h (ref_WorkerTemplate r)\<rparr>"

definition deref :: "map_store \<Rightarrow> lws_ref \<Rightarrow> lws" where
  "deref h r =
     \<lparr>lws_Meta = new_meta (ref_Name r) (ref_Namespace r) (st_Maps h (ref_Labels r)),
      lws_Spec = deref_spec h r, lws_Status = \<lparr>lwsst_Replicas = 0, lwsst_ReadyReplicas = 0\<rparr>\<rparr>"

subsection \<open>The statements of BuildLWS\<close>

text \<open>The label map and the annotation map.\<close>

definition labels_stmt :: "inference_service \<Rightarrow> role \<Rightarrow> lws_config \<Rightarrow> map_store \<Rightarrow> nat \<times> map_store" where
  "labels_stmt svc role cfg h =
     (let (labels, h) = make_map h;
          h = put_map labels LabelService (isvc_Name svc) h;
          h = put_map labels LabelComponentType (role_ComponentType role) h;
          h = put_map labels LabelRoleName (role_Name role) h;
          h = (case ReplicaIndex cfg of
                 None \<Rightarrow> h
               | Some i \<Rightarrow> put_map labels LabelReplicaIndex (fmt_d (sint i)) h)
      in (labels, h))"

definition annotations_stmt :: "lws_config \<Rightarrow> map_store \<Rightarrow> nat \<times> map_store" where
  "annotations_stmt cfg h =
     (let (annotations, h) = make_map h;
          h = (if NeedsGangSchedulingCfg cfg \<and> PodGroupName cfg \<noteq> '''' then
                 let h = put_map annotations AnnotationPodGroupName (PodGroupName cfg) h
                 in if TaskName cfg \<noteq> '''' then put_map annotations AnnotationTaskSpec (TaskName cfg) h else h
               else h)
      in (annotations, h))"

text \<open>The composite literal; the object and the template hold the same label map.\<close>

definition lws_literal ::
  "inference_service \<Rightarrow> role \<Rightarrow> lws_config \<Rightarrow> nat \<Rightarrow> nat \<Rightarrow> pod_spec \<Rightarrow> lws_ref" where
  "lws_literal svc role cfg labels annotations workerPodSpec =
     \<lparr>ref_Name = GenerateLWSNameWithIndex (isvc_Name svc) (role_Name role) (ReplicaIndex cfg),
      ref_Namespace = isvc_Namespace svc, ref_Labels = labels,
      ref_Replicas = Some (lwsReplicas role cfg), ref_StartupPolicy = ''LeaderCreated'',
      ref_RolloutType = ''RollingUpdate'', ref_Size = Some (lwsSize role), ref_LeaderTemplate = None,
      ref_WorkerTemplate =
        \<lparr>tref_Labels = labels, tref_Annotations = annotations, tref_Spec = workerPodSpec\<rparr>\<rparr>"

text \<open>The multi-node part: the leader's pod spec is wrapped, then the worker's in place. \<open>None\<close> is the panic.\<close>

definition multinode_stmt ::
  "externals \<Rightarrow> role \<Rightarrow> lws_config \<Rightarrow> nat \<Rightarrow> nat \<Rightarrow> lws_ref \<Rightarrow> lws_ref option" where
  "multinode_stmt X role cfg labels annotations lws =
     (case wrapFirstContainer wrapLeaderContainer (buildPodSpec X role (NeedsGangSchedulingCfg cfg)) of
        None \<Rightarrow> None
      | Some leader \<Rightarrow>
          (case wrapFirstContainer wrapWorkerContainer (tref_Spec (ref_WorkerTemplate lws)) of
             None \<Rightarrow> None
           | Some worker \<Rightarrow>
               Some (lws\<lparr>ref_WorkerTemplate := (ref_WorkerTemplate lws)\<lparr>tref_Spec := worker\<rparr>,
                 ref_LeaderTemplate := Some \<lparr>tref_Labels = labels, tref_Annotations = annotations,
                   tref_Spec = leader\<rparr>\<rparr>)))"

definition hash_stmt :: "externals \<Rightarrow> lws_ref \<Rightarrow> map_store \<Rightarrow> map_store" where
  "hash_stmt X lws h =
     (let specHash = spec_hash X (HashLWSSpec (deref_spec h lws))
      in put_map (ref_Labels lws) LabelSpecHash specHash h)"

definition BuildLWS_stmts ::
  "externals \<Rightarrow> inference_service \<Rightarrow> role \<Rightarrow> lws_config \<Rightarrow> map_store \<Rightarrow> (lws_ref \<times> map_store) option" where
  "BuildLWS_stmts X svc role cfg h =
     (let (labels, h) = labels_stmt svc role cfg h;
          (annotations, h) = annotations_stmt cfg h;
          workerPodSpec = buildPodSpec X role (NeedsGangSchedulingCfg cfg);
          lws = lws_literal svc role cfg labels annotations workerPodSpec;
          built = (if IsMultiNode role then multinode_stmt X role cfg labels annotations lws else Some lws)
      in case built of None \<Rightarrow> None | Some lws \<Rightarrow> Some (lws, hash_stmt X lws h))"

subsection \<open>Refinement\<close>

lemma labels_stmt_eq:
  "labels_stmt svc role cfg h =
     (st_Next h, h\<lparr>st_Maps := (st_Maps h)(st_Next h := lwsLabels svc role cfg), st_Next := st_Next h + 1\<rparr>)"
  by (simp add: labels_stmt_def lwsLabels_def make_map_def put_map_def Let_def split: option.split)

lemma annotations_stmt_eq:
  "annotations_stmt cfg h =
     (st_Next h, h\<lparr>st_Maps := (st_Maps h)(st_Next h := lwsAnnotations cfg), st_Next := st_Next h + 1\<rparr>)"
  by (simp add: annotations_stmt_def lwsAnnotations_def make_map_def put_map_def Let_def)

text \<open>The built object, whatever its pod specs, before the hash is written and after.\<close>

definition holds_labels :: "map_store \<Rightarrow> nat \<Rightarrow> nat \<Rightarrow> lws_ref \<Rightarrow> bool" where
  "holds_labels h labels annotations r \<longleftrightarrow>
     labels \<noteq> annotations \<and> ref_Labels r = labels \<and>
     tref_Labels (ref_WorkerTemplate r) = labels \<and> tref_Annotations (ref_WorkerTemplate r) = annotations \<and>
     (\<forall>t. ref_LeaderTemplate r = Some t \<longrightarrow> tref_Labels t = labels \<and> tref_Annotations t = annotations)"

lemma hash_stmt_refines:
  assumes "holds_labels h labels annotations r"
    and "\<And>m. deref (h\<lparr>st_Maps := (st_Maps h)(labels := m)\<rparr>) r = lws_with_labels svc role cfg leader worker m"
    and "st_Maps h labels = lwsLabels svc role cfg"
  shows "deref (hash_stmt X r h) r = finishLWS X svc role cfg leader worker"
proof -
  have "deref h r = lws_with_labels svc role cfg leader worker (lwsLabels svc role cfg)"
    using assms(2) [of "st_Maps h labels"] unfolding fun_upd_triv by (simp add: assms(3))
  then have spec: "deref_spec h r = lws_Spec (lws_with_labels svc role cfg leader worker (lwsLabels svc role cfg))"
    by (metis deref_def lws.select_convs(2))
  have "hash_stmt X r h = h\<lparr>st_Maps := (st_Maps h)(labels := (lwsLabels svc role cfg)(LabelSpecHash \<mapsto>
      spec_hash X (HashLWSSpec (deref_spec h r))))\<rparr>"
    using assms(1,3) by (simp add: hash_stmt_def put_map_def holds_labels_def)
  with assms(2) spec show ?thesis by (simp add: finishLWS_def Let_def)
qed

text \<open>The maps that were in the store.\<close>

definition maps_below :: "nat \<Rightarrow> map_store \<Rightarrow> nat \<Rightarrow> label_map" where
  "maps_below n h a = (if a < n then st_Maps h a else Map.empty)"

text \<open>The store with the two maps that \<open>BuildLWS\<close> makes, and the object after the last statement.\<close>

definition made_maps :: "inference_service \<Rightarrow> role \<Rightarrow> lws_config \<Rightarrow> map_store \<Rightarrow> map_store" where
  "made_maps svc role cfg h =
     h\<lparr>st_Maps := (st_Maps h)(st_Next h := lwsLabels svc role cfg, Suc (st_Next h) := lwsAnnotations cfg),
       st_Next := Suc (Suc (st_Next h))\<rparr>"

lemma BuildLWS_stmts_run:
  fixes svc role cfg h X
  defines "w \<equiv> buildPodSpec X role (NeedsGangSchedulingCfg cfg)"
    and "lit \<equiv> lws_literal svc role cfg (st_Next h) (Suc (st_Next h))"
  shows "BuildLWS_stmts X svc role cfg h =
    (case (if IsMultiNode role then multinode_stmt X role cfg (st_Next h) (Suc (st_Next h)) (lit w) else Some (lit w)) of
       None \<Rightarrow> None | Some r \<Rightarrow> Some (r, hash_stmt X r (made_maps svc role cfg h)))"
proof -
  let ?h1 = "h\<lparr>st_Maps := (st_Maps h)(st_Next h := lwsLabels svc role cfg), st_Next := st_Next h + 1\<rparr>"
  have annotations: "annotations_stmt cfg ?h1 = (Suc (st_Next h), made_maps svc role cfg h)"
    unfolding annotations_stmt_eq made_maps_def by simp
  show ?thesis
    unfolding BuildLWS_stmts_def labels_stmt_eq Let_def prod.case annotations w_def lit_def ..
qed

lemma hashed_object:
  fixes svc role cfg h X leader worker
  defines "r \<equiv> (lws_literal svc role cfg (st_Next h) (Suc (st_Next h)) worker)\<lparr>ref_LeaderTemplate :=
    map_option (\<lambda>spec. \<lparr>tref_Labels = st_Next h, tref_Annotations = Suc (st_Next h), tref_Spec = spec\<rparr>) leader\<rparr>"
  shows "deref (hash_stmt X r (made_maps svc role cfg h)) r = finishLWS X svc role cfg leader worker"
    and "maps_below (st_Next h) (hash_stmt X r (made_maps svc role cfg h)) = maps_below (st_Next h) h"
proof -
  have "holds_labels (made_maps svc role cfg h) (st_Next h) (Suc (st_Next h)) r"
    by (auto simp: r_def holds_labels_def lws_literal_def made_maps_def)
  then show "deref (hash_stmt X r (made_maps svc role cfg h)) r = finishLWS X svc role cfg leader worker"
    by (rule hash_stmt_refines)
      (simp_all add: r_def deref_def deref_spec_def deref_template_def lws_literal_def lws_with_labels_def
        option.map_comp comp_def made_maps_def)
  show "maps_below (st_Next h) (hash_stmt X r (made_maps svc role cfg h)) = maps_below (st_Next h) h"
    by (auto simp: maps_below_def fun_eq_iff hash_stmt_def Let_def r_def lws_literal_def made_maps_def)
qed

text \<open>
  C29: \<open>BuildLWS\<close>, run on a store with the one label map shared by the object and its pod templates, leaves
  exactly the object of the value model: it panics in the same cases, the hash is that of the spec without
  the hash label, and the label written last shows up in the templates too. Every map that was in the store
  is unchanged.
\<close>

theorem build_lws_refines:
  "map_option (\<lambda>(r, h'). (deref h' r, maps_below (st_Next h) h'))
     (BuildLWS_stmts X svc role cfg h) =
   map_option (\<lambda>l. (l, maps_below (st_Next h) h)) (BuildLWS X svc role cfg)"
proof (cases "IsMultiNode role")
  case False
  let ?l = "st_Next h" and ?a = "Suc (st_Next h)" and ?w = "buildPodSpec X role (NeedsGangSchedulingCfg cfg)"
  have "lws_literal svc role cfg ?l ?a ?w\<lparr>ref_LeaderTemplate := None\<rparr> = lws_literal svc role cfg ?l ?a ?w"
    by (simp add: lws_literal_def)
  with hashed_object [where leader = None and worker = ?w and svc = svc and role = role and cfg = cfg and h = h and X = X]
    False show ?thesis
    by (simp add: BuildLWS_stmts_run BuildLWS_def)
next
  case True
  let ?l = "st_Next h" and ?a = "Suc (st_Next h)" and ?w = "buildPodSpec X role (NeedsGangSchedulingCfg cfg)"
  show ?thesis
  proof (cases "wrapFirstContainer wrapLeaderContainer ?w")
    case None
    with True show ?thesis by (simp add: BuildLWS_stmts_run multinode_stmt_def BuildLWS_def)
  next
    case (Some leader)
    then obtain worker where worker: "wrapFirstContainer wrapWorkerContainer ?w = Some worker"
      by (auto simp: wrapFirstContainer_def split: list.splits)
    have "multinode_stmt X role cfg ?l ?a (lws_literal svc role cfg ?l ?a ?w) =
      Some ((lws_literal svc role cfg ?l ?a worker)\<lparr>ref_LeaderTemplate := map_option (\<lambda>spec. \<lparr>tref_Labels = ?l,
        tref_Annotations = ?a, tref_Spec = spec\<rparr>) (Some leader)\<rparr>)"
      by (simp add: multinode_stmt_def Some worker lws_literal_def)
    with hashed_object [where leader = "Some leader" and worker = worker] True Some worker show ?thesis
      by (simp add: BuildLWS_stmts_run BuildLWS_def)
  qed
qed

end
