(* ===== verification/Manager.thy ===== *)
theory Manager
  imports Setup
begin

section \<open>The manager binary\<close>

text \<open>
  \<open>main\<close> of \<open>cmd/main.go\<close>: the command line is read into flags, the flags become the options of the
  webhook server, the metrics server and the manager, and the manager is set up and started by a sequence of
  calls each of which may fail. \<open>parse_args\<close> is \<open>flag.Parse\<close> of Go's standard library, for the flags that
  \<open>main\<close> declares; the flags that libraries declare on the same command line (those of the logger, and
  \<open>-kubeconfig\<close>) are the parameter \<open>other\<close>, which tells for a declared name whether it is boolean and which
  values it takes. The results of the calls are a parameter as well.
\<close>

subsection \<open>Flags\<close>

record flags =
  metricsAddr :: string
  metricsCertPath :: string
  metricsCertName :: string
  metricsCertKey :: string
  webhookCertPath :: string
  webhookCertName :: string
  webhookCertKey :: string
  enableLeaderElection :: bool
  probeAddr :: string
  secureMetrics :: bool
  enableHTTP2 :: bool

definition default_flags :: flags where
  "default_flags =
     \<lparr>metricsAddr = ''0'', metricsCertPath = '''', metricsCertName = ''tls.crt'', metricsCertKey = ''tls.key'',
      webhookCertPath = '''', webhookCertName = ''tls.crt'', webhookCertKey = ''tls.key'',
      enableLeaderElection = False, probeAddr = '':8081'', secureMetrics = True, enableHTTP2 = False\<rparr>"

text \<open>\<open>strconv.ParseBool\<close>.\<close>

definition ParseBool :: "string \<Rightarrow> bool option" where
  "ParseBool s =
     (if s \<in> {''1'', ''t'', ''T'', ''true'', ''TRUE'', ''True''} then Some True
      else if s \<in> {''0'', ''f'', ''F'', ''false'', ''FALSE'', ''False''} then Some False
      else None)"

datatype flag_var = StringVar "string \<Rightarrow> flags \<Rightarrow> flags" | BoolVar "bool \<Rightarrow> flags \<Rightarrow> flags"

definition declared_flags :: "(string \<times> flag_var) list" where
  "declared_flags =
     [(''metrics-bind-address'', StringVar (\<lambda>v. metricsAddr_update (\<lambda>_. v))),
      (''health-probe-bind-address'', StringVar (\<lambda>v. probeAddr_update (\<lambda>_. v))),
      (''leader-elect'', BoolVar (\<lambda>b. enableLeaderElection_update (\<lambda>_. b))),
      (''metrics-secure'', BoolVar (\<lambda>b. secureMetrics_update (\<lambda>_. b))),
      (''webhook-cert-path'', StringVar (\<lambda>v. webhookCertPath_update (\<lambda>_. v))),
      (''webhook-cert-name'', StringVar (\<lambda>v. webhookCertName_update (\<lambda>_. v))),
      (''webhook-cert-key'', StringVar (\<lambda>v. webhookCertKey_update (\<lambda>_. v))),
      (''metrics-cert-path'', StringVar (\<lambda>v. metricsCertPath_update (\<lambda>_. v))),
      (''metrics-cert-name'', StringVar (\<lambda>v. metricsCertName_update (\<lambda>_. v))),
      (''metrics-cert-key'', StringVar (\<lambda>v. metricsCertKey_update (\<lambda>_. v))),
      (''enable-http2'', BoolVar (\<lambda>b. enableHTTP2_update (\<lambda>_. b)))]"

type_synonym other_flags = "string \<rightharpoonup> (bool \<times> (string \<Rightarrow> bool))"

datatype flag_error =
    BadSyntax string
  | NotDefined string
  | NeedsArgument string
  | InvalidValue string string
  | ErrHelp

text \<open>A declared flag is boolean or not, and setting it may fail.\<close>

definition is_bool_flag :: "other_flags \<Rightarrow> string \<Rightarrow> bool option" where
  "is_bool_flag other name =
     (case map_of declared_flags name of
        Some (BoolVar _) \<Rightarrow> Some True
      | Some (StringVar _) \<Rightarrow> Some False
      | None \<Rightarrow> map_option fst (other name))"

definition set_flag :: "other_flags \<Rightarrow> string \<Rightarrow> string \<Rightarrow> flags \<Rightarrow> flag_error + flags" where
  "set_flag other name value f =
     (case map_of declared_flags name of
        Some (StringVar upd) \<Rightarrow> Inr (upd value f)
      | Some (BoolVar upd) \<Rightarrow>
          (case ParseBool value of None \<Rightarrow> Inl (InvalidValue value name) | Some b \<Rightarrow> Inr (upd b f))
      | None \<Rightarrow>
          (case other name of
             None \<Rightarrow> Inl (NotDefined name)
           | Some (_, accepts) \<Rightarrow> if accepts value then Inr f else Inl (InvalidValue value name)))"

text \<open>
  \<open>name=value\<close> is cut at the first \<open>=\<close> after its first character.
\<close>

definition cut_value :: "string \<Rightarrow> string \<times> string option" where
  "cut_value s =
     (case dropWhile (\<lambda>c. c \<noteq> CHR ''='') (tl s) of
        [] \<Rightarrow> (s, None)
      | _ # value \<Rightarrow> (take 1 s @ takeWhile (\<lambda>c. c \<noteq> CHR ''='') (tl s), Some value))"

text \<open>
  Parsing stops at the first argument that is no flag, or after \<open>--\<close>; the rest of the command line is
  returned as the second component.
\<close>

function parse_args :: "other_flags \<Rightarrow> string list \<Rightarrow> flags \<Rightarrow> flag_error + (flags \<times> string list)" where
  "parse_args other [] f = Inr (f, [])"
| "parse_args other (s # args) f =
     (if length s < 2 \<or> hd s \<noteq> CHR ''-'' then Inr (f, s # args)
      else if s = ''--'' then Inr (f, args)
      else
        let body = (if s ! 1 = CHR ''-'' then drop 2 s else drop 1 s)
        in if body = [] \<or> hd body = CHR ''-'' \<or> hd body = CHR ''='' then Inl (BadSyntax s)
           else
             let (name, value) = cut_value body
             in case is_bool_flag other name of
                  None \<Rightarrow> Inl (if name = ''help'' \<or> name = ''h'' then ErrHelp else NotDefined name)
                | Some True \<Rightarrow>
                    (case set_flag other name (case value of None \<Rightarrow> ''true'' | Some v \<Rightarrow> v) f of
                       Inl e \<Rightarrow> Inl e
                     | Inr f' \<Rightarrow> parse_args other args f')
                | Some False \<Rightarrow>
                    (case value of
                       Some v \<Rightarrow>
                         (case set_flag other name v f of Inl e \<Rightarrow> Inl e | Inr f' \<Rightarrow> parse_args other args f')
                     | None \<Rightarrow>
                         (case args of
                            [] \<Rightarrow> Inl (NeedsArgument name)
                          | v # args' \<Rightarrow>
                              (case set_flag other name v f of
                                 Inl e \<Rightarrow> Inl e
                               | Inr f' \<Rightarrow> parse_args other args' f'))))"
  by pat_completeness auto
termination
  by (relation "measure (\<lambda>(other, args, f). length args)") auto

declare parse_args.simps(2) [simp del]

subsection \<open>Servers\<close>

text \<open>The TLS configuration, of which the code sets one field, and the functions that change it.\<close>

record tls_config =
  NextProtos :: "string list"

datatype tls_opt = DisableHTTP2

fun apply_tls_opt :: "tls_opt \<Rightarrow> tls_config \<Rightarrow> tls_config" where
  "apply_tls_opt DisableHTTP2 c = c\<lparr>NextProtos := [''http/1.1'']\<rparr>"

record webhook_options =
  wh_TLSOpts :: "tls_opt list"
  wh_CertDir :: string
  wh_CertName :: string
  wh_KeyName :: string

datatype filter_provider = WithAuthenticationAndAuthorization

record metrics_options =
  mx_BindAddress :: string
  mx_SecureServing :: bool
  mx_TLSOpts :: "tls_opt list"
  mx_FilterProvider :: "filter_provider option"
  mx_CertDir :: string
  mx_CertName :: string
  mx_KeyName :: string

datatype scheme_package =
  ClientGoScheme | FusionInferV1alpha1 | GatewayV1 | InferenceAPI | LwsV1 | SchedulingV1beta1

record manager_options =
  mgr_Scheme :: "scheme_package list"
  mgr_Metrics :: metrics_options
  mgr_WebhookServer :: webhook_options
  mgr_HealthProbeBindAddress :: string
  mgr_LeaderElection :: bool
  mgr_LeaderElectionID :: string

text \<open>\<open>init\<close>: the packages registered in the scheme; a failing registration panics.\<close>

fun register_all :: "(scheme_package \<Rightarrow> string option) \<Rightarrow> scheme_package list \<Rightarrow> string + scheme_package list" where
  "register_all fails [] = Inr []"
| "register_all fails (p # ps) =
     (case fails p of
        Some e \<Rightarrow> Inl e
      | None \<Rightarrow> (case register_all fails ps of Inl e \<Rightarrow> Inl e | Inr qs \<Rightarrow> Inr (p # qs)))"

definition init_scheme :: "(scheme_package \<Rightarrow> string option) \<Rightarrow> string + scheme_package list" where
  "init_scheme fails = register_all fails
     [ClientGoScheme, FusionInferV1alpha1, GatewayV1, InferenceAPI, LwsV1, SchedulingV1beta1]"

definition tlsOpts :: "flags \<Rightarrow> tls_opt list" where
  "tlsOpts f = (if \<not> enableHTTP2 f then [] @ [DisableHTTP2] else [])"

definition webhookServerOptions :: "flags \<Rightarrow> webhook_options" where
  "webhookServerOptions f =
     (let opts = \<lparr>wh_TLSOpts = tlsOpts f, wh_CertDir = '''', wh_CertName = '''', wh_KeyName = ''''\<rparr>
      in if 0 < length (webhookCertPath f)
         then opts\<lparr>wh_CertDir := webhookCertPath f, wh_CertName := webhookCertName f,
           wh_KeyName := webhookCertKey f\<rparr>
         else opts)"

definition metricsServerOptions :: "flags \<Rightarrow> metrics_options" where
  "metricsServerOptions f =
     (let opts = \<lparr>mx_BindAddress = metricsAddr f, mx_SecureServing = secureMetrics f, mx_TLSOpts = tlsOpts f,
        mx_FilterProvider = None, mx_CertDir = '''', mx_CertName = '''', mx_KeyName = ''''\<rparr>;
        opts = (if secureMetrics f then opts\<lparr>mx_FilterProvider := Some WithAuthenticationAndAuthorization\<rparr> else opts)
      in if 0 < length (metricsCertPath f)
         then opts\<lparr>mx_CertDir := metricsCertPath f, mx_CertName := metricsCertName f,
           mx_KeyName := metricsCertKey f\<rparr>
         else opts)"

definition managerOptions :: "scheme_package list \<Rightarrow> flags \<Rightarrow> manager_options" where
  "managerOptions scheme f =
     \<lparr>mgr_Scheme = scheme, mgr_Metrics = metricsServerOptions f, mgr_WebhookServer = webhookServerOptions f,
      mgr_HealthProbeBindAddress = probeAddr f, mgr_LeaderElection = enableLeaderElection f,
      mgr_LeaderElectionID = ''7d76f6fd.fusioninfer.io''\<rparr>"

text \<open>The configuration a server ends up with when its options are applied one after the other.\<close>

definition serve_with :: "tls_opt list \<Rightarrow> tls_config \<Rightarrow> tls_config" where
  "serve_with opts c = foldl (\<lambda>c opt. apply_tls_opt opt c) c opts"

subsection \<open>Start-up\<close>

text \<open>
  The calls of \<open>main\<close> in their order, with the message \<open>main\<close> logs when one fails. \<open>result\<close> gives the error
  of a call, if any; the answer is the list of calls made and how the process ends. \<open>GetConfigOrDie\<close> exits
  with status 1 by itself.
\<close>

datatype start_step =
    GetConfig
  | NewManager manager_options
  | SetupInferenceService
  | SetupModelLoader
  | AddHealthzCheck string
  | AddReadyzCheck string
  | Start

datatype ending = Exited int string | Returned | Panicked string

definition start_steps :: "manager_options \<Rightarrow> (start_step \<times> string) list" where
  "start_steps opts =
     [(GetConfig, ''unable to get kubeconfig''),
      (NewManager opts, ''unable to start manager''),
      (SetupInferenceService, ''unable to create controller''),
      (SetupModelLoader, ''unable to create controller''),
      (AddHealthzCheck ''healthz'', ''unable to set up health check''),
      (AddReadyzCheck ''readyz'', ''unable to set up ready check''),
      (Start, ''problem running manager'')]"

fun run_steps :: "(start_step \<Rightarrow> string option) \<Rightarrow> (start_step \<times> string) list \<Rightarrow> start_step list \<times> ending" where
  "run_steps result [] = ([], Returned)"
| "run_steps result ((step, msg) # steps) =
     (case result step of
        Some e \<Rightarrow> ([step], Exited 1 msg)
      | None \<Rightarrow> (let (made, end) = run_steps result steps in (step # made, end)))"

definition main_run ::
  "(scheme_package \<Rightarrow> string option) \<Rightarrow> other_flags \<Rightarrow> (start_step \<Rightarrow> string option) \<Rightarrow> string list \<Rightarrow>
    start_step list \<times> ending" where
  "main_run register other result args =
     (case init_scheme register of
        Inl e \<Rightarrow> ([], Panicked e)
      | Inr scheme \<Rightarrow>
          (case parse_args other args default_flags of
             Inl ErrHelp \<Rightarrow> ([], Exited 0 ''usage'')
           | Inl e \<Rightarrow> ([], Exited 2 ''usage'')
           | Inr (f, rest) \<Rightarrow> run_steps result (start_steps (managerOptions scheme f))))"

subsection \<open>Lemmas\<close>

text \<open>The command line that sets every flag.\<close>

definition bool_arg :: "string \<Rightarrow> bool \<Rightarrow> string" where
  "bool_arg name b = ''--'' @ name @ (if b then ''=true'' else ''=false'')"

definition string_arg :: "string \<Rightarrow> string \<Rightarrow> string" where
  "string_arg name v = ''--'' @ name @ ''='' @ v"

definition command_line :: "flags \<Rightarrow> string list" where
  "command_line f =
     [string_arg ''metrics-bind-address'' (metricsAddr f),
      string_arg ''health-probe-bind-address'' (probeAddr f),
      bool_arg ''leader-elect'' (enableLeaderElection f),
      bool_arg ''metrics-secure'' (secureMetrics f),
      string_arg ''webhook-cert-path'' (webhookCertPath f),
      string_arg ''webhook-cert-name'' (webhookCertName f),
      string_arg ''webhook-cert-key'' (webhookCertKey f),
      string_arg ''metrics-cert-path'' (metricsCertPath f),
      string_arg ''metrics-cert-name'' (metricsCertName f),
      string_arg ''metrics-cert-key'' (metricsCertKey f),
      bool_arg ''enable-http2'' (enableHTTP2 f)]"

lemma cut_value_eq:
  assumes "CHR ''='' \<notin> set name" and "name \<noteq> []"
  shows "cut_value (name @ CHR ''='' # v) = (name, Some v)"
proof -
  obtain c cs where name: "name = c # cs" using assms(2) by (cases name) auto
  have "dropWhile (\<lambda>x. x \<noteq> CHR ''='') (cs @ CHR ''='' # v) = CHR ''='' # v"
    "takeWhile (\<lambda>x. x \<noteq> CHR ''='') (cs @ CHR ''='' # v) = cs"
    using assms(1) name by (subst dropWhile_append2 takeWhile_append2; auto)+
  then show ?thesis by (simp add: cut_value_def name)
qed

lemma parse_name_value:
  assumes "CHR ''='' \<notin> set name" and "name \<noteq> []" and "hd name \<noteq> CHR ''-''"
    and "is_bool_flag other name \<noteq> None"
  shows "parse_args other ((''--'' @ name @ CHR ''='' # v) # args) f =
    (case set_flag other name v f of Inl e \<Rightarrow> Inl e | Inr f' \<Rightarrow> parse_args other args f')"
proof -
  have "hd name \<noteq> CHR ''=''" using assms(1,2) by (metis hd_in_set)
  then show ?thesis
    using assms cut_value_eq [OF assms(1,2), of v]
    by (subst parse_args.simps(2)) (auto simp: split: bool.splits)
qed

lemma ParseBool_values [simp]: "ParseBool ''true'' = Some True" "ParseBool ''false'' = Some False"
  by (simp_all add: ParseBool_def)

lemma parse_string_arg:
  assumes "map_of declared_flags name = Some (StringVar upd)"
    and "CHR ''='' \<notin> set name" and "name \<noteq> []" and "hd name \<noteq> CHR ''-''"
  shows "parse_args other (string_arg name v # args) f = parse_args other args (upd v f)"
  using parse_name_value [of name other v args f] assms
  by (simp add: string_arg_def is_bool_flag_def set_flag_def)

lemma parse_bool_arg:
  assumes "map_of declared_flags name = Some (BoolVar upd)"
    and "CHR ''='' \<notin> set name" and "name \<noteq> []" and "hd name \<noteq> CHR ''-''"
  shows "parse_args other (bool_arg name b # args) f = parse_args other args (upd b f)"
  using parse_name_value [of name other "if b then ''true'' else ''false''" args f] assms
  by (simp add: bool_arg_def is_bool_flag_def set_flag_def split: if_splits)

lemma run_steps_stops:
  "run_steps result steps =
     (let k = length (takeWhile (\<lambda>s. result (fst s) = None) steps)
      in (map fst (take (Suc k) steps), if k < length steps then Exited 1 (snd (steps ! k)) else Returned))"
  by (induction result steps rule: run_steps.induct) (auto simp: Let_def split: option.splits)

subsection \<open>Properties\<close>

text \<open>
  C36: The command line that gives every flag its value is read back as these values, whatever they are
  and whatever other flags the libraries declare.
\<close>

theorem flags_roundtrip: "parse_args other (command_line f) g = Inr (f, [])"
  by (simp add: command_line_def parse_string_arg parse_bool_arg declared_flags_def)

text \<open>
  Unless HTTP/2 is enabled, both servers offer HTTP/1.1 only; the metrics server checks who asks exactly
  when it serves securely; each server is given a certificate exactly when a path is given for it.
\<close>

theorem servers_follow_flags:
  "NextProtos (serve_with (wh_TLSOpts (webhookServerOptions f)) c) =
     (if enableHTTP2 f then NextProtos c else [''http/1.1'']) \<and>
   NextProtos (serve_with (mx_TLSOpts (metricsServerOptions f)) c) =
     (if enableHTTP2 f then NextProtos c else [''http/1.1'']) \<and>
   (mx_FilterProvider (metricsServerOptions f) = Some WithAuthenticationAndAuthorization \<longleftrightarrow>
     mx_SecureServing (metricsServerOptions f)) \<and>
   (wh_CertDir (webhookServerOptions f), wh_CertName (webhookServerOptions f), wh_KeyName (webhookServerOptions f)) =
     (if webhookCertPath f = '''' then ('''', '''', '''')
      else (webhookCertPath f, webhookCertName f, webhookCertKey f)) \<and>
   (mx_CertDir (metricsServerOptions f), mx_CertName (metricsServerOptions f), mx_KeyName (metricsServerOptions f)) =
     (if metricsCertPath f = '''' then ('''', '''', '''')
      else (metricsCertPath f, metricsCertName f, metricsCertKey f))"
  by (simp add: serve_with_def webhookServerOptions_def metricsServerOptions_def tlsOpts_def Let_def)

text \<open>
  Start-up stops at the first call that fails: \<open>main\<close> has made exactly the calls up to it, in order, and
  exits with status 1 and the message of that call. It returns only if no call fails.
\<close>

theorem startup_stops_at_first_failure:
  assumes "init_scheme register = Inr scheme" and "parse_args other args default_flags = Inr (f, rest)"
  shows "main_run register other result args =
    (let steps = start_steps (managerOptions scheme f);
         k = length (takeWhile (\<lambda>s. result (fst s) = None) steps)
     in (map fst (take (Suc k) steps), if k < length steps then Exited 1 (snd (steps ! k)) else Returned))"
  using assms by (simp add: main_run_def run_steps_stops Let_def)

theorem startup_stops_at_first_failure_witness:
  "snd (main_run (\<lambda>p. None) Map.empty (\<lambda>s. if s = SetupModelLoader then Some ''conflict'' else None)
     [''--leader-elect'']) = Exited 1 ''unable to create controller''"
proof -
  have "init_scheme (\<lambda>p. None) =
      Inr [ClientGoScheme, FusionInferV1alpha1, GatewayV1, InferenceAPI, LwsV1, SchedulingV1beta1]"
    by (simp add: init_scheme_def)
  moreover have "parse_args Map.empty [''--leader-elect''] default_flags =
      Inr (default_flags\<lparr>enableLeaderElection := True\<rparr>, [])"
    by (simp add: parse_args.simps(2) cut_value_def is_bool_flag_def set_flag_def declared_flags_def
      ParseBool_def)
  ultimately show ?thesis
    by (simp add: startup_stops_at_first_failure start_steps_def)
qed

end
