(* ===== verification/Regexp.thy ===== *)
theory Regexp
  imports Prelude
begin

section \<open>Regular expressions\<close>

text \<open>
  The validation rules of \<open>model_types.go\<close> contain patterns in the syntax of RE2. This theory holds
  the constructs they use, what a pattern matches (\<open>re_match\<close>), and a matcher by partial derivatives that
  computes it (\<open>full_match\<close>, proved equal in \<open>full_match_iff\<close>). A bracket expression is a list of ranges;
  \<open>NotIn\<close> is the negated form \<open>[^...]\<close>.
\<close>

named_theorems patterns \<open>definitions of patterns\<close>

datatype char_class = In "(char \<times> char) list" | NotIn "(char \<times> char) list"

datatype rexp =
    Eps
  | Class char_class
  | Seq rexp rexp
  | Alt rexp rexp
  | Star rexp

definition in_range :: "char \<Rightarrow> char \<times> char \<Rightarrow> bool" where
  "in_range c r \<longleftrightarrow> of_char (fst r) \<le> (of_char c :: nat) \<and> of_char c \<le> (of_char (snd r) :: nat)"

fun in_class :: "char \<Rightarrow> char_class \<Rightarrow> bool" where
  "in_class c (In rs) = list_ex (in_range c) rs"
| "in_class c (NotIn rs) = (\<not> list_ex (in_range c) rs)"

inductive re_match :: "rexp \<Rightarrow> string \<Rightarrow> bool" where
  Eps: "re_match Eps []"
| Class: "in_class c k \<Longrightarrow> re_match (Class k) [c]"
| Seq: "re_match r s \<Longrightarrow> re_match q t \<Longrightarrow> re_match (Seq r q) (s @ t)"
| AltL: "re_match r s \<Longrightarrow> re_match (Alt r q) s"
| AltR: "re_match q s \<Longrightarrow> re_match (Alt r q) s"
| StarNil: "re_match (Star r) []"
| StarStep: "re_match r s \<Longrightarrow> re_match (Star r) t \<Longrightarrow> re_match (Star r) (s @ t)"

inductive_simps re_match_simps [simp]:
  "re_match Eps s" "re_match (Class k) s" "re_match (Alt r q) s"

inductive_simps re_match_Seq: "re_match (Seq r q) s"

inductive_cases StarE: "re_match (Star r) s"

text \<open>The derived forms \<open>r+\<close>, \<open>r?\<close>, \<open>r{n}\<close>, \<open>r{0,n}\<close>, a literal text, and a sequence.\<close>

definition re_some :: "rexp \<Rightarrow> rexp" where "re_some r = Seq r (Star r)"
definition re_opt :: "rexp \<Rightarrow> rexp" where "re_opt r = Alt r Eps"

fun re_times :: "nat \<Rightarrow> rexp \<Rightarrow> rexp" where
  "re_times 0 r = Eps"
| "re_times (Suc n) r = Seq r (re_times n r)"

fun re_up_to :: "nat \<Rightarrow> rexp \<Rightarrow> rexp" where
  "re_up_to 0 r = Eps"
| "re_up_to (Suc n) r = re_opt (Seq r (re_up_to n r))"

fun re_lit :: "string \<Rightarrow> rexp" where
  "re_lit [] = Eps"
| "re_lit (c # s) = Seq (Class (In [(c, c)])) (re_lit s)"

fun re_seqs :: "rexp list \<Rightarrow> rexp" where
  "re_seqs [] = Eps"
| "re_seqs (r # rs) = Seq r (re_seqs rs)"

fun re_alts :: "rexp \<Rightarrow> rexp list \<Rightarrow> rexp" where
  "re_alts r [] = r"
| "re_alts r (q # qs) = Alt r (re_alts q qs)"

text \<open>\<open>.\<close> is every character but the newline; a pattern without anchors may match anywhere.\<close>

definition re_dot :: rexp where "re_dot = Class (NotIn [(CHR 0x0A, CHR 0x0A)])"

definition re_anywhere :: "rexp \<Rightarrow> rexp" where
  "re_anywhere r = re_seqs [Star (Class (NotIn [])), r, Star (Class (NotIn []))]"

subsection \<open>The matcher\<close>

fun nullable :: "rexp \<Rightarrow> bool" where
  "nullable Eps = True"
| "nullable (Class k) = False"
| "nullable (Seq r q) = (nullable r \<and> nullable q)"
| "nullable (Alt r q) = (nullable r \<or> nullable q)"
| "nullable (Star r) = True"

fun re_seq :: "rexp \<Rightarrow> rexp \<Rightarrow> rexp" where
  "re_seq Eps q = q"
| "re_seq r q = Seq r q"

text \<open>What is left to match after the character \<open>c\<close>, one expression for each way to read it.\<close>

fun re_after :: "char \<Rightarrow> rexp \<Rightarrow> rexp list" where
  "re_after c Eps = []"
| "re_after c (Class k) = (if in_class c k then [Eps] else [])"
| "re_after c (Seq r q) = map (\<lambda>r'. re_seq r' q) (re_after c r) @ (if nullable r then re_after c q else [])"
| "re_after c (Alt r q) = re_after c r @ re_after c q"
| "re_after c (Star r) = map (\<lambda>r'. re_seq r' (Star r)) (re_after c r)"

fun re_run :: "rexp list \<Rightarrow> string \<Rightarrow> bool" where
  "re_run rs [] = list_ex nullable rs"
| "re_run rs (c # s) = re_run (remdups (concat (map (re_after c) rs))) s"

definition full_match :: "rexp \<Rightarrow> string \<Rightarrow> bool" where
  "full_match r s = re_run [r] s"

lemma nullable_iff: "nullable r \<longleftrightarrow> re_match r []"
  by (induction r) (auto simp: re_match_Seq intro: StarNil)

lemma re_match_seq [simp]: "re_match (re_seq r q) s \<longleftrightarrow> re_match (Seq r q) s"
  by (cases r) (auto simp: re_match_Seq)

lemma star_step:
  assumes "re_match (Star r) s" and "s \<noteq> []"
  shows "\<exists>c u v. s = c # u @ v \<and> re_match r (c # u) \<and> re_match (Star r) v"
  using assms
proof (induction "Star r" s rule: re_match.induct)
  case (StarStep s t)
  then show ?case by (cases s) auto
qed simp

lemma after_iff: "re_match r (c # s) \<longleftrightarrow> (\<exists>q \<in> set (re_after c r). re_match q s)"
proof (induction r arbitrary: s)
  case (Seq r q)
  have "re_match (Seq r q) (c # s) \<longleftrightarrow>
    (re_match r [] \<and> re_match q (c # s)) \<or> (\<exists>u v. s = u @ v \<and> re_match r (c # u) \<and> re_match q v)"
    by (auto simp: re_match_Seq Cons_eq_append_conv)
  also have "\<dots> \<longleftrightarrow> (nullable r \<and> (\<exists>x \<in> set (re_after c q). re_match x s)) \<or>
    (\<exists>x \<in> set (re_after c r). re_match (Seq x q) s)"
    unfolding Seq nullable_iff by (simp only: re_match_Seq) blast
  also have "\<dots> \<longleftrightarrow> (\<exists>x \<in> set (re_after c (Seq r q)). re_match x s)"
    by (simp only: re_after.simps set_append set_map bex_Un bex_simps(7) re_match_seq) auto
  finally show ?case .
next
  case (Star r)
  have "re_match (Star r) (c # s) \<longleftrightarrow> (\<exists>u v. s = u @ v \<and> re_match r (c # u) \<and> re_match (Star r) v)"
    using star_step [of r "c # s"] re_match.StarStep [of r "c # _" _] by fastforce
  then show ?case using Star by (auto simp: re_match_Seq)
qed auto

lemma run_iff: "re_run rs s \<longleftrightarrow> (\<exists>r \<in> set rs. re_match r s)"
  by (induction rs s rule: re_run.induct) (auto simp: list_ex_iff nullable_iff after_iff)

theorem full_match_iff: "full_match r s \<longleftrightarrow> re_match r s"
  by (simp add: full_match_def run_iff)

subsection \<open>What the derived forms match\<close>

lemma re_match_Star: "re_match (Star r) s \<longleftrightarrow> (\<exists>ws. s = concat ws \<and> (\<forall>w \<in> set ws. re_match r w))"
proof
  assume "re_match (Star r) s"
  then show "\<exists>ws. s = concat ws \<and> (\<forall>w \<in> set ws. re_match r w)"
  proof (induction "Star r" s rule: re_match.induct)
    case StarNil
    show ?case by (rule exI [of _ "[]"]) simp
  next
    case (StarStep s t)
    then obtain ws where "t = concat ws" "\<forall>w \<in> set ws. re_match r w" by blast
    with StarStep(1) show ?case by (intro exI [of _ "s # ws"]) simp
  qed
next
  assume "\<exists>ws. s = concat ws \<and> (\<forall>w \<in> set ws. re_match r w)"
  then obtain ws where s: "s = concat ws" and ws: "\<forall>w \<in> set ws. re_match r w" by blast
  from ws show "re_match (Star r) s"
    unfolding s by (induction ws) (auto intro: StarNil StarStep)
qed

lemma re_match_Star_Class [simp]: "re_match (Star (Class k)) s \<longleftrightarrow> (\<forall>c \<in> set s. in_class c k)"
proof
  assume "re_match (Star (Class k)) s"
  then show "\<forall>c \<in> set s. in_class c k" by (fastforce simp: re_match_Star)
next
  assume "\<forall>c \<in> set s. in_class c k"
  then show "re_match (Star (Class k)) s"
  proof (induction s)
    case (Cons c s)
    then have "re_match (Star (Class k)) ([c] @ s)" by (intro StarStep) auto
    then show ?case by simp
  qed (rule StarNil)
qed

lemma re_match_opt [simp]: "re_match (re_opt r) s \<longleftrightarrow> re_match r s \<or> s = []"
  by (auto simp: re_opt_def)

lemma re_match_Seq_Class [simp]:
  "re_match (Seq (Class k) q) s \<longleftrightarrow> (\<exists>c t. s = c # t \<and> in_class c k \<and> re_match q t)"
proof
  assume "\<exists>c t. s = c # t \<and> in_class c k \<and> re_match q t"
  then obtain c t where "s = [c] @ t" "in_class c k" "re_match q t" by auto
  then show "re_match (Seq (Class k) q) s" by (simp only: re_match_Seq re_match_simps) blast
qed (auto simp: re_match_Seq)

lemma re_match_some_Class [simp]:
  "re_match (re_some (Class k)) s \<longleftrightarrow> s \<noteq> [] \<and> (\<forall>c \<in> set s. in_class c k)"
  by (cases s) (simp_all add: re_some_def)

lemma in_range_single [simp]: "in_range c (d, d) \<longleftrightarrow> c = d"
  by (auto simp: in_range_def eq_iff [symmetric])

lemma re_match_lit [simp]: "re_match (re_lit t) s \<longleftrightarrow> s = t"
  by (induction t arbitrary: s) auto

declare re_seqs.simps [simp del]

lemma re_match_seqs_Cons [simp]:
  "re_match (re_seqs []) s \<longleftrightarrow> s = []"
  "re_match (re_seqs (r # rs)) s \<longleftrightarrow> (\<exists>u v. s = u @ v \<and> re_match r u \<and> re_match (re_seqs rs) v)"
  by (auto simp: re_seqs.simps re_match_Seq)

lemma re_match_alts [simp]:
  "re_match (re_alts r []) s \<longleftrightarrow> re_match r s"
  "re_match (re_alts r (q # qs)) s \<longleftrightarrow> re_match r s \<or> re_match (re_alts q qs) s"
  by auto

lemma re_match_times_Class:
  "re_match (re_times n (Class k)) s \<longleftrightarrow> length s = n \<and> (\<forall>c \<in> set s. in_class c k)"
  by (induction n arbitrary: s) (auto simp: length_Suc_conv)

lemma re_match_up_to_Class:
  "re_match (re_up_to n (Class k)) s \<longleftrightarrow> length s \<le> n \<and> (\<forall>c \<in> set s. in_class c k)"
proof (induction n arbitrary: s)
  case (Suc n)
  then show ?case by (cases s) auto
qed auto

lemma re_match_anywhere: "re_match (re_anywhere r) s \<longleftrightarrow> (\<exists>u v w. s = u @ v @ w \<and> re_match r v)"
  by (auto simp: re_anywhere_def)

end
