(* ===== verification/ModelTypes.thy ===== *)
theory ModelTypes
  imports Regexp ApiTypes
begin

section \<open>Models and the rules that admit them\<close>

text \<open>
  The types of \<open>model_types.go\<close> and \<open>modelloader_types.go\<close>, and the validation rules their
  \<open>kubebuilder:validation\<close> markers hand to the API server. A rule is given by what it tests and by its
  message (for the rules of the schema, the path of the field). \<open>spec_errors\<close> and \<open>spec_update_errors\<close>
  list the messages for an object that is created and for one that replaces another; the API server accepts
  the request when the list is empty. The Go fields \<open>nodeSelector\<close> and \<open>nodeName\<close> are left out of the
  request when they are empty (\<open>omitempty\<close>), so \<open>has\<close> is the test that they are not.
\<close>

subsection \<open>Types\<close>

definition ModelConditionAccessible :: string where "ModelConditionAccessible = ''Accessible''"
definition ModelConditionPrefetched :: string where "ModelConditionPrefetched = ''Prefetched''"

definition ModelReasonVerified :: string where "ModelReasonVerified = ''Verified''"
definition ModelReasonAuthenticationFailed :: string where "ModelReasonAuthenticationFailed = ''AuthenticationFailed''"
definition ModelReasonNotFound :: string where "ModelReasonNotFound = ''NotFound''"
definition ModelReasonUnreachable :: string where "ModelReasonUnreachable = ''Unreachable''"
definition ModelReasonDownloadFailed :: string where "ModelReasonDownloadFailed = ''DownloadFailed''"

record secret_reference =
  sr_Name :: string

record model_reference =
  mr_Kind :: string
  mr_Name :: string

record lora_artifact_spec =
  lora_BaseModelRef :: model_reference

record prefetch_spec =
  pf_NodeSelector :: "(string \<times> string) list"
  pf_NodeName :: string

record model_source =
  src_URI :: string
  src_CredentialsRef :: "secret_reference option"

record model_spec =
  ms_Source :: model_source
  ms_LoRA :: "lora_artifact_spec option"
  ms_Prefetch :: "prefetch_spec option"

record prefetch_status =
  ps_DesiredNodes :: int32
  ps_ReadyNodes :: int32
  ps_FailedNodes :: int32

record model_status =
  mst_ObservedGeneration :: int64
  mst_Prefetch :: "prefetch_status option"
  mst_Conditions :: "condition list"

record model =
  model_Meta :: object_meta
  model_Spec :: model_spec
  model_Status :: model_status

record cluster_model =
  cm_Meta :: object_meta
  cm_Spec :: model_spec
  cm_Status :: model_status

record model_loader_spec =
  ml_Foo :: "string option"

record model_loader_status =
  ml_Conditions :: "condition list"

record model_loader =
  ml_Meta :: object_meta
  ml_Spec :: model_loader_spec
  ml_Status :: model_loader_status

subsection \<open>Patterns\<close>

text \<open>The ranges \<open>A-Z\<close>, \<open>a-z\<close>, \<open>0-9\<close>, and the characters of a text.\<close>

definition cls_upper :: "(char \<times> char) list" where "cls_upper = [(CHR ''A'', CHR ''Z'')]"
definition cls_lower :: "(char \<times> char) list" where "cls_lower = [(CHR ''a'', CHR ''z'')]"
definition cls_digits :: "(char \<times> char) list" where "cls_digits = [(CHR ''0'', CHR ''9'')]"
definition cls_chars :: "string \<Rightarrow> (char \<times> char) list" where "cls_chars s = map (\<lambda>c. (c, c)) s"

definition alnum :: rexp where "alnum = Class (In (cls_upper @ cls_lower @ cls_digits))"
definition alnum_or :: "string \<Rightarrow> rexp" where "alnum_or s = Class (In (cls_upper @ cls_lower @ cls_digits @ cls_chars s))"
definition lowdig :: rexp where "lowdig = Class (In (cls_lower @ cls_digits))"

text \<open>\<open>^[a-z0-9]([-a-z0-9]*[a-z0-9])?([.][a-z0-9]([-a-z0-9]*[a-z0-9])?)*$\<close>\<close>

definition dns_label :: rexp where
  "dns_label = re_seqs [lowdig, re_opt (re_seqs [Star (Class (In (cls_chars ''-'' @ cls_lower @ cls_digits))), lowdig])]"

definition name_pattern :: rexp where
  "name_pattern = re_seqs [dns_label, Star (re_seqs [re_lit ''.'', dns_label])]"

text \<open>\<open>^(hf|s3|oci)://.+$\<close>\<close>

definition scheme_pattern :: rexp where
  "scheme_pattern = re_seqs [re_alts (re_lit ''hf'') [re_lit ''s3'', re_lit ''oci''], re_lit ''://'', re_some re_dot]"

text \<open>\<open>^[A-Za-z0-9._~:/@!$&()*+,;=%-]+$\<close>\<close>

definition characters_pattern :: rexp where
  "characters_pattern = re_some (alnum_or ''._~:/@!$&()*+,;=%-'')"

text \<open>\<open>%2[eEfF]\<close>\<close>

definition encoded_pattern :: rexp where
  "encoded_pattern = re_anywhere (re_seqs [re_lit ''%2'', Class (In (cls_chars ''eEfF''))])"

text \<open>
  \<open>^hf://[A-Za-z0-9]([A-Za-z0-9._-]*[A-Za-z0-9])?/[A-Za-z0-9]([A-Za-z0-9._-]*[A-Za-z0-9])?(@[A-Za-z0-9._-]+(/[A-Za-z0-9._-]+)*)?$\<close>
\<close>

definition hf_name :: rexp where
  "hf_name = re_seqs [alnum, re_opt (re_seqs [Star (alnum_or ''._-''), alnum])]"

definition hf_revision :: rexp where
  "hf_revision = re_seqs [re_lit ''@'', re_some (alnum_or ''._-''), Star (re_seqs [re_lit ''/'', re_some (alnum_or ''._-'')])]"

definition hf_pattern :: rexp where
  "hf_pattern = re_seqs [re_lit ''hf://'', hf_name, re_lit ''/'', hf_name, re_opt hf_revision]"

text \<open>\<open>^s3://[^/@:]+/[^/]+(/[^/]+)*$\<close>\<close>

definition s3_segment :: rexp where "s3_segment = re_some (Class (NotIn (cls_chars ''/'')))"

definition s3_pattern :: rexp where
  "s3_pattern = re_seqs [re_lit ''s3://'', re_some (Class (NotIn (cls_chars ''/@:''))), re_lit ''/'', s3_segment,
     Star (re_seqs [re_lit ''/'', s3_segment])]"

text \<open>
  \<open>^oci://[A-Za-z0-9.-]+(:[0-9]+)?/[a-z0-9]+(([.]|__|_|-+)[a-z0-9]+)*(/[a-z0-9]+(([.]|__|_|-+)[a-z0-9]+)*)*(:[A-Za-z0-9_][A-Za-z0-9._-]{0,127}|@sha256:[0-9a-f]{64})?$\<close>
\<close>

definition oci_component :: rexp where
  "oci_component = re_seqs [re_some lowdig,
     Star (re_seqs [re_alts (re_lit ''.'') [re_lit ''__'', re_lit ''_'', re_some (re_lit ''-'')], re_some lowdig])]"

definition oci_tag :: rexp where
  "oci_tag = re_seqs [re_lit '':'', alnum_or ''_'', re_up_to 127 (alnum_or ''._-'')]"

definition oci_digest :: rexp where
  "oci_digest = re_seqs [re_lit ''@sha256:'', re_times 64 (Class (In (cls_digits @ [(CHR ''a'', CHR ''f'')])))]"

definition oci_pattern :: rexp where
  "oci_pattern = re_seqs [re_lit ''oci://'', re_some (alnum_or ''.-''), re_opt (re_seqs [re_lit '':'', re_some (Class (In cls_digits))]),
     re_lit ''/'', oci_component, Star (re_seqs [re_lit ''/'', oci_component]), re_opt (Alt oci_tag oci_digest)]"

subsection \<open>Rules\<close>

text \<open>\<open>startsWith\<close> and \<open>endsWith\<close> of the rule language; \<open>contains\<close> is \<open>strings_contains\<close>.\<close>

definition starts_with :: "string \<Rightarrow> string \<Rightarrow> bool" where
  "starts_with s p \<longleftrightarrow> take (length p) s = p"

definition ends_with :: "string \<Rightarrow> string \<Rightarrow> bool" where
  "ends_with s p \<longleftrightarrow> length p \<le> length s \<and> drop (length s - length p) s = p"

text \<open>The messages of the rules that do not hold.\<close>

definition failed :: "(bool \<times> string) list \<Rightarrow> string list" where
  "failed rules = map snd (filter (\<lambda>r. \<not> fst r) rules)"

definition uri_rules :: "string \<Rightarrow> (bool \<times> string) list" where
  "uri_rules u =
     [(1 \<le> length u, ''spec.source.uri''),
      (length u \<le> 2048, ''spec.source.uri''),
      (full_match scheme_pattern u,
        ''uri must use a supported lowercase scheme and identify an artifact''),
      (full_match characters_pattern u,
        ''uri must use valid URI characters; encode spaces and non-ASCII characters''),
      (\<not> strings_contains u ''?'' \<and> \<not> strings_contains u ''#'',
        ''uri must not contain a query string or fragment''),
      (\<not> strings_contains u ''/./'' \<and> \<not> strings_contains u ''/../'' \<and>
         \<not> ends_with u ''/.'' \<and> \<not> ends_with u ''/..'',
        ''uri must not contain dot path segments''),
      (\<not> full_match encoded_pattern u,
        ''uri must not percent-encode dots or slashes''),
      (\<not> starts_with u ''hf://'' \<or> (full_match hf_pattern u \<and> \<not> strings_contains u ''..''),
        ''hf uri must be hf://<owner>/<repo> with an optional @<revision>''),
      (\<not> starts_with u ''s3://'' \<or> full_match s3_pattern u,
        ''s3 uri must be s3://<bucket>/<prefix>''),
      (\<not> starts_with u ''oci://'' \<or> full_match oci_pattern u,
        ''oci uri must be oci://<registry>/<repository> with an optional :<tag> or @sha256:<digest>'')]"

definition uri_errors :: "string \<Rightarrow> string list" where
  "uri_errors u = failed (uri_rules u)"

text \<open>A required name: \<open>MinLength=1\<close>, \<open>MaxLength=253\<close>, \<open>Pattern\<close>.\<close>

definition name_errors :: "string \<Rightarrow> string \<Rightarrow> string list" where
  "name_errors path n = failed
     [(1 \<le> length n, path), (length n \<le> 253, path), (full_match name_pattern n, path)]"

definition credentials_errors :: "secret_reference \<Rightarrow> string list" where
  "credentials_errors ref = name_errors ''spec.source.credentialsRef.name'' (sr_Name ref)"

definition model_reference_errors :: "model_reference \<Rightarrow> string list" where
  "model_reference_errors ref =
     failed [(mr_Kind ref \<in> {''Model'', ''ClusterModel''}, ''spec.lora.baseModelRef.kind'')] @
     name_errors ''spec.lora.baseModelRef.name'' (mr_Name ref)"

definition prefetch_errors :: "prefetch_spec \<Rightarrow> string list" where
  "prefetch_errors p =
     (if pf_NodeName p = [] then [] else name_errors ''spec.prefetch.nodeName'' (pf_NodeName p)) @
     failed [(\<not> (pf_NodeSelector p \<noteq> [] \<and> pf_NodeName p \<noteq> []),
       ''nodeSelector and nodeName are mutually exclusive'')]"

text \<open>The errors of an optional field.\<close>

definition if_set :: "('a \<Rightarrow> string list) \<Rightarrow> 'a option \<Rightarrow> string list" where
  "if_set f x = (case x of None \<Rightarrow> [] | Some y \<Rightarrow> f y)"

definition source_errors :: "model_source \<Rightarrow> string list" where
  "source_errors src = uri_errors (src_URI src) @ if_set credentials_errors (src_CredentialsRef src)"

definition spec_errors :: "model_spec \<Rightarrow> string list" where
  "spec_errors sp =
     source_errors (ms_Source sp) @
     if_set (\<lambda>l. model_reference_errors (lora_BaseModelRef l)) (ms_LoRA sp) @
     if_set prefetch_errors (ms_Prefetch sp)"

text \<open>
  The transition rules compare with the stored object. The rule on \<open>uri\<close> always applies, the field being
  required; the rule on \<open>lora\<close> applies when both objects have the field.
\<close>

definition uri_transition_errors :: "model_source \<Rightarrow> model_source \<Rightarrow> string list" where
  "uri_transition_errors old src = failed [(src_URI src = src_URI old, ''uri is immutable'')]"

definition lora_transition_errors :: "model_spec \<Rightarrow> model_spec \<Rightarrow> string list" where
  "lora_transition_errors old sp =
     (case (ms_LoRA sp, ms_LoRA old) of
        (Some l, Some l') \<Rightarrow> failed [(l = l', ''lora is immutable'')]
      | _ \<Rightarrow> [])"

definition spec_transition_errors :: "model_spec \<Rightarrow> model_spec \<Rightarrow> string list" where
  "spec_transition_errors old sp =
     failed [((ms_LoRA sp \<noteq> None) = (ms_LoRA old \<noteq> None), ''lora cannot be added or removed'')] @
     uri_transition_errors (ms_Source old) (ms_Source sp) @ lora_transition_errors old sp"

definition spec_update_errors :: "model_spec \<Rightarrow> model_spec \<Rightarrow> string list" where
  "spec_update_errors old sp = spec_errors sp @ spec_transition_errors old sp"

text \<open>A ClusterModel has one more rule.\<close>

definition cluster_model_errors :: "model_spec \<Rightarrow> string list" where
  "cluster_model_errors sp = spec_errors sp @
     failed [(case ms_LoRA sp of None \<Rightarrow> True | Some l \<Rightarrow> mr_Kind (lora_BaseModelRef l) = ''ClusterModel'',
       ''cluster-scoped LoRA artifacts must reference a ClusterModel'')]"

text \<open>The rules on the status: counts are not negative, and each type has one condition.\<close>

definition prefetch_status_errors :: "prefetch_status \<Rightarrow> string list" where
  "prefetch_status_errors p = failed
     [(0 \<le> sint (ps_DesiredNodes p), ''status.prefetch.desiredNodes''),
      (0 \<le> sint (ps_ReadyNodes p), ''status.prefetch.readyNodes''),
      (0 \<le> sint (ps_FailedNodes p), ''status.prefetch.failedNodes'')]"

definition model_status_errors :: "model_status \<Rightarrow> string list" where
  "model_status_errors st = if_set prefetch_status_errors (mst_Prefetch st) @
     failed [(distinct (map cond_Type (mst_Conditions st)), ''status.conditions'')]"

definition model_loader_status_errors :: "model_loader_status \<Rightarrow> string list" where
  "model_loader_status_errors st =
     failed [(distinct (map cond_Type (ml_Conditions st)), ''status.conditions'')]"

text \<open>The successive specifications of an object, each accepted as a replacement of the one before.\<close>

fun accepted_updates :: "model_spec \<Rightarrow> model_spec list \<Rightarrow> bool" where
  "accepted_updates sp [] = True"
| "accepted_updates sp (sp' # sps) = (spec_update_errors sp sp' = [] \<and> accepted_updates sp' sps)"

end
