(* ===== verification/ModelRules.thy ===== *)
theory ModelRules
  imports ModelTypes
begin

section \<open>What the admission rules of models guarantee\<close>

text \<open>
  Lemmas on the rules of \<open>ModelTypes\<close>. The first group shows that an accepted location is made of a
  scheme and of non-empty path segments, none of them a re_dot segment; the second that \<open>uri\<close> and \<open>lora\<close>
  keep their values over any sequence of accepted updates.
\<close>

lemmas pattern_defs =
  full_match_def re_dot_def re_some_def in_range_def re_seqs.simps re_opt_def re_anywhere_def
  scheme_pattern_def characters_pattern_def encoded_pattern_def hf_pattern_def hf_name_def hf_revision_def
  s3_pattern_def s3_segment_def oci_pattern_def oci_component_def oci_tag_def oci_digest_def
  alnum_def alnum_or_def lowdig_def cls_upper_def cls_lower_def cls_digits_def cls_chars_def

lemmas rule_defs = uri_errors_def uri_rules_def failed_def starts_with_def ends_with_def

lemma failed_Nil [simp]: "failed [] = []"
  by (simp add: failed_def)

lemma failed_Cons: "failed ((b, m) # rules) = (if b then [] else [m]) @ failed rules"
  by (simp add: failed_def)

lemma failed_none: "failed rules = [] \<longleftrightarrow> (\<forall>(b, m) \<in> set rules. b)"
  by (auto simp: failed_def filter_empty_conv)

subsection \<open>Path segments\<close>

fun split_on :: "char \<Rightarrow> string \<Rightarrow> string list" where
  "split_on d [] = [[]]"
| "split_on d (c # s) = (if c = d then [] # split_on d s
     else (case split_on d s of [] \<Rightarrow> [[c]] | w # ws \<Rightarrow> (c # w) # ws))"

abbreviation segments :: "string \<Rightarrow> string list" where
  "segments \<equiv> split_on (CHR ''/'')"

lemma split_on_not_Nil [simp]: "split_on d s \<noteq> []"
  by (induction s) (auto split: list.splits)

lemma split_on_plain: "d \<notin> set s \<Longrightarrow> split_on d s = [s]"
  by (induction s) auto

lemma split_on_sep: "split_on d (s @ d # t) = split_on d s @ split_on d t"
proof (induction s)
  case (Cons c s)
  then show ?case by (cases "split_on d s") auto
qed simp

lemma split_on_append_plain:
  assumes "d \<notin> set t"
  shows "split_on d (s @ t) = butlast (split_on d s) @ [last (split_on d s) @ t]"
proof (induction s)
  case Nil
  then show ?case using assms by (simp add: split_on_plain)
next
  case (Cons c s)
  then show ?case by (cases "split_on d s") auto
qed

lemma split_on_hd: "d \<notin> set s \<Longrightarrow> hd (split_on d (s @ d # t)) = s"
  by (simp add: split_on_sep split_on_plain)

text \<open>A segment stands between separators.\<close>

lemma split_on_concat: "concat (map (Cons d) (split_on d s)) = d # s"
proof (induction s)
  case (Cons c s)
  then show ?case by (cases "split_on d s") auto
qed simp

lemma split_on_occurs:
  assumes "g \<in> set (split_on d s)"
  shows "\<exists>x y. d # s = x @ d # g @ y \<and> (y = [] \<or> hd y = d)"
proof -
  from assms obtain vs ws where "split_on d s = vs @ g # ws" by (meson split_list)
  then have "d # s = concat (map (Cons d) vs) @ d # g @ concat (map (Cons d) ws)"
    using split_on_concat [of d s] by simp
  moreover have "concat (map (Cons d) ws) = [] \<or> hd (concat (map (Cons d) ws)) = d"
    by (cases ws) auto
  ultimately show ?thesis by blast
qed

lemma split_on_no_sep: "g \<in> set (split_on d s) \<Longrightarrow> d \<notin> set g"
  by (induction s arbitrary: g) (auto split: if_splits list.splits)

text \<open>The characters a pattern can consume; a match is made of them.\<close>

fun re_may :: "char \<Rightarrow> rexp \<Rightarrow> bool" where
  "re_may c Eps = False"
| "re_may c (Class k) = in_class c k"
| "re_may c (Seq r q) = (re_may c r \<or> re_may c q)"
| "re_may c (Alt r q) = (re_may c r \<or> re_may c q)"
| "re_may c (Star r) = re_may c r"

lemma re_match_may: "re_match r s \<Longrightarrow> c \<in> set s \<Longrightarrow> re_may c r"
  by (induction r s rule: re_match.induct) auto

lemma may_times [simp]: "re_may c (re_times k r) \<longleftrightarrow> 0 < k \<and> re_may c r"
  by (induction k) auto

lemma may_up_to [simp]: "re_may c (re_up_to k r) \<longleftrightarrow> 0 < k \<and> re_may c r"
  by (induction k) (auto simp: re_opt_def)

lemma re_match_nonempty: "re_match r s \<Longrightarrow> \<not> nullable r \<Longrightarrow> s \<noteq> []"
  using nullable_iff by blast

text \<open>Texts without an empty segment.\<close>

definition tidy :: "string \<Rightarrow> bool" where
  "tidy s \<longleftrightarrow> [] \<notin> set (segments s)"

definition re_plain :: "rexp \<Rightarrow> bool" where
  "re_plain r \<longleftrightarrow> \<not> re_may (CHR ''/'') r"

lemma plain_match: "re_plain r \<Longrightarrow> re_match r s \<Longrightarrow> CHR ''/'' \<notin> set s"
  using re_match_may unfolding re_plain_def by blast

lemma tidy_plain: "CHR ''/'' \<notin> set s \<Longrightarrow> s \<noteq> [] \<Longrightarrow> tidy s"
  by (simp add: tidy_def split_on_plain)

lemma tidy_slash: "tidy (s @ CHR ''/'' # t) \<longleftrightarrow> tidy s \<and> tidy t"
  by (auto simp: tidy_def split_on_sep)

lemma tidy_append_plain: "tidy s \<Longrightarrow> CHR ''/'' \<notin> set t \<Longrightarrow> tidy (s @ t)"
  by (auto simp: tidy_def split_on_append_plain dest: in_set_butlastD)
    (metis last_in_set split_on_not_Nil)

lemma tidy_component: "re_match r s \<Longrightarrow> re_plain r \<Longrightarrow> \<not> nullable r \<Longrightarrow> tidy s"
  by (simp add: tidy_plain plain_match re_match_nonempty)

lemma tidy_path:
  assumes "re_match (Star (re_seqs [re_lit ''/'', r])) t" and "tidy s" and "re_plain r" and "\<not> nullable r"
  shows "tidy (s @ t)"
proof -
  obtain ws where t: "t = concat ws" and ws: "\<forall>w \<in> set ws. re_match (re_seqs [re_lit ''/'', r]) w"
    using assms(1) unfolding re_match_Star by blast
  from ws assms(2) show ?thesis
    unfolding t
  proof (induction ws arbitrary: s)
    case (Cons w ws)
    obtain v where "w = CHR ''/'' # v" "re_match r v" using Cons.prems(1) by auto
    then have "tidy (s @ w)"
      using Cons.prems(2) tidy_component [of r v] assms(3,4) by (simp add: tidy_slash)
    then show ?case using Cons.IH [of "s @ w"] Cons.prems(1) by simp
  qed simp
qed


subsection \<open>Accepted locations\<close>

lemma starts_with_iff: "starts_with s p \<longleftrightarrow> (\<exists>t. s = p @ t)"
  unfolding starts_with_def by (metis append_eq_conv_conj append_take_drop_id)

lemma ends_with_iff: "ends_with s p \<longleftrightarrow> (\<exists>t. s = t @ p)"
proof
  assume "ends_with s p"
  then show "\<exists>t. s = t @ p"
    unfolding ends_with_def by (metis append_take_drop_id)
qed (auto simp: ends_with_def)

lemma uri_rulesD:
  assumes "uri_errors u = []"
  shows "re_match scheme_pattern u"
    and "\<not> sublist ''/./'' u" "\<not> sublist ''/../'' u" "\<not> (\<exists>t. u = t @ ''/.'')" "\<not> (\<exists>t. u = t @ ''/..'')"
    and "starts_with u ''hf://'' \<Longrightarrow> re_match hf_pattern u"
    and "starts_with u ''s3://'' \<Longrightarrow> re_match s3_pattern u"
    and "starts_with u ''oci://'' \<Longrightarrow> re_match oci_pattern u"
  using assms
  by (simp_all add: uri_errors_def uri_rules_def failed_none full_match_iff strings_contains_iff ends_with_iff
    del: append_eq_append_conv)

text \<open>The authority \<open>a\<close> and the path \<open>t\<close> of a location.\<close>

definition authority_ok :: "string \<Rightarrow> bool" where
  "authority_ok a \<longleftrightarrow> a \<noteq> [] \<and> CHR ''/'' \<notin> set a \<and> CHR ''@'' \<notin> set a"

lemma authority_match:
  "re_match r a \<Longrightarrow> re_plain r \<Longrightarrow> \<not> re_may (CHR ''@'') r \<Longrightarrow> \<not> nullable r \<Longrightarrow> authority_ok a"
  unfolding authority_ok_def using plain_match re_match_may re_match_nonempty by blast

lemmas class_defs = alnum_def alnum_or_def lowdig_def cls_upper_def cls_lower_def cls_digits_def cls_chars_def in_range_def
  re_some_def re_opt_def re_seqs.simps re_plain_def

lemma hf_location:
  assumes "re_match hf_pattern u"
  shows "\<exists>a t. u = ''hf://'' @ a @ CHR ''/'' # t \<and> authority_ok a \<and> tidy t"
proof -
  obtain a n v where u: "u = ''hf://'' @ a @ CHR ''/'' # n @ v" and a: "re_match hf_name a"
    and n: "re_match hf_name n" and v: "re_match (re_opt hf_revision) v"
    using assms unfolding hf_pattern_def by auto
  have "authority_ok a"
    using a by (rule authority_match) (simp_all add: hf_name_def class_defs)
  moreover have "tidy n"
    using n by (rule tidy_component) (simp_all add: hf_name_def class_defs)
  have "tidy (n @ v)"
  proof (cases "v = []")
    case False
    then obtain r w where vr: "v = CHR ''@'' # r @ w" and r: "re_match (re_some (alnum_or ''._-'')) r"
      and w: "re_match (Star (re_seqs [re_lit ''/'', re_some (alnum_or ''._-'')])) w"
      using v unfolding hf_revision_def by auto
    have "CHR ''/'' \<notin> set r" using r by (rule plain_match [rotated]) (simp add: class_defs)
    then have "tidy (n @ CHR ''@'' # r)" using \<open>tidy n\<close> by (simp add: tidy_append_plain)
    with w have "tidy ((n @ CHR ''@'' # r) @ w)" by (rule tidy_path) (simp_all add: class_defs)
    then show ?thesis by (simp add: vr)
  qed (simp add: \<open>tidy n\<close>)
  ultimately show ?thesis using u by blast
qed

lemma s3_location:
  assumes "re_match s3_pattern u"
  shows "\<exists>a t. u = ''s3://'' @ a @ CHR ''/'' # t \<and> authority_ok a \<and> tidy t"
proof -
  obtain a n w where u: "u = ''s3://'' @ a @ CHR ''/'' # n @ w"
    and a: "re_match (re_some (Class (NotIn (cls_chars ''/@:'')))) a" and n: "re_match s3_segment n"
    and w: "re_match (Star (re_seqs [re_lit ''/'', s3_segment])) w"
    using assms unfolding s3_pattern_def by auto
  have "authority_ok a"
    using a by (rule authority_match) (simp_all add: class_defs)
  moreover have "tidy (n @ w)"
    using w tidy_component [OF n] by (rule tidy_path) (simp_all add: s3_segment_def class_defs)
  ultimately show ?thesis using u by blast
qed

lemma oci_location:
  assumes "re_match oci_pattern u"
  shows "\<exists>a t. u = ''oci://'' @ a @ CHR ''/'' # t \<and> authority_ok a \<and> tidy t"
proof -
  let ?host = "re_some (alnum_or ''.-'')" and ?port = "re_opt (re_seqs [re_lit '':'', re_some (Class (In cls_digits))])"
  obtain h p n w v where h: "re_match ?host h" and p: "re_match ?port p" and n: "re_match oci_component n"
    and w: "re_match (Star (re_seqs [re_lit ''/'', oci_component])) w"
    and v: "re_match (re_opt (Alt oci_tag oci_digest)) v"
    and u: "u = ''oci://'' @ (h @ p) @ CHR ''/'' # n @ w @ v"
    using assms unfolding oci_pattern_def re_match_seqs_Cons re_match_lit
    by (elim exE conjE) (rule that, assumption+, simp)
  have "re_match (Seq ?host ?port) (h @ p)" using h p by (rule re_match.Seq)
  then have "authority_ok (h @ p)" by (rule authority_match) (simp_all add: class_defs)
  moreover have "tidy (n @ w)"
    using w tidy_component [OF n] by (rule tidy_path) (simp_all add: oci_component_def class_defs)
  moreover have "CHR ''/'' \<notin> set v"
  proof -
    have "re_plain (re_opt (Alt oci_tag oci_digest))"
      by (simp add: oci_tag_def oci_digest_def class_defs del: re_times.simps re_up_to.simps)
    then show ?thesis using v by (rule plain_match)
  qed
  ultimately show ?thesis
    using u tidy_append_plain [of "n @ w" v] by (intro exI [of _ "h @ p"] exI [of _ "n @ w @ v"]) simp
qed

lemma accepted_location:
  assumes "uri_errors u = []"
  shows "\<exists>sch a t. u = sch @ ''://'' @ a @ CHR ''/'' # t \<and> sch \<in> {''hf'', ''s3'', ''oci''} \<and>
    authority_ok a \<and> tidy t"
proof -
  from uri_rulesD(1) [OF assms] consider
      "starts_with u ''hf://''" | "starts_with u ''s3://''" | "starts_with u ''oci://''"
    by (auto simp: scheme_pattern_def starts_with_iff)
  then show ?thesis
  proof cases
    case 1
    then obtain a t where "u = ''hf'' @ ''://'' @ a @ CHR ''/'' # t" "authority_ok a" "tidy t"
      using hf_location [OF uri_rulesD(6) [OF assms]] by auto
    then show ?thesis by blast
  next
    case 2
    then obtain a t where "u = ''s3'' @ ''://'' @ a @ CHR ''/'' # t" "authority_ok a" "tidy t"
      using s3_location [OF uri_rulesD(7) [OF assms]] by auto
    then show ?thesis by blast
  next
    case 3
    then obtain a t where "u = ''oci'' @ ''://'' @ a @ CHR ''/'' # t" "authority_ok a" "tidy t"
      using oci_location [OF uri_rulesD(8) [OF assms]] by auto
    then show ?thesis by blast
  qed
qed

lemma no_dot_segments:
  assumes "uri_errors (p @ CHR ''/'' # t) = []" and "g \<in> set (segments t)"
  shows "g \<noteq> ''.''" and "g \<noteq> ''..''"
proof -
  obtain x y where xy: "CHR ''/'' # t = x @ CHR ''/'' # g @ y" and y: "y = [] \<or> hd y = CHR ''/''"
    using split_on_occurs [OF assms(2)] by blast
  from y obtain z where "y = [] \<or> y = CHR ''/'' # z" by (cases y) auto
  then show "g \<noteq> ''.''" "g \<noteq> ''..''"
    using uri_rulesD(2-5) [OF assms(1)] unfolding xy sublist_def
    by (metis append.assoc append_Cons append_Nil)+
qed

lemma accepted_segments:
  assumes "uri_errors u = []"
  shows "\<exists>sch a t. u = sch @ ''://'' @ a @ CHR ''/'' # t \<and> sch \<in> {''hf'', ''s3'', ''oci''} \<and>
    CHR ''@'' \<notin> set a \<and> (\<forall>g \<in> set (a # segments t). g \<notin> {'''', ''.'', ''..''} \<and> CHR ''/'' \<notin> set g)"
proof -
  from accepted_location [OF assms] obtain sch a t where u: "u = sch @ ''://'' @ a @ CHR ''/'' # t"
    and sch: "sch \<in> {''hf'', ''s3'', ''oci''}" and a: "authority_ok a" and t: "tidy t" by blast
  have whole: "uri_errors ((sch @ '':/'') @ CHR ''/'' # (a @ CHR ''/'' # t)) = []" using assms u by simp
  have segs: "segments (a @ CHR ''/'' # t) = a # segments t"
    using a by (simp add: split_on_sep split_on_plain authority_ok_def)
  have "g \<noteq> ''.'' \<and> g \<noteq> ''..''" if "g \<in> set (a # segments t)" for g
    using no_dot_segments [OF whole, of g] that segs by simp
  moreover have "[] \<notin> set (a # segments t)" using a t by (auto simp: authority_ok_def tidy_def)
  moreover have "CHR ''/'' \<notin> set g" if "g \<in> set (a # segments t)" for g
    using that a split_on_no_sep [of g] by (auto simp: authority_ok_def)
  ultimately have "\<forall>g \<in> set (a # segments t). g \<notin> {'''', ''.'', ''..''} \<and> CHR ''/'' \<notin> set g" by blast
  with u sch a show ?thesis unfolding authority_ok_def by blast
qed

subsection \<open>Updates\<close>

lemma transition_iff:
  "spec_transition_errors old sp = [] \<longleftrightarrow>
     src_URI (ms_Source sp) = src_URI (ms_Source old) \<and> ms_LoRA sp = ms_LoRA old"
  by (cases "ms_LoRA sp"; cases "ms_LoRA old")
    (auto simp: spec_transition_errors_def uri_transition_errors_def lora_transition_errors_def failed_Cons)

lemma accepted_updates_iff:
  "accepted_updates sp sps \<longleftrightarrow>
     (\<forall>sp' \<in> set sps. spec_errors sp' = [] \<and>
        src_URI (ms_Source sp') = src_URI (ms_Source sp) \<and> ms_LoRA sp' = ms_LoRA sp)"
  by (induction sp sps rule: accepted_updates.induct) (auto simp: spec_update_errors_def transition_iff)

subsection \<open>The URIs of the test suite\<close>

text \<open>
  The verdicts of the rules on URIs of \<open>test/cel/model_test.go\<close>: some accepted ones, and rejected ones for
  the rules, with their messages.
\<close>

lemma accepted_examples:
  "uri_errors ''hf://Qwen/Qwen3-8B'' = []"
  "uri_errors ''hf://Qwen/Qwen3-8B@refs/pr/1'' = []"
  "uri_errors ''s3://team-a-models/base/qwen3-8b'' = []"
  "uri_errors ''oci://registry.example.com/models/qwen3-8b'' = []"
  "uri_errors ''oci://localhost:5000/qwen3-8b'' = []"
  by (simp_all add: pattern_defs rule_defs)

lemma rejected_examples:
  "uri_errors ''HF://Qwen/Qwen3-8B'' = [''uri must use a supported lowercase scheme and identify an artifact'']"
  "uri_errors ''hf://Qwen Team/Qwen3-8B'' =
    [''uri must use valid URI characters; encode spaces and non-ASCII characters'',
     ''hf uri must be hf://<owner>/<repo> with an optional @<revision>'']"
  "uri_errors ''s3://team-a-models/base/../qwen3-8b'' = [''uri must not contain dot path segments'']"
  "uri_errors ''s3://team-a-models/base%2Fqwen3-8b'' = [''uri must not percent-encode dots or slashes'']"
  "uri_errors ''hf://Qwen/Qwen3-8B/extra'' = [''hf uri must be hf://<owner>/<repo> with an optional @<revision>'']"
  "uri_errors ''hf://Qwen/Qwen3-8B@v1..v2'' = [''hf uri must be hf://<owner>/<repo> with an optional @<revision>'']"
  "uri_errors ''s3://key:secret@team-a-models/base/qwen3-8b'' = [''s3 uri must be s3://<bucket>/<prefix>'']"
  "uri_errors ''oci://registry.example.com/Models/Qwen3-8B:v1'' =
    [''oci uri must be oci://<registry>/<repository> with an optional :<tag> or @sha256:<digest>'']"
  by (simp_all add: pattern_defs rule_defs)

subsection \<open>Properties\<close>

text \<open>
  C30: An accepted location is one of the three schemes followed by an authority without credentials and a
  path; neither the authority nor any segment of the path is empty or a dot segment, so a path built from
  it stays below the directory it is appended to.
\<close>

theorem accepted_uri_is_safe:
  assumes "uri_errors u = []"
  shows "\<exists>sch a t. u = sch @ ''://'' @ a @ CHR ''/'' # t \<and> sch \<in> {''hf'', ''s3'', ''oci''} \<and>
    CHR ''@'' \<notin> set a \<and> (\<forall>g \<in> set (a # segments t). g \<notin> {'''', ''.'', ''..''} \<and> CHR ''/'' \<notin> set g)"
  using accepted_segments [OF assms] .

theorem accepted_uri_is_safe_witness:
  "\<exists>sch a t. ''hf://Qwen/Qwen3-8B@refs/pr/1'' = sch @ ''://'' @ a @ CHR ''/'' # t \<and>
    (\<forall>g \<in> set (segments t). g \<noteq> ''..'')"
proof -
  from accepted_uri_is_safe [OF accepted_examples(2)] obtain sch a t
    where "''hf://Qwen/Qwen3-8B@refs/pr/1'' = sch @ ''://'' @ a @ CHR ''/'' # t"
      and "\<forall>g \<in> set (a # segments t). g \<notin> {'''', ''.'', ''..''}" by blast
  then show ?thesis by (intro exI conjI) (assumption, simp)
qed

text \<open>
  C31: The identity of a model never changes: a sequence of updates is accepted exactly when every
  version is valid and has the \<open>uri\<close> and the \<open>lora\<close> of the first one; credentials and prefetching are free.
\<close>

theorem updates_keep_identity:
  "accepted_updates sp sps \<longleftrightarrow>
     list_all (\<lambda>sp'. spec_errors sp' = [] \<and>
        src_URI (ms_Source sp') = src_URI (ms_Source sp) \<and> ms_LoRA sp' = ms_LoRA sp) sps"
  by (simp add: accepted_updates_iff list_all_iff)

end
