(* ===== verification/ServiceRules.thy ===== *)
theory ServiceRules
  imports ModelRules Lifecycle
begin

section \<open>What the API server admits of an InferenceService\<close>

text \<open>
  The validation markers of \<open>inferenceservice_types.go\<close>, in the form of \<open>ModelTypes\<close>: lists of messages, empty for
  an object that is admitted. The rules on conditions are those that the generated definition
  (\<open>config/crd/bases/fusioninfer.io_inferenceservices.yaml\<close>) takes over from \<open>metav1.Condition\<close>. A phase is one of
  the five allowed ones by its type. Lengths count bytes here and characters there. \<open>admitted_roles\<close> is what the
  controller may rely on for an admitted specification, and \<open>final_status_errors\<close> what becomes of the statuses it
  writes.
\<close>

subsection \<open>The specification\<close>

definition multinode_errors :: "multinode \<Rightarrow> string list" where
  "multinode_errors m = failed [(1 \<le> sint (NodeCount m), ''spec.roles.multinode.nodeCount'')]"

definition role_errors :: "role \<Rightarrow> string list" where
  "role_errors role =
     failed
       [(role_ComponentType role \<in>
           {ComponentTypeRouter, ComponentTypePrefiller, ComponentTypeDecoder, ComponentTypeWorker},
         ''spec.roles.componentType''),
        (role_Strategy role = [] \<or> role_Strategy role \<in>
           {StrategyPrefixCache, StrategyKVCacheUtil, StrategyQueueSize, StrategyLoRAffinity, StrategyPDDisaggregation},
         ''spec.roles.strategy'')] @
     if_set multinode_errors (role_Multinode role)"

definition service_errors :: "inference_service_spec \<Rightarrow> string list" where
  "service_errors sp =
     failed [(1 \<le> length (spec_Roles sp), ''spec.roles'')] @ concat (map role_errors (spec_Roles sp))"

subsection \<open>The status\<close>

text \<open>\<open>^([a-z0-9]([-a-z0-9]*[a-z0-9])?(\.[a-z0-9]([-a-z0-9]*[a-z0-9])?)*/)?(([A-Za-z0-9][-A-Za-z0-9_.]*)?[A-Za-z0-9])$\<close>\<close>

definition condition_type_pattern :: rexp where
  "condition_type_pattern = re_seqs
     [re_opt (re_seqs [name_pattern, re_lit ''/'']), re_opt (re_seqs [alnum, Star (alnum_or ''-_.'')]), alnum]"

text \<open>\<open>^[A-Za-z]([A-Za-z0-9_,:]*[A-Za-z0-9_])?$\<close>\<close>

definition reason_pattern :: rexp where
  "reason_pattern = re_seqs
     [Class (In (cls_upper @ cls_lower)), re_opt (re_seqs [Star (alnum_or ''_,:''), alnum_or ''_''])]"

definition max_message :: nat where "max_message = 32768"

definition condition_errors :: "condition \<Rightarrow> string list" where
  "condition_errors c = failed
     [(length (cond_Type c) \<le> 316, ''status.conditions.type''),
      (full_match condition_type_pattern (cond_Type c), ''status.conditions.type''),
      (cond_Status c \<in> {''True'', ''False'', ''Unknown''}, ''status.conditions.status''),
      (0 \<le> sint (cond_ObservedGeneration c), ''status.conditions.observedGeneration''),
      (1 \<le> length (cond_Reason c), ''status.conditions.reason''),
      (length (cond_Reason c) \<le> 1024, ''status.conditions.reason''),
      (full_match reason_pattern (cond_Reason c), ''status.conditions.reason''),
      (length (cond_Message c) \<le> max_message, ''status.conditions.message'')]"

definition status_errors :: "inference_service_status \<Rightarrow> string list" where
  "status_errors st =
     failed [(distinct (map cond_Type (Conditions st)), ''status.conditions'')] @
     concat (map condition_errors (Conditions st))"

subsection \<open>What an admitted specification gives\<close>

lemma admitted_role:
  assumes "role_errors role = []"
  shows "role_ComponentType role = ComponentTypeRouter \<or> isWorkerType (role_ComponentType role)"
    and "1 \<le> sint (GetNodeCount role)"
    and "role_Strategy role = [] \<or> role_Strategy role \<in>
      {StrategyPrefixCache, StrategyKVCacheUtil, StrategyQueueSize, StrategyLoRAffinity, StrategyPDDisaggregation}"
  using assms
  by (auto simp: role_errors_def multinode_errors_def failed_none isWorkerType_def GetNodeCount_def if_set_def split: option.splits if_splits)

text \<open>
  In an admitted service no role is left out: each one is a router or gets LeaderWorkerSets, and the status
  reports on exactly the roles that get them.
\<close>

theorem admitted_roles:
  assumes "service_errors (isvc_Spec svc) = []"
  shows "isvc_Roles svc \<noteq> []" and "set (isvc_Roles svc) = set (workers svc) \<union> set (routers svc)"
    and "served_roles svc = workers svc" and "\<forall>role \<in> set (isvc_Roles svc). 1 \<le> sint (GetNodeCount role)"
proof -
  from assms have ne: "isvc_Roles svc \<noteq> []" and roles: "\<forall>role \<in> set (isvc_Roles svc). role_errors role = []"
    by (auto simp: service_errors_def failed_none)
  note each = admitted_role [OF bspec [OF roles]]
  show "isvc_Roles svc \<noteq> []" by (rule ne)
  show "set (isvc_Roles svc) = set (workers svc) \<union> set (routers svc)"
    using each(1) by (auto simp: workers_def routers_def)
  show "served_roles svc = workers svc"
    unfolding served_roles_def workers_def
    by (rule filter_cong [OF refl]) (use each(1) in \<open>auto simp: isWorkerType_def\<close>)
  show "\<forall>role \<in> set (isvc_Roles svc). 1 \<le> sint (GetNodeCount role)" using each(2) by blast
qed

subsection \<open>The written statuses\<close>

text \<open>
  What the documentation of \<open>meta.SetStatusCondition\<close> says of the list: the given condition comes in, with some
  transition time, and no type gets a second condition.
\<close>

definition condition_lists :: "externals \<Rightarrow> bool" where
  "condition_lists X \<longleftrightarrow>
     (\<forall>cs c. (\<exists>t. c\<lparr>cond_LastTransitionTime := t\<rparr> \<in> set (ext_SetStatusCondition X cs c) \<and>
          set (ext_SetStatusCondition X cs c) \<subseteq> insert (c\<lparr>cond_LastTransitionTime := t\<rparr>) (set cs)) \<and>
        (distinct (map cond_Type cs) \<longrightarrow> distinct (map cond_Type (ext_SetStatusCondition X cs c))))"

lemma upsert_types: "set (map cond_Type (upsert_condition cs c)) = insert (cond_Type c) (set (map cond_Type cs))"
  by (induction cs) auto

lemma upsert_condition_lists:
  assumes "ext_SetStatusCondition X = upsert_condition"
  shows "condition_lists X"
proof -
  have "\<exists>t. c\<lparr>cond_LastTransitionTime := t\<rparr> \<in> set (upsert_condition cs c) \<and>
      set (upsert_condition cs c) \<subseteq> insert (c\<lparr>cond_LastTransitionTime := t\<rparr>) (set cs)" for cs c
  proof (induction cs)
    case Nil
    show ?case by (intro exI [of _ "cond_LastTransitionTime c"]) simp
  qed auto
  moreover have "distinct (map cond_Type cs) \<Longrightarrow> distinct (map cond_Type (upsert_condition cs c))" for cs c
    using upsert_types by (induction cs) auto
  ultimately show ?thesis by (simp add: condition_lists_def assms)
qed

text \<open>The conditions of the controller break no rule but the one on the length of the message.\<close>

lemma condition_texts:
  "t \<in> {ConditionTypeInitialized, ConditionTypeActive, ConditionTypeFailed} \<Longrightarrow>
     length t \<le> 316 \<and> full_match condition_type_pattern t"
  "r \<in> {ReasonInferenceServiceCreating, ReasonInferenceServiceProcessing, ReasonInferenceServiceAvailable,
     ReasonInferenceServiceFailed} \<Longrightarrow> 1 \<le> length r \<and> length r \<le> 1024 \<and> full_match reason_pattern r"
  by (auto simp: condition_types condition_reasons condition_type_pattern_def reason_pattern_def pattern_defs
      name_pattern_def dns_label_def)

lemma setter_condition:
  assumes "t \<in> {ConditionTypeInitialized, ConditionTypeActive, ConditionTypeFailed}"
    and "r \<in> {ReasonInferenceServiceCreating, ReasonInferenceServiceProcessing, ReasonInferenceServiceAvailable,
      ReasonInferenceServiceFailed}" and "st \<in> {ConditionTrue, ConditionFalse}"
  shows "condition_errors ((newCondition t st r m now)\<lparr>cond_LastTransitionTime := now'\<rparr>) =
    (if length m \<le> max_message then [] else [''status.conditions.message''])"
  using condition_texts(1) [OF assms(1)] condition_texts(2) [OF assms(2)] assms(3)
  by (auto simp: condition_errors_def newCondition_def failed_Cons failed_Nil ConditionTrue_def ConditionFalse_def)

lemma status_errors_none:
  "status_errors st = [] \<longleftrightarrow>
     distinct (map cond_Type (Conditions st)) \<and> (\<forall>c \<in> set (Conditions st). condition_errors c = [])"
  by (auto simp: status_errors_def failed_none)

lemma setter_errors:
  assumes lists: "condition_lists X" and old: "status_errors (isvc_Status svc) = []"
    and "t \<in> {ConditionTypeInitialized, ConditionTypeActive, ConditionTypeFailed}"
    and "r \<in> {ReasonInferenceServiceCreating, ReasonInferenceServiceProcessing, ReasonInferenceServiceAvailable,
      ReasonInferenceServiceFailed}" and "st \<in> {ConditionTrue, ConditionFalse}"
  shows "status_errors (isvc_Status (setCondition X (newCondition t st r m now) svc)) = [] \<longleftrightarrow> length m \<le> max_message"
proof -
  let ?c = "newCondition t st r m now"
  from lists obtain now' where
    new: "?c\<lparr>cond_LastTransitionTime := now'\<rparr> \<in> set (ext_SetStatusCondition X (isvc_Conditions svc) ?c)"
      "set (ext_SetStatusCondition X (isvc_Conditions svc) ?c) \<subseteq> insert (?c\<lparr>cond_LastTransitionTime := now'\<rparr>) (set (isvc_Conditions svc))"
    and "distinct (map cond_Type (isvc_Conditions svc)) \<longrightarrow> distinct (map cond_Type (ext_SetStatusCondition X (isvc_Conditions svc) ?c))"
    unfolding condition_lists_def by metis
  with old have "status_errors (isvc_Status (setCondition X ?c svc)) = [] \<longleftrightarrow>
      condition_errors (?c\<lparr>cond_LastTransitionTime := now'\<rparr>) = []"
    unfolding status_errors_none by (auto simp: setCondition_def)
  then show ?thesis by (simp add: setter_condition [OF assms(3-5)])
qed

text \<open>
  A reconciliation leaves an admitted status admitted, except that the message of \<open>Failed\<close> is the whole text
  of the error.
\<close>

lemma final_status_errors:
  assumes lists: "condition_lists X" and old: "status_errors (isvc_Status svc) = []"
  shows "status_errors (isvc_Status (setFinalCondition X t err (with_components (begun X t0 svc) cs))) = [] \<longleftrightarrow>
    (\<forall>e. err = Some e \<longrightarrow> length (error_message e) \<le> max_message)"
proof -
  have "status_errors (isvc_Status (begun X t0 svc)) = []"
    using old setter_errors [OF lists old, of ConditionTypeInitialized ReasonInferenceServiceCreating ConditionTrue
        "''InferenceService initialized''" t0]
    by (simp add: setInitCondition_def max_message_def)
  then have begun: "status_errors (isvc_Status (with_components (begun X t0 svc) cs)) = []"
    by (simp add: status_errors_none)
  show ?thesis
    using setter_errors [OF lists begun, of ConditionTypeFailed ReasonInferenceServiceFailed ConditionTrue]
      setter_errors [OF lists begun, of ConditionTypeActive ReasonInferenceServiceAvailable ConditionTrue
        "''InferenceService is ready''" t]
      setter_errors [OF lists begun, of ConditionTypeActive ReasonInferenceServiceProcessing ConditionFalse
        "''InferenceService is being reconciled''" t]
    by (auto simp: setFinalCondition_def setFailedCondition_def setActiveCondition_def setProcessingCondition_def
        max_message_def split: option.split)
qed

end
