(* ===== verification/GoHeap.thy ===== *)
theory GoHeap
  imports Prelude
begin

section \<open>Go values on a heap\<close>

text \<open>
  Values as Go lays them out: scalars and strings are data, a struct is the list of its fields, and a
  pointer, slice or map is \<open>Nil\<close> or the number of a heap cell. \<open>gtype\<close> says where a type has references.
  \<open>typed\<close>, \<open>same\<close> and \<open>reach\<close> are recursive over types: a value has a type, two values on two heaps are equal
  up to the numbers of their cells, and the cells a value reaches. A copier writes a copy of a value to the
  heap; \<open>deep\<close> says that the copy is equal, shares no cell with anything that was there before, and that the
  old cells are left alone. The rules at the end compose deep copiers as generated code composes them.
\<close>

subsection \<open>Values and types\<close>

datatype gval = Data string | Nil | Ref nat | Struct "gval list"

datatype cell = Cell gval | Arr "gval list" | Dict "(string \<times> gval) list"

record go_heap =
  hp :: "nat \<Rightarrow> cell option"
  nxt :: nat

datatype gtype = TData | TStruct "gtype list" | TPtr gtype | TSlice gtype | TMap gtype

text \<open>What a reference of a pointer, slice or map type leads to.\<close>

definition cell_at :: "go_heap \<Rightarrow> gval \<Rightarrow> cell option" where
  "cell_at h v = (case v of Ref a \<Rightarrow> if a < nxt h then hp h a else None | _ \<Rightarrow> None)"

definition target :: "go_heap \<Rightarrow> gval \<Rightarrow> gval option" where
  "target h v = (case cell_at h v of Some (Cell w) \<Rightarrow> Some w | _ \<Rightarrow> None)"

definition items :: "go_heap \<Rightarrow> gval \<Rightarrow> gval list option" where
  "items h v = (case cell_at h v of Some (Arr ws) \<Rightarrow> Some ws | _ \<Rightarrow> None)"

definition entries :: "go_heap \<Rightarrow> gval \<Rightarrow> (string \<times> gval) list option" where
  "entries h v = (case cell_at h v of Some (Dict es) \<Rightarrow> Some es | _ \<Rightarrow> None)"

definition the_ref :: "gval \<Rightarrow> nat set" where
  "the_ref v = (case v of Ref a \<Rightarrow> {a} | _ \<Rightarrow> {})"

text \<open>The content of a value, without the numbers of cells; \<open>None\<close> for a value that is not of the type.\<close>

datatype tree =
    CData string | CNil | CStruct "tree list" | CPtr tree | CSlice "tree list"
  | CMap "(string \<times> tree) list"

lemma zip_size [termination_simp]: "(t, v) \<in> set (zip ts vs) \<Longrightarrow> size t < Suc (size_list size ts)"
  by (meson less_SucI set_zip_leftD size_list_estimation' le_imp_less_Suc order_refl)

fun content :: "gtype \<Rightarrow> go_heap \<Rightarrow> gval \<Rightarrow> tree option" where
  "content TData h v = (case v of Data s \<Rightarrow> Some (CData s) | _ \<Rightarrow> None)"
| "content (TStruct ts) h v = (case v of
     Struct vs \<Rightarrow> if length vs = length ts
       then map_option CStruct (those (map (\<lambda>(t, v). content t h v) (zip ts vs))) else None
   | _ \<Rightarrow> None)"
| "content (TPtr t) h v = (if v = Nil then Some CNil
     else case target h v of None \<Rightarrow> None | Some w \<Rightarrow> map_option CPtr (content t h w))"
| "content (TSlice t) h v = (if v = Nil then Some CNil
     else case items h v of None \<Rightarrow> None | Some ws \<Rightarrow> map_option CSlice (those (map (content t h) ws)))"
| "content (TMap t) h v = (if v = Nil then Some CNil
     else case entries h v of None \<Rightarrow> None
     | Some es \<Rightarrow> map_option (\<lambda>cs. CMap (zip (map fst es) cs)) (those (map (\<lambda>e. content t h (snd e)) es)))"

fun reach :: "gtype \<Rightarrow> go_heap \<Rightarrow> gval \<Rightarrow> nat set" where
  "reach TData h v = {}"
| "reach (TStruct ts) h v = (case v of
     Struct vs \<Rightarrow> \<Union> (set (map (\<lambda>(t, v). reach t h v) (zip ts vs))) | _ \<Rightarrow> {})"
| "reach (TPtr t) h v = the_ref v \<union> (case target h v of None \<Rightarrow> {} | Some w \<Rightarrow> reach t h w)"
| "reach (TSlice t) h v = the_ref v \<union> (case items h v of None \<Rightarrow> {} | Some ws \<Rightarrow> \<Union> (set (map (reach t h) ws)))"
| "reach (TMap t) h v = the_ref v \<union>
     (case entries h v of None \<Rightarrow> {} | Some es \<Rightarrow> \<Union> (set (map (\<lambda>e. reach t h (snd e)) es)))"

subsection \<open>Frames\<close>

text \<open>A value keeps its content when the cells it reaches are kept.\<close>

definition keeps :: "nat set \<Rightarrow> go_heap \<Rightarrow> go_heap \<Rightarrow> bool" where
  "keeps A h h' \<longleftrightarrow> nxt h \<le> nxt h' \<and> (\<forall>a \<in> A. hp h' a = hp h a)"

lemma keeps_subset: "keeps A h h' \<Longrightarrow> B \<subseteq> A \<Longrightarrow> keeps B h h'"
  by (auto simp: keeps_def)

lemma those_map_cong:
  "those (map f xs) = Some ys \<Longrightarrow> (\<And>x y. x \<in> set xs \<Longrightarrow> f x = Some y \<Longrightarrow> g x = Some y) \<Longrightarrow>
    those (map g xs) = Some ys"
  by (induction xs arbitrary: ys) (auto split: option.splits)

lemma those_map_defined: "those (map f xs) = Some ys \<Longrightarrow> x \<in> set xs \<Longrightarrow> \<exists>y. f x = Some y"
  by (induction xs arbitrary: ys) (auto split: option.splits)

lemma cell_at_keeps:
  "keeps A h h' \<Longrightarrow> the_ref v \<subseteq> A \<Longrightarrow> cell_at h v = Some c \<Longrightarrow> cell_at h' v = Some c"
  by (auto simp: keeps_def the_ref_def cell_at_def split: gval.splits if_splits)

lemma reading_keeps:
  assumes "keeps A h h'" and "the_ref v \<subseteq> A"
  shows "target h v = Some w \<Longrightarrow> target h' v = Some w"
    and "items h v = Some ws \<Longrightarrow> items h' v = Some ws"
    and "entries h v = Some es \<Longrightarrow> entries h' v = Some es"
  using cell_at_keeps [OF assms]
  by (auto simp: target_def items_def entries_def split: option.splits cell.splits)

lemma content_frame:
  "content t h v = Some x \<Longrightarrow> keeps (reach t h v) h h' \<Longrightarrow>
    content t h' v = Some x \<and> reach t h' v = reach t h v"
proof (induction t h v arbitrary: x rule: content.induct)
  case (2 ts h v)
  then obtain vs xs where v: "v = Struct vs" "length vs = length ts" "x = CStruct xs"
    and xs: "those (map (\<lambda>(t, v). content t h v) (zip ts vs)) = Some xs"
    by (auto split: gval.splits if_splits)
  have each: "content t h' w = Some y \<and> reach t h' w = reach t h w"
    if "(t, w) \<in> set (zip ts vs)" "content t h w = Some y" for t w y
  proof -
    have "reach t h w \<subseteq> reach (TStruct ts) h v" using that(1) by (force simp: v)
    then show ?thesis using "2.IH" [OF v(1) v(2) that(1) refl that(2)] "2.prems"(2) keeps_subset by blast
  qed
  have "those (map (\<lambda>(t, v). content t h' v) (zip ts vs)) = Some xs"
    by (rule those_map_cong [OF xs]) (use each in auto)
  moreover have "reach t h' w = reach t h w" if "(t, w) \<in> set (zip ts vs)" for t w
    using each [OF that] those_map_defined [OF xs that] by auto
  then have "reach (TStruct ts) h' v = reach (TStruct ts) h v"
    unfolding v by (auto simp: v(1))
  ultimately show ?case by (simp add: v)
next
  case (3 t h v)
  show ?case
  proof (cases "v = Nil")
    case False
    with 3 obtain w y where w: "target h v = Some w" and y: "content t h w = Some y" "x = CPtr y"
      by (auto split: option.splits)
    have "keeps (reach t h w) h h'" using "3.prems"(2) by (rule keeps_subset) (simp add: w)
    moreover have "target h' v = Some w"
      using reading_keeps(1) [OF "3.prems"(2) _ w] by simp
    ultimately show ?thesis using "3.IH" [OF False w y(1)] by (simp add: False w y)
  qed (use "3.prems" in \<open>simp add: target_def cell_at_def\<close>)
next
  case (4 t h v)
  show ?case
  proof (cases "v = Nil")
    case False
    with 4 obtain ws xs where ws: "items h v = Some ws" and xs: "those (map (content t h) ws) = Some xs"
      "x = CSlice xs" by (auto split: option.splits)
    have each: "content t h' w = Some y \<and> reach t h' w = reach t h w"
      if "w \<in> set ws" "content t h w = Some y" for w y
    proof -
      have "keeps (reach t h w) h h'" using "4.prems"(2) by (rule keeps_subset) (use that in \<open>auto simp: ws\<close>)
      then show ?thesis using "4.IH" [OF False ws that] by blast
    qed
    have "those (map (content t h') ws) = Some xs"
      by (rule those_map_cong [OF xs(1)]) (use each in auto)
    moreover have "reach t h' w = reach t h w" if "w \<in> set ws" for w
      using each [OF that] those_map_defined [OF xs(1) that] by auto
    moreover have "items h' v = Some ws"
      using reading_keeps(2) [OF "4.prems"(2) _ ws] by simp
    ultimately show ?thesis by (simp add: False ws xs(2))
  qed (use "4.prems" in \<open>simp add: items_def cell_at_def\<close>)
next
  case (5 t h v)
  show ?case
  proof (cases "v = Nil")
    case False
    with 5 obtain es xs where es: "entries h v = Some es"
      and xs: "those (map (\<lambda>e. content t h (snd e)) es) = Some xs" "x = CMap (zip (map fst es) xs)"
      by (auto split: option.splits)
    have each: "content t h' (snd e) = Some y \<and> reach t h' (snd e) = reach t h (snd e)"
      if "e \<in> set es" "content t h (snd e) = Some y" for e y
    proof -
      have "keeps (reach t h (snd e)) h h'"
        using "5.prems"(2) by (rule keeps_subset) (use that in \<open>auto simp: es\<close>)
      then show ?thesis using "5.IH" [OF False es that] by blast
    qed
    have "those (map (\<lambda>e. content t h' (snd e)) es) = Some xs"
      by (rule those_map_cong [OF xs(1)]) (use each in auto)
    moreover have "reach t h' (snd e) = reach t h (snd e)" if "e \<in> set es" for e
      using each [OF that] those_map_defined [OF xs(1) that] by auto
    moreover have "entries h' v = Some es"
      using reading_keeps(3) [OF "5.prems"(2) _ es] by simp
    ultimately show ?thesis by (simp add: False es xs(2))
  qed (use "5.prems" in \<open>simp add: entries_def cell_at_def\<close>)
qed (auto split: gval.splits)

lemma cell_at_below: "cell_at h v = Some c \<Longrightarrow> the_ref v \<subseteq> {..<nxt h}"
  by (auto simp: cell_at_def the_ref_def split: gval.splits if_splits)

lemma reach_below: "content t h v = Some x \<Longrightarrow> reach t h v \<subseteq> {..<nxt h}"
proof (induction t h v arbitrary: x rule: content.induct)
  case (2 ts h v)
  then obtain vs xs where v: "v = Struct vs" "length vs = length ts"
    and xs: "those (map (\<lambda>(t, v). content t h v) (zip ts vs)) = Some xs"
    by (auto split: gval.splits if_splits)
  have "reach t h w \<subseteq> {..<nxt h}" if "(t, w) \<in> set (zip ts vs)" for t w
    using "2.IH" [OF v that refl] those_map_defined [OF xs that] by auto
  then show ?case by (fastforce simp: v)
next
  case (3 t h v)
  show ?case
  proof (cases "v = Nil")
    case False
    with 3 obtain w y where w: "target h v = Some w" and y: "content t h w = Some y"
      by (auto split: option.splits)
    then obtain c where "cell_at h v = Some c" by (auto simp: target_def split: option.splits)
    from cell_at_below [OF this] "3.IH" [OF False w y] show ?thesis by (simp add: w)
  qed (simp add: target_def cell_at_def the_ref_def)
next
  case (4 t h v)
  show ?case
  proof (cases "v = Nil")
    case False
    with 4 obtain ws xs where ws: "items h v = Some ws" and xs: "those (map (content t h) ws) = Some xs"
      by (auto split: option.splits)
    then obtain c where "cell_at h v = Some c" by (auto simp: items_def split: option.splits)
    moreover have "reach t h w \<subseteq> {..<nxt h}" if "w \<in> set ws" for w
      using "4.IH" [OF False ws that] those_map_defined [OF xs that] by auto
    ultimately show ?thesis using cell_at_below by (fastforce simp: ws)
  qed (simp add: items_def cell_at_def the_ref_def)
next
  case (5 t h v)
  show ?case
  proof (cases "v = Nil")
    case False
    with 5 obtain es xs where es: "entries h v = Some es"
      and xs: "those (map (\<lambda>e. content t h (snd e)) es) = Some xs"
      by (auto split: option.splits)
    then obtain c where "cell_at h v = Some c" by (auto simp: entries_def split: option.splits)
    moreover have "reach t h (snd e) \<subseteq> {..<nxt h}" if "e \<in> set es" for e
      using "5.IH" [OF False es that] those_map_defined [OF xs that] by auto
    ultimately show ?thesis using cell_at_below by (fastforce simp: es)
  qed (simp add: entries_def cell_at_def the_ref_def)
qed simp

subsection \<open>Copiers\<close>

type_synonym copier = "gval \<Rightarrow> go_heap \<Rightarrow> gval \<times> go_heap"

text \<open>\<open>*out = *in\<close>.\<close>

definition copy_flat :: copier where
  "copy_flat v h = (v, h)"

text \<open>The values of a list, each with its own copier.\<close>

fun copy_each :: "copier list \<Rightarrow> gval list \<Rightarrow> go_heap \<Rightarrow> gval list \<times> go_heap" where
  "copy_each (c # cs) (v # vs) h =
     (let (w, h) = c v h; (ws, h) = copy_each cs vs h in (w # ws, h))"
| "copy_each _ _ h = ([], h)"

text \<open>A struct, field by field; the fields the code does not name are copied by \<open>*out = *in\<close>.\<close>

definition copy_struct :: "copier list \<Rightarrow> copier" where
  "copy_struct cs v h =
     (case v of Struct vs \<Rightarrow> (let (ws, h) = copy_each cs vs h in (Struct ws, h)) | _ \<Rightarrow> (v, h))"

definition new_cell :: "go_heap \<Rightarrow> nat \<times> go_heap" where
  "new_cell h = (nxt h, h\<lparr>nxt := nxt h + 1\<rparr>)"

definition set_cell :: "nat \<Rightarrow> cell \<Rightarrow> go_heap \<Rightarrow> go_heap" where
  "set_cell a c h = h\<lparr>hp := (hp h)(a \<mapsto> c)\<rparr>"

text \<open>\<open>if in != nil { *out = new(T); copy }\<close>.\<close>

definition copy_ptr :: "copier \<Rightarrow> copier" where
  "copy_ptr c v h =
     (case target h v of None \<Rightarrow> (v, h)
      | Some w \<Rightarrow> (let (a, h) = new_cell h; (w', h) = c w h in (Ref a, set_cell a (Cell w') h)))"

text \<open>\<open>if in != nil { *out = make([]T, len(*in)); for i := range *in { copy } }\<close>.\<close>

definition copy_slice :: "copier \<Rightarrow> copier" where
  "copy_slice c v h =
     (case items h v of None \<Rightarrow> (v, h)
      | Some ws \<Rightarrow>
          (let (a, h) = new_cell h; (ws', h) = copy_each (map (\<lambda>_. c) ws) ws h
           in (Ref a, set_cell a (Arr ws') h)))"

text \<open>\<open>if in != nil { *out = make(map[string]T, len(*in)); for key, val := range *in { copy } }\<close>.\<close>

definition copy_map :: "copier \<Rightarrow> copier" where
  "copy_map c v h =
     (case entries h v of None \<Rightarrow> (v, h)
      | Some es \<Rightarrow>
          (let (a, h) = new_cell h; (ws, h) = copy_each (map (\<lambda>_. c) es) (map snd es) h
           in (Ref a, set_cell a (Dict (zip (map fst es) ws)) h)))"

subsection \<open>Deep copiers\<close>

definition deep :: "gtype \<Rightarrow> copier \<Rightarrow> bool" where
  "deep t c \<longleftrightarrow>
     (\<forall>h v x w h'. content t h v = Some x \<longrightarrow> c v h = (w, h') \<longrightarrow>
        keeps {..<nxt h} h h' \<and> content t h' w = Some x \<and> reach t h' w \<subseteq> {nxt h..<nxt h'})"

lemma deepD:
  assumes "deep t c" and "content t h v = Some x" and "c v h = (w, h')"
  shows "keeps {..<nxt h} h h'" and "content t h' w = Some x" and "reach t h' w \<subseteq> {nxt h..<nxt h'}"
  using assms unfolding deep_def by blast+

lemma keeps_trans: "keeps {..<nxt h} h h1 \<Longrightarrow> keeps {..<nxt h1} h1 h2 \<Longrightarrow> keeps {..<nxt h} h h2"
  by (auto simp: keeps_def)

text \<open>Types without references.\<close>

fun flat :: "gtype \<Rightarrow> bool" where
  "flat TData = True"
| "flat (TStruct ts) = list_all flat ts"
| "flat _ = False"

lemma flat_reach: "flat t \<Longrightarrow> reach t h v = {}"
proof (induction t h v rule: reach.induct)
  case (2 ts h v)
  have "reach t h w = {}" if "v = Struct vs" "(t, w) \<in> set (zip ts vs)" for vs t w
    using "2.IH" [OF that refl] "2.prems" that(2) by (auto simp: list_all_iff dest: set_zip_leftD)
  then show ?case by (cases v) auto
qed simp_all

lemma deep_flat [intro]: "flat t \<Longrightarrow> deep t copy_flat"
  by (auto simp: deep_def copy_flat_def keeps_def flat_reach)

lemma copy_each_deep:
  assumes "list_all2 deep ts cs" and "length vs = length ts"
    and "those (map (\<lambda>(t, v). content t h v) (zip ts vs)) = Some xs" and "copy_each cs vs h = (ws, h')"
  shows "keeps {..<nxt h} h h' \<and> length ws = length ts \<and>
    those (map (\<lambda>(t, v). content t h' v) (zip ts ws)) = Some xs \<and>
    (\<forall>(t, w) \<in> set (zip ts ws). reach t h' w \<subseteq> {nxt h..<nxt h'})"
  using assms
proof (induction ts cs arbitrary: vs h xs ws rule: list_all2_induct)
  case Nil
  then show ?case by (simp add: keeps_def)
next
  case (Cons t ts c cs)
  obtain v vs1 where vs: "vs = v # vs1" "length vs1 = length ts" using Cons.prems(1) by (cases vs) auto
  obtain x xs1 where x: "content t h v = Some x"
    and xs1: "those (map (\<lambda>(t, v). content t h v) (zip ts vs1)) = Some xs1" and xs: "xs = x # xs1"
    using Cons.prems(2) by (auto simp: vs split: option.splits)
  obtain w h1 where first: "c v h = (w, h1)" by (cases "c v h")
  obtain ws1 where rest: "copy_each cs vs1 h1 = (ws1, h')" and ws: "ws = w # ws1"
    using Cons.prems(3) by (auto simp: vs first split: prod.splits)
  note w = deepD [OF Cons.hyps(1) x first]
  have "those (map (\<lambda>(t, v). content t h1 v) (zip ts vs1)) = Some xs1"
  proof (rule those_map_cong [OF xs1])
    fix e y
    assume e: "(case e of (t, v) \<Rightarrow> content t h v) = Some y"
    obtain s u where su: "e = (s, u)" by (cases e)
    with e have "content s h u = Some y" by simp
    from content_frame [OF this keeps_subset [OF w(1) reach_below [OF this]]]
    show "(case e of (t, v) \<Rightarrow> content t h1 v) = Some y" by (simp add: su)
  qed
  note IH = Cons.IH [OF vs(2) this rest]
  have "keeps (reach t h1 w) h1 h'" using IH w(3) keeps_subset by (metis reach_below w(2))
  from content_frame [OF w(2) this] have "content t h' w = Some x" "reach t h' w = reach t h1 w" by auto
  moreover have "nxt h \<le> nxt h1" "nxt h1 \<le> nxt h'" using w(1) IH by (auto simp: keeps_def)
  ultimately show ?case
    using IH w keeps_trans [OF w(1)] by (auto simp: ws xs) fastforce+
qed

lemma deep_struct [intro]:
  assumes "list_all2 deep ts cs"
  shows "deep (TStruct ts) (copy_struct cs)"
  unfolding deep_def
proof (intro allI impI)
  fix h v x w h'
  assume "content (TStruct ts) h v = Some x" and run: "copy_struct cs v h = (w, h')"
  then obtain vs xs where v: "v = Struct vs" "length vs = length ts" "x = CStruct xs"
    and xs: "those (map (\<lambda>(t, v). content t h v) (zip ts vs)) = Some xs"
    by (auto split: gval.splits if_splits)
  obtain ws where ws: "copy_each cs vs h = (ws, h')" "w = Struct ws"
    using run by (auto simp: copy_struct_def v split: prod.splits)
  show "keeps {..<nxt h} h h' \<and> content (TStruct ts) h' w = Some x \<and> reach (TStruct ts) h' w \<subseteq> {nxt h..<nxt h'}"
    using copy_each_deep [OF assms v(2) xs ws(1)] by (fastforce simp: ws(2) v(3))
qed

text \<open>Storing the copy of what a reference leads to in a new cell.\<close>

lemma keeps_new: "keeps A h (snd (new_cell h))"
  by (simp add: keeps_def new_cell_def)

lemma set_new_cell:
  assumes "keeps {..<Suc (nxt h)} (h\<lparr>nxt := Suc (nxt h)\<rparr>) h1"
  shows "keeps {..<nxt h} h (set_cell (nxt h) c h1)" and "cell_at (set_cell (nxt h) c h1) (Ref (nxt h)) = Some c"
    and "nxt (set_cell (nxt h) c h1) = nxt h1" and "nxt h < nxt h1"
    and "A \<subseteq> {Suc (nxt h)..} \<Longrightarrow> keeps A h1 (set_cell (nxt h) c h1)"
  using assms by (auto simp: keeps_def set_cell_def cell_at_def)

lemma deep_ptr [intro]:
  assumes "deep t c"
  shows "deep (TPtr t) (copy_ptr c)"
  unfolding deep_def
proof (intro allI impI)
  fix h v x w h'
  assume x: "content (TPtr t) h v = Some x" and run: "copy_ptr c v h = (w, h')"
  let ?h = "h\<lparr>nxt := Suc (nxt h)\<rparr>"
  show "keeps {..<nxt h} h h' \<and> content (TPtr t) h' w = Some x \<and> reach (TPtr t) h' w \<subseteq> {nxt h..<nxt h'}"
  proof (cases "v = Nil")
    case True
    then show ?thesis
      using x run by (auto simp: copy_ptr_def target_def cell_at_def keeps_def the_ref_def)
  next
    case False
    with x obtain u y where u: "target h v = Some u" and y: "content t h u = Some y" "x = CPtr y"
      by (auto split: option.splits)
    obtain u' h1 where copy: "c u ?h = (u', h1)" by (cases "c u ?h")
    have w: "w = Ref (nxt h)" "h' = set_cell (nxt h) (Cell u') h1"
      using run by (simp_all add: copy_ptr_def u new_cell_def copy)
    have "keeps (reach t h u) h ?h" by (simp add: keeps_def)
    from content_frame [OF y(1) this] have "content t ?h u = Some y" ..
    note u' = deepD [OF assms this copy]
    note cell = set_new_cell [OF u'(1) [simplified]]
    have "keeps (reach t h1 u') h1 h'" unfolding w using u'(3) by (intro cell(5)) auto
    from content_frame [OF u'(2) this] u'(3) cell(1-4) y(2) show ?thesis
      by (auto simp: w target_def the_ref_def)
  qed
qed

text \<open>The elements of a slice, or the values of a map, are fields of one type.\<close>

lemma zip_constant: "map (\<lambda>(t, v). content t h v) (zip (map (\<lambda>_. t) xs) vs) = map (content t h) (take (length xs) vs)"
proof (induction xs arbitrary: vs)
  case (Cons a xs)
  then show ?case by (cases vs) auto
qed simp

lemma copy_each_same:
  assumes "deep t c" and "those (map (content t h) vs) = Some xs" and "copy_each (map (\<lambda>_. c) es) vs h = (ws, h')"
    and "length es = length vs"
  shows "keeps {..<nxt h} h h'" and "length ws = length vs" and "those (map (content t h') ws) = Some xs"
    and "w \<in> set ws \<Longrightarrow> reach t h' w \<subseteq> {nxt h..<nxt h'}"
proof -
  have all: "list_all2 deep (map (\<lambda>_. t) es) (map (\<lambda>_. c) es)"
    using assms(1) by (simp add: list_all2_conv_all_nth)
  have "those (map (\<lambda>(t, v). content t h v) (zip (map (\<lambda>_. t) es) vs)) = Some xs"
    using assms(2,4) by (simp add: zip_constant)
  from copy_each_deep [OF all _ this assms(3)] assms(4)
  have ok: "keeps {..<nxt h} h h'" "length ws = length vs"
    "those (map (\<lambda>(t, v). content t h' v) (zip (map (\<lambda>_. t) es) ws)) = Some xs"
    "\<forall>(t, w) \<in> set (zip (map (\<lambda>_. t) es) ws). reach t h' w \<subseteq> {nxt h..<nxt h'}"
    by simp_all
  then show "keeps {..<nxt h} h h'" "length ws = length vs" "those (map (content t h') ws) = Some xs"
    using assms(4) by (simp_all add: zip_constant)
  assume "w \<in> set ws"
  then obtain i where "i < length ws" "w = ws ! i" by (auto simp: in_set_conv_nth)
  then have "(t, w) \<in> set (zip (map (\<lambda>_. t) es) ws)"
    using ok(2) assms(4) by (auto simp: in_set_zip intro!: exI [of _ i])
  with ok(4) show "reach t h' w \<subseteq> {nxt h..<nxt h'}" by blast
qed

lemma those_frame:
  assumes "those (map (content t h) ws) = Some xs" and "\<And>w. w \<in> set ws \<Longrightarrow> keeps (reach t h w) h h'"
  shows "those (map (content t h') ws) = Some xs" and "w \<in> set ws \<Longrightarrow> reach t h' w = reach t h w"
proof -
  show "those (map (content t h') ws) = Some xs"
    by (rule those_map_cong [OF assms(1)]) (use content_frame assms(2) in blast)
  show "reach t h' w = reach t h w" if "w \<in> set ws"
    using those_map_defined [OF assms(1) that] content_frame assms(2) [OF that] by blast
qed

lemma deep_slice [intro]:
  assumes "deep t c"
  shows "deep (TSlice t) (copy_slice c)"
  unfolding deep_def
proof (intro allI impI)
  fix h v x w h'
  assume x: "content (TSlice t) h v = Some x" and run: "copy_slice c v h = (w, h')"
  let ?h = "h\<lparr>nxt := Suc (nxt h)\<rparr>"
  show "keeps {..<nxt h} h h' \<and> content (TSlice t) h' w = Some x \<and> reach (TSlice t) h' w \<subseteq> {nxt h..<nxt h'}"
  proof (cases "v = Nil")
    case True
    then show ?thesis
      using x run by (auto simp: copy_slice_def items_def cell_at_def keeps_def the_ref_def)
  next
    case False
    with x obtain vs xs where vs: "items h v = Some vs" and xs: "those (map (content t h) vs) = Some xs"
      "x = CSlice xs" by (auto split: option.splits)
    obtain ws h1 where copy: "copy_each (map (\<lambda>_. c) vs) vs ?h = (ws, h1)"
      by (cases "copy_each (map (\<lambda>_. c) vs) vs ?h")
    have w: "w = Ref (nxt h)" "h' = set_cell (nxt h) (Arr ws) h1"
      using run by (simp_all add: copy_slice_def vs new_cell_def copy)
    have "those (map (content t ?h) vs) = Some xs"
      by (rule those_frame(1) [OF xs(1)]) (simp add: keeps_def)
    note ws = copy_each_same [OF assms this copy refl]
    note cell = set_new_cell [OF ws(1) [simplified]]
    have kept: "keeps (reach t h1 u) h1 h'" if "u \<in> set ws" for u
      unfolding w using ws(4) [OF that] by (intro cell(5)) auto
    note after = those_frame [OF ws(3) kept]
    have "keeps {..<nxt h} h h'" "items h' w = Some ws"
      using cell(1,2) by (simp_all add: w items_def)
    moreover have "reach t h' u \<subseteq> {nxt h..<nxt h'}" if "u \<in> set ws" for u
      using after(2) [OF _ that] ws(4) [OF that] cell(3) by (auto simp: w)
    ultimately show ?thesis
      using after(1) cell(3,4) by (auto simp: w(1) the_ref_def xs(2)) (simp_all add: w(2))
  qed
qed

lemma deep_map [intro]:
  assumes "deep t c"
  shows "deep (TMap t) (copy_map c)"
  unfolding deep_def
proof (intro allI impI)
  fix h v x w h'
  assume x: "content (TMap t) h v = Some x" and run: "copy_map c v h = (w, h')"
  let ?h = "h\<lparr>nxt := Suc (nxt h)\<rparr>"
  show "keeps {..<nxt h} h h' \<and> content (TMap t) h' w = Some x \<and> reach (TMap t) h' w \<subseteq> {nxt h..<nxt h'}"
  proof (cases "v = Nil")
    case True
    then show ?thesis
      using x run by (auto simp: copy_map_def entries_def cell_at_def keeps_def the_ref_def)
  next
    case False
    with x obtain es xs where es: "entries h v = Some es"
      and xs: "those (map (content t h) (map snd es)) = Some xs" "x = CMap (zip (map fst es) xs)"
      by (auto simp: comp_def split: option.splits)
    obtain ws h1 where copy: "copy_each (map (\<lambda>_. c) es) (map snd es) ?h = (ws, h1)"
      by (cases "copy_each (map (\<lambda>_. c) es) (map snd es) ?h")
    let ?es = "zip (map fst es) ws"
    have w: "w = Ref (nxt h)" "h' = set_cell (nxt h) (Dict ?es) h1"
      using run by (simp_all add: copy_map_def es new_cell_def copy)
    have "those (map (content t ?h) (map snd es)) = Some xs"
      by (rule those_frame(1) [OF xs(1)]) (simp add: keeps_def)
    note ws = copy_each_same [OF assms this copy, simplified]
    have snds: "map snd ?es = ws" "map fst ?es = map fst es" using ws(2) by simp_all
    note cell = set_new_cell [OF ws(1)]
    have kept: "keeps (reach t h1 u) h1 h'" if "u \<in> set ws" for u
      unfolding w using ws(4) [OF that] by (intro cell(5)) auto
    note after = those_frame [OF ws(3) kept]
    have "keeps {..<nxt h} h h'" "entries h' w = Some ?es"
      using cell(1,2) by (simp_all add: w entries_def)
    moreover have "those (map (\<lambda>e. content t h' (snd e)) ?es) = Some xs"
      using after(1) snds(1) by (metis (no_types, lifting) list.map_comp comp_def map_cong)
    moreover have "reach t h' (snd e) \<subseteq> {nxt h..<nxt h'}" if "e \<in> set ?es" for e
    proof -
      have u: "snd e \<in> set ws" using that snds(1) by (metis image_eqI list.set_map)
      show ?thesis using after(2) [OF _ u] ws(4) [OF u] cell(3) by (auto simp: w)
    qed
    ultimately show ?thesis
      using cell(3,4) snds(2) by (auto simp: w(1) the_ref_def xs(2)) (simp_all add: w(2))
  qed
qed

subsection \<open>Independence\<close>

text \<open>
  Writes to cells that a value does not reach leave its content alone; so a deep copy and its original may be
  changed independently.
\<close>

lemma content_set_cell:
  "content t h v = Some x \<Longrightarrow> a \<notin> reach t h v \<Longrightarrow> content t (set_cell a c h) v = Some x"
  using content_frame [of t h v x "set_cell a c h"] by (auto simp: keeps_def set_cell_def)

lemma deep_independent:
  assumes "deep t c" and "content t h v = Some x" and "c v h = (w, h')"
  shows "content t h' w = Some x" and "content t h' v = Some x" and "reach t h' v \<inter> reach t h' w = {}"
    and "a \<in> reach t h' w \<Longrightarrow> content t (set_cell a k h') v = Some x"
    and "a \<in> reach t h' v \<Longrightarrow> content t (set_cell a k h') w = Some x"
proof -
  note w = deepD [OF assms]
  have v: "content t h' v = Some x" "reach t h' v = reach t h v"
    using content_frame [OF assms(2)] keeps_subset [OF w(1) reach_below [OF assms(2)]] by simp_all
  show disjoint: "reach t h' v \<inter> reach t h' w = {}"
    using reach_below [OF assms(2)] w(3) v(2) by force
  show "content t h' w = Some x" "content t h' v = Some x" by (rule w(2), rule v(1))
  show "a \<in> reach t h' w \<Longrightarrow> content t (set_cell a k h') v = Some x"
    using content_set_cell [OF v(1)] disjoint by blast
  show "a \<in> reach t h' v \<Longrightarrow> content t (set_cell a k h') w = Some x"
    using content_set_cell [OF w(2)] disjoint by blast
qed

text \<open>The copier that follows the structure of a type.\<close>

fun structural :: "gtype \<Rightarrow> copier" where
  "structural TData = copy_flat"
| "structural (TStruct ts) = copy_struct (map structural ts)"
| "structural (TPtr t) = copy_ptr (structural t)"
| "structural (TSlice t) = copy_slice (structural t)"
| "structural (TMap t) = copy_map (structural t)"

lemma deep_structural: "deep t (structural t)"
  by (induction t) (auto simp: list_all2_conv_all_nth intro!: deep_struct)

end
