(* ===== verification/DeepCopies.thy ===== *)
theory DeepCopies
  imports GoHeap
begin

section \<open>Generated deep copies\<close>

text \<open>
  \<open>api/core/v1alpha1/zz_generated.deepcopy.go\<close> on the heap of \<open>GoHeap\<close>: for each API type \<open>X\<close> its layout
  \<open>X_T\<close>, a field for each field of the Go struct in their order, and \<open>DeepCopyInto_X\<close>, \<open>DeepCopy_X\<close> and
  \<open>DeepCopyObject_X\<close>. The layouts and copiers of types of other packages are the parameter \<open>E\<close>; the locale
  \<open>copiers\<close> states that these copiers are deep, as their packages promise, and is interpreted on copiers that
  follow the structure of their types. A \<open>metav1.Time\<close> is data: nothing changes the location it points to.
  A copy field by field stands for \<open>*out = *in\<close> followed by the statements that replace fields; fields
  without a statement keep \<open>copy_flat\<close>, so a forgotten statement on a field with references would make the
  lemmas fail.
\<close>

subsection \<open>Types and copiers of other packages\<close>

record ext_copiers =
  xc_ObjectMeta_T :: gtype
  xc_ObjectMeta :: copier
  xc_ListMeta_T :: gtype
  xc_ListMeta :: copier
  xc_Condition_T :: gtype
  xc_Condition :: copier
  xc_RawExtension_T :: gtype
  xc_RawExtension :: copier
  xc_Time :: copier

definition TypeMeta_T :: gtype where "TypeMeta_T = TStruct [TData, TData]"

subsection \<open>SecretReference\<close>

definition SecretReference_T :: "ext_copiers \<Rightarrow> gtype" where
  "SecretReference_T E = TStruct [TData]"

definition DeepCopyInto_SecretReference :: "ext_copiers \<Rightarrow> copier" where
  "DeepCopyInto_SecretReference E = copy_flat"

definition DeepCopy_SecretReference :: "ext_copiers \<Rightarrow> copier" where
  "DeepCopy_SecretReference E = copy_ptr (DeepCopyInto_SecretReference E)"

subsection \<open>ModelReference\<close>

definition ModelReference_T :: "ext_copiers \<Rightarrow> gtype" where
  "ModelReference_T E = TStruct [TData, TData]"

definition DeepCopyInto_ModelReference :: "ext_copiers \<Rightarrow> copier" where
  "DeepCopyInto_ModelReference E = copy_flat"

definition DeepCopy_ModelReference :: "ext_copiers \<Rightarrow> copier" where
  "DeepCopy_ModelReference E = copy_ptr (DeepCopyInto_ModelReference E)"

subsection \<open>SchedulingStrategy\<close>

definition SchedulingStrategy_T :: "ext_copiers \<Rightarrow> gtype" where
  "SchedulingStrategy_T E = TStruct [TData]"

definition DeepCopyInto_SchedulingStrategy :: "ext_copiers \<Rightarrow> copier" where
  "DeepCopyInto_SchedulingStrategy E = copy_flat"

definition DeepCopy_SchedulingStrategy :: "ext_copiers \<Rightarrow> copier" where
  "DeepCopy_SchedulingStrategy E = copy_ptr (DeepCopyInto_SchedulingStrategy E)"

subsection \<open>Multinode\<close>

definition Multinode_T :: "ext_copiers \<Rightarrow> gtype" where
  "Multinode_T E = TStruct [TData]"

definition DeepCopyInto_Multinode :: "ext_copiers \<Rightarrow> copier" where
  "DeepCopyInto_Multinode E = copy_flat"

definition DeepCopy_Multinode :: "ext_copiers \<Rightarrow> copier" where
  "DeepCopy_Multinode E = copy_ptr (DeepCopyInto_Multinode E)"

subsection \<open>PrefetchStatus\<close>

definition PrefetchStatus_T :: "ext_copiers \<Rightarrow> gtype" where
  "PrefetchStatus_T E = TStruct [TData, TData, TData]"

definition DeepCopyInto_PrefetchStatus :: "ext_copiers \<Rightarrow> copier" where
  "DeepCopyInto_PrefetchStatus E = copy_flat"

definition DeepCopy_PrefetchStatus :: "ext_copiers \<Rightarrow> copier" where
  "DeepCopy_PrefetchStatus E = copy_ptr (DeepCopyInto_PrefetchStatus E)"

subsection \<open>LoRAArtifactSpec\<close>

definition LoRAArtifactSpec_T :: "ext_copiers \<Rightarrow> gtype" where
  "LoRAArtifactSpec_T E = TStruct [ModelReference_T E]"

definition DeepCopyInto_LoRAArtifactSpec :: "ext_copiers \<Rightarrow> copier" where
  "DeepCopyInto_LoRAArtifactSpec E = copy_struct [copy_flat]"

definition DeepCopy_LoRAArtifactSpec :: "ext_copiers \<Rightarrow> copier" where
  "DeepCopy_LoRAArtifactSpec E = copy_ptr (DeepCopyInto_LoRAArtifactSpec E)"

subsection \<open>PrefetchSpec\<close>

definition PrefetchSpec_T :: "ext_copiers \<Rightarrow> gtype" where
  "PrefetchSpec_T E = TStruct [TMap TData, TData]"

definition DeepCopyInto_PrefetchSpec :: "ext_copiers \<Rightarrow> copier" where
  "DeepCopyInto_PrefetchSpec E = copy_struct [copy_map copy_flat, copy_flat]"

definition DeepCopy_PrefetchSpec :: "ext_copiers \<Rightarrow> copier" where
  "DeepCopy_PrefetchSpec E = copy_ptr (DeepCopyInto_PrefetchSpec E)"

subsection \<open>ModelSource\<close>

definition ModelSource_T :: "ext_copiers \<Rightarrow> gtype" where
  "ModelSource_T E = TStruct [TData, TPtr (SecretReference_T E)]"

definition DeepCopyInto_ModelSource :: "ext_copiers \<Rightarrow> copier" where
  "DeepCopyInto_ModelSource E = copy_struct [copy_flat, copy_ptr copy_flat]"

definition DeepCopy_ModelSource :: "ext_copiers \<Rightarrow> copier" where
  "DeepCopy_ModelSource E = copy_ptr (DeepCopyInto_ModelSource E)"

subsection \<open>ModelSpec\<close>

definition ModelSpec_T :: "ext_copiers \<Rightarrow> gtype" where
  "ModelSpec_T E = TStruct [ModelSource_T E, TPtr (LoRAArtifactSpec_T E), TPtr (PrefetchSpec_T E)]"

definition DeepCopyInto_ModelSpec :: "ext_copiers \<Rightarrow> copier" where
  "DeepCopyInto_ModelSpec E = copy_struct [DeepCopyInto_ModelSource E, copy_ptr copy_flat, copy_ptr (DeepCopyInto_PrefetchSpec E)]"

definition DeepCopy_ModelSpec :: "ext_copiers \<Rightarrow> copier" where
  "DeepCopy_ModelSpec E = copy_ptr (DeepCopyInto_ModelSpec E)"

subsection \<open>ModelStatus\<close>

definition ModelStatus_T :: "ext_copiers \<Rightarrow> gtype" where
  "ModelStatus_T E = TStruct [TData, TPtr (PrefetchStatus_T E), TSlice (xc_Condition_T E)]"

definition DeepCopyInto_ModelStatus :: "ext_copiers \<Rightarrow> copier" where
  "DeepCopyInto_ModelStatus E = copy_struct [copy_flat, copy_ptr copy_flat, copy_slice (xc_Condition E)]"

definition DeepCopy_ModelStatus :: "ext_copiers \<Rightarrow> copier" where
  "DeepCopy_ModelStatus E = copy_ptr (DeepCopyInto_ModelStatus E)"

subsection \<open>ModelLoaderSpec\<close>

definition ModelLoaderSpec_T :: "ext_copiers \<Rightarrow> gtype" where
  "ModelLoaderSpec_T E = TStruct [TPtr TData]"

definition DeepCopyInto_ModelLoaderSpec :: "ext_copiers \<Rightarrow> copier" where
  "DeepCopyInto_ModelLoaderSpec E = copy_struct [copy_ptr copy_flat]"

definition DeepCopy_ModelLoaderSpec :: "ext_copiers \<Rightarrow> copier" where
  "DeepCopy_ModelLoaderSpec E = copy_ptr (DeepCopyInto_ModelLoaderSpec E)"

subsection \<open>ModelLoaderStatus\<close>

definition ModelLoaderStatus_T :: "ext_copiers \<Rightarrow> gtype" where
  "ModelLoaderStatus_T E = TStruct [TSlice (xc_Condition_T E)]"

definition DeepCopyInto_ModelLoaderStatus :: "ext_copiers \<Rightarrow> copier" where
  "DeepCopyInto_ModelLoaderStatus E = copy_struct [copy_slice (xc_Condition E)]"

definition DeepCopy_ModelLoaderStatus :: "ext_copiers \<Rightarrow> copier" where
  "DeepCopy_ModelLoaderStatus E = copy_ptr (DeepCopyInto_ModelLoaderStatus E)"

subsection \<open>Role\<close>

definition Role_T :: "ext_copiers \<Rightarrow> gtype" where
  "Role_T E = TStruct [TData, TData, TData, TPtr (xc_RawExtension_T E), TPtr (xc_RawExtension_T E), TData,
    TPtr TData, TPtr (Multinode_T E), TPtr (xc_RawExtension_T E)]"

definition DeepCopyInto_Role :: "ext_copiers \<Rightarrow> copier" where
  "DeepCopyInto_Role E = copy_struct [copy_flat, copy_flat, copy_flat, copy_ptr (xc_RawExtension E),
    copy_ptr (xc_RawExtension E), copy_flat, copy_ptr copy_flat, copy_ptr copy_flat,
    copy_ptr (xc_RawExtension E)]"

definition DeepCopy_Role :: "ext_copiers \<Rightarrow> copier" where
  "DeepCopy_Role E = copy_ptr (DeepCopyInto_Role E)"

subsection \<open>ComponentStatus\<close>

definition ComponentStatus_T :: "ext_copiers \<Rightarrow> gtype" where
  "ComponentStatus_T E = TStruct [TData, TData, TData, TData, TData, TData, TPtr TData]"

definition DeepCopyInto_ComponentStatus :: "ext_copiers \<Rightarrow> copier" where
  "DeepCopyInto_ComponentStatus E = copy_struct [copy_flat, copy_flat, copy_flat, copy_flat, copy_flat, copy_flat, xc_Time E]"

definition DeepCopy_ComponentStatus :: "ext_copiers \<Rightarrow> copier" where
  "DeepCopy_ComponentStatus E = copy_ptr (DeepCopyInto_ComponentStatus E)"

subsection \<open>InferenceServiceSpec\<close>

definition InferenceServiceSpec_T :: "ext_copiers \<Rightarrow> gtype" where
  "InferenceServiceSpec_T E = TStruct [TSlice (Role_T E), TPtr (SchedulingStrategy_T E)]"

definition DeepCopyInto_InferenceServiceSpec :: "ext_copiers \<Rightarrow> copier" where
  "DeepCopyInto_InferenceServiceSpec E = copy_struct [copy_slice (DeepCopyInto_Role E), copy_ptr copy_flat]"

definition DeepCopy_InferenceServiceSpec :: "ext_copiers \<Rightarrow> copier" where
  "DeepCopy_InferenceServiceSpec E = copy_ptr (DeepCopyInto_InferenceServiceSpec E)"

subsection \<open>InferenceServiceStatus\<close>

definition InferenceServiceStatus_T :: "ext_copiers \<Rightarrow> gtype" where
  "InferenceServiceStatus_T E = TStruct [TData, TSlice (xc_Condition_T E), TMap (ComponentStatus_T E)]"

definition DeepCopyInto_InferenceServiceStatus :: "ext_copiers \<Rightarrow> copier" where
  "DeepCopyInto_InferenceServiceStatus E = copy_struct [copy_flat, copy_slice (xc_Condition E), copy_map (DeepCopyInto_ComponentStatus E)]"

definition DeepCopy_InferenceServiceStatus :: "ext_copiers \<Rightarrow> copier" where
  "DeepCopy_InferenceServiceStatus E = copy_ptr (DeepCopyInto_InferenceServiceStatus E)"

subsection \<open>InferenceService\<close>

definition InferenceService_T :: "ext_copiers \<Rightarrow> gtype" where
  "InferenceService_T E = TStruct [TypeMeta_T, xc_ObjectMeta_T E, InferenceServiceSpec_T E, InferenceServiceStatus_T E]"

definition DeepCopyInto_InferenceService :: "ext_copiers \<Rightarrow> copier" where
  "DeepCopyInto_InferenceService E = copy_struct [copy_flat, xc_ObjectMeta E, DeepCopyInto_InferenceServiceSpec E,
    DeepCopyInto_InferenceServiceStatus E]"

definition DeepCopy_InferenceService :: "ext_copiers \<Rightarrow> copier" where
  "DeepCopy_InferenceService E = copy_ptr (DeepCopyInto_InferenceService E)"

definition DeepCopyObject_InferenceService :: "ext_copiers \<Rightarrow> copier" where
  "DeepCopyObject_InferenceService E v h = (let (c, h) = DeepCopy_InferenceService E v h in (if c \<noteq> Nil then c else Nil, h))"

subsection \<open>InferenceServiceList\<close>

definition InferenceServiceList_T :: "ext_copiers \<Rightarrow> gtype" where
  "InferenceServiceList_T E = TStruct [TypeMeta_T, xc_ListMeta_T E, TSlice (InferenceService_T E)]"

definition DeepCopyInto_InferenceServiceList :: "ext_copiers \<Rightarrow> copier" where
  "DeepCopyInto_InferenceServiceList E = copy_struct [copy_flat, xc_ListMeta E, copy_slice (DeepCopyInto_InferenceService E)]"

definition DeepCopy_InferenceServiceList :: "ext_copiers \<Rightarrow> copier" where
  "DeepCopy_InferenceServiceList E = copy_ptr (DeepCopyInto_InferenceServiceList E)"

definition DeepCopyObject_InferenceServiceList :: "ext_copiers \<Rightarrow> copier" where
  "DeepCopyObject_InferenceServiceList E v h = (let (c, h) = DeepCopy_InferenceServiceList E v h in (if c \<noteq> Nil then c else Nil, h))"

subsection \<open>Model\<close>

definition Model_T :: "ext_copiers \<Rightarrow> gtype" where
  "Model_T E = TStruct [TypeMeta_T, xc_ObjectMeta_T E, ModelSpec_T E, ModelStatus_T E]"

definition DeepCopyInto_Model :: "ext_copiers \<Rightarrow> copier" where
  "DeepCopyInto_Model E = copy_struct [copy_flat, xc_ObjectMeta E, DeepCopyInto_ModelSpec E, DeepCopyInto_ModelStatus E]"

definition DeepCopy_Model :: "ext_copiers \<Rightarrow> copier" where
  "DeepCopy_Model E = copy_ptr (DeepCopyInto_Model E)"

definition DeepCopyObject_Model :: "ext_copiers \<Rightarrow> copier" where
  "DeepCopyObject_Model E v h = (let (c, h) = DeepCopy_Model E v h in (if c \<noteq> Nil then c else Nil, h))"

subsection \<open>ModelList\<close>

definition ModelList_T :: "ext_copiers \<Rightarrow> gtype" where
  "ModelList_T E = TStruct [TypeMeta_T, xc_ListMeta_T E, TSlice (Model_T E)]"

definition DeepCopyInto_ModelList :: "ext_copiers \<Rightarrow> copier" where
  "DeepCopyInto_ModelList E = copy_struct [copy_flat, xc_ListMeta E, copy_slice (DeepCopyInto_Model E)]"

definition DeepCopy_ModelList :: "ext_copiers \<Rightarrow> copier" where
  "DeepCopy_ModelList E = copy_ptr (DeepCopyInto_ModelList E)"

definition DeepCopyObject_ModelList :: "ext_copiers \<Rightarrow> copier" where
  "DeepCopyObject_ModelList E v h = (let (c, h) = DeepCopy_ModelList E v h in (if c \<noteq> Nil then c else Nil, h))"

subsection \<open>ClusterModel\<close>

definition ClusterModel_T :: "ext_copiers \<Rightarrow> gtype" where
  "ClusterModel_T E = TStruct [TypeMeta_T, xc_ObjectMeta_T E, ModelSpec_T E, ModelStatus_T E]"

definition DeepCopyInto_ClusterModel :: "ext_copiers \<Rightarrow> copier" where
  "DeepCopyInto_ClusterModel E = copy_struct [copy_flat, xc_ObjectMeta E, DeepCopyInto_ModelSpec E, DeepCopyInto_ModelStatus E]"

definition DeepCopy_ClusterModel :: "ext_copiers \<Rightarrow> copier" where
  "DeepCopy_ClusterModel E = copy_ptr (DeepCopyInto_ClusterModel E)"

definition DeepCopyObject_ClusterModel :: "ext_copiers \<Rightarrow> copier" where
  "DeepCopyObject_ClusterModel E v h = (let (c, h) = DeepCopy_ClusterModel E v h in (if c \<noteq> Nil then c else Nil, h))"

subsection \<open>ClusterModelList\<close>

definition ClusterModelList_T :: "ext_copiers \<Rightarrow> gtype" where
  "ClusterModelList_T E = TStruct [TypeMeta_T, xc_ListMeta_T E, TSlice (ClusterModel_T E)]"

definition DeepCopyInto_ClusterModelList :: "ext_copiers \<Rightarrow> copier" where
  "DeepCopyInto_ClusterModelList E = copy_struct [copy_flat, xc_ListMeta E, copy_slice (DeepCopyInto_ClusterModel E)]"

definition DeepCopy_ClusterModelList :: "ext_copiers \<Rightarrow> copier" where
  "DeepCopy_ClusterModelList E = copy_ptr (DeepCopyInto_ClusterModelList E)"

definition DeepCopyObject_ClusterModelList :: "ext_copiers \<Rightarrow> copier" where
  "DeepCopyObject_ClusterModelList E v h = (let (c, h) = DeepCopy_ClusterModelList E v h in (if c \<noteq> Nil then c else Nil, h))"

subsection \<open>ModelLoader\<close>

definition ModelLoader_T :: "ext_copiers \<Rightarrow> gtype" where
  "ModelLoader_T E = TStruct [TypeMeta_T, xc_ObjectMeta_T E, ModelLoaderSpec_T E, ModelLoaderStatus_T E]"

definition DeepCopyInto_ModelLoader :: "ext_copiers \<Rightarrow> copier" where
  "DeepCopyInto_ModelLoader E = copy_struct [copy_flat, xc_ObjectMeta E, DeepCopyInto_ModelLoaderSpec E,
    DeepCopyInto_ModelLoaderStatus E]"

definition DeepCopy_ModelLoader :: "ext_copiers \<Rightarrow> copier" where
  "DeepCopy_ModelLoader E = copy_ptr (DeepCopyInto_ModelLoader E)"

definition DeepCopyObject_ModelLoader :: "ext_copiers \<Rightarrow> copier" where
  "DeepCopyObject_ModelLoader E v h = (let (c, h) = DeepCopy_ModelLoader E v h in (if c \<noteq> Nil then c else Nil, h))"

subsection \<open>ModelLoaderList\<close>

definition ModelLoaderList_T :: "ext_copiers \<Rightarrow> gtype" where
  "ModelLoaderList_T E = TStruct [TypeMeta_T, xc_ListMeta_T E, TSlice (ModelLoader_T E)]"

definition DeepCopyInto_ModelLoaderList :: "ext_copiers \<Rightarrow> copier" where
  "DeepCopyInto_ModelLoaderList E = copy_struct [copy_flat, xc_ListMeta E, copy_slice (DeepCopyInto_ModelLoader E)]"

definition DeepCopy_ModelLoaderList :: "ext_copiers \<Rightarrow> copier" where
  "DeepCopy_ModelLoaderList E = copy_ptr (DeepCopyInto_ModelLoaderList E)"

definition DeepCopyObject_ModelLoaderList :: "ext_copiers \<Rightarrow> copier" where
  "DeepCopyObject_ModelLoaderList E v h = (let (c, h) = DeepCopy_ModelLoaderList E v h in (if c \<noteq> Nil then c else Nil, h))"

subsection \<open>All of them\<close>

lemmas layout_defs = TypeMeta_T_def
  SecretReference_T_def ModelReference_T_def SchedulingStrategy_T_def Multinode_T_def
  PrefetchStatus_T_def LoRAArtifactSpec_T_def PrefetchSpec_T_def ModelSource_T_def
  ModelSpec_T_def ModelStatus_T_def ModelLoaderSpec_T_def ModelLoaderStatus_T_def Role_T_def
  ComponentStatus_T_def InferenceServiceSpec_T_def InferenceServiceStatus_T_def
  InferenceService_T_def InferenceServiceList_T_def Model_T_def ModelList_T_def
  ClusterModel_T_def ClusterModelList_T_def ModelLoader_T_def ModelLoaderList_T_def

lemmas into_defs =
  DeepCopyInto_SecretReference_def DeepCopyInto_ModelReference_def
  DeepCopyInto_SchedulingStrategy_def DeepCopyInto_Multinode_def DeepCopyInto_PrefetchStatus_def
  DeepCopyInto_LoRAArtifactSpec_def DeepCopyInto_PrefetchSpec_def DeepCopyInto_ModelSource_def
  DeepCopyInto_ModelSpec_def DeepCopyInto_ModelStatus_def DeepCopyInto_ModelLoaderSpec_def
  DeepCopyInto_ModelLoaderStatus_def DeepCopyInto_Role_def DeepCopyInto_ComponentStatus_def
  DeepCopyInto_InferenceServiceSpec_def DeepCopyInto_InferenceServiceStatus_def
  DeepCopyInto_InferenceService_def DeepCopyInto_InferenceServiceList_def DeepCopyInto_Model_def
  DeepCopyInto_ModelList_def DeepCopyInto_ClusterModel_def DeepCopyInto_ClusterModelList_def
  DeepCopyInto_ModelLoader_def DeepCopyInto_ModelLoaderList_def

lemmas copy_defs =
  DeepCopy_SecretReference_def DeepCopy_ModelReference_def DeepCopy_SchedulingStrategy_def
  DeepCopy_Multinode_def DeepCopy_PrefetchStatus_def DeepCopy_LoRAArtifactSpec_def
  DeepCopy_PrefetchSpec_def DeepCopy_ModelSource_def DeepCopy_ModelSpec_def
  DeepCopy_ModelStatus_def DeepCopy_ModelLoaderSpec_def DeepCopy_ModelLoaderStatus_def
  DeepCopy_Role_def DeepCopy_ComponentStatus_def DeepCopy_InferenceServiceSpec_def
  DeepCopy_InferenceServiceStatus_def DeepCopy_InferenceService_def
  DeepCopy_InferenceServiceList_def DeepCopy_Model_def DeepCopy_ModelList_def
  DeepCopy_ClusterModel_def DeepCopy_ClusterModelList_def DeepCopy_ModelLoader_def
  DeepCopy_ModelLoaderList_def

lemmas object_defs =
  DeepCopyObject_InferenceService_def DeepCopyObject_InferenceServiceList_def
  DeepCopyObject_Model_def DeepCopyObject_ModelList_def DeepCopyObject_ClusterModel_def
  DeepCopyObject_ClusterModelList_def DeepCopyObject_ModelLoader_def
  DeepCopyObject_ModelLoaderList_def

text \<open>The \<open>DeepCopy\<close> and \<open>DeepCopyObject\<close> functions, each with the type of its receiver.\<close>

definition generated_copies :: "ext_copiers \<Rightarrow> (gtype \<times> copier) list" where
  "generated_copies E = [
     (TPtr (SecretReference_T E), DeepCopy_SecretReference E),
     (TPtr (ModelReference_T E), DeepCopy_ModelReference E),
     (TPtr (SchedulingStrategy_T E), DeepCopy_SchedulingStrategy E),
     (TPtr (Multinode_T E), DeepCopy_Multinode E),
     (TPtr (PrefetchStatus_T E), DeepCopy_PrefetchStatus E),
     (TPtr (LoRAArtifactSpec_T E), DeepCopy_LoRAArtifactSpec E),
     (TPtr (PrefetchSpec_T E), DeepCopy_PrefetchSpec E),
     (TPtr (ModelSource_T E), DeepCopy_ModelSource E),
     (TPtr (ModelSpec_T E), DeepCopy_ModelSpec E),
     (TPtr (ModelStatus_T E), DeepCopy_ModelStatus E),
     (TPtr (ModelLoaderSpec_T E), DeepCopy_ModelLoaderSpec E),
     (TPtr (ModelLoaderStatus_T E), DeepCopy_ModelLoaderStatus E),
     (TPtr (Role_T E), DeepCopy_Role E),
     (TPtr (ComponentStatus_T E), DeepCopy_ComponentStatus E),
     (TPtr (InferenceServiceSpec_T E), DeepCopy_InferenceServiceSpec E),
     (TPtr (InferenceServiceStatus_T E), DeepCopy_InferenceServiceStatus E),
     (TPtr (InferenceService_T E), DeepCopy_InferenceService E),
     (TPtr (InferenceServiceList_T E), DeepCopy_InferenceServiceList E),
     (TPtr (Model_T E), DeepCopy_Model E),
     (TPtr (ModelList_T E), DeepCopy_ModelList E),
     (TPtr (ClusterModel_T E), DeepCopy_ClusterModel E),
     (TPtr (ClusterModelList_T E), DeepCopy_ClusterModelList E),
     (TPtr (ModelLoader_T E), DeepCopy_ModelLoader E),
     (TPtr (ModelLoaderList_T E), DeepCopy_ModelLoaderList E),
     (TPtr (InferenceService_T E), DeepCopyObject_InferenceService E),
     (TPtr (InferenceServiceList_T E), DeepCopyObject_InferenceServiceList E),
     (TPtr (Model_T E), DeepCopyObject_Model E),
     (TPtr (ModelList_T E), DeepCopyObject_ModelList E),
     (TPtr (ClusterModel_T E), DeepCopyObject_ClusterModel E),
     (TPtr (ClusterModelList_T E), DeepCopyObject_ClusterModelList E),
     (TPtr (ModelLoader_T E), DeepCopyObject_ModelLoader E),
     (TPtr (ModelLoaderList_T E), DeepCopyObject_ModelLoaderList E)]"

text \<open>The contract of the copiers of other packages.\<close>

locale copiers =
  fixes E :: ext_copiers
  assumes ObjectMeta: "deep (xc_ObjectMeta_T E) (xc_ObjectMeta E)"
    and ListMeta: "deep (xc_ListMeta_T E) (xc_ListMeta E)"
    and Condition: "deep (xc_Condition_T E) (xc_Condition E)"
    and RawExtension: "deep (xc_RawExtension_T E) (xc_RawExtension E)"
    and Time: "deep (TPtr TData) (xc_Time E)"
begin

lemma flat_layouts [simp]:
  "flat TypeMeta_T" "flat (SecretReference_T E)" "flat (ModelReference_T E)" "flat (SchedulingStrategy_T E)"
  "flat (Multinode_T E)" "flat (PrefetchStatus_T E)" "flat (LoRAArtifactSpec_T E)"
  by (simp_all add: layout_defs)

lemmas deep_rules = deep_struct deep_ptr deep_slice deep_map deep_flat ObjectMeta ListMeta Condition
  RawExtension Time


lemma deep_SecretReference: "deep (SecretReference_T E) (DeepCopyInto_SecretReference E)"
  by (simp add: DeepCopyInto_SecretReference_def deep_flat)

lemma deep_ModelReference: "deep (ModelReference_T E) (DeepCopyInto_ModelReference E)"
  by (simp add: DeepCopyInto_ModelReference_def deep_flat)

lemma deep_SchedulingStrategy: "deep (SchedulingStrategy_T E) (DeepCopyInto_SchedulingStrategy E)"
  by (simp add: DeepCopyInto_SchedulingStrategy_def deep_flat)

lemma deep_Multinode: "deep (Multinode_T E) (DeepCopyInto_Multinode E)"
  by (simp add: DeepCopyInto_Multinode_def deep_flat)

lemma deep_PrefetchStatus: "deep (PrefetchStatus_T E) (DeepCopyInto_PrefetchStatus E)"
  by (simp add: DeepCopyInto_PrefetchStatus_def deep_flat)

lemma deep_LoRAArtifactSpec: "deep (LoRAArtifactSpec_T E) (DeepCopyInto_LoRAArtifactSpec E)"
  unfolding LoRAArtifactSpec_T_def DeepCopyInto_LoRAArtifactSpec_def
  by (intro deep_rules list_all2_Nil [THEN iffD2] list_all2_Cons [THEN iffD2] conjI) simp_all

lemma deep_PrefetchSpec: "deep (PrefetchSpec_T E) (DeepCopyInto_PrefetchSpec E)"
  unfolding PrefetchSpec_T_def DeepCopyInto_PrefetchSpec_def
  by (intro deep_rules list_all2_Nil [THEN iffD2] list_all2_Cons [THEN iffD2] conjI) simp_all

lemma deep_ModelSource: "deep (ModelSource_T E) (DeepCopyInto_ModelSource E)"
  unfolding ModelSource_T_def DeepCopyInto_ModelSource_def
  by (intro deep_rules list_all2_Nil [THEN iffD2] list_all2_Cons [THEN iffD2] conjI) simp_all

lemma deep_ModelSpec: "deep (ModelSpec_T E) (DeepCopyInto_ModelSpec E)"
  unfolding ModelSpec_T_def DeepCopyInto_ModelSpec_def
  by (intro deep_rules deep_ModelSource deep_PrefetchSpec list_all2_Nil [THEN iffD2] list_all2_Cons [THEN iffD2] conjI) simp_all

lemma deep_ModelStatus: "deep (ModelStatus_T E) (DeepCopyInto_ModelStatus E)"
  unfolding ModelStatus_T_def DeepCopyInto_ModelStatus_def
  by (intro deep_rules list_all2_Nil [THEN iffD2] list_all2_Cons [THEN iffD2] conjI) simp_all

lemma deep_ModelLoaderSpec: "deep (ModelLoaderSpec_T E) (DeepCopyInto_ModelLoaderSpec E)"
  unfolding ModelLoaderSpec_T_def DeepCopyInto_ModelLoaderSpec_def
  by (intro deep_rules list_all2_Nil [THEN iffD2] list_all2_Cons [THEN iffD2] conjI) simp_all

lemma deep_ModelLoaderStatus: "deep (ModelLoaderStatus_T E) (DeepCopyInto_ModelLoaderStatus E)"
  unfolding ModelLoaderStatus_T_def DeepCopyInto_ModelLoaderStatus_def
  by (intro deep_rules list_all2_Nil [THEN iffD2] list_all2_Cons [THEN iffD2] conjI) simp_all

lemma deep_Role: "deep (Role_T E) (DeepCopyInto_Role E)"
  unfolding Role_T_def DeepCopyInto_Role_def
  by (intro deep_rules list_all2_Nil [THEN iffD2] list_all2_Cons [THEN iffD2] conjI) simp_all

lemma deep_ComponentStatus: "deep (ComponentStatus_T E) (DeepCopyInto_ComponentStatus E)"
  unfolding ComponentStatus_T_def DeepCopyInto_ComponentStatus_def
  by (intro deep_rules list_all2_Nil [THEN iffD2] list_all2_Cons [THEN iffD2] conjI) simp_all

lemma deep_InferenceServiceSpec: "deep (InferenceServiceSpec_T E) (DeepCopyInto_InferenceServiceSpec E)"
  unfolding InferenceServiceSpec_T_def DeepCopyInto_InferenceServiceSpec_def
  by (intro deep_rules deep_Role list_all2_Nil [THEN iffD2] list_all2_Cons [THEN iffD2] conjI) simp_all

lemma deep_InferenceServiceStatus: "deep (InferenceServiceStatus_T E) (DeepCopyInto_InferenceServiceStatus E)"
  unfolding InferenceServiceStatus_T_def DeepCopyInto_InferenceServiceStatus_def
  by (intro deep_rules deep_ComponentStatus list_all2_Nil [THEN iffD2] list_all2_Cons [THEN iffD2] conjI) simp_all

lemma deep_InferenceService: "deep (InferenceService_T E) (DeepCopyInto_InferenceService E)"
  unfolding InferenceService_T_def DeepCopyInto_InferenceService_def
  by (intro deep_rules deep_InferenceServiceSpec deep_InferenceServiceStatus list_all2_Nil [THEN iffD2] list_all2_Cons [THEN iffD2] conjI) simp_all

lemma deep_InferenceServiceList: "deep (InferenceServiceList_T E) (DeepCopyInto_InferenceServiceList E)"
  unfolding InferenceServiceList_T_def DeepCopyInto_InferenceServiceList_def
  by (intro deep_rules deep_InferenceService list_all2_Nil [THEN iffD2] list_all2_Cons [THEN iffD2] conjI) simp_all

lemma deep_Model: "deep (Model_T E) (DeepCopyInto_Model E)"
  unfolding Model_T_def DeepCopyInto_Model_def
  by (intro deep_rules deep_ModelSpec deep_ModelStatus list_all2_Nil [THEN iffD2] list_all2_Cons [THEN iffD2] conjI) simp_all

lemma deep_ModelList: "deep (ModelList_T E) (DeepCopyInto_ModelList E)"
  unfolding ModelList_T_def DeepCopyInto_ModelList_def
  by (intro deep_rules deep_Model list_all2_Nil [THEN iffD2] list_all2_Cons [THEN iffD2] conjI) simp_all

lemma deep_ClusterModel: "deep (ClusterModel_T E) (DeepCopyInto_ClusterModel E)"
  unfolding ClusterModel_T_def DeepCopyInto_ClusterModel_def
  by (intro deep_rules deep_ModelSpec deep_ModelStatus list_all2_Nil [THEN iffD2] list_all2_Cons [THEN iffD2] conjI) simp_all

lemma deep_ClusterModelList: "deep (ClusterModelList_T E) (DeepCopyInto_ClusterModelList E)"
  unfolding ClusterModelList_T_def DeepCopyInto_ClusterModelList_def
  by (intro deep_rules deep_ClusterModel list_all2_Nil [THEN iffD2] list_all2_Cons [THEN iffD2] conjI) simp_all

lemma deep_ModelLoader: "deep (ModelLoader_T E) (DeepCopyInto_ModelLoader E)"
  unfolding ModelLoader_T_def DeepCopyInto_ModelLoader_def
  by (intro deep_rules deep_ModelLoaderSpec deep_ModelLoaderStatus list_all2_Nil [THEN iffD2] list_all2_Cons [THEN iffD2] conjI) simp_all

lemma deep_ModelLoaderList: "deep (ModelLoaderList_T E) (DeepCopyInto_ModelLoaderList E)"
  unfolding ModelLoaderList_T_def DeepCopyInto_ModelLoaderList_def
  by (intro deep_rules deep_ModelLoader list_all2_Nil [THEN iffD2] list_all2_Cons [THEN iffD2] conjI) simp_all

lemma object_copies:
  "DeepCopyObject_InferenceService E = DeepCopy_InferenceService E"
  "DeepCopyObject_InferenceServiceList E = DeepCopy_InferenceServiceList E"
  "DeepCopyObject_Model E = DeepCopy_Model E"
  "DeepCopyObject_ModelList E = DeepCopy_ModelList E"
  "DeepCopyObject_ClusterModel E = DeepCopy_ClusterModel E"
  "DeepCopyObject_ClusterModelList E = DeepCopy_ClusterModelList E"
  "DeepCopyObject_ModelLoader E = DeepCopy_ModelLoader E"
  "DeepCopyObject_ModelLoaderList E = DeepCopy_ModelLoaderList E"
  by (auto simp: object_defs fun_eq_iff Let_def split: prod.split)

lemma all_deep: "list_all (\<lambda>(t, c). deep t c) (generated_copies E)"
  by (simp add: generated_copies_def object_copies copy_defs deep_ptr
    deep_SecretReference deep_ModelReference deep_SchedulingStrategy deep_Multinode
    deep_PrefetchStatus deep_LoRAArtifactSpec deep_PrefetchSpec deep_ModelSource deep_ModelSpec
    deep_ModelStatus deep_ModelLoaderSpec deep_ModelLoaderStatus deep_Role deep_ComponentStatus
    deep_InferenceServiceSpec deep_InferenceServiceStatus deep_InferenceService
    deep_InferenceServiceList deep_Model deep_ModelList deep_ClusterModel deep_ClusterModelList
    deep_ModelLoader deep_ModelLoaderList)

end

subsection \<open>Structural copiers of the other packages\<close>

text \<open>Layouts of the types of \<open>apimachinery\<close>, with the fields the repository uses.\<close>

definition structural_copiers :: ext_copiers where
  "structural_copiers =
     (let owner = TStruct [TData, TData, TData, TData, TPtr TData, TPtr TData];
          object_meta = TStruct [TData, TData, TData, TMap TData, TMap TData, TSlice owner];
          list_meta = TStruct [TData, TData, TPtr TData];
          cond = TStruct [TData, TData, TData, TData, TData, TData];
          raw = TStruct [TSlice TData, TPtr TData]
      in \<lparr>xc_ObjectMeta_T = object_meta, xc_ObjectMeta = structural object_meta,
          xc_ListMeta_T = list_meta, xc_ListMeta = structural list_meta,
          xc_Condition_T = cond, xc_Condition = structural cond,
          xc_RawExtension_T = raw, xc_RawExtension = structural raw,
          xc_Time = structural (TPtr TData)\<rparr>)"

interpretation structural: copiers structural_copiers
  by unfold_locales (simp_all only: structural_copiers_def Let_def ext_copiers.simps deep_structural)

subsection \<open>Properties\<close>

text \<open>
  C32: Every generated \<open>DeepCopy\<close> and \<open>DeepCopyObject\<close> returns an equal object that shares no memory with the
  original: whatever is written to a cell of the copy, the original keeps its content, and the other way
  round.
\<close>

theorem deep_copies_are_independent:
  assumes "copiers E" and "(t, c) \<in> set (generated_copies E)" and "content t h v = Some x"
    and "c v h = (w, h')"
  shows "content t h' w = Some x \<and> content t h' v = Some x \<and> reach t h' v \<inter> reach t h' w = {} \<and>
    (\<forall>a \<in> reach t h' w. \<forall>k. content t (set_cell a k h') v = Some x) \<and>
    (\<forall>a \<in> reach t h' v. \<forall>k. content t (set_cell a k h') w = Some x)"
proof -
  have "deep t c" using copiers.all_deep [OF assms(1)] assms(2) by (auto simp: list_all_iff)
  from deep_independent [OF this assms(3,4)] show ?thesis by blast
qed

definition demo_heap :: go_heap where
  "demo_heap = \<lparr>hp = [0 \<mapsto> Cell (Struct [Data ''decode'', Data ''decoder'', Data [], Nil, Nil, Data [],
       Ref 1, Nil, Nil]), 1 \<mapsto> Cell (Data ''2'')], nxt = 2\<rparr>"

theorem deep_copies_are_independent_witness:
  "\<exists>w h'. DeepCopy_Role structural_copiers (Ref 0) demo_heap = (w, h') \<and>
    reach (TPtr (Role_T structural_copiers)) h' (Ref 0) \<inter> reach (TPtr (Role_T structural_copiers)) h' w = {}"
proof -
  have "(TPtr (Role_T structural_copiers), DeepCopy_Role structural_copiers)
      \<in> set (generated_copies structural_copiers)"
    by (simp add: generated_copies_def)
  moreover have "\<exists>x. content (TPtr (Role_T structural_copiers)) demo_heap (Ref 0) = Some x"
    by (simp add: Role_T_def Multinode_T_def structural_copiers_def demo_heap_def target_def cell_at_def)
  ultimately show ?thesis
    using deep_copies_are_independent [OF structural.copiers_axioms]
    by (metis surj_pair)
qed

end
