(* ===== verification/SchemaParser.thy ===== *)
theory SchemaParser
  imports Prelude
begin

section \<open>The parser of the apply configurations' schema\<close>

text \<open>
  \<open>client-go/applyconfiguration/internal/internal.go\<close>: \<open>Parser\<close> parses the embedded schema when it is first
  called and returns the package variable \<open>parser\<close>. \<open>Once_Do\<close> is \<open>sync.Once.Do\<close> of Go's standard library:
  the function runs in the first call only, also when it panics, and callers that come meanwhile wait for it,
  so concurrent calls are a sequence of calls. \<open>typed.NewParser\<close> of structured-merge-diff is the parameter
  \<open>newParser\<close>: what it answers to its \<open>n\<close>th call, a pointer that may be nil and an error. \<open>NewTypeConverter\<close>
  of \<open>client-go/applyconfiguration/utils.go\<close> hands the parser to the parameter \<open>newConverter\<close>.
\<close>

subsection \<open>sync.Once\<close>

text \<open>A function either panics with a message (\<open>Inl\<close>) or returns.\<close>

definition Once_Do :: "('s \<Rightarrow> (string + unit) \<times> 's) \<Rightarrow> bool \<Rightarrow> 's \<Rightarrow> (string + unit) \<times> bool \<times> 's" where
  "Once_Do f fired s = (if fired then (Inr (), True, s) else (let (r, s') = f s in (r, True, s')))"

subsection \<open>internal.go\<close>

definition schemaYAML :: string where
  "schemaYAML = unlines [
     ''types:'',
     ''- name: __untyped_atomic_'',
     ''  scalar: untyped'',
     ''  list:'',
     ''    elementType:'',
     ''      namedType: __untyped_atomic_'',
     ''    elementRelationship: atomic'',
     ''  map:'',
     ''    elementType:'',
     ''      namedType: __untyped_atomic_'',
     ''    elementRelationship: atomic'',
     ''- name: __untyped_deduced_'',
     ''  scalar: untyped'',
     ''  list:'',
     ''    elementType:'',
     ''      namedType: __untyped_atomic_'',
     ''    elementRelationship: atomic'',
     ''  map:'',
     ''    elementType:'',
     ''      namedType: __untyped_deduced_'',
     ''    elementRelationship: separable'']"

text \<open>The package variables, and the number of calls of \<open>typed.NewParser\<close> so far.\<close>

record 'p parser_vars =
  parserOnce :: bool
  parser_var :: "'p option"
  parser_calls :: nat

definition zero_parser_vars :: "'p parser_vars" where
  "zero_parser_vars = \<lparr>parserOnce = False, parser_var = None, parser_calls = 0\<rparr>"

type_synonym 'p new_parser = "nat \<Rightarrow> string \<Rightarrow> 'p option \<times> string option"

definition parse_schema ::
  "'p new_parser \<Rightarrow> 'p parser_vars \<Rightarrow> (string + unit) \<times> 'p parser_vars" where
  "parse_schema newParser s =
     (let (p, err) = newParser (parser_calls s) schemaYAML;
          s' = s\<lparr>parser_var := p, parser_calls := parser_calls s + 1\<rparr>
      in case err of
           Some e \<Rightarrow> (Inl (''Failed to parse schema: '' @ e), s')
         | None \<Rightarrow> (Inr (), s'))"

definition Parser :: "'p new_parser \<Rightarrow> 'p parser_vars \<Rightarrow> (string + 'p option) \<times> 'p parser_vars" where
  "Parser newParser s =
     (let (r, fired, s') = Once_Do (parse_schema newParser) (parserOnce s) s;
          s' = s'\<lparr>parserOnce := fired\<rparr>
      in case r of
           Inl e \<Rightarrow> (Inl e, s')
         | Inr _ \<Rightarrow> (Inr (parser_var s'), s'))"

definition NewTypeConverter ::
  "'p new_parser \<Rightarrow> ('r \<Rightarrow> 'p option \<Rightarrow> 'c) \<Rightarrow> 'r \<Rightarrow> 'p parser_vars \<Rightarrow> (string + 'c) \<times> 'p parser_vars" where
  "NewTypeConverter newParser newConverter scheme s =
     (case Parser newParser s of
        (Inl e, s') \<Rightarrow> (Inl e, s')
      | (Inr p, s') \<Rightarrow> (Inr (newConverter scheme p), s'))"

text \<open>The answers of a sequence of calls.\<close>

fun Parser_calls :: "'p new_parser \<Rightarrow> nat \<Rightarrow> 'p parser_vars \<Rightarrow> (string + 'p option) list \<times> 'p parser_vars" where
  "Parser_calls newParser 0 s = ([], s)"
| "Parser_calls newParser (Suc n) s =
     (let (r, s') = Parser newParser s; (rs, s'') = Parser_calls newParser n s' in (r # rs, s''))"

subsection \<open>Lemmas\<close>

lemmas parser_defs = Parser_def Once_Do_def parse_schema_def zero_parser_vars_def

lemma Parser_fired [simp]: "parserOnce s \<Longrightarrow> Parser newParser s = (Inr (parser_var s), s)"
  by (cases s) (simp add: parser_defs)

lemma Parser_calls_fired:
  "parserOnce s \<Longrightarrow> Parser_calls newParser n s = (replicate n (Inr (parser_var s)), s)"
  by (induction n) simp_all

lemma Parser_first:
  "Parser newParser zero_parser_vars =
     ((case snd (newParser 0 schemaYAML) of
         Some e \<Rightarrow> Inl (''Failed to parse schema: '' @ e)
       | None \<Rightarrow> Inr (fst (newParser 0 schemaYAML))),
      \<lparr>parserOnce = True, parser_var = fst (newParser 0 schemaYAML), parser_calls = 1\<rparr>)"
  by (simp add: parser_defs split: prod.split option.split)

text \<open>
  The schema is parsed once: after a first call that returned, every caller gets the parser of that one
  parse, and the parameter has been asked once.
\<close>

theorem parser_is_shared:
  assumes "newParser 0 schemaYAML = (p, None)"
  shows "Parser_calls newParser (Suc n) zero_parser_vars =
    (replicate (Suc n) (Inr p), \<lparr>parserOnce = True, parser_var = p, parser_calls = 1\<rparr>)"
  by (simp add: Parser_first assms Parser_calls_fired)

text \<open>
  A failed parse panics in the first call only. A program that recovers gets from every later call the
  parser that the failed parse returned, which is nil by the conventions of Go, and no second error.
\<close>

theorem failed_parse_is_forgotten:
  assumes "newParser 0 schemaYAML = (p, Some e)"
  shows "Parser_calls newParser (Suc n) zero_parser_vars =
    (Inl (''Failed to parse schema: '' @ e) # replicate n (Inr p),
     \<lparr>parserOnce = True, parser_var = p, parser_calls = 1\<rparr>)"
  by (simp add: Parser_first assms Parser_calls_fired)

text \<open>The converters of one program share their parser, whatever their schemes.\<close>

lemma converters_share_parser:
  assumes "newParser 0 schemaYAML = (p, None)"
    and "NewTypeConverter newParser newConverter r1 zero_parser_vars = (c1, s1)"
    and "NewTypeConverter newParser newConverter r2 s1 = (c2, s2)"
  shows "c1 = Inr (newConverter r1 p) \<and> c2 = Inr (newConverter r2 p)"
  using assms by (auto simp: NewTypeConverter_def Parser_first)

end
