(* ===== verification/Informers.thy ===== *)
theory Informers
  imports Prelude
begin

section \<open>The shared informer factory\<close>

text \<open>
  \<open>client-go/informers/externalversions\<close>: the options of the factory (\<open>factory.go\<close>), the informers of the
  three resources (\<open>core/v1alpha1\<close>), the generic access (\<open>generic.go\<close>), and the operations of the factory
  that run concurrently: every one holds the lock for the whole of its work on the fields, so an
  interleaving is a sequence of operations, and \<open>factory_step\<close> is one of them. A goroutine started by
  \<open>Start\<close> ends some time after its stop channel is closed.

  Parameters are the list options (\<open>'o\<close>) and the transform function (\<open>'t\<close>) of client-go. An informer is the
  arguments it was created with and the number of its allocation, which stands for the pointer.
\<close>

subsection \<open>Informers\<close>

type_synonym duration = int64
type_synonym go_type = string
type_synonym 'o tweak = "('o \<Rightarrow> 'o) option"

datatype request_verb = ListVerb | WatchVerb
datatype request_context = Background | CallerContext

record 'o request =
  req_Verb :: request_verb
  req_Context :: request_context
  req_Resource :: string
  req_Namespace :: "string option"
  req_Options :: 'o

record 'o list_watch =
  ListFunc :: "'o \<Rightarrow> 'o request"
  WatchFunc :: "'o \<Rightarrow> 'o request"
  ListWithContextFunc :: "'o \<Rightarrow> 'o request"
  WatchFuncWithContext :: "'o \<Rightarrow> 'o request"

record ('o, 't) informer =
  inf_Pointer :: nat
  inf_ListWatch :: "'o list_watch"
  inf_Type :: go_type
  inf_Resync :: duration
  inf_Indexers :: "string list"
  inf_Transform :: "'t option"

definition tweaked :: "'o tweak \<Rightarrow> 'o \<Rightarrow> 'o" where
  "tweaked tweak options = (case tweak of None \<Rightarrow> options | Some f \<Rightarrow> f options)"

definition NamespaceIndex :: string where "NamespaceIndex = ''namespace''"

definition NewFilteredClusterModelInformer ::
  "nat \<Rightarrow> duration \<Rightarrow> string list \<Rightarrow> 'o tweak \<Rightarrow> ('o, 't) informer" where
  "NewFilteredClusterModelInformer ptr resyncPeriod indexers tweak =
     (let request = (\<lambda>verb ctx options. \<lparr>req_Verb = verb, req_Context = ctx, req_Resource = ''clustermodels'',
            req_Namespace = None, req_Options = tweaked tweak options\<rparr>)
      in \<lparr>inf_Pointer = ptr,
          inf_ListWatch =
            \<lparr>ListFunc = request ListVerb Background,
             WatchFunc = request WatchVerb Background,
             ListWithContextFunc = request ListVerb CallerContext,
             WatchFuncWithContext = request WatchVerb CallerContext\<rparr>,
          inf_Type = ''v1alpha1.ClusterModel'', inf_Resync = resyncPeriod, inf_Indexers = indexers,
          inf_Transform = None\<rparr>)"

definition NewFilteredInferenceServiceInformer ::
  "nat \<Rightarrow> string \<Rightarrow> duration \<Rightarrow> string list \<Rightarrow> 'o tweak \<Rightarrow> ('o, 't) informer" where
  "NewFilteredInferenceServiceInformer ptr ns resyncPeriod indexers tweak =
     (let request = (\<lambda>verb ctx options. \<lparr>req_Verb = verb, req_Context = ctx, req_Resource = ''inferenceservices'',
            req_Namespace = Some ns, req_Options = tweaked tweak options\<rparr>)
      in \<lparr>inf_Pointer = ptr,
          inf_ListWatch =
            \<lparr>ListFunc = request ListVerb Background,
             WatchFunc = request WatchVerb Background,
             ListWithContextFunc = request ListVerb CallerContext,
             WatchFuncWithContext = request WatchVerb CallerContext\<rparr>,
          inf_Type = ''v1alpha1.InferenceService'', inf_Resync = resyncPeriod, inf_Indexers = indexers,
          inf_Transform = None\<rparr>)"

definition NewFilteredModelInformer ::
  "nat \<Rightarrow> string \<Rightarrow> duration \<Rightarrow> string list \<Rightarrow> 'o tweak \<Rightarrow> ('o, 't) informer" where
  "NewFilteredModelInformer ptr ns resyncPeriod indexers tweak =
     (let request = (\<lambda>verb ctx options. \<lparr>req_Verb = verb, req_Context = ctx, req_Resource = ''models'',
            req_Namespace = Some ns, req_Options = tweaked tweak options\<rparr>)
      in \<lparr>inf_Pointer = ptr,
          inf_ListWatch =
            \<lparr>ListFunc = request ListVerb Background,
             WatchFunc = request WatchVerb Background,
             ListWithContextFunc = request ListVerb CallerContext,
             WatchFuncWithContext = request WatchVerb CallerContext\<rparr>,
          inf_Type = ''v1alpha1.Model'', inf_Resync = resyncPeriod, inf_Indexers = indexers,
          inf_Transform = None\<rparr>)"

text \<open>The unfiltered constructors.\<close>

definition NewClusterModelInformer :: "nat \<Rightarrow> duration \<Rightarrow> string list \<Rightarrow> ('o, 't) informer" where
  "NewClusterModelInformer ptr resyncPeriod indexers =
     NewFilteredClusterModelInformer ptr resyncPeriod indexers None"

definition NewInferenceServiceInformer ::
  "nat \<Rightarrow> string \<Rightarrow> duration \<Rightarrow> string list \<Rightarrow> ('o, 't) informer" where
  "NewInferenceServiceInformer ptr ns resyncPeriod indexers =
     NewFilteredInferenceServiceInformer ptr ns resyncPeriod indexers None"

definition NewModelInformer :: "nat \<Rightarrow> string \<Rightarrow> duration \<Rightarrow> string list \<Rightarrow> ('o, 't) informer" where
  "NewModelInformer ptr ns resyncPeriod indexers =
     NewFilteredModelInformer ptr ns resyncPeriod indexers None"

subsection \<open>The factory and its options\<close>

text \<open>
  The fields of \<open>sharedInformerFactory\<close>; the maps keyed by type are association lists, whose order is the
  order of an iteration. \<open>sif_wg\<close> is the counter of the wait group. \<open>sif_next\<close> numbers allocations.
\<close>

record ('o, 't) factory =
  sif_namespace :: string
  sif_tweakListOptions :: "'o tweak"
  sif_defaultResync :: duration
  sif_customResync :: "go_type \<rightharpoonup> duration"
  sif_transform :: "'t option"
  sif_informers :: "(go_type \<times> ('o, 't) informer) list"
  sif_startedInformers :: "go_type \<rightharpoonup> bool"
  sif_wg :: int
  sif_shuttingDown :: bool
  sif_next :: nat

type_synonym ('o, 't) factory_option = "('o, 't) factory \<Rightarrow> ('o, 't) factory"

definition WithCustomResyncConfig :: "(go_type \<times> duration) list \<Rightarrow> ('o, 't) factory_option" where
  "WithCustomResyncConfig resyncConfig f =
     f\<lparr>sif_customResync := foldl (\<lambda>m (k, v). m(k \<mapsto> v)) (sif_customResync f) resyncConfig\<rparr>"

definition WithTweakListOptions :: "'o tweak \<Rightarrow> ('o, 't) factory_option" where
  "WithTweakListOptions tweak f = f\<lparr>sif_tweakListOptions := tweak\<rparr>"

definition WithNamespace :: "string \<Rightarrow> ('o, 't) factory_option" where
  "WithNamespace ns f = f\<lparr>sif_namespace := ns\<rparr>"

definition WithTransform :: "'t option \<Rightarrow> ('o, 't) factory_option" where
  "WithTransform transform f = f\<lparr>sif_transform := transform\<rparr>"

definition NewSharedInformerFactoryWithOptions ::
  "duration \<Rightarrow> ('o, 't) factory_option list \<Rightarrow> ('o, 't) factory" where
  "NewSharedInformerFactoryWithOptions defaultResync options =
     foldl (\<lambda>f opt. opt f)
       \<lparr>sif_namespace = '''', sif_tweakListOptions = None, sif_defaultResync = defaultResync,
        sif_customResync = Map.empty, sif_transform = None, sif_informers = [],
        sif_startedInformers = Map.empty, sif_wg = 0, sif_shuttingDown = False, sif_next = 0\<rparr>
       options"

definition NewSharedInformerFactory :: "duration \<Rightarrow> ('o, 't) factory" where
  "NewSharedInformerFactory defaultResync = NewSharedInformerFactoryWithOptions defaultResync []"

definition NewFilteredSharedInformerFactory :: "duration \<Rightarrow> string \<Rightarrow> 'o tweak \<Rightarrow> ('o, 't) factory" where
  "NewFilteredSharedInformerFactory defaultResync ns tweak =
     NewSharedInformerFactoryWithOptions defaultResync [WithNamespace ns, WithTweakListOptions tweak]"

subsection \<open>Getting an informer\<close>

text \<open>\<open>newFunc\<close> gets the number of the new allocation and the resync period.\<close>

definition InformerFor ::
  "go_type \<Rightarrow> (nat \<Rightarrow> duration \<Rightarrow> ('o, 't) informer) \<Rightarrow> ('o, 't) factory \<Rightarrow>
    ('o, 't) informer \<times> ('o, 't) factory" where
  "InformerFor informerType newFunc f =
     (case map_of (sif_informers f) informerType of
        Some informer \<Rightarrow> (informer, f)
      | None \<Rightarrow>
          (let resyncPeriod = (case sif_customResync f informerType of
                 None \<Rightarrow> sif_defaultResync f | Some d \<Rightarrow> d);
               informer = (newFunc (sif_next f) resyncPeriod)\<lparr>inf_Transform := sif_transform f\<rparr>
           in (informer, f\<lparr>sif_informers := (informerType, informer) # sif_informers f,
                 sif_next := sif_next f + 1\<rparr>)))"

text \<open>
  The accessors \<open>Fusioninfer().V1alpha1().X()\<close> copy the namespace and the filter of the factory into an
  access object; its \<open>Informer\<close> method calls \<open>InformerFor\<close> with its \<open>defaultInformer\<close>.
\<close>

record 'o access =
  acc_namespace :: string
  acc_tweakListOptions :: "'o tweak"

definition core_New :: "string \<Rightarrow> 'o tweak \<Rightarrow> 'o access" where
  "core_New ns tweak = \<lparr>acc_namespace = ns, acc_tweakListOptions = tweak\<rparr>"

definition v1alpha1_New :: "string \<Rightarrow> 'o tweak \<Rightarrow> 'o access" where
  "v1alpha1_New ns tweak = \<lparr>acc_namespace = ns, acc_tweakListOptions = tweak\<rparr>"

definition group_V1alpha1 :: "'o access \<Rightarrow> 'o access" where
  "group_V1alpha1 g = v1alpha1_New (acc_namespace g) (acc_tweakListOptions g)"

definition Fusioninfer :: "('o, 't) factory \<Rightarrow> 'o access" where
  "Fusioninfer f = core_New (sif_namespace f) (sif_tweakListOptions f)"

definition version_ClusterModels :: "'o access \<Rightarrow> 'o tweak" where
  "version_ClusterModels v = acc_tweakListOptions v"

definition version_InferenceServices :: "'o access \<Rightarrow> 'o access" where
  "version_InferenceServices v =
     \<lparr>acc_namespace = acc_namespace v, acc_tweakListOptions = acc_tweakListOptions v\<rparr>"

definition version_Models :: "'o access \<Rightarrow> 'o access" where
  "version_Models v = \<lparr>acc_namespace = acc_namespace v, acc_tweakListOptions = acc_tweakListOptions v\<rparr>"

definition clusterModel_defaultInformer :: "'o tweak \<Rightarrow> nat \<Rightarrow> duration \<Rightarrow> ('o, 't) informer" where
  "clusterModel_defaultInformer tweak ptr resyncPeriod =
     NewFilteredClusterModelInformer ptr resyncPeriod [NamespaceIndex] tweak"

definition inferenceService_defaultInformer :: "'o access \<Rightarrow> nat \<Rightarrow> duration \<Rightarrow> ('o, 't) informer" where
  "inferenceService_defaultInformer a ptr resyncPeriod =
     NewFilteredInferenceServiceInformer ptr (acc_namespace a) resyncPeriod [NamespaceIndex]
       (acc_tweakListOptions a)"

definition model_defaultInformer :: "'o access \<Rightarrow> nat \<Rightarrow> duration \<Rightarrow> ('o, 't) informer" where
  "model_defaultInformer a ptr resyncPeriod =
     NewFilteredModelInformer ptr (acc_namespace a) resyncPeriod [NamespaceIndex] (acc_tweakListOptions a)"

definition clusterModel_Informer :: "('o, 't) factory \<Rightarrow> ('o, 't) informer \<times> ('o, 't) factory" where
  "clusterModel_Informer f = InformerFor ''v1alpha1.ClusterModel''
     (clusterModel_defaultInformer (version_ClusterModels (group_V1alpha1 (Fusioninfer f)))) f"

definition inferenceService_Informer :: "('o, 't) factory \<Rightarrow> ('o, 't) informer \<times> ('o, 't) factory" where
  "inferenceService_Informer f = InformerFor ''v1alpha1.InferenceService''
     (inferenceService_defaultInformer (version_InferenceServices (group_V1alpha1 (Fusioninfer f)))) f"

definition model_Informer :: "('o, 't) factory \<Rightarrow> ('o, 't) informer \<times> ('o, 't) factory" where
  "model_Informer f = InformerFor ''v1alpha1.Model''
     (model_defaultInformer (version_Models (group_V1alpha1 (Fusioninfer f)))) f"

record group_version_resource =
  gvr_Group :: string
  gvr_Version :: string
  gvr_Resource :: string

definition WithResource :: "string \<Rightarrow> group_version_resource" where
  "WithResource resource =
     \<lparr>gvr_Group = ''fusioninfer.io'', gvr_Version = ''v1alpha1'', gvr_Resource = resource\<rparr>"

text \<open>A generic informer: the informer and the group and name of its resource.\<close>

definition ForResource :: "group_version_resource \<Rightarrow> ('o, 't) factory \<Rightarrow>
    (group_version_resource + (('o, 't) informer \<times> string \<times> string)) \<times> ('o, 't) factory" where
  "ForResource resource f =
     (let generic = (\<lambda>(informer, f'). (Inr (informer, gvr_Group resource, gvr_Resource resource), f'))
      in if resource = WithResource ''clustermodels'' then generic (clusterModel_Informer f)
         else if resource = WithResource ''inferenceservices'' then generic (inferenceService_Informer f)
         else if resource = WithResource ''models'' then generic (model_Informer f)
         else (Inl resource, f))"

subsection \<open>Running informers\<close>

text \<open>
  The loop of \<open>Start\<close> visits the entries in an order of its own; the goroutines it starts are returned with
  their stop channel.
\<close>

fun start_loop :: "nat \<Rightarrow> (go_type \<times> ('o, 't) informer) list \<Rightarrow> ('o, 't) factory \<Rightarrow>
    (('o, 't) informer \<times> nat) list \<times> ('o, 't) factory" where
  "start_loop stopCh [] f = ([], f)"
| "start_loop stopCh ((informerType, informer) # rest) f =
     (if sif_startedInformers f informerType \<noteq> Some True
      then (let f' = f\<lparr>sif_wg := sif_wg f + 1,
                   sif_startedInformers := (sif_startedInformers f)(informerType \<mapsto> True)\<rparr>;
                (started, f'') = start_loop stopCh rest f'
            in ((informer, stopCh) # started, f''))
      else start_loop stopCh rest f)"

definition factory_Start :: "nat \<Rightarrow> (go_type \<times> ('o, 't) informer) list \<Rightarrow> ('o, 't) factory \<Rightarrow>
    (('o, 't) informer \<times> nat) list \<times> ('o, 't) factory" where
  "factory_Start stopCh order f = (if sif_shuttingDown f then ([], f) else start_loop stopCh order f)"

text \<open>\<open>Shutdown\<close> sets the flag and then waits until the counter is zero.\<close>

definition Shutdown_begin :: "('o, 't) factory \<Rightarrow> ('o, 't) factory" where
  "Shutdown_begin f = f\<lparr>sif_shuttingDown := True\<rparr>"

definition Shutdown_may_return :: "('o, 't) factory \<Rightarrow> bool" where
  "Shutdown_may_return f \<longleftrightarrow> sif_wg f = 0"

definition wg_Done :: "('o, 't) factory \<Rightarrow> ('o, 't) factory" where
  "wg_Done f = f\<lparr>sif_wg := sif_wg f - 1\<rparr>"

text \<open>\<open>synced\<close> is what \<open>cache.WaitForCacheSync\<close> answers for an informer.\<close>

definition factory_WaitForCacheSync ::
  "(('o, 't) informer \<Rightarrow> bool) \<Rightarrow> ('o, 't) factory \<Rightarrow> (go_type \<times> bool) list" where
  "factory_WaitForCacheSync synced f =
     map (\<lambda>(informerType, informer). (informerType, synced informer))
       (filter (\<lambda>(informerType, informer). sif_startedInformers f informerType = Some True) (sif_informers f))"

end
