(* ===== verification/Clients.thy ===== *)
theory Clients
  imports Informers Complex_Main
begin

section \<open>The generated clients\<close>

text \<open>
  \<open>client-go/clientset\<close> and \<open>client-go/listers\<close>: how a clientset is made from a configuration
  (\<open>clientset.go\<close>, \<open>core_client.go\<close>), the typed clients of the three resources with their fakes, the fake
  clientset, and the listers. The REST client, the discovery client, the generic typed client, the object
  tracker and the index of a lister belong to \<open>k8s.io/client-go\<close>: the functions that make them are the
  parameter \<open>P\<close>, and what they make is a parameter type. A rate limiter is its number in the list of the
  limiters created so far, with the arguments it was created with. \<open>QPS\<close>, a \<open>float32\<close>, is a rational number.
  Configurations are values: the code changes copies only.
\<close>

subsection \<open>Configurations\<close>

type_synonym limiters = "(rat \<times> int) list"

record ('n, 'r) rest_config =
  cfg_UserAgent :: string
  cfg_QPS :: rat
  cfg_Burst :: int
  cfg_RateLimiter :: "nat option"
  cfg_GroupVersion :: "(string \<times> string) option"
  cfg_APIPath :: string
  cfg_NegotiatedSerializer :: "'n option"
  cfg_Rest :: 'r

record ('n, 'r, 'h, 'c, 'd) rest_pkg =
  rp_DefaultKubernetesUserAgent :: string
  rp_GeneratedCodecs :: 'n
  rp_HTTPClientFor :: "('n, 'r) rest_config \<Rightarrow> string + 'h"
  rp_RESTClientForConfigAndClient :: "('n, 'r) rest_config \<Rightarrow> 'h \<Rightarrow> string + 'c"
  rp_NewDiscoveryClientForConfigAndClient :: "('n, 'r) rest_config \<Rightarrow> 'h \<Rightarrow> string + 'd"
  rp_NewDiscoveryClient :: "'c \<Rightarrow> 'd"

definition NewTokenBucketRateLimiter :: "rat \<Rightarrow> int \<Rightarrow> limiters \<Rightarrow> nat \<times> limiters" where
  "NewTokenBucketRateLimiter qps burst ls = (length ls, ls @ [(qps, burst)])"

subsection \<open>The client of the group\<close>

record 'c core_client =
  restClient :: "'c option"

definition setConfigDefaults ::
  "('n, 'r, 'h, 'c, 'd) rest_pkg \<Rightarrow> ('n, 'r) rest_config \<Rightarrow> ('n, 'r) rest_config" where
  "setConfigDefaults P config =
     (let config = config\<lparr>cfg_GroupVersion := Some (''fusioninfer.io'', ''v1alpha1''),
            cfg_APIPath := ''/apis'', cfg_NegotiatedSerializer := Some (rp_GeneratedCodecs P)\<rparr>
      in if cfg_UserAgent config = '''' then config\<lparr>cfg_UserAgent := rp_DefaultKubernetesUserAgent P\<rparr>
         else config)"

definition core_NewForConfigAndClient ::
  "('n, 'r, 'h, 'c, 'd) rest_pkg \<Rightarrow> ('n, 'r) rest_config \<Rightarrow> 'h \<Rightarrow> string + 'c core_client" where
  "core_NewForConfigAndClient P c h =
     (case rp_RESTClientForConfigAndClient P (setConfigDefaults P c) h of
        Inl err \<Rightarrow> Inl err
      | Inr client \<Rightarrow> Inr \<lparr>restClient = Some client\<rparr>)"

definition core_NewForConfig ::
  "('n, 'r, 'h, 'c, 'd) rest_pkg \<Rightarrow> ('n, 'r) rest_config \<Rightarrow> string + 'c core_client" where
  "core_NewForConfig P c =
     (let config = setConfigDefaults P c
      in case rp_HTTPClientFor P config of
           Inl err \<Rightarrow> Inl err
         | Inr httpClient \<Rightarrow> core_NewForConfigAndClient P config httpClient)"

text \<open>A panic is \<open>None\<close>.\<close>

definition core_NewForConfigOrDie ::
  "('n, 'r, 'h, 'c, 'd) rest_pkg \<Rightarrow> ('n, 'r) rest_config \<Rightarrow> 'c core_client option" where
  "core_NewForConfigOrDie P c = (case core_NewForConfig P c of Inl err \<Rightarrow> None | Inr client \<Rightarrow> Some client)"

definition core_client_New :: "'c \<Rightarrow> 'c core_client" where
  "core_client_New c = \<lparr>restClient = Some c\<rparr>"

text \<open>The receiver may be nil.\<close>

definition core_RESTClient :: "'c core_client option \<Rightarrow> 'c option" where
  "core_RESTClient c = (case c of None \<Rightarrow> None | Some c \<Rightarrow> restClient c)"

subsection \<open>Typed clients\<close>

text \<open>The arguments of \<open>gentype.NewClientWithListAndApply\<close>: the type names stand for the constructors.\<close>

record 'c typed_client =
  tc_Resource :: string
  tc_Client :: "'c option"
  tc_Namespace :: string
  tc_NewObject :: go_type
  tc_NewList :: go_type

definition newClusterModels :: "'c core_client option \<Rightarrow> 'c typed_client" where
  "newClusterModels c =
     \<lparr>tc_Resource = ''clustermodels'', tc_Client = core_RESTClient c, tc_Namespace = '''',
      tc_NewObject = ''ClusterModel'', tc_NewList = ''ClusterModelList''\<rparr>"

definition newInferenceServices :: "'c core_client option \<Rightarrow> string \<Rightarrow> 'c typed_client" where
  "newInferenceServices c namespace =
     \<lparr>tc_Resource = ''inferenceservices'', tc_Client = core_RESTClient c, tc_Namespace = namespace,
      tc_NewObject = ''InferenceService'', tc_NewList = ''InferenceServiceList''\<rparr>"

definition newModels :: "'c core_client option \<Rightarrow> string \<Rightarrow> 'c typed_client" where
  "newModels c namespace =
     \<lparr>tc_Resource = ''models'', tc_Client = core_RESTClient c, tc_Namespace = namespace,
      tc_NewObject = ''Model'', tc_NewList = ''ModelList''\<rparr>"

definition core_ClusterModels :: "'c core_client option \<Rightarrow> 'c typed_client" where
  "core_ClusterModels c = newClusterModels c"

definition core_InferenceServices :: "'c core_client option \<Rightarrow> string \<Rightarrow> 'c typed_client" where
  "core_InferenceServices c namespace = newInferenceServices c namespace"

definition core_Models :: "'c core_client option \<Rightarrow> string \<Rightarrow> 'c typed_client" where
  "core_Models c namespace = newModels c namespace"

subsection \<open>The clientset\<close>

record ('c, 'd) clientset =
  cs_DiscoveryClient :: "'d option"
  cs_fusioninferV1alpha1 :: "'c core_client option"

definition clientset_FusioninferV1alpha1 :: "('c, 'd) clientset \<Rightarrow> 'c core_client option" where
  "clientset_FusioninferV1alpha1 c = cs_fusioninferV1alpha1 c"

definition clientset_Discovery :: "('c, 'd) clientset option \<Rightarrow> 'd option" where
  "clientset_Discovery c = (case c of None \<Rightarrow> None | Some c \<Rightarrow> cs_DiscoveryClient c)"

definition burst_required :: string where
  "burst_required =
     ''burst is required to be greater than 0 when RateLimiter is not set and QPS is set to greater than 0''"

text \<open>The clients, made from the copy of the configuration; the first error is returned.\<close>

definition clientset_clients ::
  "('n, 'r, 'h, 'c, 'd) rest_pkg \<Rightarrow> ('n, 'r) rest_config \<Rightarrow> 'h \<Rightarrow> string + ('c, 'd) clientset" where
  "clientset_clients P config httpClient =
     (case core_NewForConfigAndClient P config httpClient of
        Inl err \<Rightarrow> Inl err
      | Inr core \<Rightarrow>
          (case rp_NewDiscoveryClientForConfigAndClient P config httpClient of
             Inl err \<Rightarrow> Inl err
           | Inr disc \<Rightarrow> Inr \<lparr>cs_DiscoveryClient = Some disc, cs_fusioninferV1alpha1 = Some core\<rparr>))"

definition clientset_NewForConfigAndClient ::
  "('n, 'r, 'h, 'c, 'd) rest_pkg \<Rightarrow> ('n, 'r) rest_config \<Rightarrow> 'h \<Rightarrow> limiters \<Rightarrow>
     (string + ('c, 'd) clientset) \<times> limiters" where
  "clientset_NewForConfigAndClient P c httpClient ls =
     (if cfg_RateLimiter c = None \<and> cfg_QPS c > 0 then
        (if cfg_Burst c \<le> 0 then (Inl burst_required, ls)
         else let (l, ls) = NewTokenBucketRateLimiter (cfg_QPS c) (cfg_Burst c) ls
              in (clientset_clients P (c\<lparr>cfg_RateLimiter := Some l\<rparr>) httpClient, ls))
      else (clientset_clients P c httpClient, ls))"

definition clientset_NewForConfig ::
  "('n, 'r, 'h, 'c, 'd) rest_pkg \<Rightarrow> ('n, 'r) rest_config \<Rightarrow> limiters \<Rightarrow>
     (string + ('c, 'd) clientset) \<times> limiters" where
  "clientset_NewForConfig P c ls =
     (let config = (if cfg_UserAgent c = '''' then c\<lparr>cfg_UserAgent := rp_DefaultKubernetesUserAgent P\<rparr> else c)
      in case rp_HTTPClientFor P config of
           Inl err \<Rightarrow> (Inl err, ls)
         | Inr httpClient \<Rightarrow> clientset_NewForConfigAndClient P config httpClient ls)"

definition clientset_NewForConfigOrDie ::
  "('n, 'r, 'h, 'c, 'd) rest_pkg \<Rightarrow> ('n, 'r) rest_config \<Rightarrow> limiters \<Rightarrow>
     ('c, 'd) clientset option \<times> limiters" where
  "clientset_NewForConfigOrDie P c ls =
     (case clientset_NewForConfig P c ls of (Inl err, ls) \<Rightarrow> (None, ls) | (Inr cs, ls) \<Rightarrow> (Some cs, ls))"

definition clientset_New :: "('n, 'r, 'h, 'c, 'd) rest_pkg \<Rightarrow> 'c \<Rightarrow> ('c, 'd) clientset" where
  "clientset_New P c =
     \<lparr>cs_DiscoveryClient = Some (rp_NewDiscoveryClient P c), cs_fusioninferV1alpha1 = Some (core_client_New c)\<rparr>"

subsection \<open>Fakes\<close>

text \<open>The arguments of \<open>gentype.NewFakeClientWithListAndApply\<close>; a list is its metadata and its items.\<close>

type_synonym ('m, 'i) object_list = "'m \<times> 'i list"

record ('f, 'm, 'i) fake_client =
  fc_Fake :: 'f
  fc_Namespace :: string
  fc_Resource :: group_version_resource
  fc_Kind :: "string \<times> string \<times> string"
  fc_NewObject :: go_type
  fc_NewList :: go_type
  fc_CopyListMeta :: "('m, 'i) object_list \<Rightarrow> ('m, 'i) object_list \<Rightarrow> ('m, 'i) object_list"
  fc_Items :: "('m, 'i) object_list \<Rightarrow> 'i list"
  fc_SetItems :: "('m, 'i) object_list \<Rightarrow> 'i list \<Rightarrow> ('m, 'i) object_list"

definition newFakeClusterModels :: "'f \<Rightarrow> ('f, 'm, 'i) fake_client" where
  "newFakeClusterModels fake =
     \<lparr>fc_Fake = fake, fc_Namespace = '''', fc_Resource = WithResource ''clustermodels'',
      fc_Kind = (''fusioninfer.io'', ''v1alpha1'', ''ClusterModel''),
      fc_NewObject = ''ClusterModel'', fc_NewList = ''ClusterModelList'',
      fc_CopyListMeta = (\<lambda>dst src. (fst src, snd dst)), fc_Items = snd,
      fc_SetItems = (\<lambda>list items. (fst list, items))\<rparr>"

definition newFakeInferenceServices :: "'f \<Rightarrow> string \<Rightarrow> ('f, 'm, 'i) fake_client" where
  "newFakeInferenceServices fake namespace =
     \<lparr>fc_Fake = fake, fc_Namespace = namespace, fc_Resource = WithResource ''inferenceservices'',
      fc_Kind = (''fusioninfer.io'', ''v1alpha1'', ''InferenceService''),
      fc_NewObject = ''InferenceService'', fc_NewList = ''InferenceServiceList'',
      fc_CopyListMeta = (\<lambda>dst src. (fst src, snd dst)), fc_Items = snd,
      fc_SetItems = (\<lambda>list items. (fst list, items))\<rparr>"

definition newFakeModels :: "'f \<Rightarrow> string \<Rightarrow> ('f, 'm, 'i) fake_client" where
  "newFakeModels fake namespace =
     \<lparr>fc_Fake = fake, fc_Namespace = namespace, fc_Resource = WithResource ''models'',
      fc_Kind = (''fusioninfer.io'', ''v1alpha1'', ''Model''),
      fc_NewObject = ''Model'', fc_NewList = ''ModelList'',
      fc_CopyListMeta = (\<lambda>dst src. (fst src, snd dst)), fc_Items = snd,
      fc_SetItems = (\<lambda>list items. (fst list, items))\<rparr>"

definition fake_ClusterModels :: "'f \<Rightarrow> ('f, 'm, 'i) fake_client" where
  "fake_ClusterModels c = newFakeClusterModels c"

definition fake_InferenceServices :: "'f \<Rightarrow> string \<Rightarrow> ('f, 'm, 'i) fake_client" where
  "fake_InferenceServices c namespace = newFakeInferenceServices c namespace"

definition fake_Models :: "'f \<Rightarrow> string \<Rightarrow> ('f, 'm, 'i) fake_client" where
  "fake_Models c namespace = newFakeModels c namespace"

definition fake_RESTClient :: "'f \<Rightarrow> 'c option" where
  "fake_RESTClient c = None"

text \<open>
  The fake clientset over an object tracker, whose state is \<open>'o\<close>. A reactor has the verb and resource it is
  for, and acts on the tracker as it is when it is called; \<open>'w\<close> is what a watch returns, and a watch action may
  carry list options.
\<close>

record 'p fake_action =
  act_Resource :: group_version_resource
  act_Namespace :: string
  act_WatchOptions :: "'p option"

record ('o, 'b, 'p, 'w) tracker_pkg =
  tp_NewObjectTracker :: 'o
  tp_NewFieldManagedObjectTracker :: 'o
  tp_NoOptions :: 'p
  tp_Add :: "'o \<Rightarrow> 'b \<Rightarrow> string + 'o"
  tp_Watch :: "'o \<Rightarrow> group_version_resource \<Rightarrow> string \<Rightarrow> 'p \<Rightarrow> string + 'w"

record ('o, 'p, 'w) fake_clientset =
  fcs_tracker :: 'o
  fcs_reactors :: "(string \<times> string) list"
  fcs_watchReactors :: "(string \<times> ('o \<Rightarrow> 'p fake_action \<Rightarrow> bool \<times> 'w option \<times> string option)) list"

fun add_objects :: "('o, 'b, 'p, 'w) tracker_pkg \<Rightarrow> 'b list \<Rightarrow> 'o \<Rightarrow> 'o option" where
  "add_objects T [] o' = Some o'"
| "add_objects T (obj # objects) o' =
     (case tp_Add T o' obj of Inl err \<Rightarrow> None | Inr o' \<Rightarrow> add_objects T objects o')"

definition watch_reactor ::
  "('o, 'b, 'p, 'w) tracker_pkg \<Rightarrow> 'o \<Rightarrow> 'p fake_action \<Rightarrow> bool \<times> 'w option \<times> string option" where
  "watch_reactor T o' action =
     (let opts = (case act_WatchOptions action of None \<Rightarrow> tp_NoOptions T | Some opts \<Rightarrow> opts)
      in case tp_Watch T o' (act_Resource action) (act_Namespace action) opts of
           Inl err \<Rightarrow> (False, None, Some err)
         | Inr watch \<Rightarrow> (True, Some watch, None))"

definition NewSimpleClientset ::
  "('o, 'b, 'p, 'w) tracker_pkg \<Rightarrow> 'b list \<Rightarrow> ('o, 'p, 'w) fake_clientset option" where
  "NewSimpleClientset T objects =
     (case add_objects T objects (tp_NewObjectTracker T) of
        None \<Rightarrow> None
      | Some o' \<Rightarrow> Some \<lparr>fcs_tracker = o', fcs_reactors = [(''*'', ''*'')],
                       fcs_watchReactors = [(''*'', watch_reactor T)]\<rparr>)"

definition NewClientset ::
  "('o, 'b, 'p, 'w) tracker_pkg \<Rightarrow> 'b list \<Rightarrow> ('o, 'p, 'w) fake_clientset option" where
  "NewClientset T objects =
     (case add_objects T objects (tp_NewFieldManagedObjectTracker T) of
        None \<Rightarrow> None
      | Some o' \<Rightarrow> Some \<lparr>fcs_tracker = o', fcs_reactors = [(''*'', ''*'')],
                       fcs_watchReactors = [(''*'', watch_reactor T)]\<rparr>)"

definition fake_Tracker :: "('o, 'p, 'w) fake_clientset \<Rightarrow> 'o" where
  "fake_Tracker c = fcs_tracker c"

definition IsWatchListSemanticsUnSupported :: "('o, 'p, 'w) fake_clientset \<Rightarrow> bool" where
  "IsWatchListSemanticsUnSupported c = True"

subsection \<open>Listers\<close>

text \<open>An index with the group and resource that name its objects, and a namespace if it is for one.\<close>

record 'x lister =
  li_Indexer :: 'x
  li_Resource :: "string \<times> string"
  li_Namespace :: "string option"

definition Resource :: "string \<Rightarrow> string \<times> string" where
  "Resource resource = (''fusioninfer.io'', resource)"

definition NewClusterModelLister :: "'x \<Rightarrow> 'x lister" where
  "NewClusterModelLister indexer =
     \<lparr>li_Indexer = indexer, li_Resource = Resource ''clustermodel'', li_Namespace = None\<rparr>"

definition NewInferenceServiceLister :: "'x \<Rightarrow> 'x lister" where
  "NewInferenceServiceLister indexer =
     \<lparr>li_Indexer = indexer, li_Resource = Resource ''inferenceservice'', li_Namespace = None\<rparr>"

definition lister_InferenceServices :: "'x lister \<Rightarrow> string \<Rightarrow> 'x lister" where
  "lister_InferenceServices s namespace = s\<lparr>li_Namespace := Some namespace\<rparr>"

definition NewModelLister :: "'x \<Rightarrow> 'x lister" where
  "NewModelLister indexer =
     \<lparr>li_Indexer = indexer, li_Resource = Resource ''model'', li_Namespace = None\<rparr>"

definition lister_Models :: "'x lister \<Rightarrow> string \<Rightarrow> 'x lister" where
  "lister_Models s namespace = s\<lparr>li_Namespace := Some namespace\<rparr>"

subsection \<open>Properties\<close>

lemma setConfigDefaults_keeps [simp]:
  "cfg_RateLimiter (setConfigDefaults P c) = cfg_RateLimiter c" "cfg_QPS (setConfigDefaults P c) = cfg_QPS c"
  "cfg_APIPath (setConfigDefaults P c) = ''/apis''"
  "cfg_GroupVersion (setConfigDefaults P c) = Some (''fusioninfer.io'', ''v1alpha1'')"
  by (simp_all add: setConfigDefaults_def Let_def)

text \<open>
  The clients, their fakes and the informers agree on the three resources of the group.
\<close>

lemma resources_agree:
  "fc_Resource (newFakeClusterModels fake) = WithResource (tc_Resource (newClusterModels c))"
  "fc_Resource (newFakeInferenceServices fake ns) = WithResource (tc_Resource (newInferenceServices c ns))"
  "fc_Resource (newFakeModels fake ns) = WithResource (tc_Resource (newModels c ns))"
  "(\<exists>x. fst (ForResource g f) = Inr x) \<longleftrightarrow>
     g \<in> {WithResource (tc_Resource (newClusterModels c)), WithResource (tc_Resource (newInferenceServices c ns)),
          WithResource (tc_Resource (newModels c ns))}"
  by (auto simp: newFakeClusterModels_def newFakeInferenceServices_def newFakeModels_def newClusterModels_def
      newInferenceServices_def newModels_def ForResource_def Let_def split: prod.split)

lemma add_objects_panics:
  "add_objects T objects o' = None \<longleftrightarrow>
     (\<exists>before obj after o1 err. objects = before @ obj # after \<and> add_objects T before o' = Some o1 \<and>
        tp_Add T o1 obj = Inl err)"
proof (induction objects arbitrary: o')
  case (Cons obj objects)
  show ?case
  proof (cases "tp_Add T o' obj")
    case (Inl err)
    then show ?thesis by (auto intro!: exI [of _ "[]"])
  next
    case (Inr o1)
    have "(\<exists>before obj' after o2 err. obj # objects = before @ obj' # after \<and>
        add_objects T before o' = Some o2 \<and> tp_Add T o2 obj' = Inl err) \<longleftrightarrow>
      (\<exists>before obj' after o2 err. objects = before @ obj' # after \<and>
        add_objects T before o1 = Some o2 \<and> tp_Add T o2 obj' = Inl err)" (is "?l \<longleftrightarrow> ?r")
    proof
      assume ?l
      then obtain before obj' after o2 err where "obj # objects = before @ obj' # after"
        "add_objects T before o' = Some o2" "tp_Add T o2 obj' = Inl err" by blast
      with Inr show ?r by (cases before) auto
    next
      assume ?r
      then obtain before obj' after o2 err where "objects = before @ obj' # after"
        "add_objects T before o1 = Some o2" "tp_Add T o2 obj' = Inl err" by blast
      with Inr show ?l by (intro exI [of _ "obj # before"]) auto
    qed
    with Cons.IH [of o1] Inr show ?thesis by simp
  qed
qed simp

lemma clients_made:
  assumes "clientset_clients P config http = Inr cs"
  shows "\<exists>r d. rp_RESTClientForConfigAndClient P (setConfigDefaults P config) http = Inr r \<and>
    cs_fusioninferV1alpha1 cs = Some \<lparr>restClient = Some r\<rparr> \<and>
    rp_NewDiscoveryClientForConfigAndClient P config http = Inr d \<and> cs_DiscoveryClient cs = Some d"
  using assms
  by (auto simp: clientset_clients_def core_NewForConfigAndClient_def split: sum.splits)

text \<open>
  C34: The clients of a clientset share one rate limiter. A clientset made from a configuration consists of a
  REST client for \<open>/apis\<close> and the group and version of the API and of a discovery client, made with the same
  HTTP client from configurations with the same limiter: the given one; or, if none is given and a rate is,
  one new limiter with that rate and a positive burst; or none, and then no limiter is created.
\<close>

theorem clientset_shares_rate_limiter:
  assumes "clientset_NewForConfig P c ls = (Inr cs, ls')"
  shows "\<exists>http config r d.
    rp_RESTClientForConfigAndClient P (setConfigDefaults P config) http = Inr r \<and>
    cs_fusioninferV1alpha1 cs = Some \<lparr>restClient = Some r\<rparr> \<and>
    rp_NewDiscoveryClientForConfigAndClient P config http = Inr d \<and> cs_DiscoveryClient cs = Some d \<and>
    cfg_RateLimiter (setConfigDefaults P config) = cfg_RateLimiter config \<and>
    cfg_APIPath (setConfigDefaults P config) = ''/apis'' \<and>
    cfg_GroupVersion (setConfigDefaults P config) = Some (''fusioninfer.io'', ''v1alpha1'') \<and>
    (if cfg_RateLimiter c = None \<and> 0 < cfg_QPS c
     then cfg_RateLimiter config = Some (length ls) \<and> ls' = ls @ [(cfg_QPS c, cfg_Burst c)] \<and> 0 < cfg_Burst c
     else cfg_RateLimiter config = cfg_RateLimiter c \<and> ls' = ls)"
proof -
  let ?c = "if cfg_UserAgent c = '''' then c\<lparr>cfg_UserAgent := rp_DefaultKubernetesUserAgent P\<rparr> else c"
  have same: "cfg_RateLimiter ?c = cfg_RateLimiter c" "cfg_QPS ?c = cfg_QPS c" "cfg_Burst ?c = cfg_Burst c" by simp_all
  from assms obtain http where "clientset_NewForConfigAndClient P ?c http ls = (Inr cs, ls')"
    by (auto simp: clientset_NewForConfig_def Let_def split: sum.splits if_splits)
  then obtain config where config: "clientset_clients P config http = Inr cs"
    "if cfg_RateLimiter c = None \<and> 0 < cfg_QPS c
     then cfg_RateLimiter config = Some (length ls) \<and> ls' = ls @ [(cfg_QPS c, cfg_Burst c)] \<and> 0 < cfg_Burst c
     else cfg_RateLimiter config = cfg_RateLimiter c \<and> ls' = ls"
    unfolding clientset_NewForConfigAndClient_def same NewTokenBucketRateLimiter_def Let_def
    by (cases "cfg_RateLimiter c = None \<and> 0 < cfg_QPS c") (auto simp: same split: if_splits)
  from clients_made [OF config(1)] config(2) show ?thesis
    by (intro exI [of _ http] exI [of _ config]) auto
qed

definition demo_rest_pkg :: "(unit, unit, unit, (unit, unit) rest_config, (unit, unit) rest_config) rest_pkg" where
  "demo_rest_pkg = \<lparr>rp_DefaultKubernetesUserAgent = ''agent'', rp_GeneratedCodecs = (),
     rp_HTTPClientFor = (\<lambda>c. Inr ()), rp_RESTClientForConfigAndClient = (\<lambda>c h. Inr c),
     rp_NewDiscoveryClientForConfigAndClient = (\<lambda>c h. Inr c), rp_NewDiscoveryClient = (\<lambda>c. c)\<rparr>"

definition demo_rest_config :: "(unit, unit) rest_config" where
  "demo_rest_config = \<lparr>cfg_UserAgent = '''', cfg_QPS = 5, cfg_Burst = 10, cfg_RateLimiter = None,
     cfg_GroupVersion = None, cfg_APIPath = '''', cfg_NegotiatedSerializer = None, cfg_Rest = ()\<rparr>"

theorem clientset_shares_rate_limiter_witness:
  "\<exists>cs core disc. clientset_NewForConfig demo_rest_pkg demo_rest_config [(1, 1)] = (Inr cs, [(1, 1), (5, 10)]) \<and>
    cs_fusioninferV1alpha1 cs = Some \<lparr>restClient = Some core\<rparr> \<and> cs_DiscoveryClient cs = Some disc \<and>
    cfg_RateLimiter core = Some 1 \<and> cfg_RateLimiter disc = Some 1"
proof -
  obtain cs ls' where run: "clientset_NewForConfig demo_rest_pkg demo_rest_config [(1, 1)] = (Inr cs, ls')"
    by (auto simp: clientset_NewForConfig_def clientset_NewForConfigAndClient_def clientset_clients_def
        core_NewForConfigAndClient_def demo_rest_pkg_def demo_rest_config_def NewTokenBucketRateLimiter_def Let_def)
  from clientset_shares_rate_limiter [OF run] show ?thesis
    unfolding run by (auto simp: demo_rest_pkg_def demo_rest_config_def)
qed

end
