(* ===== verification/Builders.thy ===== *)
theory Builders
  imports GoHeap "HOL-Library.AList"
begin

section \<open>Building configurations on a heap\<close>

text \<open>
  The generated \<open>With\<close> methods of \<open>client-go/applyconfiguration\<close> have a few shapes, over a struct that the
  receiver points to: store a pointer to the argument (\<open>set_value\<close>), store the argument, a pointer
  (\<open>set_pointer\<close>), append copies of what the arguments point to (\<open>append_values\<close>), append the arguments
  (\<open>append_data\<close>), put the entries of a map (\<open>put_entries\<close>), and each of them on the object metadata, which
  is created when it is missing (\<open>on_meta\<close>). A layout names the fields of a struct in their order, with
  their types. Every method returns its receiver; \<open>None\<close> is a panic. \<open>append\<close> stores a new array: the
  arrays of a configuration are not shared, so a reallocation cannot be seen.
\<close>

type_synonym layout = "(string \<times> gtype) list"

definition layout_T :: "layout \<Rightarrow> gtype" where
  "layout_T L = TStruct (map snd L)"

fun pos :: "string \<Rightarrow> layout \<Rightarrow> nat" where
  "pos f [] = 0"
| "pos f ((g, t) # L) = (if f = g then 0 else Suc (pos f L))"

type_synonym ac_method = "gval \<Rightarrow> gval \<Rightarrow> go_heap \<Rightarrow> (gval \<times> go_heap) option"

subsection \<open>Reading and writing fields\<close>

definition alloc :: "cell \<Rightarrow> go_heap \<Rightarrow> gval \<times> go_heap" where
  "alloc c h = (Ref (nxt h), set_cell (nxt h) c (h\<lparr>nxt := nxt h + 1\<rparr>))"

definition read_field :: "layout \<Rightarrow> string \<Rightarrow> gval \<Rightarrow> go_heap \<Rightarrow> gval option" where
  "read_field L f b h =
     (case target h b of
        Some (Struct vs) \<Rightarrow> if pos f L < length vs then Some (vs ! pos f L) else None
      | _ \<Rightarrow> None)"

definition write_field :: "layout \<Rightarrow> string \<Rightarrow> gval \<Rightarrow> gval \<Rightarrow> go_heap \<Rightarrow> go_heap option" where
  "write_field L f x b h =
     (case (b, target h b) of
        (Ref a, Some (Struct vs)) \<Rightarrow>
          if pos f L < length vs then Some (set_cell a (Cell (Struct (vs[pos f L := x]))) h) else None
      | _ \<Rightarrow> None)"

text \<open>\<open>b.F = &value\<close> and \<open>b.F = value\<close>.\<close>

definition set_value :: "layout \<Rightarrow> string \<Rightarrow> ac_method" where
  "set_value L f b v h =
     (let (p, h) = alloc (Cell v) h in map_option (\<lambda>h. (b, h)) (write_field L f p b h))"

definition set_pointer :: "layout \<Rightarrow> string \<Rightarrow> ac_method" where
  "set_pointer L f b v h = map_option (\<lambda>h. (b, h)) (write_field L f v b h)"

text \<open>\<open>b.F = append(b.F, value)\<close>.\<close>

definition append_one :: "layout \<Rightarrow> string \<Rightarrow> gval \<Rightarrow> gval \<Rightarrow> go_heap \<Rightarrow> go_heap option" where
  "append_one L f b v h =
     (case read_field L f b h of
        None \<Rightarrow> None
      | Some s \<Rightarrow>
          (let old = (case items h s of None \<Rightarrow> [] | Some ws \<Rightarrow> ws);
               (p, h) = alloc (Arr (old @ [v])) h
           in write_field L f p b h))"

text \<open>\<open>for i := range values { if values[i] == nil { panic } b.F = append(b.F, *values[i]) }\<close>.\<close>

fun append_values :: "layout \<Rightarrow> string \<Rightarrow> gval \<Rightarrow> gval list \<Rightarrow> go_heap \<Rightarrow> (gval \<times> go_heap) option" where
  "append_values L f b [] h = Some (b, h)"
| "append_values L f b (v # vs) h =
     (case target h v of
        None \<Rightarrow> None
      | Some w \<Rightarrow>
          (case append_one L f b w h of None \<Rightarrow> None | Some h \<Rightarrow> append_values L f b vs h))"

fun append_data :: "layout \<Rightarrow> string \<Rightarrow> gval \<Rightarrow> gval list \<Rightarrow> go_heap \<Rightarrow> (gval \<times> go_heap) option" where
  "append_data L f b [] h = Some (b, h)"
| "append_data L f b (v # vs) h =
     (case append_one L f b v h of None \<Rightarrow> None | Some h \<Rightarrow> append_data L f b vs h)"

text \<open>\<open>for k, v := range entries { b.F[k] = v }\<close>; writing to a nil map panics.\<close>

fun put_each :: "gval \<Rightarrow> (string \<times> gval) list \<Rightarrow> go_heap \<Rightarrow> go_heap option" where
  "put_each s [] h = Some h"
| "put_each s ((k, v) # es) h =
     (case (s, entries h s) of
        (Ref a, Some d) \<Rightarrow> put_each s es (set_cell a (Dict (AList.update k v d)) h)
      | _ \<Rightarrow> None)"

definition put_entries :: "layout \<Rightarrow> string \<Rightarrow> ac_method" where
  "put_entries L f b m h =
     (let es = (case entries h m of None \<Rightarrow> [] | Some es \<Rightarrow> es) in
      case read_field L f b h of
        None \<Rightarrow> None
      | Some s \<Rightarrow>
          (let made = (if s = Nil \<and> es \<noteq> []
                 then let (p, h) = alloc (Dict []) h in map_option (\<lambda>h. (p, h)) (write_field L f p b h)
                 else Some (s, h))
           in case made of None \<Rightarrow> None | Some (s, h) \<Rightarrow> map_option (\<lambda>h. (b, h)) (put_each s es h)))"

text \<open>
  \<open>ensureObjectMetaApplyConfigurationExists\<close>, then the method on the metadata. \<open>M\<close> is the layout of the
  metadata, whose fields are all nil in a new one.
\<close>

definition ensure_meta :: "layout \<Rightarrow> layout \<Rightarrow> gval \<Rightarrow> go_heap \<Rightarrow> go_heap option" where
  "ensure_meta M L b h =
     (case read_field L ''ObjectMetaApplyConfiguration'' b h of
        None \<Rightarrow> None
      | Some Nil \<Rightarrow>
          (let (p, h) = alloc (Cell (Struct (replicate (length M) Nil))) h
           in write_field L ''ObjectMetaApplyConfiguration'' p b h)
      | Some _ \<Rightarrow> Some h)"

definition on_meta ::
  "layout \<Rightarrow> layout \<Rightarrow> (gval \<Rightarrow> 'v \<Rightarrow> go_heap \<Rightarrow> (gval \<times> go_heap) option) \<Rightarrow>
     gval \<Rightarrow> 'v \<Rightarrow> go_heap \<Rightarrow> (gval \<times> go_heap) option" where
  "on_meta M L m b v h =
     (case ensure_meta M L b h of
        None \<Rightarrow> None
      | Some h \<Rightarrow>
          (case read_field L ''ObjectMetaApplyConfiguration'' b h of
             None \<Rightarrow> None
           | Some p \<Rightarrow> map_option (\<lambda>(_, h). (b, h)) (m p v h)))"

text \<open>The getters: a field of the receiver, or of its metadata.\<close>

definition get_field :: "layout \<Rightarrow> string \<Rightarrow> gval \<Rightarrow> go_heap \<Rightarrow> (gval \<times> go_heap) option" where
  "get_field L f b h = map_option (\<lambda>v. (v, h)) (read_field L f b h)"

definition get_meta :: "layout \<Rightarrow> layout \<Rightarrow> string \<Rightarrow> gval \<Rightarrow> go_heap \<Rightarrow> (gval \<times> go_heap) option" where
  "get_meta M L f b h =
     (case ensure_meta M L b h of
        None \<Rightarrow> None
      | Some h \<Rightarrow>
          (case read_field L ''ObjectMetaApplyConfiguration'' b h of
             None \<Rightarrow> None
           | Some p \<Rightarrow> get_field M f p h))"

text \<open>\<open>&T{}\<close>, where all fields are pointers, slices or maps.\<close>

definition new_config :: "layout \<Rightarrow> go_heap \<Rightarrow> gval \<times> go_heap" where
  "new_config L h = alloc (Cell (Struct (replicate (length L) Nil))) h"

subsection \<open>The content of a configuration\<close>

text \<open>The receiver points to a struct with the given content, from which it cannot be reached.\<close>

definition config :: "layout \<Rightarrow> go_heap \<Rightarrow> gval \<Rightarrow> tree list \<Rightarrow> bool" where
  "config L h b cs \<longleftrightarrow>
     (\<exists>vs. target h b = Some (Struct vs) \<and> content (layout_T L) h (Struct vs) = Some (CStruct cs) \<and>
        the_ref b \<inter> reach (layout_T L) h (Struct vs) = {})"

lemma those_nth:
  "those xs = Some ys \<longleftrightarrow> length ys = length xs \<and> (\<forall>i < length xs. xs ! i = Some (ys ! i))"
proof (induction xs arbitrary: ys)
  case (Cons x xs)
  show ?case
    by (cases ys; cases x) (auto simp: Cons.IH All_less_Suc2)
qed auto

lemma struct_content:
  "content (layout_T L) h (Struct vs) = Some (CStruct cs) \<longleftrightarrow>
     length vs = length L \<and> length cs = length L \<and>
     (\<forall>i < length L. content (snd (L ! i)) h (vs ! i) = Some (cs ! i))"
  by (auto simp: layout_T_def those_nth)

lemma struct_reach:
  "length vs = length L \<Longrightarrow>
    reach (layout_T L) h (Struct vs) = (\<Union>i < length L. reach (snd (L ! i)) h (vs ! i))"
  by (auto simp: layout_T_def set_zip)

text \<open>What a change outside the cells a configuration reaches leaves of it.\<close>

lemma target_below: "target h b = Some w \<Longrightarrow> the_ref b \<subseteq> {..<nxt h}"
  using cell_at_below [of h b] by (auto simp: target_def split: option.splits)

lemma config_frame:
  assumes "config L h b cs" and "keeps {..<nxt h} h h'"
  shows "config L h' b cs"
proof -
  from assms(1) obtain vs where vs: "target h b = Some (Struct vs)"
    "content (layout_T L) h (Struct vs) = Some (CStruct cs)" "the_ref b \<inter> reach (layout_T L) h (Struct vs) = {}"
    by (auto simp: config_def)
  have "target h' b = Some (Struct vs)"
    using reading_keeps(1) [OF assms(2) target_below [OF vs(1)] vs(1)] .
  with content_frame [OF vs(2) keeps_subset [OF assms(2) reach_below [OF vs(2)]]] vs(3) show ?thesis
    by (auto simp: config_def)
qed

lemma alloc_keeps: "keeps {..<nxt h} h (snd (alloc c h))"
  by (auto simp: keeps_def alloc_def set_cell_def)

lemma alloc_simps [simp]:
  "fst (alloc c h) = Ref (nxt h)" "nxt (snd (alloc c h)) = Suc (nxt h)"
  "cell_at (snd (alloc c h)) (Ref (nxt h)) = Some c"
  by (simp_all add: alloc_def set_cell_def cell_at_def)

lemma set_cell_keeps: "A \<inter> {a} = {} \<Longrightarrow> keeps A h (set_cell a c h)"
  by (auto simp: keeps_def set_cell_def)

lemma config_read:
  assumes "config L h b cs" and "pos f L < length L"
  shows "\<exists>v. read_field L f b h = Some v \<and> content (snd (L ! pos f L)) h v = Some (cs ! pos f L) \<and>
    the_ref b \<inter> reach (snd (L ! pos f L)) h v = {}"
proof -
  from assms(1) obtain vs where vs: "target h b = Some (Struct vs)"
    "content (layout_T L) h (Struct vs) = Some (CStruct cs)" "the_ref b \<inter> reach (layout_T L) h (Struct vs) = {}"
    by (auto simp: config_def)
  with assms(2) show ?thesis by (auto simp: read_field_def struct_content struct_reach)
qed

text \<open>None of the given cells can be reached from the struct that \<open>b\<close> points to.\<close>

definition avoids :: "nat set \<Rightarrow> layout \<Rightarrow> go_heap \<Rightarrow> gval \<Rightarrow> bool" where
  "avoids A L h b \<longleftrightarrow> (\<forall>w. target h b = Some w \<longrightarrow> A \<inter> reach (layout_T L) h w = {})"

lemma config_write:
  assumes "config L h b cs" and i: "pos f L < length L"
    and x: "content (snd (L ! pos f L)) h x = Some c" "the_ref b \<inter> reach (snd (L ! pos f L)) h x = {}"
  shows "\<exists>h'. write_field L f x b h = Some h' \<and> config L h' b (cs[pos f L := c]) \<and>
    nxt h' = nxt h \<and> keeps (- the_ref b) h h' \<and>
    (\<forall>A. avoids A L h b \<and> A \<inter> reach (snd (L ! pos f L)) h x = {} \<longrightarrow> avoids A L h' b)"
proof -
  from assms(1) obtain vs where vs: "target h b = Some (Struct vs)"
    "content (layout_T L) h (Struct vs) = Some (CStruct cs)" "the_ref b \<inter> reach (layout_T L) h (Struct vs) = {}"
    by (auto simp: config_def)
  from vs(1) obtain a where a: "b = Ref a" "a < nxt h"
    by (auto simp: target_def cell_at_def split: gval.splits if_splits)
  note len = vs(2) [unfolded struct_content]
  let ?h = "set_cell a (Cell (Struct (vs[pos f L := x]))) h"
  have keep: "keeps (- the_ref b) h ?h" by (rule set_cell_keeps) (simp add: a the_ref_def)
  have each: "content (snd (L ! j)) ?h (vs[pos f L := x] ! j) = Some (cs[pos f L := c] ! j) \<and>
      the_ref b \<inter> reach (snd (L ! j)) ?h (vs[pos f L := x] ! j) = {} \<and>
      reach (snd (L ! j)) ?h (vs[pos f L := x] ! j) = reach (snd (L ! j)) h (vs[pos f L := x] ! j)"
    if j: "j < length L" for j
  proof (cases "j = pos f L")
    case True
    from x(2) have "keeps (reach (snd (L ! pos f L)) h x) h ?h" by (intro keeps_subset [OF keep]) auto
    from content_frame [OF x(1) this] x(2) True j len show ?thesis by simp
  next
    case False
    from vs(3) j len have "the_ref b \<inter> reach (snd (L ! j)) h (vs ! j) = {}"
      by (auto simp: struct_reach)
    moreover from this have "keeps (reach (snd (L ! j)) h (vs ! j)) h ?h" by (intro keeps_subset [OF keep]) auto
    ultimately show ?thesis
      using content_frame [of "snd (L ! j)" h "vs ! j"] False j len by simp
  qed
  have at: "target ?h b = Some (Struct (vs[pos f L := x]))"
    using a by (simp add: target_def cell_at_def set_cell_def)
  with each len have "config L ?h b (cs[pos f L := c])"
    unfolding config_def struct_content by (intro exI [of _ "vs[pos f L := x]"]) (auto simp: struct_reach)
  moreover have "avoids A L ?h b" if "avoids A L h b" "A \<inter> reach (snd (L ! pos f L)) h x = {}" for A
  proof -
    have "A \<inter> reach (snd (L ! j)) h (vs[pos f L := x] ! j) = {}" if "j < length L" for j
      using \<open>avoids A L h b\<close> \<open>A \<inter> reach (snd (L ! pos f L)) h x = {}\<close> that vs(1) len
      by (cases "j = pos f L") (auto simp: avoids_def struct_reach)
    moreover have "reach (layout_T L) ?h (Struct (vs[pos f L := x])) =
        (\<Union>j < length L. reach (snd (L ! j)) h (vs[pos f L := x] ! j))"
      using each len by (simp add: struct_reach)
    ultimately show ?thesis using at by (auto simp: avoids_def)
  qed
  moreover have "write_field L f x b h = Some ?h" using vs(1) a i len by (simp add: write_field_def)
  ultimately show ?thesis using keep by (auto simp: set_cell_def)
qed

text \<open>A setter: it stores the argument in its own field, and changes nothing else.\<close>

definition sets_field :: "layout \<Rightarrow> string \<Rightarrow> gtype \<Rightarrow> (tree \<Rightarrow> tree) \<Rightarrow> ac_method \<Rightarrow> bool" where
  "sets_field L f t g m \<longleftrightarrow>
     (\<forall>h b cs v c. config L h b cs \<and> content t h v = Some c \<and> the_ref b \<inter> reach t h v = {} \<longrightarrow>
        (\<exists>h'. m b v h = Some (b, h') \<and> config L h' b (cs[pos f L := g c]) \<and>
           keeps ({..<nxt h} - the_ref b) h h' \<and>
           (\<forall>A. A \<subseteq> {..<nxt h} \<and> avoids A L h b \<and> A \<inter> reach t h v = {} \<longrightarrow> avoids A L h' b)))"

lemma keeps_two: "keeps A h h1 \<Longrightarrow> keeps B h1 h2 \<Longrightarrow> C \<subseteq> A \<Longrightarrow> C \<subseteq> B \<Longrightarrow> keeps C h h2"
  unfolding keeps_def by (metis order_trans subsetD)

lemma sets_fieldD:
  assumes "sets_field L f t g m" and "config L h b cs" "content t h v = Some c" "the_ref b \<inter> reach t h v = {}"
  obtains h' where "m b v h = Some (b, h')" "config L h' b (cs[pos f L := g c])" "keeps ({..<nxt h} - the_ref b) h h'"
proof -
  have "\<exists>h'. m b v h = Some (b, h') \<and> config L h' b (cs[pos f L := g c]) \<and> keeps ({..<nxt h} - the_ref b) h h' \<and>
      (\<forall>A. A \<subseteq> {..<nxt h} \<and> avoids A L h b \<and> A \<inter> reach t h v = {} \<longrightarrow> avoids A L h' b)"
    using assms(1) [unfolded sets_field_def, rule_format, of h b cs v c] assms(2-4) by simp
  then show thesis using that by blast
qed

lemma avoids_frame:
  assumes "avoids A L h b" and "config L h b cs" and "keeps {..<nxt h} h h'"
  shows "avoids A L h' b"
proof -
  from assms(2) obtain vs where vs: "target h b = Some (Struct vs)"
    "content (layout_T L) h (Struct vs) = Some (CStruct cs)" by (auto simp: config_def)
  have "target h' b = Some (Struct vs)"
    using reading_keeps(1) [OF assms(3) target_below [OF vs(1)] vs(1)] .
  with content_frame [OF vs(2) keeps_subset [OF assms(3) reach_below [OF vs(2)]]] vs(1) assms(1) show ?thesis
    by (simp add: avoids_def)
qed

lemma set_value_sets:
  assumes "pos f L < length L" and "snd (L ! pos f L) = TPtr t"
  shows "sets_field L f t CPtr (set_value L f)"
  unfolding sets_field_def
proof (intro allI impI, elim conjE)
  fix h b cs v c
  assume b: "config L h b cs" and v: "content t h v = Some c" "the_ref b \<inter> reach t h v = {}"
  let ?h = "snd (alloc (Cell v) h)"
  have "the_ref b \<subseteq> {..<nxt h}" using b target_below by (auto simp: config_def)
  moreover from content_frame [OF v(1) keeps_subset [OF alloc_keeps reach_below [OF v(1)]]]
  have "content t ?h v = Some c" "reach t ?h v = reach t h v" by auto
  ultimately have ref: "content (TPtr t) ?h (Ref (nxt h)) = Some (CPtr c)"
    "the_ref b \<inter> reach (TPtr t) ?h (Ref (nxt h)) = {}"
    "reach (TPtr t) ?h (Ref (nxt h)) = insert (nxt h) (reach t h v)"
    using v(2) by (auto simp: target_def the_ref_def split: gval.splits)
  from ref config_write [OF config_frame [OF b alloc_keeps] assms(1), of "Cell v" "Ref (nxt h)" "CPtr c"] assms(2)
  obtain h' where h': "write_field L f (Ref (nxt h)) b ?h = Some h'" "config L h' b (cs[pos f L := CPtr c])"
    "keeps (- the_ref b) ?h h'"
    "\<forall>A. avoids A L ?h b \<and> A \<inter> insert (nxt h) (reach t h v) = {} \<longrightarrow> avoids A L h' b" by auto
  have "keeps ({..<nxt h} - the_ref b) h h'"
    by (rule keeps_two [OF alloc_keeps h'(3)]) auto
  moreover have "avoids A L h' b" if "A \<subseteq> {..<nxt h}" "avoids A L h b" "A \<inter> reach t h v = {}" for A
    using h'(4) avoids_frame [OF that(2) b alloc_keeps] that(1,3) by auto
  ultimately show "\<exists>h'. set_value L f b v h = Some (b, h') \<and> config L h' b (cs[pos f L := CPtr c]) \<and>
      keeps ({..<nxt h} - the_ref b) h h' \<and>
      (\<forall>A. A \<subseteq> {..<nxt h} \<and> avoids A L h b \<and> A \<inter> reach t h v = {} \<longrightarrow> avoids A L h' b)"
    using h'(1,2) by (auto simp: set_value_def case_prod_unfold Let_def)
qed

lemma set_pointer_sets:
  assumes "pos f L < length L" and "snd (L ! pos f L) = t"
  shows "sets_field L f t (\<lambda>c. c) (set_pointer L f)"
  unfolding sets_field_def
proof (intro allI impI, elim conjE)
  fix h b cs v c
  assume "config L h b cs" and "content t h v = Some c" "the_ref b \<inter> reach t h v = {}"
  with config_write [of L h b cs f v c] assms show
    "\<exists>h'. set_pointer L f b v h = Some (b, h') \<and> config L h' b (cs[pos f L := c]) \<and>
      keeps ({..<nxt h} - the_ref b) h h' \<and>
      (\<forall>A. A \<subseteq> {..<nxt h} \<and> avoids A L h b \<and> A \<inter> reach t h v = {} \<longrightarrow> avoids A L h' b)"
    by (auto simp: set_pointer_def intro: keeps_subset)
qed

subsection \<open>Setters of the metadata\<close>

abbreviation meta_field :: string where
  "meta_field \<equiv> ''ObjectMetaApplyConfiguration''"

text \<open>
  The cell that holds the metadata of a configuration, if there is one, and the content of its fields, all
  unset if there is none. The metadata belong to \<open>b\<close> alone (\<open>owns_meta\<close>) when their cell can be reached
  neither through another field of \<open>b\<close> nor from themselves.
\<close>

definition meta_ref :: "layout \<Rightarrow> go_heap \<Rightarrow> gval \<Rightarrow> nat set" where
  "meta_ref L h b = (case read_field L meta_field b h of None \<Rightarrow> {} | Some p \<Rightarrow> the_ref p)"

definition meta_content :: "layout \<Rightarrow> tree \<Rightarrow> tree list" where
  "meta_content M t = (case t of CPtr (CStruct ms) \<Rightarrow> ms | _ \<Rightarrow> replicate (length M) CNil)"

definition owns_meta :: "layout \<Rightarrow> layout \<Rightarrow> go_heap \<Rightarrow> gval \<Rightarrow> bool" where
  "owns_meta M L h b \<longleftrightarrow>
     (\<forall>vs p. target h b = Some (Struct vs) \<and> read_field L meta_field b h = Some p \<longrightarrow>
        (\<forall>j < length L. j \<noteq> pos meta_field L \<longrightarrow> the_ref p \<inter> reach (snd (L ! j)) h (vs ! j) = {}) \<and>
        avoids (the_ref p) M h p)"

text \<open>A setter of the metadata: it makes them if need be, and stores the argument in their field.\<close>

definition with_meta :: "layout \<Rightarrow> layout \<Rightarrow> string \<Rightarrow> tree \<Rightarrow> tree list \<Rightarrow> tree list" where
  "with_meta M L f c cs =
     cs[pos meta_field L := CPtr (CStruct ((meta_content M (cs ! pos meta_field L))[pos f M := c]))]"

definition sets_meta :: "layout \<Rightarrow> layout \<Rightarrow> string \<Rightarrow> gtype \<Rightarrow> (tree \<Rightarrow> tree) \<Rightarrow> ac_method \<Rightarrow> bool" where
  "sets_meta M L f t g m \<longleftrightarrow>
     (\<forall>h b cs v c. config L h b cs \<and> owns_meta M L h b \<and> content t h v = Some c \<and>
          (the_ref b \<union> meta_ref L h b) \<inter> reach t h v = {} \<longrightarrow>
        (\<exists>h'. m b v h = Some (b, h') \<and> config L h' b (with_meta M L f (g c) cs) \<and> owns_meta M L h' b \<and>
           keeps ({..<nxt h} - (the_ref b \<union> meta_ref L h b)) h h'))"

lemma config_fields:
  assumes "config L h b cs"
  obtains vs where "target h b = Some (Struct vs)" "length vs = length L" "length cs = length L"
    "\<And>j. j < length L \<Longrightarrow> content (snd (L ! j)) h (vs ! j) = Some (cs ! j)"
    "\<And>j. j < length L \<Longrightarrow> the_ref b \<inter> reach (snd (L ! j)) h (vs ! j) = {}"
    "\<And>f. pos f L < length L \<Longrightarrow> read_field L f b h = Some (vs ! pos f L)"
proof -
  from assms obtain vs where vs: "target h b = Some (Struct vs)"
    "content (layout_T L) h (Struct vs) = Some (CStruct cs)" "the_ref b \<inter> reach (layout_T L) h (Struct vs) = {}"
    by (auto simp: config_def)
  then show thesis
    by (intro that [of vs]) (auto simp: struct_content struct_reach read_field_def)
qed

lemma config_of_fields:
  assumes "target h b = Some (Struct vs)" "length vs = length L" "length cs = length L"
    and "\<And>j. j < length L \<Longrightarrow> content (snd (L ! j)) h (vs ! j) = Some (cs ! j)"
    and "\<And>j. j < length L \<Longrightarrow> the_ref b \<inter> reach (snd (L ! j)) h (vs ! j) = {}"
  shows "config L h b cs"
  unfolding config_def using assms
  by (intro exI [of _ vs]) (auto simp: struct_content struct_reach)

text \<open>The metadata are there: the method works on them as on any configuration.\<close>

lemma meta_present:
  assumes m: "sets_field M f t g m" and L: "pos meta_field L < length L" "snd (L ! pos meta_field L) = TPtr (layout_T M)"
    and b: "config L h b cs" "owns_meta M L h b" and p: "read_field L meta_field b h = Some p" "p \<noteq> Nil"
    and v: "content t h v = Some c" "(the_ref b \<union> the_ref p) \<inter> reach t h v = {}"
  shows "\<exists>q h'. m p v h = Some (q, h') \<and> config L h' b (with_meta M L f (g c) cs) \<and> owns_meta M L h' b \<and>
    keeps ({..<nxt h} - the_ref p) h h'"
proof -
  let ?k = "pos meta_field L"
  from b(1) obtain vs where vs: "target h b = Some (Struct vs)" "length vs = length L" "length cs = length L"
    "\<And>j. j < length L \<Longrightarrow> content (snd (L ! j)) h (vs ! j) = Some (cs ! j)"
    "\<And>j. j < length L \<Longrightarrow> the_ref b \<inter> reach (snd (L ! j)) h (vs ! j) = {}"
    "\<And>f. pos f L < length L \<Longrightarrow> read_field L f b h = Some (vs ! pos f L)"
    by (rule config_fields) blast
  from vs(6) [OF L(1)] p(1) have k: "vs ! ?k = p" by simp
  from vs(4) [OF L(1)] p(2) L(2) k obtain w x where w: "target h p = Some w"
    "content (layout_T M) h w = Some x" "cs ! ?k = CPtr x" by (auto split: option.splits)
  from w(2) obtain ws ms where ms: "w = Struct ws" "x = CStruct ms"
    by (auto simp: layout_T_def split: gval.splits if_splits)
  have sep: "the_ref p \<inter> reach (snd (L ! j)) h (vs ! j) = {}" if "j < length L" "j \<noteq> ?k" for j
    using b(2) vs(1) p(1) that by (simp add: owns_meta_def)
  have apart: "the_ref b \<inter> the_ref p = {}" "the_ref b \<inter> reach (layout_T M) h w = {}"
    using vs(5) [OF L(1)] w(1) by (auto simp: k L(2))
  have "config M h p ms"
    using b(2) vs(1) p(1) w ms by (auto simp: config_def owns_meta_def avoids_def)
  with m v obtain h' where h': "m p v h = Some (p, h')" "config M h' p (ms[pos f M := g c])"
    "keeps ({..<nxt h} - the_ref p) h h'"
    "\<forall>A. A \<subseteq> {..<nxt h} \<and> avoids A M h p \<and> A \<inter> reach t h v = {} \<longrightarrow> avoids A M h' p"
    unfolding sets_field_def by (metis inf_sup_distrib2 sup_eq_bot_iff)
  from h'(2) obtain ws' where ws': "target h' p = Some (Struct ws')"
    "content (layout_T M) h' (Struct ws') = Some (CStruct (ms[pos f M := g c]))"
    "the_ref p \<inter> reach (layout_T M) h' (Struct ws') = {}" by (auto simp: config_def)
  have bb: "the_ref b \<subseteq> {..<nxt h}" by (rule target_below [OF vs(1)])
  have "avoids (the_ref b) M h' p"
    using h'(4) bb apart(2) w(1) v(2) by (auto simp: avoids_def)
  with ws'(1) have away: "the_ref b \<inter> reach (layout_T M) h' (Struct ws') = {}" by (simp add: avoids_def)
  have at: "target h' b = Some (Struct vs)"
    using reading_keeps(1) [OF h'(3) _ vs(1)] bb apart(1) by blast
  have same: "content (snd (L ! j)) h' (vs ! j) = Some (cs ! j) \<and> reach (snd (L ! j)) h' (vs ! j) = reach (snd (L ! j)) h (vs ! j)"
    if j: "j < length L" "j \<noteq> ?k" for j
    using content_frame [OF vs(4) [OF j(1)] keeps_subset [OF h'(3)]] reach_below [OF vs(4) [OF j(1)]] sep [OF j] by blast
  have "config L h' b (with_meta M L f (g c) cs)"
  proof (rule config_of_fields [OF at])
    fix j assume j: "j < length L"
    show "content (snd (L ! j)) h' (vs ! j) = Some (with_meta M L f (g c) cs ! j)"
      using same [OF j] j ws' vs(3) p(2) by (cases "j = ?k") (simp_all add: with_meta_def meta_content_def w(3) ms k L(2))
    show "the_ref b \<inter> reach (snd (L ! j)) h' (vs ! j) = {}"
      using same [OF j] vs(5) [OF j] ws'(1) away apart(1) by (cases "j = ?k") (auto simp: k L(2))
  qed (simp_all add: vs with_meta_def)
  moreover have "owns_meta M L h' b"
    using at same sep ws' vs(2) L(1) k by (auto simp: owns_meta_def read_field_def avoids_def)
  ultimately show ?thesis using h'(1,3) by blast
qed

text \<open>Without metadata, \<open>ensure_meta\<close> makes some, with all fields unset.\<close>

lemma meta_made:
  assumes L: "pos meta_field L < length L" "snd (L ! pos meta_field L) = TPtr (layout_T M)"
    and M: "list_all (\<lambda>p. \<forall>h. content (snd p) h Nil = Some CNil \<and> reach (snd p) h Nil = {}) M"
    and b: "config L h b cs" and p: "read_field L meta_field b h = Some Nil"
  shows "\<exists>h'. ensure_meta M L b h = Some h' \<and> read_field L meta_field b h' = Some (Ref (nxt h)) \<and>
    config L h' b (cs[pos meta_field L := CPtr (CStruct (replicate (length M) CNil))]) \<and> owns_meta M L h' b \<and>
    keeps ({..<nxt h} - the_ref b) h h'"
proof -
  let ?k = "pos meta_field L" and ?nils = "Struct (replicate (length M) Nil)"
  let ?h = "snd (alloc (Cell ?nils) h)"
  have nils: "content (layout_T M) h1 ?nils = Some (CStruct (replicate (length M) CNil))"
    "reach (layout_T M) h1 ?nils = {}" for h1
    using M by (auto simp: struct_content struct_reach list_all_length)
  have bb: "the_ref b \<subseteq> {..<nxt h}" using b target_below by (auto simp: config_def)
  have fresh: "target ?h (Ref (nxt h)) = Some ?nils" by (simp add: target_def)
  then have ref: "content (TPtr (layout_T M)) ?h (Ref (nxt h)) = Some (CPtr (CStruct (replicate (length M) CNil)))"
    "the_ref b \<inter> reach (TPtr (layout_T M)) ?h (Ref (nxt h)) = {}"
    using nils bb by (auto simp: the_ref_def split: gval.splits)
  from config_write [OF config_frame [OF b alloc_keeps] L(1), of "Cell ?nils" "Ref (nxt h)"] ref L(2) obtain h' where
    h': "write_field L meta_field (Ref (nxt h)) b ?h = Some h'"
    "config L h' b (cs[?k := CPtr (CStruct (replicate (length M) CNil))])" "keeps (- the_ref b) ?h h'" by auto
  have keep: "keeps ({..<nxt h} - the_ref b) h h'" by (rule keeps_two [OF alloc_keeps h'(3)]) auto
  from b obtain vs where vs: "target h b = Some (Struct vs)" "length vs = length L" "length cs = length L"
    "\<And>j. j < length L \<Longrightarrow> content (snd (L ! j)) h (vs ! j) = Some (cs ! j)"
    "\<And>j. j < length L \<Longrightarrow> the_ref b \<inter> reach (snd (L ! j)) h (vs ! j) = {}"
    by (rule config_fields) blast
  from vs(1) obtain a where a: "b = Ref a" "a < nxt h"
    by (auto simp: target_def cell_at_def split: gval.splits if_splits)
  have "target ?h b = Some (Struct vs)" using reading_keeps(1) [OF alloc_keeps bb vs(1)] .
  with h'(1) a vs(2) L(1) have h'_eq: "h' = set_cell a (Cell (Struct (vs[?k := Ref (nxt h)]))) ?h"
    by (simp add: write_field_def)
  have at: "target h' b = Some (Struct (vs[?k := Ref (nxt h)]))"
    using a by (simp add: h'_eq target_def cell_at_def set_cell_def)
  have made: "target h' (Ref (nxt h)) = Some ?nils"
    using fresh a by (auto simp: h'_eq target_def cell_at_def set_cell_def split: if_splits)
  have "nxt h \<notin> reach (snd (L ! j)) h' (vs ! j)" if j: "j < length L" for j
    using content_frame [OF vs(4) [OF j] keeps_subset [OF keep]] reach_below [OF vs(4) [OF j]] vs(5) [OF j] by blast
  with at made nils(2) have "owns_meta M L h' b"
    using vs(2) L(1) by (auto simp: owns_meta_def read_field_def avoids_def the_ref_def)
  moreover have "read_field L meta_field b h' = Some (Ref (nxt h))" using at vs(2) L(1) by (simp add: read_field_def)
  ultimately show ?thesis
    using h'(1,2) keep p by (auto simp: ensure_meta_def case_prod_unfold Let_def)
qed

lemma on_meta_sets:
  assumes m: "sets_field M f t g m" and L: "pos meta_field L < length L" "snd (L ! pos meta_field L) = TPtr (layout_T M)"
    and M: "list_all (\<lambda>p. \<forall>h. content (snd p) h Nil = Some CNil \<and> reach (snd p) h Nil = {}) M"
  shows "sets_meta M L f t g (on_meta M L m)"
  unfolding sets_meta_def
proof (intro allI impI, elim conjE)
  fix h b cs v c
  assume b: "config L h b cs" "owns_meta M L h b" and v: "content t h v = Some c" "(the_ref b \<union> meta_ref L h b) \<inter> reach t h v = {}"
  from config_read [OF b(1) L(1)] L(2) obtain p where p: "read_field L meta_field b h = Some p"
    "content (TPtr (layout_T M)) h p = Some (cs ! pos meta_field L)" by auto
  show "\<exists>h'. on_meta M L m b v h = Some (b, h') \<and> config L h' b (with_meta M L f (g c) cs) \<and> owns_meta M L h' b \<and>
      keeps ({..<nxt h} - (the_ref b \<union> meta_ref L h b)) h h'"
  proof (cases "p = Nil")
    case False
    then have "ensure_meta M L b h = Some h" using p(1) by (simp add: ensure_meta_def split: gval.split)
    moreover from meta_present [OF m L b p(1) False v(1)] v(2) p(1) obtain q h' where
      "m p v h = Some (q, h')" "config L h' b (with_meta M L f (g c) cs)" "owns_meta M L h' b"
      "keeps ({..<nxt h} - the_ref p) h h'" by (auto simp: meta_ref_def)
    ultimately show ?thesis
      using p(1) by (intro exI [of _ h']) (auto simp: on_meta_def meta_ref_def intro: keeps_subset)
  next
    case True
    let ?k = "pos meta_field L"
    from meta_made [OF L M b(1)] p(1) True obtain h1 where h1: "ensure_meta M L b h = Some h1"
      "read_field L meta_field b h1 = Some (Ref (nxt h))"
      "config L h1 b (cs[?k := CPtr (CStruct (replicate (length M) CNil))])" "owns_meta M L h1 b"
      "keeps ({..<nxt h} - the_ref b) h h1" by blast
    have below: "reach t h v \<subseteq> {..<nxt h}" by (rule reach_below [OF v(1)])
    with content_frame [OF v(1) keeps_subset [OF h1(5)]] v(2) have v1: "content t h1 v = Some c" "reach t h1 v = reach t h v"
      by auto
    have "(the_ref b \<union> the_ref (Ref (nxt h))) \<inter> reach t h1 v = {}"
      using v1(2) v(2) below by (auto simp: the_ref_def)
    from meta_present [OF m L h1(3,4,2) _ v1(1) this] obtain q h' where h': "m (Ref (nxt h)) v h1 = Some (q, h')"
      "config L h' b (with_meta M L f (g c) (cs[?k := CPtr (CStruct (replicate (length M) CNil))]))" "owns_meta M L h' b"
      "keeps ({..<nxt h1} - the_ref (Ref (nxt h))) h1 h'" by auto
    have "length cs = length L" using b(1) by (rule config_fields)
    with L(1) True p(2) have "with_meta M L f (g c) (cs[?k := CPtr (CStruct (replicate (length M) CNil))]) = with_meta M L f (g c) cs"
      by (auto simp: with_meta_def meta_content_def)
    moreover have "keeps ({..<nxt h} - (the_ref b \<union> meta_ref L h b)) h h'"
      using h1(5) by (intro keeps_two [OF h1(5) h'(4)]) (auto simp: keeps_def the_ref_def)
    ultimately show ?thesis
      using h1(1,2) h' by (intro exI [of _ h']) (simp add: on_meta_def)
  qed
qed

subsection \<open>Appending\<close>

primrec slice_items :: "tree \<Rightarrow> tree list" where
  "slice_items (CSlice xs) = xs"
| "slice_items (CData s) = []"
| "slice_items CNil = []"
| "slice_items (CStruct xs) = []"
| "slice_items (CPtr x) = []"
| "slice_items (CMap es) = []"

lemma read_slice:
  assumes "content (TSlice t) h s = Some x"
  shows "\<exists>ws. (case items h s of None \<Rightarrow> [] | Some ws \<Rightarrow> ws) = ws \<and> those (map (content t h) ws) = Some (slice_items x) \<and>
    \<Union> (set (map (reach t h) ws)) \<subseteq> reach (TSlice t) h s"
proof (cases "s = Nil")
  case True
  then show ?thesis using assms by (auto simp: items_def cell_at_def)
next
  case False
  with assms show ?thesis by (auto split: option.splits)
qed

lemma append_one_config:
  assumes b: "config L h b cs" and i: "pos f L < length L" and t: "snd (L ! pos f L) = TSlice t"
    and w: "content t h w = Some c" "the_ref b \<inter> reach t h w = {}"
  shows "\<exists>h'. append_one L f b w h = Some h' \<and>
    config L h' b (cs[pos f L := CSlice (slice_items (cs ! pos f L) @ [c])]) \<and> keeps ({..<nxt h} - the_ref b) h h'"
proof -
  from config_read [OF b i] t obtain s where s: "read_field L f b h = Some s"
    "content (TSlice t) h s = Some (cs ! pos f L)" "the_ref b \<inter> reach (TSlice t) h s = {}" by auto
  from read_slice [OF s(2)] obtain ws where ws: "(case items h s of None \<Rightarrow> [] | Some ws \<Rightarrow> ws) = ws"
    "those (map (content t h) ws) = Some (slice_items (cs ! pos f L))"
    "\<Union> (set (map (reach t h) ws)) \<subseteq> reach (TSlice t) h s" by blast
  let ?h = "snd (alloc (Arr (ws @ [w])) h)" and ?p = "Ref (nxt h)"
  have all: "those (map (content t h) (ws @ [w])) = Some (slice_items (cs ! pos f L) @ [c])"
    using ws(2) w(1) by (auto simp: those_nth nth_append)
  have each: "content t ?h u = Some y \<and> reach t ?h u = reach t h u" if "content t h u = Some y" for u y
    using content_frame [OF that keeps_subset [OF alloc_keeps reach_below [OF that]]] by simp
  have "those (map (content t ?h) (ws @ [w])) = Some (slice_items (cs ! pos f L) @ [c])"
    by (rule those_map_cong [OF all]) (use each in blast)
  moreover have "reach t ?h u = reach t h u" if "u \<in> set (ws @ [w])" for u
    using those_map_defined [OF all that] each by blast
  then have "\<Union> (set (map (reach t ?h) (ws @ [w]))) = \<Union> (set (map (reach t h) (ws @ [w])))" by auto
  moreover have "the_ref b \<subseteq> {..<nxt h}" using b target_below by (auto simp: config_def)
  moreover have "items ?h ?p = Some (ws @ [w])" by (simp add: items_def)
  ultimately have p: "content (TSlice t) ?h ?p = Some (CSlice (slice_items (cs ! pos f L) @ [c]))"
    "the_ref b \<inter> reach (TSlice t) ?h ?p = {}"
    using ws(3) s(3) w(2) by (auto simp: the_ref_def split: gval.splits)
  from config_write [OF config_frame [OF b alloc_keeps] i, of "Arr (ws @ [w])" ?p] p t obtain h' where
    h': "write_field L f ?p b ?h = Some h'"
      "config L h' b (cs[pos f L := CSlice (slice_items (cs ! pos f L) @ [c])])" "keeps (- the_ref b) ?h h'" by auto
  have "append_one L f b w h = Some h'"
    using s(1) ws(1) h'(1) by (simp add: append_one_def case_prod_unfold Let_def)
  moreover have "keeps ({..<nxt h} - the_ref b) h h'" by (rule keeps_two [OF alloc_keeps h'(3)]) auto
  ultimately show ?thesis using h'(2) by blast
qed

lemma nil_panics: "Nil \<in> set vs \<Longrightarrow> append_values L f b vs h = None"
  by (induction vs arbitrary: h) (auto simp: target_def cell_at_def split: option.split)

lemma append_values_config:
  assumes "config L h b cs" and "pos f L < length L" and "snd (L ! pos f L) = TSlice t"
    and "list_all2 (\<lambda>v c. content (TPtr t) h v = Some (CPtr c) \<and> the_ref b \<inter> reach (TPtr t) h v = {}) vs xs"
  shows "\<exists>h'. append_values L f b vs h = Some (b, h') \<and>
    config L h' b (if vs = [] then cs else cs[pos f L := CSlice (slice_items (cs ! pos f L) @ xs)]) \<and>
    keeps ({..<nxt h} - the_ref b) h h'"
  using assms
proof (induction vs arbitrary: xs h cs)
  case Nil
  then show ?case by (simp add: keeps_def)
next
  case (Cons v vs)
  from Cons.prems(4) obtain c xs1 where xs: "xs = c # xs1" and v: "content (TPtr t) h v = Some (CPtr c)"
    "the_ref b \<inter> reach (TPtr t) h v = {}"
    and rest: "list_all2 (\<lambda>v c. content (TPtr t) h v = Some (CPtr c) \<and> the_ref b \<inter> reach (TPtr t) h v = {}) vs xs1"
    by (auto simp: list_all2_Cons1)
  from v obtain w where w: "target h v = Some w" "content t h w = Some c" "the_ref b \<inter> reach t h w = {}"
    by (auto split: option.splits if_splits)
  from append_one_config [OF Cons.prems(1-3) w(2,3)] obtain h1 where h1: "append_one L f b w h = Some h1"
    "config L h1 b (cs[pos f L := CSlice (slice_items (cs ! pos f L) @ [c])])" "keeps ({..<nxt h} - the_ref b) h h1"
    by blast
  have "list_all2 (\<lambda>v c. content (TPtr t) h1 v = Some (CPtr c) \<and> the_ref b \<inter> reach (TPtr t) h1 v = {}) vs xs1"
  proof (rule list_all2_mono [OF rest])
    fix u d assume u: "content (TPtr t) h u = Some (CPtr d) \<and> the_ref b \<inter> reach (TPtr t) h u = {}"
    then have "reach (TPtr t) h u \<subseteq> {..<nxt h} - the_ref b" using reach_below by blast
    from content_frame [OF conjunct1 [OF u] keeps_subset [OF h1(3) this]] u
    show "content (TPtr t) h1 u = Some (CPtr d) \<and> the_ref b \<inter> reach (TPtr t) h1 u = {}" by simp
  qed
  from Cons.IH [OF h1(2) Cons.prems(2,3) this] obtain h2 where h2: "append_values L f b vs h1 = Some (b, h2)"
    "config L h2 b (if vs = [] then cs[pos f L := CSlice (slice_items (cs ! pos f L) @ [c])]
       else cs[pos f L := CSlice (slice_items (cs ! pos f L) @ [c]),
         pos f L := CSlice (slice_items (cs[pos f L := CSlice (slice_items (cs ! pos f L) @ [c])] ! pos f L) @ xs1)])"
    "keeps ({..<nxt h1} - the_ref b) h1 h2" by blast
  have "length cs = length L" using Cons.prems(1) by (auto simp: config_def struct_content)
  moreover have "vs = [] \<Longrightarrow> xs1 = []" using rest by simp
  ultimately have "config L h2 b (cs[pos f L := CSlice (slice_items (cs ! pos f L) @ c # xs1)])"
    using h2(2) Cons.prems(2) by (cases "vs = []") simp_all
  moreover have "nxt h \<le> nxt h1" using h1(3) by (simp add: keeps_def)
  then have "keeps ({..<nxt h} - the_ref b) h h2" by (intro keeps_two [OF h1(3) h2(3)]) auto
  ultimately show ?case using w(1) h1(1) h2(1) by (simp add: xs)
qed


subsection \<open>Maps\<close>

lemma set_cell_simps:
  "set_cell a c (set_cell a d h) = set_cell a c h" "nxt (set_cell a c h) = nxt h"
  "a \<noteq> a' \<Longrightarrow> set_cell a c (set_cell a' d h) = set_cell a' d (set_cell a c h)"
  by (simp_all add: set_cell_def fun_upd_twist)

lemma put_each_run:
  assumes "a < nxt h"
  shows "put_each (Ref a) es (set_cell a (Dict d) h) =
    Some (set_cell a (Dict (fold (\<lambda>(k, v). AList.update k v) es d)) h)"
proof (induction es arbitrary: d)
  case (Cons e es)
  obtain k v where e: "e = (k, v)" by fastforce
  have "entries (set_cell a (Dict d) h) (Ref a) = Some d"
    using assms by (simp add: entries_def cell_at_def set_cell_def)
  with Cons.IH show ?case by (simp add: e set_cell_simps)
qed simp

lemma update_appends: "k \<notin> fst ` set d \<Longrightarrow> AList.update k v d = d @ [(k, v)]"
  by (induction d) auto

lemma put_all_fresh:
  "distinct (map fst (d @ es)) \<Longrightarrow> fold (\<lambda>(k, v). AList.update k v) es d = d @ es"
proof (induction es arbitrary: d)
  case (Cons e es)
  obtain k v where e: "e = (k, v)" by fastforce
  with Cons.prems have "k \<notin> fst ` set d" "distinct (map fst ((d @ [(k, v)]) @ es))" by auto
  with Cons.IH [of "d @ [(k, v)]"] show ?case by (simp add: e update_appends)
qed simp

lemma put_all_map_of: "map_of (fold (\<lambda>(k, v). AList.update k v) es d) = map_of d ++ map_of (rev es)"
proof (induction es arbitrary: d)
  case (Cons e es)
  obtain k v where "e = (k, v)" by fastforce
  with Cons.IH [of "AList.update k v d"] show ?case
    by (auto simp: update_conv' map_add_def fun_eq_iff map_of_append split: option.split)
qed simp

lemma put_entries_config:
  assumes b: "config L h b cs" and i: "pos f L < length L" and t: "snd (L ! pos f L) = TMap t"
    and nil: "cs ! pos f L = CNil" and es: "entries h m = Some es" "distinct (map fst es)"
    and m: "content (TMap t) h m = Some x" "the_ref b \<inter> reach (TMap t) h m = {}"
  shows "\<exists>h'. put_entries L f b m h = Some (b, h') \<and>
    config L h' b (if es = [] then cs else cs[pos f L := x]) \<and> keeps ({..<nxt h} - the_ref b) h h'"
proof -
  from config_read [OF b i] t nil have s: "read_field L f b h = Some Nil"
    by (auto split: option.splits if_splits)
  show ?thesis
  proof (cases "es = []")
    case True
    with b s es(1) show ?thesis by (simp add: put_entries_def keeps_def)
  next
    case False
    have mn: "m \<noteq> Nil" using es(1) by (auto simp: entries_def cell_at_def)
    let ?p = "Ref (nxt h)"
    let ?h = "\<lambda>d. snd (alloc (Dict d) h)"
    have below: "the_ref b \<subseteq> {..<nxt h}" using b target_below by (auto simp: config_def)
    from m es(1) mn obtain xs where xs: "those (map (\<lambda>e. content t h (snd e)) es) = Some xs"
      "x = CMap (zip (map fst es) xs)" by (auto split: option.splits)
    have each: "content t (?h es) u = Some y \<and> reach t (?h es) u = reach t h u" if "content t h u = Some y" for u y
      using content_frame [OF that keeps_subset [OF alloc_keeps reach_below [OF that]]] by simp
    have "those (map (\<lambda>e. content t (?h es) (snd e)) es) = Some xs"
      by (rule those_map_cong [OF xs(1)]) (use each in blast)
    moreover have "reach t (?h es) (snd e) = reach t h (snd e)" if "e \<in> set es" for e
      using those_map_defined [OF xs(1) that] each by blast
    then have "\<Union> (set (map (\<lambda>e. reach t (?h es) (snd e)) es)) = \<Union> (set (map (\<lambda>e. reach t h (snd e)) es))" by auto
    moreover have "entries (?h es) ?p = Some es" by (simp add: entries_def)
    ultimately have p: "content (TMap t) (?h es) ?p = Some x" "the_ref b \<inter> reach (TMap t) (?h es) ?p = {}"
      using xs(2) m(2) es(1) below by (auto simp: the_ref_def split: gval.splits)
    from config_write [OF config_frame [OF b alloc_keeps] i, of "Dict es" ?p x] p t obtain h' where
      h': "write_field L f ?p b (?h es) = Some h'" "config L h' b (cs[pos f L := x])" "keeps (- the_ref b) (?h es) h'"
      by auto
    from b obtain a vs where a: "b = Ref a" "a < nxt h" "target h b = Some (Struct vs)"
      by (auto simp: config_def target_def cell_at_def split: gval.splits if_splits option.splits cell.splits)
    have written: "write_field L f ?p b (?h d) =
        Some (set_cell (nxt h) (Dict d) (set_cell a (Cell (Struct (vs[pos f L := ?p]))) (h\<lparr>nxt := nxt h + 1\<rparr>)))" for d
    proof -
      have "target (?h d) b = Some (Struct vs)"
        using reading_keeps(1) [OF alloc_keeps below a(3)] .
      moreover have "length vs = length L" using b a(3) by (auto simp: config_def struct_content)
      ultimately show ?thesis
        using i a(1,2) by (simp add: write_field_def alloc_def set_cell_simps)
    qed
    have "put_entries L f b m h = Some (b, h')"
      using s es False h'(1) put_all_fresh [of "[]" es]
      by (simp add: put_entries_def Let_def case_prod_unfold written put_each_run set_cell_simps)
    moreover have "keeps ({..<nxt h} - the_ref b) h h'" by (rule keeps_two [OF alloc_keeps h'(3)]) auto
    ultimately show ?thesis using h'(2) False by auto
  qed
qed


subsection \<open>Methods that append or put entries\<close>

definition appends_field ::
  "layout \<Rightarrow> string \<Rightarrow> gtype \<Rightarrow> (gval \<Rightarrow> gval list \<Rightarrow> go_heap \<Rightarrow> (gval \<times> go_heap) option) \<Rightarrow> bool" where
  "appends_field L f t m \<longleftrightarrow>
     (\<forall>h b cs vs xs. config L h b cs \<and>
        list_all2 (\<lambda>v c. content (TPtr t) h v = Some (CPtr c) \<and> the_ref b \<inter> reach (TPtr t) h v = {}) vs xs \<longrightarrow>
        (\<exists>h'. m b vs h = Some (b, h') \<and>
           config L h' b (if vs = [] then cs else cs[pos f L := CSlice (slice_items (cs ! pos f L) @ xs)]) \<and>
           keeps ({..<nxt h} - the_ref b) h h')) \<and>
     (\<forall>h b vs. Nil \<in> set vs \<longrightarrow> m b vs h = None)"

lemma append_values_appends:
  assumes "pos f L < length L" and "snd (L ! pos f L) = TSlice t"
  shows "appends_field L f t (append_values L f)"
  unfolding appends_field_def using append_values_config [OF _ assms] nil_panics by blast

definition puts_entries :: "layout \<Rightarrow> string \<Rightarrow> gtype \<Rightarrow> ac_method \<Rightarrow> bool" where
  "puts_entries L f t m \<longleftrightarrow>
     (\<forall>h b cs v es x. config L h b cs \<and> cs ! pos f L = CNil \<and> entries h v = Some es \<and> distinct (map fst es) \<and>
        content (TMap t) h v = Some x \<and> the_ref b \<inter> reach (TMap t) h v = {} \<longrightarrow>
        (\<exists>h'. m b v h = Some (b, h') \<and> config L h' b (if es = [] then cs else cs[pos f L := x]) \<and>
           keeps ({..<nxt h} - the_ref b) h h'))"

lemma put_entries_puts:
  assumes "pos f L < length L" and "snd (L ! pos f L) = TMap t"
  shows "puts_entries L f t (put_entries L f)"
  unfolding puts_entries_def using put_entries_config [OF _ assms] by blast

subsection \<open>Reading back on a concrete heap\<close>

lemma read_cells [simp]:
  "target (set_cell a (Cell w) h) (Ref b) = (if a = b then if b < nxt h then Some w else None else target h (Ref b))"
  "target (snd (alloc (Cell w) h)) (Ref b) = (if b = nxt h then Some w else target h (Ref b))"
  "nxt (set_cell a c h) = nxt h"
  by (auto simp: target_def cell_at_def set_cell_def alloc_def)

end
