(* ===== verification/ApplyConfigs.thy ===== *)
theory ApplyConfigs
  imports Builders
begin

section \<open>Apply configurations\<close>

text \<open>
  \<open>client-go/applyconfiguration\<close>: for each API type \<open>X\<close> the layout \<open>XAC\<close> of its configuration, where every
  field may be unset, the constructor \<open>XAC_new\<close> and the methods, on the heap of \<open>GoHeap\<close> with the shapes of
  \<open>Builders\<close>. The inlined type metadata are the first two fields of an object. The layouts of types of other
  packages are the parameter \<open>E\<close>; \<open>ObjectMetaAC\<close> has the fields of the object metadata that the methods use.
  A \<open>metav1.Time\<close> is data.
\<close>

record ac_types =
  ac_RawExtension_T :: gtype
  ac_Condition_T :: gtype
  ac_OwnerReference_T :: gtype

definition ObjectMetaAC :: "ac_types \<Rightarrow> layout" where
  "ObjectMetaAC E =
    [(''Name'', TPtr TData),
     (''GenerateName'', TPtr TData),
     (''Namespace'', TPtr TData),
     (''UID'', TPtr TData),
     (''ResourceVersion'', TPtr TData),
     (''Generation'', TPtr TData),
     (''CreationTimestamp'', TPtr TData),
     (''DeletionTimestamp'', TPtr TData),
     (''DeletionGracePeriodSeconds'', TPtr TData),
     (''Labels'', TMap TData),
     (''Annotations'', TMap TData),
     (''OwnerReferences'', TSlice (ac_OwnerReference_T E)),
     (''Finalizers'', TSlice TData)]"

subsection \<open>SecretReference\<close>

definition SecretReferenceAC :: "ac_types \<Rightarrow> layout" where
  "SecretReferenceAC E =
    [(''Name'', TPtr TData)]"

definition SecretReferenceAC_new :: "ac_types \<Rightarrow> go_heap \<Rightarrow> gval \<times> go_heap" where
  "SecretReferenceAC_new E = new_config (SecretReferenceAC E)"

definition SecretReferenceAC_WithName :: "ac_types \<Rightarrow> gval \<Rightarrow> gval \<Rightarrow> go_heap \<Rightarrow> (gval \<times> go_heap) option" where
  "SecretReferenceAC_WithName E = set_value (SecretReferenceAC E) ''Name''"

subsection \<open>ModelReference\<close>

definition ModelReferenceAC :: "ac_types \<Rightarrow> layout" where
  "ModelReferenceAC E =
    [(''Kind'', TPtr TData),
     (''Name'', TPtr TData)]"

definition ModelReferenceAC_new :: "ac_types \<Rightarrow> go_heap \<Rightarrow> gval \<times> go_heap" where
  "ModelReferenceAC_new E = new_config (ModelReferenceAC E)"

definition ModelReferenceAC_WithKind :: "ac_types \<Rightarrow> gval \<Rightarrow> gval \<Rightarrow> go_heap \<Rightarrow> (gval \<times> go_heap) option" where
  "ModelReferenceAC_WithKind E = set_value (ModelReferenceAC E) ''Kind''"

definition ModelReferenceAC_WithName :: "ac_types \<Rightarrow> gval \<Rightarrow> gval \<Rightarrow> go_heap \<Rightarrow> (gval \<times> go_heap) option" where
  "ModelReferenceAC_WithName E = set_value (ModelReferenceAC E) ''Name''"

subsection \<open>SchedulingStrategy\<close>

definition SchedulingStrategyAC :: "ac_types \<Rightarrow> layout" where
  "SchedulingStrategyAC E =
    [(''SchedulerName'', TPtr TData)]"

definition SchedulingStrategyAC_new :: "ac_types \<Rightarrow> go_heap \<Rightarrow> gval \<times> go_heap" where
  "SchedulingStrategyAC_new E = new_config (SchedulingStrategyAC E)"

definition SchedulingStrategyAC_WithSchedulerName :: "ac_types \<Rightarrow> gval \<Rightarrow> gval \<Rightarrow> go_heap \<Rightarrow> (gval \<times> go_heap) option" where
  "SchedulingStrategyAC_WithSchedulerName E = set_value (SchedulingStrategyAC E) ''SchedulerName''"

subsection \<open>Multinode\<close>

definition MultinodeAC :: "ac_types \<Rightarrow> layout" where
  "MultinodeAC E =
    [(''NodeCount'', TPtr TData)]"

definition MultinodeAC_new :: "ac_types \<Rightarrow> go_heap \<Rightarrow> gval \<times> go_heap" where
  "MultinodeAC_new E = new_config (MultinodeAC E)"

definition MultinodeAC_WithNodeCount :: "ac_types \<Rightarrow> gval \<Rightarrow> gval \<Rightarrow> go_heap \<Rightarrow> (gval \<times> go_heap) option" where
  "MultinodeAC_WithNodeCount E = set_value (MultinodeAC E) ''NodeCount''"

subsection \<open>PrefetchStatus\<close>

definition PrefetchStatusAC :: "ac_types \<Rightarrow> layout" where
  "PrefetchStatusAC E =
    [(''DesiredNodes'', TPtr TData),
     (''ReadyNodes'', TPtr TData),
     (''FailedNodes'', TPtr TData)]"

definition PrefetchStatusAC_new :: "ac_types \<Rightarrow> go_heap \<Rightarrow> gval \<times> go_heap" where
  "PrefetchStatusAC_new E = new_config (PrefetchStatusAC E)"

definition PrefetchStatusAC_WithDesiredNodes :: "ac_types \<Rightarrow> gval \<Rightarrow> gval \<Rightarrow> go_heap \<Rightarrow> (gval \<times> go_heap) option" where
  "PrefetchStatusAC_WithDesiredNodes E = set_value (PrefetchStatusAC E) ''DesiredNodes''"

definition PrefetchStatusAC_WithReadyNodes :: "ac_types \<Rightarrow> gval \<Rightarrow> gval \<Rightarrow> go_heap \<Rightarrow> (gval \<times> go_heap) option" where
  "PrefetchStatusAC_WithReadyNodes E = set_value (PrefetchStatusAC E) ''ReadyNodes''"

definition PrefetchStatusAC_WithFailedNodes :: "ac_types \<Rightarrow> gval \<Rightarrow> gval \<Rightarrow> go_heap \<Rightarrow> (gval \<times> go_heap) option" where
  "PrefetchStatusAC_WithFailedNodes E = set_value (PrefetchStatusAC E) ''FailedNodes''"

subsection \<open>LoRAArtifactSpec\<close>

definition LoRAArtifactSpecAC :: "ac_types \<Rightarrow> layout" where
  "LoRAArtifactSpecAC E =
    [(''BaseModelRef'', TPtr (layout_T (ModelReferenceAC E)))]"

definition LoRAArtifactSpecAC_new :: "ac_types \<Rightarrow> go_heap \<Rightarrow> gval \<times> go_heap" where
  "LoRAArtifactSpecAC_new E = new_config (LoRAArtifactSpecAC E)"

definition LoRAArtifactSpecAC_WithBaseModelRef :: "ac_types \<Rightarrow> gval \<Rightarrow> gval \<Rightarrow> go_heap \<Rightarrow> (gval \<times> go_heap) option" where
  "LoRAArtifactSpecAC_WithBaseModelRef E = set_pointer (LoRAArtifactSpecAC E) ''BaseModelRef''"

subsection \<open>PrefetchSpec\<close>

definition PrefetchSpecAC :: "ac_types \<Rightarrow> layout" where
  "PrefetchSpecAC E =
    [(''NodeSelector'', TMap TData),
     (''NodeName'', TPtr TData)]"

definition PrefetchSpecAC_new :: "ac_types \<Rightarrow> go_heap \<Rightarrow> gval \<times> go_heap" where
  "PrefetchSpecAC_new E = new_config (PrefetchSpecAC E)"

definition PrefetchSpecAC_WithNodeSelector :: "ac_types \<Rightarrow> gval \<Rightarrow> gval \<Rightarrow> go_heap \<Rightarrow> (gval \<times> go_heap) option" where
  "PrefetchSpecAC_WithNodeSelector E = put_entries (PrefetchSpecAC E) ''NodeSelector''"

definition PrefetchSpecAC_WithNodeName :: "ac_types \<Rightarrow> gval \<Rightarrow> gval \<Rightarrow> go_heap \<Rightarrow> (gval \<times> go_heap) option" where
  "PrefetchSpecAC_WithNodeName E = set_value (PrefetchSpecAC E) ''NodeName''"

subsection \<open>ModelSource\<close>

definition ModelSourceAC :: "ac_types \<Rightarrow> layout" where
  "ModelSourceAC E =
    [(''URI'', TPtr TData),
     (''CredentialsRef'', TPtr (layout_T (SecretReferenceAC E)))]"

definition ModelSourceAC_new :: "ac_types \<Rightarrow> go_heap \<Rightarrow> gval \<times> go_heap" where
  "ModelSourceAC_new E = new_config (ModelSourceAC E)"

definition ModelSourceAC_WithURI :: "ac_types \<Rightarrow> gval \<Rightarrow> gval \<Rightarrow> go_heap \<Rightarrow> (gval \<times> go_heap) option" where
  "ModelSourceAC_WithURI E = set_value (ModelSourceAC E) ''URI''"

definition ModelSourceAC_WithCredentialsRef :: "ac_types \<Rightarrow> gval \<Rightarrow> gval \<Rightarrow> go_heap \<Rightarrow> (gval \<times> go_heap) option" where
  "ModelSourceAC_WithCredentialsRef E = set_pointer (ModelSourceAC E) ''CredentialsRef''"

subsection \<open>ModelSpec\<close>

definition ModelSpecAC :: "ac_types \<Rightarrow> layout" where
  "ModelSpecAC E =
    [(''Source'', TPtr (layout_T (ModelSourceAC E))),
     (''LoRA'', TPtr (layout_T (LoRAArtifactSpecAC E))),
     (''Prefetch'', TPtr (layout_T (PrefetchSpecAC E)))]"

definition ModelSpecAC_new :: "ac_types \<Rightarrow> go_heap \<Rightarrow> gval \<times> go_heap" where
  "ModelSpecAC_new E = new_config (ModelSpecAC E)"

definition ModelSpecAC_WithSource :: "ac_types \<Rightarrow> gval \<Rightarrow> gval \<Rightarrow> go_heap \<Rightarrow> (gval \<times> go_heap) option" where
  "ModelSpecAC_WithSource E = set_pointer (ModelSpecAC E) ''Source''"

definition ModelSpecAC_WithLoRA :: "ac_types \<Rightarrow> gval \<Rightarrow> gval \<Rightarrow> go_heap \<Rightarrow> (gval \<times> go_heap) option" where
  "ModelSpecAC_WithLoRA E = set_pointer (ModelSpecAC E) ''LoRA''"

definition ModelSpecAC_WithPrefetch :: "ac_types \<Rightarrow> gval \<Rightarrow> gval \<Rightarrow> go_heap \<Rightarrow> (gval \<times> go_heap) option" where
  "ModelSpecAC_WithPrefetch E = set_pointer (ModelSpecAC E) ''Prefetch''"

subsection \<open>ModelStatus\<close>

definition ModelStatusAC :: "ac_types \<Rightarrow> layout" where
  "ModelStatusAC E =
    [(''ObservedGeneration'', TPtr TData),
     (''Prefetch'', TPtr (layout_T (PrefetchStatusAC E))),
     (''Conditions'', TSlice (ac_Condition_T E))]"

definition ModelStatusAC_new :: "ac_types \<Rightarrow> go_heap \<Rightarrow> gval \<times> go_heap" where
  "ModelStatusAC_new E = new_config (ModelStatusAC E)"

definition ModelStatusAC_WithObservedGeneration :: "ac_types \<Rightarrow> gval \<Rightarrow> gval \<Rightarrow> go_heap \<Rightarrow> (gval \<times> go_heap) option" where
  "ModelStatusAC_WithObservedGeneration E = set_value (ModelStatusAC E) ''ObservedGeneration''"

definition ModelStatusAC_WithPrefetch :: "ac_types \<Rightarrow> gval \<Rightarrow> gval \<Rightarrow> go_heap \<Rightarrow> (gval \<times> go_heap) option" where
  "ModelStatusAC_WithPrefetch E = set_pointer (ModelStatusAC E) ''Prefetch''"

definition ModelStatusAC_WithConditions :: "ac_types \<Rightarrow> gval \<Rightarrow> gval list \<Rightarrow> go_heap \<Rightarrow> (gval \<times> go_heap) option" where
  "ModelStatusAC_WithConditions E = append_values (ModelStatusAC E) ''Conditions''"

subsection \<open>Role\<close>

definition RoleAC :: "ac_types \<Rightarrow> layout" where
  "RoleAC E =
    [(''Name'', TPtr TData),
     (''ComponentType'', TPtr TData),
     (''Strategy'', TPtr TData),
     (''HTTPRoute'', TPtr (ac_RawExtension_T E)),
     (''Gateway'', TPtr (ac_RawExtension_T E)),
     (''EndpointPickerConfig'', TPtr TData),
     (''Replicas'', TPtr TData),
     (''Multinode'', TPtr (layout_T (MultinodeAC E))),
     (''Template'', TPtr (ac_RawExtension_T E))]"

definition RoleAC_new :: "ac_types \<Rightarrow> go_heap \<Rightarrow> gval \<times> go_heap" where
  "RoleAC_new E = new_config (RoleAC E)"

definition RoleAC_WithName :: "ac_types \<Rightarrow> gval \<Rightarrow> gval \<Rightarrow> go_heap \<Rightarrow> (gval \<times> go_heap) option" where
  "RoleAC_WithName E = set_value (RoleAC E) ''Name''"

definition RoleAC_WithComponentType :: "ac_types \<Rightarrow> gval \<Rightarrow> gval \<Rightarrow> go_heap \<Rightarrow> (gval \<times> go_heap) option" where
  "RoleAC_WithComponentType E = set_value (RoleAC E) ''ComponentType''"

definition RoleAC_WithStrategy :: "ac_types \<Rightarrow> gval \<Rightarrow> gval \<Rightarrow> go_heap \<Rightarrow> (gval \<times> go_heap) option" where
  "RoleAC_WithStrategy E = set_value (RoleAC E) ''Strategy''"

definition RoleAC_WithHTTPRoute :: "ac_types \<Rightarrow> gval \<Rightarrow> gval \<Rightarrow> go_heap \<Rightarrow> (gval \<times> go_heap) option" where
  "RoleAC_WithHTTPRoute E = set_value (RoleAC E) ''HTTPRoute''"

definition RoleAC_WithGateway :: "ac_types \<Rightarrow> gval \<Rightarrow> gval \<Rightarrow> go_heap \<Rightarrow> (gval \<times> go_heap) option" where
  "RoleAC_WithGateway E = set_value (RoleAC E) ''Gateway''"

definition RoleAC_WithEndpointPickerConfig :: "ac_types \<Rightarrow> gval \<Rightarrow> gval \<Rightarrow> go_heap \<Rightarrow> (gval \<times> go_heap) option" where
  "RoleAC_WithEndpointPickerConfig E = set_value (RoleAC E) ''EndpointPickerConfig''"

definition RoleAC_WithReplicas :: "ac_types \<Rightarrow> gval \<Rightarrow> gval \<Rightarrow> go_heap \<Rightarrow> (gval \<times> go_heap) option" where
  "RoleAC_WithReplicas E = set_value (RoleAC E) ''Replicas''"

definition RoleAC_WithMultinode :: "ac_types \<Rightarrow> gval \<Rightarrow> gval \<Rightarrow> go_heap \<Rightarrow> (gval \<times> go_heap) option" where
  "RoleAC_WithMultinode E = set_pointer (RoleAC E) ''Multinode''"

definition RoleAC_WithTemplate :: "ac_types \<Rightarrow> gval \<Rightarrow> gval \<Rightarrow> go_heap \<Rightarrow> (gval \<times> go_heap) option" where
  "RoleAC_WithTemplate E = set_value (RoleAC E) ''Template''"

subsection \<open>ComponentStatus\<close>

definition ComponentStatusAC :: "ac_types \<Rightarrow> layout" where
  "ComponentStatusAC E =
    [(''DesiredReplicas'', TPtr TData),
     (''ReadyReplicas'', TPtr TData),
     (''NodesPerReplica'', TPtr TData),
     (''TotalPods'', TPtr TData),
     (''ReadyPods'', TPtr TData),
     (''Phase'', TPtr TData),
     (''LastUpdateTime'', TPtr TData)]"

definition ComponentStatusAC_new :: "ac_types \<Rightarrow> go_heap \<Rightarrow> gval \<times> go_heap" where
  "ComponentStatusAC_new E = new_config (ComponentStatusAC E)"

definition ComponentStatusAC_WithDesiredReplicas :: "ac_types \<Rightarrow> gval \<Rightarrow> gval \<Rightarrow> go_heap \<Rightarrow> (gval \<times> go_heap) option" where
  "ComponentStatusAC_WithDesiredReplicas E = set_value (ComponentStatusAC E) ''DesiredReplicas''"

definition ComponentStatusAC_WithReadyReplicas :: "ac_types \<Rightarrow> gval \<Rightarrow> gval \<Rightarrow> go_heap \<Rightarrow> (gval \<times> go_heap) option" where
  "ComponentStatusAC_WithReadyReplicas E = set_value (ComponentStatusAC E) ''ReadyReplicas''"

definition ComponentStatusAC_WithNodesPerReplica :: "ac_types \<Rightarrow> gval \<Rightarrow> gval \<Rightarrow> go_heap \<Rightarrow> (gval \<times> go_heap) option" where
  "ComponentStatusAC_WithNodesPerReplica E = set_value (ComponentStatusAC E) ''NodesPerReplica''"

definition ComponentStatusAC_WithTotalPods :: "ac_types \<Rightarrow> gval \<Rightarrow> gval \<Rightarrow> go_heap \<Rightarrow> (gval \<times> go_heap) option" where
  "ComponentStatusAC_WithTotalPods E = set_value (ComponentStatusAC E) ''TotalPods''"

definition ComponentStatusAC_WithReadyPods :: "ac_types \<Rightarrow> gval \<Rightarrow> gval \<Rightarrow> go_heap \<Rightarrow> (gval \<times> go_heap) option" where
  "ComponentStatusAC_WithReadyPods E = set_value (ComponentStatusAC E) ''ReadyPods''"

definition ComponentStatusAC_WithPhase :: "ac_types \<Rightarrow> gval \<Rightarrow> gval \<Rightarrow> go_heap \<Rightarrow> (gval \<times> go_heap) option" where
  "ComponentStatusAC_WithPhase E = set_value (ComponentStatusAC E) ''Phase''"

definition ComponentStatusAC_WithLastUpdateTime :: "ac_types \<Rightarrow> gval \<Rightarrow> gval \<Rightarrow> go_heap \<Rightarrow> (gval \<times> go_heap) option" where
  "ComponentStatusAC_WithLastUpdateTime E = set_value (ComponentStatusAC E) ''LastUpdateTime''"

subsection \<open>InferenceServiceSpec\<close>

definition InferenceServiceSpecAC :: "ac_types \<Rightarrow> layout" where
  "InferenceServiceSpecAC E =
    [(''Roles'', TSlice (layout_T (RoleAC E))),
     (''SchedulingStrategy'', TPtr (layout_T (SchedulingStrategyAC E)))]"

definition InferenceServiceSpecAC_new :: "ac_types \<Rightarrow> go_heap \<Rightarrow> gval \<times> go_heap" where
  "InferenceServiceSpecAC_new E = new_config (InferenceServiceSpecAC E)"

definition InferenceServiceSpecAC_WithRoles :: "ac_types \<Rightarrow> gval \<Rightarrow> gval list \<Rightarrow> go_heap \<Rightarrow> (gval \<times> go_heap) option" where
  "InferenceServiceSpecAC_WithRoles E = append_values (InferenceServiceSpecAC E) ''Roles''"

definition InferenceServiceSpecAC_WithSchedulingStrategy :: "ac_types \<Rightarrow> gval \<Rightarrow> gval \<Rightarrow> go_heap \<Rightarrow> (gval \<times> go_heap) option" where
  "InferenceServiceSpecAC_WithSchedulingStrategy E = set_pointer (InferenceServiceSpecAC E) ''SchedulingStrategy''"

subsection \<open>InferenceServiceStatus\<close>

definition InferenceServiceStatusAC :: "ac_types \<Rightarrow> layout" where
  "InferenceServiceStatusAC E =
    [(''ObservedGeneration'', TPtr TData),
     (''Conditions'', TSlice (ac_Condition_T E)),
     (''Components'', TMap (layout_T (ComponentStatusAC E)))]"

definition InferenceServiceStatusAC_new :: "ac_types \<Rightarrow> go_heap \<Rightarrow> gval \<times> go_heap" where
  "InferenceServiceStatusAC_new E = new_config (InferenceServiceStatusAC E)"

definition InferenceServiceStatusAC_WithObservedGeneration :: "ac_types \<Rightarrow> gval \<Rightarrow> gval \<Rightarrow> go_heap \<Rightarrow> (gval \<times> go_heap) option" where
  "InferenceServiceStatusAC_WithObservedGeneration E = set_value (InferenceServiceStatusAC E) ''ObservedGeneration''"

definition InferenceServiceStatusAC_WithConditions :: "ac_types \<Rightarrow> gval \<Rightarrow> gval list \<Rightarrow> go_heap \<Rightarrow> (gval \<times> go_heap) option" where
  "InferenceServiceStatusAC_WithConditions E = append_values (InferenceServiceStatusAC E) ''Conditions''"

definition InferenceServiceStatusAC_WithComponents :: "ac_types \<Rightarrow> gval \<Rightarrow> gval \<Rightarrow> go_heap \<Rightarrow> (gval \<times> go_heap) option" where
  "InferenceServiceStatusAC_WithComponents E = put_entries (InferenceServiceStatusAC E) ''Components''"

subsection \<open>Model\<close>

definition ModelAC :: "ac_types \<Rightarrow> layout" where
  "ModelAC E =
    [(''Kind'', TPtr TData),
     (''APIVersion'', TPtr TData),
     (''ObjectMetaApplyConfiguration'', TPtr (layout_T (ObjectMetaAC E))),
     (''Spec'', TPtr (layout_T (ModelSpecAC E))),
     (''Status'', TPtr (layout_T (ModelStatusAC E)))]"

definition ModelAC_WithKind :: "ac_types \<Rightarrow> gval \<Rightarrow> gval \<Rightarrow> go_heap \<Rightarrow> (gval \<times> go_heap) option" where
  "ModelAC_WithKind E = set_value (ModelAC E) ''Kind''"

definition ModelAC_WithAPIVersion :: "ac_types \<Rightarrow> gval \<Rightarrow> gval \<Rightarrow> go_heap \<Rightarrow> (gval \<times> go_heap) option" where
  "ModelAC_WithAPIVersion E = set_value (ModelAC E) ''APIVersion''"

definition ModelAC_WithName :: "ac_types \<Rightarrow> gval \<Rightarrow> gval \<Rightarrow> go_heap \<Rightarrow> (gval \<times> go_heap) option" where
  "ModelAC_WithName E = on_meta (ObjectMetaAC E) (ModelAC E) (set_value (ObjectMetaAC E) ''Name'')"

definition ModelAC_WithGenerateName :: "ac_types \<Rightarrow> gval \<Rightarrow> gval \<Rightarrow> go_heap \<Rightarrow> (gval \<times> go_heap) option" where
  "ModelAC_WithGenerateName E = on_meta (ObjectMetaAC E) (ModelAC E) (set_value (ObjectMetaAC E) ''GenerateName'')"

definition ModelAC_WithNamespace :: "ac_types \<Rightarrow> gval \<Rightarrow> gval \<Rightarrow> go_heap \<Rightarrow> (gval \<times> go_heap) option" where
  "ModelAC_WithNamespace E = on_meta (ObjectMetaAC E) (ModelAC E) (set_value (ObjectMetaAC E) ''Namespace'')"

definition ModelAC_WithUID :: "ac_types \<Rightarrow> gval \<Rightarrow> gval \<Rightarrow> go_heap \<Rightarrow> (gval \<times> go_heap) option" where
  "ModelAC_WithUID E = on_meta (ObjectMetaAC E) (ModelAC E) (set_value (ObjectMetaAC E) ''UID'')"

definition ModelAC_WithResourceVersion :: "ac_types \<Rightarrow> gval \<Rightarrow> gval \<Rightarrow> go_heap \<Rightarrow> (gval \<times> go_heap) option" where
  "ModelAC_WithResourceVersion E = on_meta (ObjectMetaAC E) (ModelAC E) (set_value (ObjectMetaAC E) ''ResourceVersion'')"

definition ModelAC_WithGeneration :: "ac_types \<Rightarrow> gval \<Rightarrow> gval \<Rightarrow> go_heap \<Rightarrow> (gval \<times> go_heap) option" where
  "ModelAC_WithGeneration E = on_meta (ObjectMetaAC E) (ModelAC E) (set_value (ObjectMetaAC E) ''Generation'')"

definition ModelAC_WithCreationTimestamp :: "ac_types \<Rightarrow> gval \<Rightarrow> gval \<Rightarrow> go_heap \<Rightarrow> (gval \<times> go_heap) option" where
  "ModelAC_WithCreationTimestamp E = on_meta (ObjectMetaAC E) (ModelAC E) (set_value (ObjectMetaAC E) ''CreationTimestamp'')"

definition ModelAC_WithDeletionTimestamp :: "ac_types \<Rightarrow> gval \<Rightarrow> gval \<Rightarrow> go_heap \<Rightarrow> (gval \<times> go_heap) option" where
  "ModelAC_WithDeletionTimestamp E = on_meta (ObjectMetaAC E) (ModelAC E) (set_value (ObjectMetaAC E) ''DeletionTimestamp'')"

definition ModelAC_WithDeletionGracePeriodSeconds :: "ac_types \<Rightarrow> gval \<Rightarrow> gval \<Rightarrow> go_heap \<Rightarrow> (gval \<times> go_heap) option" where
  "ModelAC_WithDeletionGracePeriodSeconds E = on_meta (ObjectMetaAC E) (ModelAC E) (set_value (ObjectMetaAC E) ''DeletionGracePeriodSeconds'')"

definition ModelAC_WithLabels :: "ac_types \<Rightarrow> gval \<Rightarrow> gval \<Rightarrow> go_heap \<Rightarrow> (gval \<times> go_heap) option" where
  "ModelAC_WithLabels E = on_meta (ObjectMetaAC E) (ModelAC E) (put_entries (ObjectMetaAC E) ''Labels'')"

definition ModelAC_WithAnnotations :: "ac_types \<Rightarrow> gval \<Rightarrow> gval \<Rightarrow> go_heap \<Rightarrow> (gval \<times> go_heap) option" where
  "ModelAC_WithAnnotations E = on_meta (ObjectMetaAC E) (ModelAC E) (put_entries (ObjectMetaAC E) ''Annotations'')"

definition ModelAC_WithOwnerReferences :: "ac_types \<Rightarrow> gval \<Rightarrow> gval list \<Rightarrow> go_heap \<Rightarrow> (gval \<times> go_heap) option" where
  "ModelAC_WithOwnerReferences E = on_meta (ObjectMetaAC E) (ModelAC E) (append_values (ObjectMetaAC E) ''OwnerReferences'')"

definition ModelAC_WithFinalizers :: "ac_types \<Rightarrow> gval \<Rightarrow> gval list \<Rightarrow> go_heap \<Rightarrow> (gval \<times> go_heap) option" where
  "ModelAC_WithFinalizers E = on_meta (ObjectMetaAC E) (ModelAC E) (append_data (ObjectMetaAC E) ''Finalizers'')"

definition ModelAC_ensureObjectMetaApplyConfigurationExists :: "ac_types \<Rightarrow> gval \<Rightarrow> go_heap \<Rightarrow> go_heap option" where
  "ModelAC_ensureObjectMetaApplyConfigurationExists E = ensure_meta (ObjectMetaAC E) (ModelAC E)"

definition ModelAC_WithSpec :: "ac_types \<Rightarrow> gval \<Rightarrow> gval \<Rightarrow> go_heap \<Rightarrow> (gval \<times> go_heap) option" where
  "ModelAC_WithSpec E = set_pointer (ModelAC E) ''Spec''"

definition ModelAC_WithStatus :: "ac_types \<Rightarrow> gval \<Rightarrow> gval \<Rightarrow> go_heap \<Rightarrow> (gval \<times> go_heap) option" where
  "ModelAC_WithStatus E = set_pointer (ModelAC E) ''Status''"

definition ModelAC_GetKind :: "ac_types \<Rightarrow> gval \<Rightarrow> go_heap \<Rightarrow> (gval \<times> go_heap) option" where
  "ModelAC_GetKind E = get_field (ModelAC E) ''Kind''"

definition ModelAC_GetAPIVersion :: "ac_types \<Rightarrow> gval \<Rightarrow> go_heap \<Rightarrow> (gval \<times> go_heap) option" where
  "ModelAC_GetAPIVersion E = get_field (ModelAC E) ''APIVersion''"

definition ModelAC_GetName :: "ac_types \<Rightarrow> gval \<Rightarrow> go_heap \<Rightarrow> (gval \<times> go_heap) option" where
  "ModelAC_GetName E = get_meta (ObjectMetaAC E) (ModelAC E) ''Name''"

definition ModelAC_GetNamespace :: "ac_types \<Rightarrow> gval \<Rightarrow> go_heap \<Rightarrow> (gval \<times> go_heap) option" where
  "ModelAC_GetNamespace E = get_meta (ObjectMetaAC E) (ModelAC E) ''Namespace''"

definition ModelAC_new :: "ac_types \<Rightarrow> gval \<Rightarrow> gval \<Rightarrow> go_heap \<Rightarrow> (gval \<times> go_heap) option" where
  "ModelAC_new E name namespace h =
     (let (b, h) = new_config (ModelAC E) h in
      Option.bind (ModelAC_WithName E b name h) (\<lambda>(b, h).
      Option.bind (ModelAC_WithNamespace E b namespace h) (\<lambda>(b, h).
      Option.bind (ModelAC_WithKind E b (Data ''Model'') h) (\<lambda>(b, h).
      Option.bind (ModelAC_WithAPIVersion E b (Data ''fusioninfer.io/v1alpha1'') h) (\<lambda>(b, h).
      Some (b, h))))))"

subsection \<open>ClusterModel\<close>

definition ClusterModelAC :: "ac_types \<Rightarrow> layout" where
  "ClusterModelAC E =
    [(''Kind'', TPtr TData),
     (''APIVersion'', TPtr TData),
     (''ObjectMetaApplyConfiguration'', TPtr (layout_T (ObjectMetaAC E))),
     (''Spec'', TPtr (layout_T (ModelSpecAC E))),
     (''Status'', TPtr (layout_T (ModelStatusAC E)))]"

definition ClusterModelAC_WithKind :: "ac_types \<Rightarrow> gval \<Rightarrow> gval \<Rightarrow> go_heap \<Rightarrow> (gval \<times> go_heap) option" where
  "ClusterModelAC_WithKind E = set_value (ClusterModelAC E) ''Kind''"

definition ClusterModelAC_WithAPIVersion :: "ac_types \<Rightarrow> gval \<Rightarrow> gval \<Rightarrow> go_heap \<Rightarrow> (gval \<times> go_heap) option" where
  "ClusterModelAC_WithAPIVersion E = set_value (ClusterModelAC E) ''APIVersion''"

definition ClusterModelAC_WithName :: "ac_types \<Rightarrow> gval \<Rightarrow> gval \<Rightarrow> go_heap \<Rightarrow> (gval \<times> go_heap) option" where
  "ClusterModelAC_WithName E = on_meta (ObjectMetaAC E) (ClusterModelAC E) (set_value (ObjectMetaAC E) ''Name'')"

definition ClusterModelAC_WithGenerateName :: "ac_types \<Rightarrow> gval \<Rightarrow> gval \<Rightarrow> go_heap \<Rightarrow> (gval \<times> go_heap) option" where
  "ClusterModelAC_WithGenerateName E = on_meta (ObjectMetaAC E) (ClusterModelAC E) (set_value (ObjectMetaAC E) ''GenerateName'')"

definition ClusterModelAC_WithNamespace :: "ac_types \<Rightarrow> gval \<Rightarrow> gval \<Rightarrow> go_heap \<Rightarrow> (gval \<times> go_heap) option" where
  "ClusterModelAC_WithNamespace E = on_meta (ObjectMetaAC E) (ClusterModelAC E) (set_value (ObjectMetaAC E) ''Namespace'')"

definition ClusterModelAC_WithUID :: "ac_types \<Rightarrow> gval \<Rightarrow> gval \<Rightarrow> go_heap \<Rightarrow> (gval \<times> go_heap) option" where
  "ClusterModelAC_WithUID E = on_meta (ObjectMetaAC E) (ClusterModelAC E) (set_value (ObjectMetaAC E) ''UID'')"

definition ClusterModelAC_WithResourceVersion :: "ac_types \<Rightarrow> gval \<Rightarrow> gval \<Rightarrow> go_heap \<Rightarrow> (gval \<times> go_heap) option" where
  "ClusterModelAC_WithResourceVersion E = on_meta (ObjectMetaAC E) (ClusterModelAC E) (set_value (ObjectMetaAC E) ''ResourceVersion'')"

definition ClusterModelAC_WithGeneration :: "ac_types \<Rightarrow> gval \<Rightarrow> gval \<Rightarrow> go_heap \<Rightarrow> (gval \<times> go_heap) option" where
  "ClusterModelAC_WithGeneration E = on_meta (ObjectMetaAC E) (ClusterModelAC E) (set_value (ObjectMetaAC E) ''Generation'')"

definition ClusterModelAC_WithCreationTimestamp :: "ac_types \<Rightarrow> gval \<Rightarrow> gval \<Rightarrow> go_heap \<Rightarrow> (gval \<times> go_heap) option" where
  "ClusterModelAC_WithCreationTimestamp E = on_meta (ObjectMetaAC E) (ClusterModelAC E) (set_value (ObjectMetaAC E) ''CreationTimestamp'')"

definition ClusterModelAC_WithDeletionTimestamp :: "ac_types \<Rightarrow> gval \<Rightarrow> gval \<Rightarrow> go_heap \<Rightarrow> (gval \<times> go_heap) option" where
  "ClusterModelAC_WithDeletionTimestamp E = on_meta (ObjectMetaAC E) (ClusterModelAC E) (set_value (ObjectMetaAC E) ''DeletionTimestamp'')"

definition ClusterModelAC_WithDeletionGracePeriodSeconds :: "ac_types \<Rightarrow> gval \<Rightarrow> gval \<Rightarrow> go_heap \<Rightarrow> (gval \<times> go_heap) option" where
  "ClusterModelAC_WithDeletionGracePeriodSeconds E = on_meta (ObjectMetaAC E) (ClusterModelAC E) (set_value (ObjectMetaAC E) ''DeletionGracePeriodSeconds'')"

definition ClusterModelAC_WithLabels :: "ac_types \<Rightarrow> gval \<Rightarrow> gval \<Rightarrow> go_heap \<Rightarrow> (gval \<times> go_heap) option" where
  "ClusterModelAC_WithLabels E = on_meta (ObjectMetaAC E) (ClusterModelAC E) (put_entries (ObjectMetaAC E) ''Labels'')"

definition ClusterModelAC_WithAnnotations :: "ac_types \<Rightarrow> gval \<Rightarrow> gval \<Rightarrow> go_heap \<Rightarrow> (gval \<times> go_heap) option" where
  "ClusterModelAC_WithAnnotations E = on_meta (ObjectMetaAC E) (ClusterModelAC E) (put_entries (ObjectMetaAC E) ''Annotations'')"

definition ClusterModelAC_WithOwnerReferences :: "ac_types \<Rightarrow> gval \<Rightarrow> gval list \<Rightarrow> go_heap \<Rightarrow> (gval \<times> go_heap) option" where
  "ClusterModelAC_WithOwnerReferences E = on_meta (ObjectMetaAC E) (ClusterModelAC E) (append_values (ObjectMetaAC E) ''OwnerReferences'')"

definition ClusterModelAC_WithFinalizers :: "ac_types \<Rightarrow> gval \<Rightarrow> gval list \<Rightarrow> go_heap \<Rightarrow> (gval \<times> go_heap) option" where
  "ClusterModelAC_WithFinalizers E = on_meta (ObjectMetaAC E) (ClusterModelAC E) (append_data (ObjectMetaAC E) ''Finalizers'')"

definition ClusterModelAC_ensureObjectMetaApplyConfigurationExists :: "ac_types \<Rightarrow> gval \<Rightarrow> go_heap \<Rightarrow> go_heap option" where
  "ClusterModelAC_ensureObjectMetaApplyConfigurationExists E = ensure_meta (ObjectMetaAC E) (ClusterModelAC E)"

definition ClusterModelAC_WithSpec :: "ac_types \<Rightarrow> gval \<Rightarrow> gval \<Rightarrow> go_heap \<Rightarrow> (gval \<times> go_heap) option" where
  "ClusterModelAC_WithSpec E = set_pointer (ClusterModelAC E) ''Spec''"

definition ClusterModelAC_WithStatus :: "ac_types \<Rightarrow> gval \<Rightarrow> gval \<Rightarrow> go_heap \<Rightarrow> (gval \<times> go_heap) option" where
  "ClusterModelAC_WithStatus E = set_pointer (ClusterModelAC E) ''Status''"

definition ClusterModelAC_GetKind :: "ac_types \<Rightarrow> gval \<Rightarrow> go_heap \<Rightarrow> (gval \<times> go_heap) option" where
  "ClusterModelAC_GetKind E = get_field (ClusterModelAC E) ''Kind''"

definition ClusterModelAC_GetAPIVersion :: "ac_types \<Rightarrow> gval \<Rightarrow> go_heap \<Rightarrow> (gval \<times> go_heap) option" where
  "ClusterModelAC_GetAPIVersion E = get_field (ClusterModelAC E) ''APIVersion''"

definition ClusterModelAC_GetName :: "ac_types \<Rightarrow> gval \<Rightarrow> go_heap \<Rightarrow> (gval \<times> go_heap) option" where
  "ClusterModelAC_GetName E = get_meta (ObjectMetaAC E) (ClusterModelAC E) ''Name''"

definition ClusterModelAC_GetNamespace :: "ac_types \<Rightarrow> gval \<Rightarrow> go_heap \<Rightarrow> (gval \<times> go_heap) option" where
  "ClusterModelAC_GetNamespace E = get_meta (ObjectMetaAC E) (ClusterModelAC E) ''Namespace''"

definition ClusterModelAC_new :: "ac_types \<Rightarrow> gval \<Rightarrow> go_heap \<Rightarrow> (gval \<times> go_heap) option" where
  "ClusterModelAC_new E name h =
     (let (b, h) = new_config (ClusterModelAC E) h in
      Option.bind (ClusterModelAC_WithName E b name h) (\<lambda>(b, h).
      Option.bind (ClusterModelAC_WithKind E b (Data ''ClusterModel'') h) (\<lambda>(b, h).
      Option.bind (ClusterModelAC_WithAPIVersion E b (Data ''fusioninfer.io/v1alpha1'') h) (\<lambda>(b, h).
      Some (b, h)))))"

subsection \<open>InferenceService\<close>

definition InferenceServiceAC :: "ac_types \<Rightarrow> layout" where
  "InferenceServiceAC E =
    [(''Kind'', TPtr TData),
     (''APIVersion'', TPtr TData),
     (''ObjectMetaApplyConfiguration'', TPtr (layout_T (ObjectMetaAC E))),
     (''Spec'', TPtr (layout_T (InferenceServiceSpecAC E))),
     (''Status'', TPtr (layout_T (InferenceServiceStatusAC E)))]"

definition InferenceServiceAC_WithKind :: "ac_types \<Rightarrow> gval \<Rightarrow> gval \<Rightarrow> go_heap \<Rightarrow> (gval \<times> go_heap) option" where
  "InferenceServiceAC_WithKind E = set_value (InferenceServiceAC E) ''Kind''"

definition InferenceServiceAC_WithAPIVersion :: "ac_types \<Rightarrow> gval \<Rightarrow> gval \<Rightarrow> go_heap \<Rightarrow> (gval \<times> go_heap) option" where
  "InferenceServiceAC_WithAPIVersion E = set_value (InferenceServiceAC E) ''APIVersion''"

definition InferenceServiceAC_WithName :: "ac_types \<Rightarrow> gval \<Rightarrow> gval \<Rightarrow> go_heap \<Rightarrow> (gval \<times> go_heap) option" where
  "InferenceServiceAC_WithName E = on_meta (ObjectMetaAC E) (InferenceServiceAC E) (set_value (ObjectMetaAC E) ''Name'')"

definition InferenceServiceAC_WithGenerateName :: "ac_types \<Rightarrow> gval \<Rightarrow> gval \<Rightarrow> go_heap \<Rightarrow> (gval \<times> go_heap) option" where
  "InferenceServiceAC_WithGenerateName E = on_meta (ObjectMetaAC E) (InferenceServiceAC E) (set_value (ObjectMetaAC E) ''GenerateName'')"

definition InferenceServiceAC_WithNamespace :: "ac_types \<Rightarrow> gval \<Rightarrow> gval \<Rightarrow> go_heap \<Rightarrow> (gval \<times> go_heap) option" where
  "InferenceServiceAC_WithNamespace E = on_meta (ObjectMetaAC E) (InferenceServiceAC E) (set_value (ObjectMetaAC E) ''Namespace'')"

definition InferenceServiceAC_WithUID :: "ac_types \<Rightarrow> gval \<Rightarrow> gval \<Rightarrow> go_heap \<Rightarrow> (gval \<times> go_heap) option" where
  "InferenceServiceAC_WithUID E = on_meta (ObjectMetaAC E) (InferenceServiceAC E) (set_value (ObjectMetaAC E) ''UID'')"

definition InferenceServiceAC_WithResourceVersion :: "ac_types \<Rightarrow> gval \<Rightarrow> gval \<Rightarrow> go_heap \<Rightarrow> (gval \<times> go_heap) option" where
  "InferenceServiceAC_WithResourceVersion E = on_meta (ObjectMetaAC E) (InferenceServiceAC E) (set_value (ObjectMetaAC E) ''ResourceVersion'')"

definition InferenceServiceAC_WithGeneration :: "ac_types \<Rightarrow> gval \<Rightarrow> gval \<Rightarrow> go_heap \<Rightarrow> (gval \<times> go_heap) option" where
  "InferenceServiceAC_WithGeneration E = on_meta (ObjectMetaAC E) (InferenceServiceAC E) (set_value (ObjectMetaAC E) ''Generation'')"

definition InferenceServiceAC_WithCreationTimestamp :: "ac_types \<Rightarrow> gval \<Rightarrow> gval \<Rightarrow> go_heap \<Rightarrow> (gval \<times> go_heap) option" where
  "InferenceServiceAC_WithCreationTimestamp E = on_meta (ObjectMetaAC E) (InferenceServiceAC E) (set_value (ObjectMetaAC E) ''CreationTimestamp'')"

definition InferenceServiceAC_WithDeletionTimestamp :: "ac_types \<Rightarrow> gval \<Rightarrow> gval \<Rightarrow> go_heap \<Rightarrow> (gval \<times> go_heap) option" where
  "InferenceServiceAC_WithDeletionTimestamp E = on_meta (ObjectMetaAC E) (InferenceServiceAC E) (set_value (ObjectMetaAC E) ''DeletionTimestamp'')"

definition InferenceServiceAC_WithDeletionGracePeriodSeconds :: "ac_types \<Rightarrow> gval \<Rightarrow> gval \<Rightarrow> go_heap \<Rightarrow> (gval \<times> go_heap) option" where
  "InferenceServiceAC_WithDeletionGracePeriodSeconds E = on_meta (ObjectMetaAC E) (InferenceServiceAC E) (set_value (ObjectMetaAC E) ''DeletionGracePeriodSeconds'')"

definition InferenceServiceAC_WithLabels :: "ac_types \<Rightarrow> gval \<Rightarrow> gval \<Rightarrow> go_heap \<Rightarrow> (gval \<times> go_heap) option" where
  "InferenceServiceAC_WithLabels E = on_meta (ObjectMetaAC E) (InferenceServiceAC E) (put_entries (ObjectMetaAC E) ''Labels'')"

definition InferenceServiceAC_WithAnnotations :: "ac_types \<Rightarrow> gval \<Rightarrow> gval \<Rightarrow> go_heap \<Rightarrow> (gval \<times> go_heap) option" where
  "InferenceServiceAC_WithAnnotations E = on_meta (ObjectMetaAC E) (InferenceServiceAC E) (put_entries (ObjectMetaAC E) ''Annotations'')"

definition InferenceServiceAC_WithOwnerReferences :: "ac_types \<Rightarrow> gval \<Rightarrow> gval list \<Rightarrow> go_heap \<Rightarrow> (gval \<times> go_heap) option" where
  "InferenceServiceAC_WithOwnerReferences E = on_meta (ObjectMetaAC E) (InferenceServiceAC E) (append_values (ObjectMetaAC E) ''OwnerReferences'')"

definition InferenceServiceAC_WithFinalizers :: "ac_types \<Rightarrow> gval \<Rightarrow> gval list \<Rightarrow> go_heap \<Rightarrow> (gval \<times> go_heap) option" where
  "InferenceServiceAC_WithFinalizers E = on_meta (ObjectMetaAC E) (InferenceServiceAC E) (append_data (ObjectMetaAC E) ''Finalizers'')"

definition InferenceServiceAC_ensureObjectMetaApplyConfigurationExists :: "ac_types \<Rightarrow> gval \<Rightarrow> go_heap \<Rightarrow> go_heap option" where
  "InferenceServiceAC_ensureObjectMetaApplyConfigurationExists E = ensure_meta (ObjectMetaAC E) (InferenceServiceAC E)"

definition InferenceServiceAC_WithSpec :: "ac_types \<Rightarrow> gval \<Rightarrow> gval \<Rightarrow> go_heap \<Rightarrow> (gval \<times> go_heap) option" where
  "InferenceServiceAC_WithSpec E = set_pointer (InferenceServiceAC E) ''Spec''"

definition InferenceServiceAC_WithStatus :: "ac_types \<Rightarrow> gval \<Rightarrow> gval \<Rightarrow> go_heap \<Rightarrow> (gval \<times> go_heap) option" where
  "InferenceServiceAC_WithStatus E = set_pointer (InferenceServiceAC E) ''Status''"

definition InferenceServiceAC_GetKind :: "ac_types \<Rightarrow> gval \<Rightarrow> go_heap \<Rightarrow> (gval \<times> go_heap) option" where
  "InferenceServiceAC_GetKind E = get_field (InferenceServiceAC E) ''Kind''"

definition InferenceServiceAC_GetAPIVersion :: "ac_types \<Rightarrow> gval \<Rightarrow> go_heap \<Rightarrow> (gval \<times> go_heap) option" where
  "InferenceServiceAC_GetAPIVersion E = get_field (InferenceServiceAC E) ''APIVersion''"

definition InferenceServiceAC_GetName :: "ac_types \<Rightarrow> gval \<Rightarrow> go_heap \<Rightarrow> (gval \<times> go_heap) option" where
  "InferenceServiceAC_GetName E = get_meta (ObjectMetaAC E) (InferenceServiceAC E) ''Name''"

definition InferenceServiceAC_GetNamespace :: "ac_types \<Rightarrow> gval \<Rightarrow> go_heap \<Rightarrow> (gval \<times> go_heap) option" where
  "InferenceServiceAC_GetNamespace E = get_meta (ObjectMetaAC E) (InferenceServiceAC E) ''Namespace''"

definition InferenceServiceAC_new :: "ac_types \<Rightarrow> gval \<Rightarrow> gval \<Rightarrow> go_heap \<Rightarrow> (gval \<times> go_heap) option" where
  "InferenceServiceAC_new E name namespace h =
     (let (b, h) = new_config (InferenceServiceAC E) h in
      Option.bind (InferenceServiceAC_WithName E b name h) (\<lambda>(b, h).
      Option.bind (InferenceServiceAC_WithNamespace E b namespace h) (\<lambda>(b, h).
      Option.bind (InferenceServiceAC_WithKind E b (Data ''InferenceService'') h) (\<lambda>(b, h).
      Option.bind (InferenceServiceAC_WithAPIVersion E b (Data ''fusioninfer.io/v1alpha1'') h) (\<lambda>(b, h).
      Some (b, h))))))"

subsection \<open>Configuration types by kind\<close>

text \<open>A group, version and kind. \<open>SchemeGroupVersion\<close> is that of \<open>groupversion_info.go\<close>.\<close>

type_synonym gvk = "string \<times> string \<times> string"

definition SchemeGroupVersion :: "string \<times> string" where
  "SchemeGroupVersion = (''fusioninfer.io'', ''v1alpha1'')"

definition WithKind :: "string \<times> string \<Rightarrow> string \<Rightarrow> gvk" where
  "WithKind gv k = (fst gv, snd gv, k)"

text \<open>The configuration of a kind, as the layout of the new value; nil for any other kind.\<close>

definition ForKind :: "ac_types \<Rightarrow> gvk \<Rightarrow> layout option" where
  "ForKind E kind = map_of
     [(WithKind SchemeGroupVersion ''ClusterModel'', ClusterModelAC E),
      (WithKind SchemeGroupVersion ''ComponentStatus'', ComponentStatusAC E),
      (WithKind SchemeGroupVersion ''InferenceService'', InferenceServiceAC E),
      (WithKind SchemeGroupVersion ''InferenceServiceSpec'', InferenceServiceSpecAC E),
      (WithKind SchemeGroupVersion ''InferenceServiceStatus'', InferenceServiceStatusAC E),
      (WithKind SchemeGroupVersion ''LoRAArtifactSpec'', LoRAArtifactSpecAC E),
      (WithKind SchemeGroupVersion ''Model'', ModelAC E),
      (WithKind SchemeGroupVersion ''ModelReference'', ModelReferenceAC E),
      (WithKind SchemeGroupVersion ''ModelSource'', ModelSourceAC E),
      (WithKind SchemeGroupVersion ''ModelSpec'', ModelSpecAC E),
      (WithKind SchemeGroupVersion ''ModelStatus'', ModelStatusAC E),
      (WithKind SchemeGroupVersion ''Multinode'', MultinodeAC E),
      (WithKind SchemeGroupVersion ''PrefetchSpec'', PrefetchSpecAC E),
      (WithKind SchemeGroupVersion ''PrefetchStatus'', PrefetchStatusAC E),
      (WithKind SchemeGroupVersion ''Role'', RoleAC E),
      (WithKind SchemeGroupVersion ''SchedulingStrategy'', SchedulingStrategyAC E),
      (WithKind SchemeGroupVersion ''SecretReference'', SecretReferenceAC E)] kind"

subsection \<open>All setters\<close>

text \<open>
  The methods that store one value in a field of the receiver: the layout and the field, the type of the
  argument, what its content becomes in the field (\<open>CPtr\<close> where a pointer to the argument is stored), and the
  method. Then those that store one value, a scalar, in the metadata of an object. \<open>with_methods\<close> has all of
  them, with the place they store to. At last the methods that append, and those that put the entries of a map.
\<close>

definition generated_setters :: "ac_types \<Rightarrow> (layout \<times> string \<times> gtype \<times> (tree \<Rightarrow> tree) \<times> ac_method) list" where
  "generated_setters E =
    [(SecretReferenceAC E, ''Name'', TData, CPtr, SecretReferenceAC_WithName E),
     (ModelReferenceAC E, ''Kind'', TData, CPtr, ModelReferenceAC_WithKind E),
     (ModelReferenceAC E, ''Name'', TData, CPtr, ModelReferenceAC_WithName E),
     (SchedulingStrategyAC E, ''SchedulerName'', TData, CPtr, SchedulingStrategyAC_WithSchedulerName E),
     (MultinodeAC E, ''NodeCount'', TData, CPtr, MultinodeAC_WithNodeCount E),
     (PrefetchStatusAC E, ''DesiredNodes'', TData, CPtr, PrefetchStatusAC_WithDesiredNodes E),
     (PrefetchStatusAC E, ''ReadyNodes'', TData, CPtr, PrefetchStatusAC_WithReadyNodes E),
     (PrefetchStatusAC E, ''FailedNodes'', TData, CPtr, PrefetchStatusAC_WithFailedNodes E),
     (LoRAArtifactSpecAC E, ''BaseModelRef'', TPtr (layout_T (ModelReferenceAC E)), id, LoRAArtifactSpecAC_WithBaseModelRef E),
     (PrefetchSpecAC E, ''NodeName'', TData, CPtr, PrefetchSpecAC_WithNodeName E),
     (ModelSourceAC E, ''URI'', TData, CPtr, ModelSourceAC_WithURI E),
     (ModelSourceAC E, ''CredentialsRef'', TPtr (layout_T (SecretReferenceAC E)), id, ModelSourceAC_WithCredentialsRef E),
     (ModelSpecAC E, ''Source'', TPtr (layout_T (ModelSourceAC E)), id, ModelSpecAC_WithSource E),
     (ModelSpecAC E, ''LoRA'', TPtr (layout_T (LoRAArtifactSpecAC E)), id, ModelSpecAC_WithLoRA E),
     (ModelSpecAC E, ''Prefetch'', TPtr (layout_T (PrefetchSpecAC E)), id, ModelSpecAC_WithPrefetch E),
     (ModelStatusAC E, ''ObservedGeneration'', TData, CPtr, ModelStatusAC_WithObservedGeneration E),
     (ModelStatusAC E, ''Prefetch'', TPtr (layout_T (PrefetchStatusAC E)), id, ModelStatusAC_WithPrefetch E),
     (RoleAC E, ''Name'', TData, CPtr, RoleAC_WithName E),
     (RoleAC E, ''ComponentType'', TData, CPtr, RoleAC_WithComponentType E),
     (RoleAC E, ''Strategy'', TData, CPtr, RoleAC_WithStrategy E),
     (RoleAC E, ''HTTPRoute'', ac_RawExtension_T E, CPtr, RoleAC_WithHTTPRoute E),
     (RoleAC E, ''Gateway'', ac_RawExtension_T E, CPtr, RoleAC_WithGateway E),
     (RoleAC E, ''EndpointPickerConfig'', TData, CPtr, RoleAC_WithEndpointPickerConfig E),
     (RoleAC E, ''Replicas'', TData, CPtr, RoleAC_WithReplicas E),
     (RoleAC E, ''Multinode'', TPtr (layout_T (MultinodeAC E)), id, RoleAC_WithMultinode E),
     (RoleAC E, ''Template'', ac_RawExtension_T E, CPtr, RoleAC_WithTemplate E),
     (ComponentStatusAC E, ''DesiredReplicas'', TData, CPtr, ComponentStatusAC_WithDesiredReplicas E),
     (ComponentStatusAC E, ''ReadyReplicas'', TData, CPtr, ComponentStatusAC_WithReadyReplicas E),
     (ComponentStatusAC E, ''NodesPerReplica'', TData, CPtr, ComponentStatusAC_WithNodesPerReplica E),
     (ComponentStatusAC E, ''TotalPods'', TData, CPtr, ComponentStatusAC_WithTotalPods E),
     (ComponentStatusAC E, ''ReadyPods'', TData, CPtr, ComponentStatusAC_WithReadyPods E),
     (ComponentStatusAC E, ''Phase'', TData, CPtr, ComponentStatusAC_WithPhase E),
     (ComponentStatusAC E, ''LastUpdateTime'', TData, CPtr, ComponentStatusAC_WithLastUpdateTime E),
     (InferenceServiceSpecAC E, ''SchedulingStrategy'', TPtr (layout_T (SchedulingStrategyAC E)), id, InferenceServiceSpecAC_WithSchedulingStrategy E),
     (InferenceServiceStatusAC E, ''ObservedGeneration'', TData, CPtr, InferenceServiceStatusAC_WithObservedGeneration E),
     (ModelAC E, ''Kind'', TData, CPtr, ModelAC_WithKind E),
     (ModelAC E, ''APIVersion'', TData, CPtr, ModelAC_WithAPIVersion E),
     (ModelAC E, ''Spec'', TPtr (layout_T (ModelSpecAC E)), id, ModelAC_WithSpec E),
     (ModelAC E, ''Status'', TPtr (layout_T (ModelStatusAC E)), id, ModelAC_WithStatus E),
     (ClusterModelAC E, ''Kind'', TData, CPtr, ClusterModelAC_WithKind E),
     (ClusterModelAC E, ''APIVersion'', TData, CPtr, ClusterModelAC_WithAPIVersion E),
     (ClusterModelAC E, ''Spec'', TPtr (layout_T (ModelSpecAC E)), id, ClusterModelAC_WithSpec E),
     (ClusterModelAC E, ''Status'', TPtr (layout_T (ModelStatusAC E)), id, ClusterModelAC_WithStatus E),
     (InferenceServiceAC E, ''Kind'', TData, CPtr, InferenceServiceAC_WithKind E),
     (InferenceServiceAC E, ''APIVersion'', TData, CPtr, InferenceServiceAC_WithAPIVersion E),
     (InferenceServiceAC E, ''Spec'', TPtr (layout_T (InferenceServiceSpecAC E)), id, InferenceServiceAC_WithSpec E),
     (InferenceServiceAC E, ''Status'', TPtr (layout_T (InferenceServiceStatusAC E)), id, InferenceServiceAC_WithStatus E)]"

definition generated_meta_setters :: "ac_types \<Rightarrow> (layout \<times> string \<times> ac_method) list" where
  "generated_meta_setters E =
    [(ModelAC E, ''Name'', ModelAC_WithName E),
     (ModelAC E, ''GenerateName'', ModelAC_WithGenerateName E),
     (ModelAC E, ''Namespace'', ModelAC_WithNamespace E),
     (ModelAC E, ''UID'', ModelAC_WithUID E),
     (ModelAC E, ''ResourceVersion'', ModelAC_WithResourceVersion E),
     (ModelAC E, ''Generation'', ModelAC_WithGeneration E),
     (ModelAC E, ''CreationTimestamp'', ModelAC_WithCreationTimestamp E),
     (ModelAC E, ''DeletionTimestamp'', ModelAC_WithDeletionTimestamp E),
     (ModelAC E, ''DeletionGracePeriodSeconds'', ModelAC_WithDeletionGracePeriodSeconds E),
     (ClusterModelAC E, ''Name'', ClusterModelAC_WithName E),
     (ClusterModelAC E, ''GenerateName'', ClusterModelAC_WithGenerateName E),
     (ClusterModelAC E, ''Namespace'', ClusterModelAC_WithNamespace E),
     (ClusterModelAC E, ''UID'', ClusterModelAC_WithUID E),
     (ClusterModelAC E, ''ResourceVersion'', ClusterModelAC_WithResourceVersion E),
     (ClusterModelAC E, ''Generation'', ClusterModelAC_WithGeneration E),
     (ClusterModelAC E, ''CreationTimestamp'', ClusterModelAC_WithCreationTimestamp E),
     (ClusterModelAC E, ''DeletionTimestamp'', ClusterModelAC_WithDeletionTimestamp E),
     (ClusterModelAC E, ''DeletionGracePeriodSeconds'', ClusterModelAC_WithDeletionGracePeriodSeconds E),
     (InferenceServiceAC E, ''Name'', InferenceServiceAC_WithName E),
     (InferenceServiceAC E, ''GenerateName'', InferenceServiceAC_WithGenerateName E),
     (InferenceServiceAC E, ''Namespace'', InferenceServiceAC_WithNamespace E),
     (InferenceServiceAC E, ''UID'', InferenceServiceAC_WithUID E),
     (InferenceServiceAC E, ''ResourceVersion'', InferenceServiceAC_WithResourceVersion E),
     (InferenceServiceAC E, ''Generation'', InferenceServiceAC_WithGeneration E),
     (InferenceServiceAC E, ''CreationTimestamp'', InferenceServiceAC_WithCreationTimestamp E),
     (InferenceServiceAC E, ''DeletionTimestamp'', InferenceServiceAC_WithDeletionTimestamp E),
     (InferenceServiceAC E, ''DeletionGracePeriodSeconds'', InferenceServiceAC_WithDeletionGracePeriodSeconds E)]"

datatype place = Own string | InMeta string

definition with_methods :: "ac_types \<Rightarrow> (layout \<times> place \<times> gtype \<times> (tree \<Rightarrow> tree) \<times> ac_method) list" where
  "with_methods E =
     map (\<lambda>(L, f, t, g, m). (L, Own f, t, g, m)) (generated_setters E) @
     map (\<lambda>(L, f, m). (L, InMeta f, TData, CPtr, m)) (generated_meta_setters E)"

definition generated_appenders ::
  "ac_types \<Rightarrow> (layout \<times> string \<times> gtype \<times> (gval \<Rightarrow> gval list \<Rightarrow> go_heap \<Rightarrow> (gval \<times> go_heap) option)) list" where
  "generated_appenders E =
    [(ModelStatusAC E, ''Conditions'', ac_Condition_T E, ModelStatusAC_WithConditions E),
     (InferenceServiceSpecAC E, ''Roles'', layout_T (RoleAC E), InferenceServiceSpecAC_WithRoles E),
     (InferenceServiceStatusAC E, ''Conditions'', ac_Condition_T E, InferenceServiceStatusAC_WithConditions E)]"

definition generated_putters :: "ac_types \<Rightarrow> (layout \<times> string \<times> gtype \<times> ac_method) list" where
  "generated_putters E =
    [(PrefetchSpecAC E, ''NodeSelector'', TData, PrefetchSpecAC_WithNodeSelector E),
     (InferenceServiceStatusAC E, ''Components'', layout_T (ComponentStatusAC E), InferenceServiceStatusAC_WithComponents E)]"

subsection \<open>What the methods do\<close>

lemmas layouts =
  SecretReferenceAC_def ModelReferenceAC_def SchedulingStrategyAC_def MultinodeAC_def
  PrefetchStatusAC_def LoRAArtifactSpecAC_def PrefetchSpecAC_def ModelSourceAC_def ModelSpecAC_def
  ModelStatusAC_def RoleAC_def ComponentStatusAC_def InferenceServiceSpecAC_def
  InferenceServiceStatusAC_def ModelAC_def ClusterModelAC_def InferenceServiceAC_def
  ObjectMetaAC_def

lemmas setter_defs =
  SecretReferenceAC_WithName_def ModelReferenceAC_WithKind_def ModelReferenceAC_WithName_def
  SchedulingStrategyAC_WithSchedulerName_def MultinodeAC_WithNodeCount_def
  PrefetchStatusAC_WithDesiredNodes_def PrefetchStatusAC_WithReadyNodes_def
  PrefetchStatusAC_WithFailedNodes_def LoRAArtifactSpecAC_WithBaseModelRef_def
  PrefetchSpecAC_WithNodeName_def ModelSourceAC_WithURI_def ModelSourceAC_WithCredentialsRef_def
  ModelSpecAC_WithSource_def ModelSpecAC_WithLoRA_def ModelSpecAC_WithPrefetch_def
  ModelStatusAC_WithObservedGeneration_def ModelStatusAC_WithPrefetch_def RoleAC_WithName_def
  RoleAC_WithComponentType_def RoleAC_WithStrategy_def RoleAC_WithHTTPRoute_def
  RoleAC_WithGateway_def RoleAC_WithEndpointPickerConfig_def RoleAC_WithReplicas_def
  RoleAC_WithMultinode_def RoleAC_WithTemplate_def ComponentStatusAC_WithDesiredReplicas_def
  ComponentStatusAC_WithReadyReplicas_def ComponentStatusAC_WithNodesPerReplica_def
  ComponentStatusAC_WithTotalPods_def ComponentStatusAC_WithReadyPods_def
  ComponentStatusAC_WithPhase_def ComponentStatusAC_WithLastUpdateTime_def
  InferenceServiceSpecAC_WithSchedulingStrategy_def
  InferenceServiceStatusAC_WithObservedGeneration_def ModelAC_WithKind_def
  ModelAC_WithAPIVersion_def ModelAC_WithSpec_def ModelAC_WithStatus_def ClusterModelAC_WithKind_def
  ClusterModelAC_WithAPIVersion_def ClusterModelAC_WithSpec_def ClusterModelAC_WithStatus_def
  InferenceServiceAC_WithKind_def InferenceServiceAC_WithAPIVersion_def
  InferenceServiceAC_WithSpec_def InferenceServiceAC_WithStatus_def

lemma all_setters: "list_all (\<lambda>(L, f, t, g, m). sets_field L f t g m) (generated_setters E)"
  unfolding generated_setters_def setter_defs
  by (simp add: id_def set_value_sets set_pointer_sets layouts)


lemmas meta_setter_defs =
  ModelAC_WithName_def ModelAC_WithGenerateName_def ModelAC_WithNamespace_def ModelAC_WithUID_def
  ModelAC_WithResourceVersion_def ModelAC_WithGeneration_def ModelAC_WithCreationTimestamp_def
  ModelAC_WithDeletionTimestamp_def ModelAC_WithDeletionGracePeriodSeconds_def
  ClusterModelAC_WithName_def ClusterModelAC_WithGenerateName_def ClusterModelAC_WithNamespace_def
  ClusterModelAC_WithUID_def ClusterModelAC_WithResourceVersion_def
  ClusterModelAC_WithGeneration_def ClusterModelAC_WithCreationTimestamp_def
  ClusterModelAC_WithDeletionTimestamp_def ClusterModelAC_WithDeletionGracePeriodSeconds_def
  InferenceServiceAC_WithName_def InferenceServiceAC_WithGenerateName_def
  InferenceServiceAC_WithNamespace_def InferenceServiceAC_WithUID_def
  InferenceServiceAC_WithResourceVersion_def InferenceServiceAC_WithGeneration_def
  InferenceServiceAC_WithCreationTimestamp_def InferenceServiceAC_WithDeletionTimestamp_def
  InferenceServiceAC_WithDeletionGracePeriodSeconds_def

lemma reads_nil [simp]: "target h Nil = None"
  by (simp add: target_def cell_at_def)

lemma meta_unset: "list_all (\<lambda>p. \<forall>h. content (snd p) h Nil = Some CNil \<and> reach (snd p) h Nil = {}) (ObjectMetaAC E)"
  by (simp add: ObjectMetaAC_def the_ref_def items_def entries_def cell_at_def)

lemma meta_positions:
  "pos meta_field (ModelAC E) < length (ModelAC E)"
  "snd (ModelAC E ! pos meta_field (ModelAC E)) = TPtr (layout_T (ObjectMetaAC E))"
  "pos meta_field (ClusterModelAC E) < length (ClusterModelAC E)"
  "snd (ClusterModelAC E ! pos meta_field (ClusterModelAC E)) = TPtr (layout_T (ObjectMetaAC E))"
  "pos meta_field (InferenceServiceAC E) < length (InferenceServiceAC E)"
  "snd (InferenceServiceAC E ! pos meta_field (InferenceServiceAC E)) = TPtr (layout_T (ObjectMetaAC E))"
  by (simp_all add: ModelAC_def ClusterModelAC_def InferenceServiceAC_def)

lemma meta_scalar:
  assumes "f \<in> {''Name'', ''GenerateName'', ''Namespace'', ''UID'', ''ResourceVersion'', ''Generation'',
      ''CreationTimestamp'', ''DeletionTimestamp'', ''DeletionGracePeriodSeconds''}"
  shows "sets_field (ObjectMetaAC E) f TData CPtr (set_value (ObjectMetaAC E) f)"
  using assms by (intro set_value_sets) (auto simp: ObjectMetaAC_def)

lemma all_meta_setters:
  "list_all (\<lambda>(L, f, m). sets_meta (ObjectMetaAC E) L f TData CPtr m) (generated_meta_setters E)"
  unfolding generated_meta_setters_def meta_setter_defs
  by (simp add: on_meta_sets [OF meta_scalar _ _ meta_unset] meta_positions)

lemma with_methods_set:
  "(L, Own f, t, g, m) \<in> set (with_methods E) \<Longrightarrow> sets_field L f t g m"
  "(L, InMeta f, t, g, m) \<in> set (with_methods E) \<Longrightarrow> sets_meta (ObjectMetaAC E) L f t g m"
proof -
  assume "(L, Own f, t, g, m) \<in> set (with_methods E)"
  then have m: "(L, f, t, g, m) \<in> set (generated_setters E)" by (auto simp: with_methods_def)
  show "sets_field L f t g m" using bspec [OF all_setters [of E, unfolded list_all_iff] m] by simp
next
  assume "(L, InMeta f, t, g, m) \<in> set (with_methods E)"
  then have m: "(L, f, m) \<in> set (generated_meta_setters E)" "t = TData" "g = CPtr" by (auto simp: with_methods_def)
  show "sets_meta (ObjectMetaAC E) L f t g m"
    using bspec [OF all_meta_setters [of E, unfolded list_all_iff] m(1)] m(2,3) by simp
qed

lemma all_appenders: "list_all (\<lambda>(L, f, t, m). appends_field L f t m) (generated_appenders E)"
  by (simp add: generated_appenders_def append_values_appends layouts ModelStatusAC_WithConditions_def
      InferenceServiceSpecAC_WithRoles_def InferenceServiceStatusAC_WithConditions_def)

lemma all_putters: "list_all (\<lambda>(L, f, t, m). puts_entries L f t m) (generated_putters E)"
  by (simp add: generated_putters_def put_entries_puts layouts PrefetchSpecAC_WithNodeSelector_def
      InferenceServiceStatusAC_WithComponents_def)

subsection \<open>Properties\<close>

text \<open>
  What storing the content \<open>c\<close> at a place makes of the fields \<open>cs\<close> of a configuration, and the cells that are
  written for it. Metadata that are there must be those of the receiver alone.
\<close>

fun stored_at :: "layout \<Rightarrow> layout \<Rightarrow> place \<Rightarrow> tree \<Rightarrow> tree list \<Rightarrow> tree list" where
  "stored_at M L (Own f) c cs = cs[pos f L := c]"
| "stored_at M L (InMeta f) c cs = with_meta M L f c cs"

fun place_cells :: "layout \<Rightarrow> place \<Rightarrow> go_heap \<Rightarrow> gval \<Rightarrow> nat set" where
  "place_cells L (Own f) h b = the_ref b"
| "place_cells L (InMeta f) h b = the_ref b \<union> meta_ref L h b"

fun place_owned :: "layout \<Rightarrow> layout \<Rightarrow> place \<Rightarrow> go_heap \<Rightarrow> gval \<Rightarrow> bool" where
  "place_owned M L (Own f) h b = True"
| "place_owned M L (InMeta f) h b = owns_meta M L h b"

text \<open>
  C33: Each of the 74 generated methods that take one value stores it in its own field, of the configuration
  or of its metadata, which are made with all fields unset if there are none. Nothing else changes: the
  other fields keep their content, and so does every value from which the receiver (and its metadata, for
  a method that writes to them) cannot be reached, the argument included.
\<close>

theorem setters_set_one_field:
  assumes "(L, p, t, g, m) \<in> set (with_methods E)" and "config L h b cs"
    and "place_owned (ObjectMetaAC E) L p h b"
    and "content t h v = Some c" and "place_cells L p h b \<inter> reach t h v = {}"
  shows "\<exists>h'. m b v h = Some (b, h') \<and> config L h' b (stored_at (ObjectMetaAC E) L p (g c) cs) \<and>
    place_owned (ObjectMetaAC E) L p h' b \<and>
    (\<forall>t' w x. content t' h w = Some x \<and> place_cells L p h b \<inter> reach t' h w = {} \<longrightarrow> content t' h' w = Some x)"
proof -
  obtain h' where h': "m b v h = Some (b, h')" "config L h' b (stored_at (ObjectMetaAC E) L p (g c) cs)"
    "place_owned (ObjectMetaAC E) L p h' b" "keeps ({..<nxt h} - place_cells L p h b) h h'"
  proof (cases p)
    case (Own f)
    then have "sets_field L f t g m" using with_methods_set(1) assms(1) by blast
    moreover have "the_ref b \<inter> reach t h v = {}" using assms(5) Own by simp
    ultimately obtain h' where "m b v h = Some (b, h')" "config L h' b (cs[pos f L := g c])"
      "keeps ({..<nxt h} - the_ref b) h h'"
      by (rule sets_fieldD [OF _ assms(2,4)])
    then show thesis using that [of h'] Own by simp
  next
    case (InMeta f)
    then have "sets_meta (ObjectMetaAC E) L f t g m" using with_methods_set(2) assms(1) by blast
    moreover have "owns_meta (ObjectMetaAC E) L h b" "(the_ref b \<union> meta_ref L h b) \<inter> reach t h v = {}"
      using assms(3,5) InMeta by simp_all
    ultimately obtain h' where "m b v h = Some (b, h')" "config L h' b (with_meta (ObjectMetaAC E) L f (g c) cs)"
      "owns_meta (ObjectMetaAC E) L h' b" "keeps ({..<nxt h} - (the_ref b \<union> meta_ref L h b)) h h'"
      using assms(2,4) unfolding sets_meta_def by blast
    then show thesis using that [of h'] InMeta by simp
  qed
  have "content t' h' w = Some x" if "content t' h w = Some x" "place_cells L p h b \<inter> reach t' h w = {}" for t' w x
  proof -
    have "reach t' h w \<subseteq> {..<nxt h} - place_cells L p h b" using that reach_below by blast
    with content_frame [OF that(1) keeps_subset [OF h'(4)]] show ?thesis by blast
  qed
  with h' show ?thesis by blast
qed

definition demo_config_heap :: go_heap where
  "demo_config_heap = \<lparr>hp = [0 \<mapsto> Cell (Struct [Ref 1, Nil, Nil, Nil, Nil, Nil, Nil, Nil, Nil]),
     1 \<mapsto> Cell (Data ''decode'')], nxt = 2\<rparr>"

definition demo_ac_types :: ac_types where
  "demo_ac_types = \<lparr>ac_RawExtension_T = TData, ac_Condition_T = TData, ac_OwnerReference_T = TData\<rparr>"

definition empty_config_heap :: go_heap where
  "empty_config_heap = \<lparr>hp = [0 \<mapsto> Cell (Struct [Nil, Nil, Nil, Nil, Nil])], nxt = 1\<rparr>"

theorem setters_set_one_field_witness:
  "(\<exists>h'. RoleAC_WithReplicas demo_ac_types (Ref 0) (Data ''2'') demo_config_heap = Some (Ref 0, h') \<and>
    config (RoleAC demo_ac_types) h' (Ref 0) [CPtr (CData ''decode''), CNil, CNil, CNil, CNil, CNil, CPtr (CData ''2''), CNil, CNil]) \<and>
   (\<exists>h'. InferenceServiceAC_WithNamespace demo_ac_types (Ref 0) (Data ''prod'') empty_config_heap = Some (Ref 0, h') \<and>
    config (InferenceServiceAC demo_ac_types) h' (Ref 0) [CNil, CNil,
      CPtr (CStruct [CNil, CNil, CPtr (CData ''prod''), CNil, CNil, CNil, CNil, CNil, CNil, CNil, CNil, CNil, CNil]), CNil, CNil])"
proof
  have m: "(RoleAC demo_ac_types, Own ''Replicas'', TData, CPtr, RoleAC_WithReplicas demo_ac_types) \<in> set (with_methods demo_ac_types)"
    by (simp add: with_methods_def generated_setters_def)
  have b: "config (RoleAC demo_ac_types) demo_config_heap (Ref 0)
      [CPtr (CData ''decode''), CNil, CNil, CNil, CNil, CNil, CNil, CNil, CNil]"
    unfolding config_def
    by (simp add: RoleAC_def layout_T_def demo_config_heap_def target_def cell_at_def the_ref_def)
  have "pos ''Replicas'' (RoleAC demo_ac_types) = 6" by (simp add: RoleAC_def)
  then show "\<exists>h'. RoleAC_WithReplicas demo_ac_types (Ref 0) (Data ''2'') demo_config_heap = Some (Ref 0, h') \<and>
    config (RoleAC demo_ac_types) h' (Ref 0) [CPtr (CData ''decode''), CNil, CNil, CNil, CNil, CNil, CPtr (CData ''2''), CNil, CNil]"
    using setters_set_one_field [OF m b, of "Data ''2''" "CData ''2''"] by auto
next
  let ?L = "InferenceServiceAC demo_ac_types"
  have m: "(?L, InMeta ''Namespace'', TData, CPtr, InferenceServiceAC_WithNamespace demo_ac_types) \<in> set (with_methods demo_ac_types)"
    by (simp add: with_methods_def generated_meta_setters_def)
  have at: "target empty_config_heap (Ref 0) = Some (Struct [Nil, Nil, Nil, Nil, Nil])"
    by (simp add: empty_config_heap_def target_def cell_at_def)
  then have b: "config ?L empty_config_heap (Ref 0) [CNil, CNil, CNil, CNil, CNil]"
    unfolding config_def by (simp add: InferenceServiceAC_def layout_T_def target_def cell_at_def the_ref_def)
  have p: "pos meta_field ?L = 2" "pos ''Namespace'' (ObjectMetaAC demo_ac_types) = 2" "length ?L = 5"
    "length (ObjectMetaAC demo_ac_types) = 13"
    by (simp_all add: layouts)
  then have nil: "read_field ?L meta_field (Ref 0) empty_config_heap = Some Nil" by (simp add: read_field_def at)
  have "place_owned (ObjectMetaAC demo_ac_types) ?L (InMeta ''Namespace'') empty_config_heap (Ref 0)"
    using nil by (simp add: owns_meta_def the_ref_def avoids_def)
  moreover have "stored_at (ObjectMetaAC demo_ac_types) ?L (InMeta ''Namespace'') (CPtr (CData ''prod'')) [CNil, CNil, CNil, CNil, CNil] =
      [CNil, CNil, CPtr (CStruct [CNil, CNil, CPtr (CData ''prod''), CNil, CNil, CNil, CNil, CNil, CNil, CNil, CNil, CNil, CNil]), CNil, CNil]"
    by (simp add: with_meta_def meta_content_def p numeral_eq_Suc)
  ultimately show "\<exists>h'. InferenceServiceAC_WithNamespace demo_ac_types (Ref 0) (Data ''prod'') empty_config_heap = Some (Ref 0, h') \<and>
    config ?L h' (Ref 0) [CNil, CNil,
      CPtr (CStruct [CNil, CNil, CPtr (CData ''prod''), CNil, CNil, CNil, CNil, CNil, CNil, CNil, CNil, CNil, CNil]), CNil, CNil]"
    using setters_set_one_field [OF m b, of "Data ''prod''" "CData ''prod''"] by auto
qed

text \<open>A getter returns a pointer to the value.\<close>

definition reads :: "(gval \<times> go_heap) option \<Rightarrow> gval \<Rightarrow> bool" where
  "reads r v = (case r of None \<Rightarrow> False | Some (p, h) \<Rightarrow> target h p = Some v)"

lemmas constructor_defs =
  new_config_def set_value_def on_meta_def ensure_meta_def read_field_def write_field_def
  get_field_def get_meta_def Let_def case_prod_unfold reads_def

lemma positions:
  "pos ''Name'' (ObjectMetaAC E) = 0" "pos ''Namespace'' (ObjectMetaAC E) = Suc (Suc 0)"
  "pos ''Kind'' (InferenceServiceAC E) = 0" "pos ''APIVersion'' (InferenceServiceAC E) = Suc 0"
  "pos ''ObjectMetaApplyConfiguration'' (InferenceServiceAC E) = Suc (Suc 0)"
  "pos ''Kind'' (ModelAC E) = 0" "pos ''APIVersion'' (ModelAC E) = Suc 0"
  "pos ''ObjectMetaApplyConfiguration'' (ModelAC E) = Suc (Suc 0)"
  "pos ''Kind'' (ClusterModelAC E) = 0" "pos ''APIVersion'' (ClusterModelAC E) = Suc 0"
  "pos ''ObjectMetaApplyConfiguration'' (ClusterModelAC E) = Suc (Suc 0)"
  by (simp_all add: layouts)

lemma unset_fields:
  "replicate (length (ObjectMetaAC E)) Nil = [Nil, Nil, Nil, Nil, Nil, Nil, Nil, Nil, Nil, Nil, Nil, Nil, Nil]"
  "replicate (length (InferenceServiceAC E)) Nil = [Nil, Nil, Nil, Nil, Nil]"
  "replicate (length (ModelAC E)) Nil = [Nil, Nil, Nil, Nil, Nil]"
  "replicate (length (ClusterModelAC E)) Nil = [Nil, Nil, Nil, Nil, Nil]"
  by (simp_all add: layouts)

lemma inferenceservice_identifies:
  "\<exists>b h1. InferenceServiceAC_new E n ns h = Some (b, h1) \<and>
      reads (InferenceServiceAC_GetName E b h1) n \<and> reads (InferenceServiceAC_GetNamespace E b h1) ns \<and>
      reads (InferenceServiceAC_GetKind E b h1) (Data ''InferenceService'') \<and>
      reads (InferenceServiceAC_GetAPIVersion E b h1) (Data ''fusioninfer.io/v1alpha1'') \<and>
      ForKind E (WithKind SchemeGroupVersion ''InferenceService'') = Some (InferenceServiceAC E)"
  by (simp add: positions unset_fields constructor_defs ForKind_def WithKind_def SchemeGroupVersion_def
      InferenceServiceAC_new_def InferenceServiceAC_WithName_def InferenceServiceAC_WithNamespace_def
      InferenceServiceAC_WithKind_def InferenceServiceAC_WithAPIVersion_def
      InferenceServiceAC_GetName_def InferenceServiceAC_GetNamespace_def
      InferenceServiceAC_GetKind_def InferenceServiceAC_GetAPIVersion_def)

lemma model_identifies:
  "\<exists>b h1. ModelAC_new E n ns h = Some (b, h1) \<and>
      reads (ModelAC_GetName E b h1) n \<and> reads (ModelAC_GetNamespace E b h1) ns \<and>
      reads (ModelAC_GetKind E b h1) (Data ''Model'') \<and>
      reads (ModelAC_GetAPIVersion E b h1) (Data ''fusioninfer.io/v1alpha1'') \<and>
      ForKind E (WithKind SchemeGroupVersion ''Model'') = Some (ModelAC E)"
  by (simp add: positions unset_fields constructor_defs ForKind_def WithKind_def SchemeGroupVersion_def
      ModelAC_new_def ModelAC_WithName_def ModelAC_WithNamespace_def ModelAC_WithKind_def
      ModelAC_WithAPIVersion_def ModelAC_GetName_def ModelAC_GetNamespace_def ModelAC_GetKind_def
      ModelAC_GetAPIVersion_def)

lemma clustermodel_identifies:
  "\<exists>b h1. ClusterModelAC_new E n h = Some (b, h1) \<and>
      reads (ClusterModelAC_GetName E b h1) n \<and> \<not> (\<exists>x. reads (ClusterModelAC_GetNamespace E b h1) x) \<and>
      reads (ClusterModelAC_GetKind E b h1) (Data ''ClusterModel'') \<and>
      reads (ClusterModelAC_GetAPIVersion E b h1) (Data ''fusioninfer.io/v1alpha1'') \<and>
      ForKind E (WithKind SchemeGroupVersion ''ClusterModel'') = Some (ClusterModelAC E)"
  by (simp add: positions unset_fields constructor_defs ForKind_def WithKind_def SchemeGroupVersion_def
      ClusterModelAC_new_def ClusterModelAC_WithName_def ClusterModelAC_WithKind_def
      ClusterModelAC_WithAPIVersion_def ClusterModelAC_GetName_def ClusterModelAC_GetNamespace_def
      ClusterModelAC_GetKind_def ClusterModelAC_GetAPIVersion_def)

text \<open>
  A constructed object says what it is: the getters of a new configuration return the name, and the
  namespace where there is one, that it was made for, and the kind and version of its type, for which
  \<open>ForKind\<close> returns the same type of configuration.
\<close>

theorem constructed_objects_identify:
  "(\<exists>b h1. InferenceServiceAC_new E n ns h = Some (b, h1) \<and>
      reads (InferenceServiceAC_GetName E b h1) n \<and> reads (InferenceServiceAC_GetNamespace E b h1) ns \<and>
      reads (InferenceServiceAC_GetKind E b h1) (Data ''InferenceService'') \<and>
      reads (InferenceServiceAC_GetAPIVersion E b h1) (Data ''fusioninfer.io/v1alpha1'') \<and>
      ForKind E (WithKind SchemeGroupVersion ''InferenceService'') = Some (InferenceServiceAC E)) \<and>
   (\<exists>b h1. ModelAC_new E n ns h = Some (b, h1) \<and>
      reads (ModelAC_GetName E b h1) n \<and> reads (ModelAC_GetNamespace E b h1) ns \<and>
      reads (ModelAC_GetKind E b h1) (Data ''Model'') \<and>
      reads (ModelAC_GetAPIVersion E b h1) (Data ''fusioninfer.io/v1alpha1'') \<and>
      ForKind E (WithKind SchemeGroupVersion ''Model'') = Some (ModelAC E)) \<and>
   (\<exists>b h1. ClusterModelAC_new E n h = Some (b, h1) \<and>
      reads (ClusterModelAC_GetName E b h1) n \<and> \<not> (\<exists>x. reads (ClusterModelAC_GetNamespace E b h1) x) \<and>
      reads (ClusterModelAC_GetKind E b h1) (Data ''ClusterModel'') \<and>
      reads (ClusterModelAC_GetAPIVersion E b h1) (Data ''fusioninfer.io/v1alpha1'') \<and>
      ForKind E (WithKind SchemeGroupVersion ''ClusterModel'') = Some (ClusterModelAC E))"
  by (intro conjI inferenceservice_identifies model_identifies clustermodel_identifies)

end
