(* ===== verification/FactoryRuns.thy ===== *)
theory FactoryRuns
  imports Informers "HOL-Library.Multiset"
begin

section \<open>Runs of the informer factory\<close>

text \<open>
  The operations of the factory as steps, in any order and any number: an informer is asked for, \<open>Start\<close>
  runs (visiting the informers in any order), \<open>Shutdown\<close> begins, a stop channel is closed, and a goroutine
  whose channel is closed ends. \<open>w_launched\<close> records every informer a goroutine was started for. The invariant
  \<open>sound\<close> is shown by rule induction over the steps; the properties of runs follow from it.
\<close>

subsection \<open>Steps\<close>

record ('o, 't) world =
  w_factory :: "('o, 't) factory"
  w_running :: "(('o, 't) informer \<times> nat) list"
  w_launched :: "('o, 't) informer list"
  w_closed :: "nat set"

inductive exit_step :: "('o, 't) world \<Rightarrow> ('o, 't) world \<Rightarrow> bool" where
  "w_running w = before @ (informer, stopCh) # rest \<Longrightarrow> stopCh \<in> w_closed w \<Longrightarrow>
   exit_step w (w\<lparr>w_factory := wg_Done (w_factory w), w_running := before @ rest\<rparr>)"

inductive factory_step :: "('o, 't) world \<Rightarrow> ('o, 't) world \<Rightarrow> bool" where
  Get: "ForResource resource (w_factory w) = (r, f') \<Longrightarrow> factory_step w (w\<lparr>w_factory := f'\<rparr>)"
| Start: "mset order = mset (sif_informers (w_factory w)) \<Longrightarrow>
    factory_Start stopCh order (w_factory w) = (started, f') \<Longrightarrow>
    factory_step w (w\<lparr>w_factory := f', w_running := w_running w @ started,
      w_launched := w_launched w @ map fst started\<rparr>)"
| Shutdown: "factory_step w (w\<lparr>w_factory := Shutdown_begin (w_factory w)\<rparr>)"
| Close: "factory_step w (w\<lparr>w_closed := insert stopCh (w_closed w)\<rparr>)"
| Exit: "exit_step w w' \<Longrightarrow> factory_step w w'"

abbreviation factory_run :: "('o, 't) world \<Rightarrow> ('o, 't) world \<Rightarrow> bool" where
  "factory_run \<equiv> factory_step\<^sup>*\<^sup>*"

inductive_cases exit_stepE: "exit_step w w'"

text \<open>A factory nothing has been asked of yet.\<close>

definition fresh :: "('o, 't) factory \<Rightarrow> bool" where
  "fresh f \<longleftrightarrow> sif_informers f = [] \<and> sif_startedInformers f = Map.empty \<and> sif_wg f = 0"

definition new_world :: "('o, 't) factory \<Rightarrow> ('o, 't) world" where
  "new_world f = \<lparr>w_factory = f, w_running = [], w_launched = [], w_closed = {}\<rparr>"

lemma fresh_options [simp]:
  "fresh (WithCustomResyncConfig resync f) = fresh f"
  "fresh (WithTweakListOptions tweak f) = fresh f"
  "fresh (WithNamespace ns f) = fresh f"
  "fresh (WithTransform transform f) = fresh f"
  by (simp_all add: fresh_def WithCustomResyncConfig_def WithTweakListOptions_def WithNamespace_def
    WithTransform_def)

lemma fresh_new [simp]:
  "fresh (NewSharedInformerFactory d)" "fresh (NewFilteredSharedInformerFactory d ns tweak)"
  by (simp_all add: NewSharedInformerFactory_def NewFilteredSharedInformerFactory_def
    NewSharedInformerFactoryWithOptions_def) (simp_all add: fresh_def)

subsection \<open>What the operations do\<close>

text \<open>The loop of \<open>Start\<close> starts the informers that are not started yet.\<close>

definition to_start :: "('o, 't) factory \<Rightarrow> (go_type \<times> ('o, 't) informer) list \<Rightarrow> (go_type \<times> ('o, 't) informer) list" where
  "to_start f order = filter (\<lambda>e. sif_startedInformers f (fst e) \<noteq> Some True) order"

lemma start_loop_eq:
  assumes "distinct (map fst order)"
  shows "start_loop stopCh order f =
    (map (\<lambda>e. (snd e, stopCh)) (to_start f order),
     f\<lparr>sif_wg := sif_wg f + int (length (to_start f order)),
       sif_startedInformers := (\<lambda>ty. if ty \<in> fst ` set (to_start f order) then Some True
          else sif_startedInformers f ty)\<rparr>)"
  using assms
proof (induction stopCh order f rule: start_loop.induct)
  case (2 stopCh ty informer rest f)
  show ?case
  proof (cases "sif_startedInformers f ty = Some True")
    case False
    let ?f = "f\<lparr>sif_wg := sif_wg f + 1, sif_startedInformers := (sif_startedInformers f)(ty \<mapsto> True)\<rparr>"
    have rest: "to_start ?f rest = to_start f rest"
      using "2.prems" by (auto simp: to_start_def intro!: filter_cong)
    have here: "to_start f ((ty, informer) # rest) = (ty, informer) # to_start f rest"
      using False by (simp add: to_start_def)
    have "start_loop stopCh rest ?f =
      (map (\<lambda>e. (snd e, stopCh)) (to_start f rest),
       ?f\<lparr>sif_wg := sif_wg ?f + int (length (to_start f rest)),
         sif_startedInformers := (\<lambda>ty. if ty \<in> fst ` set (to_start f rest) then Some True
            else sif_startedInformers ?f ty)\<rparr>)"
      using "2.IH"(1) [OF False refl] "2.prems" rest by simp
    then show ?thesis using False by (simp add: here fun_eq_iff)
  next
    case True
    with 2 show ?thesis by (simp add: to_start_def)
  qed
qed (simp add: to_start_def)

text \<open>Getting an informer returns the stored one, or stores a new one.\<close>

definition resource_type :: "group_version_resource \<Rightarrow> go_type option" where
  "resource_type r =
     (if r = WithResource ''clustermodels'' then Some ''v1alpha1.ClusterModel''
      else if r = WithResource ''inferenceservices'' then Some ''v1alpha1.InferenceService''
      else if r = WithResource ''models'' then Some ''v1alpha1.Model''
      else None)"

text \<open>The informer that a factory creates for a type, and what it may ask of the API server.\<close>

definition scoped :: "string \<Rightarrow> 'o tweak \<Rightarrow> ('o, 't) informer \<Rightarrow> bool" where
  "scoped ns tweak informer \<longleftrightarrow>
     (\<forall>call \<in> {ListFunc, WatchFunc, ListWithContextFunc, WatchFuncWithContext}. \<forall>options.
        let req = call (inf_ListWatch informer) options
        in req_Options req = tweaked tweak options \<and>
           req_Namespace req = (if req_Resource req = ''clustermodels'' then None else Some ns))"

lemma scoped_new:
  "scoped ns tweak (NewFilteredClusterModelInformer ptr d ix tweak)"
  "scoped ns tweak (NewFilteredInferenceServiceInformer ptr ns d ix tweak)"
  "scoped ns tweak (NewFilteredModelInformer ptr ns d ix tweak)"
  by (simp_all add: scoped_def NewFilteredClusterModelInformer_def NewFilteredInferenceServiceInformer_def
    NewFilteredModelInformer_def)

lemma scoped_transform [simp]:
  "scoped ns tweak (informer\<lparr>inf_Transform := t\<rparr>) = scoped ns tweak informer"
  by (simp add: scoped_def)

text \<open>The informers that the accessors create.\<close>

definition creates :: "('o, 't) factory \<Rightarrow> go_type \<Rightarrow> (nat \<Rightarrow> duration \<Rightarrow> ('o, 't) informer) \<Rightarrow> bool" where
  "creates f ty newFunc \<longleftrightarrow> (\<forall>p d. inf_Pointer (newFunc p d) = p \<and> inf_Type (newFunc p d) = ty \<and>
     scoped (sif_namespace f) (sif_tweakListOptions f) (newFunc p d))"

lemmas access_defs = clusterModel_defaultInformer_def inferenceService_defaultInformer_def
  model_defaultInformer_def version_ClusterModels_def version_InferenceServices_def version_Models_def
  group_V1alpha1_def Fusioninfer_def core_New_def v1alpha1_New_def

lemma creates_default:
  "creates f ''v1alpha1.ClusterModel''
    (clusterModel_defaultInformer (version_ClusterModels (group_V1alpha1 (Fusioninfer f))))"
  "creates f ''v1alpha1.InferenceService''
    (inferenceService_defaultInformer (version_InferenceServices (group_V1alpha1 (Fusioninfer f))))"
  "creates f ''v1alpha1.Model''
    (model_defaultInformer (version_Models (group_V1alpha1 (Fusioninfer f))))"
  by (simp_all add: creates_def access_defs scoped_new)
    (simp_all add: NewFilteredClusterModelInformer_def NewFilteredInferenceServiceInformer_def
      NewFilteredModelInformer_def)

lemma WithResource_inject [simp]: "WithResource a = WithResource b \<longleftrightarrow> a = b"
  by (simp add: WithResource_def)

lemma ForResource_InformerFor:
  assumes "ForResource resource f = (Inr (i, g, n), f')"
  shows "\<exists>ty newFunc. resource_type resource = Some ty \<and> creates f ty newFunc \<and>
    InformerFor ty newFunc f = (i, f')"
  using assms creates_default [of f]
  by (auto simp: ForResource_def resource_type_def Let_def clusterModel_Informer_def
    inferenceService_Informer_def model_Informer_def split: if_splits prod.splits)

text \<open>Asking for a resource gives the stored informer, or stores a new one.\<close>

lemma ForResource_cases:
  assumes "ForResource resource f = (Inr (i, g, n), f')"
  obtains (stored) ty where "resource_type resource = Some ty" "map_of (sif_informers f) ty = Some i" "f' = f"
  | (created) ty where "resource_type resource = Some ty" "map_of (sif_informers f) ty = None"
      "inf_Pointer i = sif_next f" "inf_Type i = ty" "inf_Transform i = sif_transform f"
      "scoped (sif_namespace f) (sif_tweakListOptions f) i"
      "f' = f\<lparr>sif_informers := (ty, i) # sif_informers f, sif_next := sif_next f + 1\<rparr>"
proof -
  obtain ty newFunc where ty: "resource_type resource = Some ty" and new: "creates f ty newFunc"
    and run: "InformerFor ty newFunc f = (i, f')"
    using ForResource_InformerFor [OF assms] by blast
  show thesis
  proof (cases "map_of (sif_informers f) ty")
    case None
    let ?d = "case sif_customResync f ty of None \<Rightarrow> sif_defaultResync f | Some d \<Rightarrow> d"
    have split: "(newFunc (sif_next f) ?d)\<lparr>inf_Transform := sif_transform f\<rparr> = i \<and>
      f\<lparr>sif_informers := (ty, (newFunc (sif_next f) ?d)\<lparr>inf_Transform := sif_transform f\<rparr>) # sif_informers f,
        sif_next := sif_next f + 1\<rparr> = f'"
      using run unfolding InformerFor_def None Let_def option.case prod.inject .
    note i = split [THEN conjunct1, symmetric] and f' = split [THEN conjunct2, symmetric, folded i]
    from new have "inf_Pointer i = sif_next f" "inf_Type i = ty" "inf_Transform i = sif_transform f"
      "scoped (sif_namespace f) (sif_tweakListOptions f) i"
      unfolding i creates_def by simp_all
    then show thesis using created ty None f' by blast
  next
    case (Some informer)
    then have "i = informer" "f' = f" using run by (simp_all add: InformerFor_def)
    then show thesis using stored [OF ty] Some by blast
  qed
qed

lemma ForResource_unknown: "ForResource resource f = (Inl r, f') \<Longrightarrow> f' = f"
  by (auto simp: ForResource_def Let_def split: if_splits prod.splits)

subsection \<open>The invariant\<close>

text \<open>
  \<open>launched\<close> says which informers \<open>Start\<close> has run: those whose type is marked as started, each once; the
  wait group counts the goroutines that still run; and every informer is confined to the namespace and the
  filter of the factory.
\<close>

definition sound :: "('o, 't) world \<Rightarrow> bool" where
  "sound w \<longleftrightarrow>
     (let f = w_factory w
      in distinct (map fst (sif_informers f)) \<and>
         distinct (map (inf_Pointer \<circ> snd) (sif_informers f)) \<and>
         (\<forall>e \<in> set (sif_informers f). inf_Pointer (snd e) < sif_next f \<and> inf_Type (snd e) = fst e \<and>
            scoped (sif_namespace f) (sif_tweakListOptions f) (snd e)) \<and>
         (\<forall>ty. sif_startedInformers f ty = Some True \<longrightarrow> ty \<in> fst ` set (sif_informers f)) \<and>
         set (w_launched w) =
           {i. (inf_Type i, i) \<in> set (sif_informers f) \<and> sif_startedInformers f (inf_Type i) = Some True} \<and>
         distinct (map inf_Pointer (w_launched w)) \<and>
         mset (map fst (w_running w)) \<subseteq># mset (w_launched w) \<and>
         sif_wg f = int (length (w_running w)))"

lemma sound_new: "fresh f \<Longrightarrow> sound (new_world f)"
  by (simp add: sound_def new_world_def fresh_def)

lemma entry_unique: "distinct (map fst xs) \<Longrightarrow> (k, a) \<in> set xs \<Longrightarrow> (k, b) \<in> set xs \<Longrightarrow> a = b"
  by (metis map_of_is_SomeI option.inject)

lemma sound_get:
  assumes "sound w" and "ForResource resource (w_factory w) = (r, f')"
  shows "sound (w\<lparr>w_factory := f'\<rparr>)"
proof (cases r)
  case (Inl a)
  then show ?thesis using assms ForResource_unknown [of resource "w_factory w"] by (simp add: sound_def)
next
  case (Inr b)
  then obtain i g n where "ForResource resource (w_factory w) = (Inr (i, g, n), f')"
    using assms(2) by (cases b) auto
  then show ?thesis
  proof (cases rule: ForResource_cases)
    case (stored ty)
    then show ?thesis using assms(1) by (simp add: sound_def)
  next
    case (created ty)
    have new: "ty \<notin> fst ` set (sif_informers (w_factory w))"
      using created(2) by (simp add: map_of_eq_None_iff)
    have not_started: "sif_startedInformers (w_factory w) ty \<noteq> Some True"
      using assms(1) new by (auto simp: sound_def Let_def)
    have ptr: "sif_next (w_factory w) \<notin> (inf_Pointer \<circ> snd) ` set (sif_informers (w_factory w))"
      using assms(1) by (auto simp: sound_def Let_def)
    show ?thesis
      using assms(1) created new not_started ptr
      by (auto simp: sound_def Let_def less_Suc_eq)
  qed
qed

text \<open>What \<open>Start\<close> starts: the entries not marked yet. The marks then say what has been launched, and nothing twice.\<close>

lemma to_start_iff:
  assumes "set order = set (sif_informers f)"
  shows "e \<in> set (to_start f order) \<longleftrightarrow> e \<in> set (sif_informers f) \<and> sif_startedInformers f (fst e) \<noteq> Some True"
  using assms by (auto simp: to_start_def)

lemma start_history:
  assumes "sound w" and sets: "set order = set (sif_informers (w_factory w))"
  defines "new \<equiv> to_start (w_factory w) order"
  shows "set (w_launched w @ map snd new) =
    {i. (inf_Type i, i) \<in> set (sif_informers (w_factory w)) \<and>
      (if inf_Type i \<in> fst ` set new then Some True else sif_startedInformers (w_factory w) (inf_Type i)) = Some True}"
proof -
  let ?f = "w_factory w"
  note new = to_start_iff [OF sets, folded new_def]
  have typed: "inf_Type (snd e) = fst e" if "e \<in> set (sif_informers ?f)" for e
    using assms(1) that by (simp add: sound_def Let_def)
  have old: "set (w_launched w) = {i. (inf_Type i, i) \<in> set (sif_informers ?f) \<and>
      sif_startedInformers ?f (inf_Type i) = Some True}"
    using assms(1) by (simp add: sound_def Let_def)
  have fresh: "i \<in> snd ` set new \<longleftrightarrow> (inf_Type i, i) \<in> set (sif_informers ?f) \<and>
      sif_startedInformers ?f (inf_Type i) \<noteq> Some True" for i
  proof
    assume "i \<in> snd ` set new"
    then obtain e where "e \<in> set new" "i = snd e" by blast
    then show "(inf_Type i, i) \<in> set (sif_informers ?f) \<and> sif_startedInformers ?f (inf_Type i) \<noteq> Some True"
      using new [of e] typed [of e] by simp
  next
    assume "(inf_Type i, i) \<in> set (sif_informers ?f) \<and> sif_startedInformers ?f (inf_Type i) \<noteq> Some True"
    then have "(inf_Type i, i) \<in> set new" using new [of "(inf_Type i, i)"] by simp
    then show "i \<in> snd ` set new" by force
  qed
  have keys: "inf_Type i \<in> fst ` set new \<longleftrightarrow> sif_startedInformers ?f (inf_Type i) \<noteq> Some True"
    if "(inf_Type i, i) \<in> set (sif_informers ?f)" for i
  proof
    assume "inf_Type i \<in> fst ` set new"
    then show "sif_startedInformers ?f (inf_Type i) \<noteq> Some True" using new by auto
  next
    assume "sif_startedInformers ?f (inf_Type i) \<noteq> Some True"
    then have "(inf_Type i, i) \<in> set new" using new that by simp
    then show "inf_Type i \<in> fst ` set new" by force
  qed
  show ?thesis
    unfolding set_append set_map old using fresh keys by (intro set_eqI) (simp, blast)
qed

lemma start_once:
  assumes "sound w" and sets: "set order = set (sif_informers (w_factory w))"
    and ptrs: "distinct (map (inf_Pointer \<circ> snd) order)"
  shows "distinct (map inf_Pointer (w_launched w @ map snd (to_start (w_factory w) order)))"
proof -
  let ?f = "w_factory w" and ?new = "to_start (w_factory w) order"
  have inj: "inj_on (inf_Pointer \<circ> snd) (set (sif_informers ?f))"
    using assms(1) by (simp add: sound_def Let_def distinct_map)
  have "inf_Pointer i \<noteq> inf_Pointer (snd e)" if "i \<in> set (w_launched w)" "e \<in> set ?new" for i e
  proof
    assume same: "inf_Pointer i = inf_Pointer (snd e)"
    have i: "(inf_Type i, i) \<in> set (sif_informers ?f)" "sif_startedInformers ?f (inf_Type i) = Some True"
      using assms(1) that(1) by (simp_all add: sound_def Let_def)
    have "(inf_Type i, i) = e"
      using inj_onD [OF inj, of "(inf_Type i, i)" e] same i(1) to_start_iff [OF sets, of e] that(2) by simp
    then show False using to_start_iff [OF sets, of e] that(2) i(2) by auto
  qed
  moreover have "distinct (map (inf_Pointer \<circ> snd) ?new)"
    using ptrs unfolding to_start_def by (rule distinct_map_filter)
  moreover have "distinct (map inf_Pointer (w_launched w))"
    using assms(1) by (simp add: sound_def Let_def)
  ultimately show ?thesis by (auto simp: comp_def)
qed

lemma sound_start:
  assumes "sound w" and "mset order = mset (sif_informers (w_factory w))"
    and "factory_Start stopCh order (w_factory w) = (started, f')"
  shows "sound (w\<lparr>w_factory := f', w_running := w_running w @ started,
    w_launched := w_launched w @ map fst started\<rparr>)"
proof (cases "sif_shuttingDown (w_factory w)")
  case True
  then show ?thesis using assms(1,3) by (simp add: factory_Start_def sound_def Let_def)
next
  case False
  let ?f = "w_factory w" and ?new = "to_start (w_factory w) order"
  have dist: "distinct (map fst order)"
    using assms(1,2) by (metis (no_types, lifting) mset_eq_imp_distinct_iff mset_map sound_def)
  have ptrs: "distinct (map (inf_Pointer \<circ> snd) order)"
    using assms(1,2) by (metis (no_types, lifting) mset_eq_imp_distinct_iff mset_map sound_def)
  have sets: "set order = set (sif_informers ?f)" using assms(2) by (rule mset_eq_setD)
  have run: "started = map (\<lambda>e. (snd e, stopCh)) ?new"
    "f' = ?f\<lparr>sif_wg := sif_wg ?f + int (length ?new),
       sif_startedInformers := (\<lambda>ty. if ty \<in> fst ` set ?new then Some True else sif_startedInformers ?f ty)\<rparr>"
    using assms(3) False by (simp_all add: factory_Start_def start_loop_eq [OF dist])
  have launched: "map fst started = map snd ?new" by (simp add: run)
  have "mset (map fst (w_running w @ started)) \<subseteq># mset (w_launched w @ map fst started)"
    using assms(1) by (simp add: sound_def Let_def)
  moreover have "sif_startedInformers f' ty = Some True \<Longrightarrow> ty \<in> fst ` set (sif_informers ?f)" for ty
    using assms(1) to_start_iff [OF sets] by (auto simp: run(2) sound_def Let_def split: if_splits)
  ultimately show ?thesis
    using assms(1) start_history [OF assms(1) sets] start_once [OF assms(1) sets ptrs]
    by (simp add: sound_def Let_def run launched comp_def)
qed

lemma sound_exit:
  assumes "sound w" and "exit_step w w'"
  shows "sound w'"
  using assms(2)
proof (cases rule: exit_step.cases)
  case (1 before informer stopCh rest)
  have "mset (map fst (before @ rest)) \<subseteq># mset (map fst (w_running w))"
    by (simp add: 1(2) subset_mset.add_increasing)
  moreover have "mset (map fst (w_running w)) \<subseteq># mset (w_launched w)"
    using assms(1) by (simp add: sound_def Let_def)
  ultimately have "mset (map fst (before @ rest)) \<subseteq># mset (w_launched w)"
    by (rule subset_mset.order_trans)
  then show ?thesis
    using assms(1) by (simp add: 1 sound_def Let_def wg_Done_def)
qed

lemma sound_step: "factory_step w w' \<Longrightarrow> sound w \<Longrightarrow> sound w'"
proof (induction rule: factory_step.induct)
  case (Shutdown w)
  then show ?case by (simp add: sound_def Shutdown_begin_def Let_def)
next
  case (Close w stopCh)
  then show ?case by (simp add: sound_def)
qed (blast intro: sound_get sound_start sound_exit)+

lemma sound_run: "factory_run w w' \<Longrightarrow> sound w \<Longrightarrow> sound w'"
  by (induction rule: rtranclp_induct) (auto intro: sound_step)

lemma sound_reachable: "fresh f \<Longrightarrow> factory_run (new_world f) w \<Longrightarrow> sound w"
  using sound_run sound_new by blast

subsection \<open>What no step changes\<close>

lemma ForResource_config:
  assumes "ForResource resource f = (r, f')"
  shows "sif_namespace f' = sif_namespace f" "sif_tweakListOptions f' = sif_tweakListOptions f"
    "sif_shuttingDown f' = sif_shuttingDown f"
    "map_of (sif_informers f) \<subseteq>\<^sub>m map_of (sif_informers f')"
proof -
  show "sif_namespace f' = sif_namespace f" "sif_tweakListOptions f' = sif_tweakListOptions f"
    "sif_shuttingDown f' = sif_shuttingDown f"
    "map_of (sif_informers f) \<subseteq>\<^sub>m map_of (sif_informers f')"
    using assms
    by (cases r; auto simp: ForResource_def clusterModel_Informer_def inferenceService_Informer_def
      model_Informer_def InformerFor_def Let_def map_le_def split: if_splits prod.splits option.splits)+
qed

lemma start_loop_config:
  assumes "start_loop stopCh order f = (started, f')"
  shows "sif_namespace f' = sif_namespace f \<and> sif_tweakListOptions f' = sif_tweakListOptions f \<and>
    sif_shuttingDown f' = sif_shuttingDown f \<and> sif_informers f' = sif_informers f"
  using assms
proof (induction stopCh order f arbitrary: started f' rule: start_loop.induct)
  case (2 stopCh ty informer rest f)
  show ?case
  proof (cases "sif_startedInformers f ty = Some True")
    case True
    then show ?thesis using "2.IH"(2) [of started f'] "2.prems" by simp
  next
    case False
    then show ?thesis
      using "2.IH"(1) [OF False refl, of _ f'] "2.prems" by (simp add: Let_def split: prod.splits)
  qed
qed simp

lemma factory_Start_config:
  assumes "factory_Start stopCh order f = (started, f')"
  shows "sif_namespace f' = sif_namespace f \<and> sif_tweakListOptions f' = sif_tweakListOptions f \<and>
    sif_shuttingDown f' = sif_shuttingDown f \<and> sif_informers f' = sif_informers f"
  using assms start_loop_config [of stopCh order f started f']
  by (simp add: factory_Start_def split: if_splits)

definition evolves :: "('o, 't) world \<Rightarrow> ('o, 't) world \<Rightarrow> bool" where
  "evolves w w' \<longleftrightarrow>
     sif_namespace (w_factory w') = sif_namespace (w_factory w) \<and>
     sif_tweakListOptions (w_factory w') = sif_tweakListOptions (w_factory w) \<and>
     map_of (sif_informers (w_factory w)) \<subseteq>\<^sub>m map_of (sif_informers (w_factory w')) \<and>
     (sif_shuttingDown (w_factory w) \<longrightarrow> sif_shuttingDown (w_factory w') \<and> w_launched w' = w_launched w)"

lemma evolves_step: "factory_step w w' \<Longrightarrow> evolves w w'"
proof (induction rule: factory_step.induct)
  case (Get resource w r f')
  then show ?case using ForResource_config [of resource "w_factory w" r f'] by (simp add: evolves_def)
next
  case (Start order w stopCh started f')
  then show ?case
    using factory_Start_config [of stopCh order "w_factory w" started f']
    by (auto simp: evolves_def factory_Start_def)
next
  case (Exit w w')
  then show ?case by (auto simp: evolves_def wg_Done_def elim!: exit_stepE)
qed (simp_all add: evolves_def Shutdown_begin_def)

lemma evolves_run: "factory_run w w' \<Longrightarrow> evolves w w'"
proof (induction rule: rtranclp_induct)
  case base
  then show ?case by (simp add: evolves_def)
next
  case (step v w')
  from step.IH evolves_step [OF step.hyps(2)] show ?case
    by (auto simp: evolves_def dest: map_le_trans)
qed

subsection \<open>Goroutines ending\<close>

lemma exit_step_fewer: "exit_step w w' \<Longrightarrow> length (w_running w) = Suc (length (w_running w'))"
  by (auto elim!: exit_stepE)

lemma exits_closed:
  "(exit_step ^^ n) w w' \<Longrightarrow> \<forall>e \<in> set (w_running w). snd e \<in> w_closed w \<Longrightarrow>
    (\<forall>e \<in> set (w_running w'). snd e \<in> w_closed w') \<and> length (w_running w) = n + length (w_running w')"
proof (induction n arbitrary: w')
  case (Suc n)
  from Suc.prems(1) obtain v where v: "(exit_step ^^ n) w v" and last: "exit_step v w'"
    by (auto elim!: relcomppE)
  from Suc.IH [OF v Suc.prems(2)] exit_step_fewer [OF last] last show ?case
    by (elim exit_stepE) (simp add: ball_Un)
qed simp

lemma exit_possible:
  assumes "\<forall>e \<in> set (w_running w). snd e \<in> w_closed w" and "w_running w \<noteq> []"
  shows "\<exists>w'. exit_step w w'"
proof -
  obtain i s rest where running: "w_running w = [] @ (i, s) # rest"
    using assms(2) by (cases "w_running w") auto
  then have "s \<in> w_closed w" using assms(1) by force
  from exit_step.intros [OF running this] show ?thesis by blast
qed

lemma ForResource_stored:
  assumes "resource_type resource = Some ty" and "map_of (sif_informers f) ty = Some i"
  shows "ForResource resource f = (Inr (i, gvr_Group resource, gvr_Resource resource), f)"
  using assms
  by (auto simp: ForResource_def resource_type_def clusterModel_Informer_def inferenceService_Informer_def
    model_Informer_def InformerFor_def split: if_splits)

lemma ForResource_names:
  "ForResource resource f = (Inr (i, g, n), f') \<Longrightarrow> g = gvr_Group resource \<and> n = gvr_Resource resource"
  by (auto simp: ForResource_def Let_def split: if_splits prod.splits)

subsection \<open>A run\<close>

text \<open>A Model informer is asked for and started, the factory shuts down, and the channel is closed.\<close>

definition demo_factory :: "(nat, unit) factory" where
  "demo_factory = NewFilteredSharedInformerFactory 0 ''team-a'' (Some Suc)"

definition demo_informer :: "(nat, unit) informer" where
  "demo_informer = NewFilteredModelInformer 0 ''team-a'' 0 [NamespaceIndex] (Some Suc)"

definition demo_stopped :: "(nat, unit) world" where
  "demo_stopped =
     \<lparr>w_factory = demo_factory\<lparr>sif_informers := [(''v1alpha1.Model'', demo_informer)], sif_next := 1,
        sif_wg := 1, sif_startedInformers := [''v1alpha1.Model'' \<mapsto> True], sif_shuttingDown := True\<rparr>,
      w_running = [(demo_informer, 7)], w_launched = [demo_informer], w_closed = {7}\<rparr>"

lemma demo_get:
  "ForResource (WithResource ''models'') demo_factory =
    (Inr (demo_informer, ''fusioninfer.io'', ''models''),
     demo_factory\<lparr>sif_informers := [(''v1alpha1.Model'', demo_informer)], sif_next := 1\<rparr>)"
  by (simp add: ForResource_def model_Informer_def InformerFor_def access_defs demo_factory_def
    demo_informer_def NewFilteredSharedInformerFactory_def NewSharedInformerFactoryWithOptions_def
    WithNamespace_def WithTweakListOptions_def NewFilteredModelInformer_def Let_def)
    (simp add: WithResource_def)

lemma demo_fresh: "fresh demo_factory"
  by (simp add: demo_factory_def)

lemma demo_run: "factory_run (new_world demo_factory) demo_stopped"
proof -
  let ?f = "demo_factory\<lparr>sif_informers := [(''v1alpha1.Model'', demo_informer)], sif_next := 1\<rparr>"
  let ?g = "?f\<lparr>sif_wg := 1, sif_startedInformers := [''v1alpha1.Model'' \<mapsto> True]\<rparr>"
  let ?w = "\<lambda>f running launched closed.
    \<lparr>w_factory = f, w_running = running, w_launched = launched, w_closed = closed\<rparr>"
  have config: "\<not> sif_shuttingDown demo_factory" "sif_startedInformers demo_factory = Map.empty"
    "sif_wg demo_factory = 0"
    by (simp_all add: demo_factory_def NewFilteredSharedInformerFactory_def
      NewSharedInformerFactoryWithOptions_def WithNamespace_def WithTweakListOptions_def)
  have "factory_step (new_world demo_factory) (?w ?f [] [] {})"
    using factory_step.Get [of "WithResource ''models''" "new_world demo_factory"] demo_get
    by (simp add: new_world_def)
  moreover have "factory_step (?w ?f [] [] {}) (?w ?g [(demo_informer, 7)] [demo_informer] {})"
    using factory_step.Start [of "[(''v1alpha1.Model'', demo_informer)]" "?w ?f [] [] {}" 7
      "[(demo_informer, 7)]" ?g]
    by (simp add: factory_Start_def config)
  moreover have "factory_step (?w ?g [(demo_informer, 7)] [demo_informer] {})
      (?w (Shutdown_begin ?g) [(demo_informer, 7)] [demo_informer] {})"
    using factory_step.Shutdown [of "?w ?g [(demo_informer, 7)] [demo_informer] {}"] by simp
  moreover have "factory_step (?w (Shutdown_begin ?g) [(demo_informer, 7)] [demo_informer] {}) demo_stopped"
    using factory_step.Close [of "?w (Shutdown_begin ?g) [(demo_informer, 7)] [demo_informer] {}" 7]
    by (simp add: demo_stopped_def Shutdown_begin_def)
  ultimately show ?thesis by (meson converse_rtranclp_into_rtranclp rtranclp.rtrancl_refl)
qed

subsection \<open>Properties\<close>

text \<open>
  However often and in whatever order informers are asked for and \<open>Start\<close> is called, every informer is
  run at most once, and the wait group counts exactly the goroutines that still run.
\<close>

theorem informer_runs_once:
  assumes "fresh f" and "factory_run (new_world f) w"
  shows "distinct (map inf_Pointer (w_launched w)) \<and>
    mset (map fst (w_running w)) \<subseteq># mset (w_launched w) \<and>
    sif_wg (w_factory w) = int (length (w_running w))"
  using sound_reachable [OF assms] by (simp add: sound_def Let_def)

theorem informer_runs_once_witness:
  "sif_wg (w_factory demo_stopped) = 1 \<and> distinct (map inf_Pointer (w_launched demo_stopped))"
  using informer_runs_once [OF demo_fresh demo_run] by (simp add: demo_stopped_def)

text \<open>
  Once \<open>Shutdown\<close> has been called, no informer is started any more, whatever is called afterwards.
\<close>

theorem nothing_starts_after_shutdown:
  assumes "sif_shuttingDown (w_factory w)" and "factory_run w w'"
  shows "sif_shuttingDown (w_factory w') \<and> w_launched w' = w_launched w"
  using evolves_run [OF assms(2)] assms(1) by (simp add: evolves_def)

theorem nothing_starts_after_shutdown_witness:
  "w_launched (demo_stopped\<lparr>w_closed := {3, 7}\<rparr>) = [demo_informer]"
proof -
  have "factory_run demo_stopped (demo_stopped\<lparr>w_closed := {3, 7}\<rparr>)"
    using factory_step.Close [of demo_stopped 3] by (simp add: demo_stopped_def)
  moreover have "sif_shuttingDown (w_factory demo_stopped)" by (simp add: demo_stopped_def)
  ultimately show ?thesis
    using nothing_starts_after_shutdown by (metis demo_stopped_def world.select_convs(3))
qed

text \<open>
  C35: \<open>Shutdown\<close> returns once the stop channels of the running informers are closed: as long as it may not
  return some goroutine can end, and after as many ends as goroutines were running it may return.
\<close>

theorem shutdown_returns:
  assumes "fresh f" and "factory_run (new_world f) w"
    and "\<forall>e \<in> set (w_running w). snd e \<in> w_closed w" and "(exit_step ^^ n) w w'"
  shows "(if n = length (w_running w) then Shutdown_may_return (w_factory w')
          else n < length (w_running w) \<and> (\<exists>w''. exit_step w' w''))"
proof -
  have run: "factory_run w w'"
    using assms(4) factory_step.Exit by (metis mono_rtranclp relpowp_imp_rtranclp)
  then have "sound w'" using sound_reachable [OF assms(1,2)] sound_run by blast
  then have wg: "sif_wg (w_factory w') = int (length (w_running w'))" by (simp add: sound_def Let_def)
  note closed = exits_closed [OF assms(4,3)]
  show ?thesis
  proof (cases "w_running w' = []")
    case True
    then show ?thesis using closed wg by (simp add: Shutdown_may_return_def)
  next
    case False
    then show ?thesis using closed exit_possible [of w'] by simp
  qed
qed

theorem shutdown_returns_witness: "\<exists>w'. exit_step demo_stopped w'"
proof -
  have "\<forall>e \<in> set (w_running demo_stopped). snd e \<in> w_closed demo_stopped"
    by (simp add: demo_stopped_def)
  from shutdown_returns [OF demo_fresh demo_run this, of 0 demo_stopped] show ?thesis
    by (simp add: demo_stopped_def)
qed

text \<open>
  All users of a factory share one informer per resource: an informer once obtained is what every later
  request for the resource returns, without another one being created; and everything it lists or watches
  is confined to the namespace of the factory and passed through its filter.
\<close>

theorem informer_is_shared:
  assumes "fresh f" and "factory_run (new_world f) w"
    and "ForResource resource (w_factory w) = (Inr (i, g, n), f')"
    and "factory_run (w\<lparr>w_factory := f'\<rparr>) w'"
  shows "ForResource resource (w_factory w') = (Inr (i, g, n), w_factory w') \<and>
    scoped (sif_namespace f) (sif_tweakListOptions f) i"
proof -
  obtain ty where ty: "resource_type resource = Some ty" and stored: "map_of (sif_informers f') ty = Some i"
    using assms(3) by (cases rule: ForResource_cases) auto
  have "map_of (sif_informers (w_factory w')) ty = Some i"
    using evolves_run [OF assms(4)] stored by (auto simp: evolves_def map_le_def dom_def)
  then have shared: "ForResource resource (w_factory w') = (Inr (i, g, n), w_factory w')"
    using ForResource_stored [OF ty] ForResource_names [OF assms(3)] by simp
  have same: "sif_namespace f' = sif_namespace f" "sif_tweakListOptions f' = sif_tweakListOptions f"
    using evolves_run [OF assms(2)] ForResource_config [OF assms(3)]
    by (simp_all add: evolves_def new_world_def)
  have "sound (w\<lparr>w_factory := f'\<rparr>)" using sound_get sound_reachable [OF assms(1,2)] assms(3) by blast
  then have "\<forall>e \<in> set (sif_informers f'). scoped (sif_namespace f) (sif_tweakListOptions f) (snd e)"
    by (simp add: sound_def Let_def same)
  with map_of_SomeD [OF stored] shared show ?thesis by auto
qed

theorem informer_is_shared_witness:
  "scoped ''team-a'' (Some Suc) demo_informer"
proof -
  have "ForResource (WithResource ''models'') (w_factory (new_world demo_factory)) =
    (Inr (demo_informer, ''fusioninfer.io'', ''models''),
     demo_factory\<lparr>sif_informers := [(''v1alpha1.Model'', demo_informer)], sif_next := 1\<rparr>)"
    using demo_get by (simp add: new_world_def)
  from informer_is_shared [OF demo_fresh rtranclp.rtrancl_refl this rtranclp.rtrancl_refl] show ?thesis
    by (simp add: demo_factory_def NewFilteredSharedInformerFactory_def
      NewSharedInformerFactoryWithOptions_def WithNamespace_def WithTweakListOptions_def)
qed

end
