(* ===== verification/Registration.thy ===== *)
theory Registration
  imports Clients ApplyConfigs FactoryRuns
begin

section \<open>The types a scheme knows\<close>

text \<open>
  A scheme tells which Go type stands for a kind of an API group. The package \<open>api/core/v1alpha1\<close> collects its
  types in \<open>SchemeBuilder\<close> when it is initialised; \<open>client-go/clientset/versioned/scheme\<close> and the fake clientset
  each make a scheme of their own and add them. The builder of controller-runtime and the scheme of apimachinery are
  the parameter \<open>P\<close>; the locale \<open>schemes\<close> states what the code relies on, and is interpreted on schemes that are
  maps. A Go type of the package is named by its kind.
\<close>

type_synonym group_version = "string \<times> string"

record ('b, 's) scheme_pkg =
  sp_Builder :: "group_version \<Rightarrow> 'b"
  sp_Register :: "go_type list \<Rightarrow> 'b \<Rightarrow> 'b"
  sp_AddToScheme :: "'b \<Rightarrow> 's \<Rightarrow> string + 's"
  sp_NewScheme :: 's
  sp_AddToGroupVersion :: "group_version \<Rightarrow> 's \<Rightarrow> 's"
  sp_AddAll :: "('s \<Rightarrow> string + 's) list \<Rightarrow> 's \<Rightarrow> string + 's"

subsection \<open>The package v1alpha1\<close>

definition SchemeBuilder :: "('b, 's) scheme_pkg \<Rightarrow> 'b" where
  "SchemeBuilder P = sp_Builder P SchemeGroupVersion"

definition init_inferenceservice :: "('b, 's) scheme_pkg \<Rightarrow> 'b \<Rightarrow> 'b" where
  "init_inferenceservice P b = sp_Register P [''InferenceService'', ''InferenceServiceList''] b"

definition init_model :: "('b, 's) scheme_pkg \<Rightarrow> 'b \<Rightarrow> 'b" where
  "init_model P b = sp_Register P [''Model'', ''ModelList'', ''ClusterModel'', ''ClusterModelList''] b"

definition init_modelloader :: "('b, 's) scheme_pkg \<Rightarrow> 'b \<Rightarrow> 'b" where
  "init_modelloader P b = sp_Register P [''ModelLoader'', ''ModelLoaderList''] b"

text \<open>
  The variables of the package come first, then its \<open>init\<close> functions, in an order the compiler is given.
  \<open>AddToScheme\<close> is a method value of the pointer \<open>SchemeBuilder\<close>, so it sees what they register.
\<close>

definition package_inits :: "('b, 's) scheme_pkg \<Rightarrow> ('b \<Rightarrow> 'b) list" where
  "package_inits P = [init_inferenceservice P, init_model P, init_modelloader P]"

definition AddToScheme :: "('b, 's) scheme_pkg \<Rightarrow> ('b \<Rightarrow> 'b) list \<Rightarrow> 's \<Rightarrow> string + 's" where
  "AddToScheme P inits = sp_AddToScheme P (foldl (\<lambda>b init. init b) (SchemeBuilder P) inits)"

subsection \<open>The schemes of client-go\<close>

text \<open>\<open>utilruntime.Must\<close> panics on an error, which is the result \<open>None\<close>.\<close>

definition scheme_init :: "('b, 's) scheme_pkg \<Rightarrow> ('b \<Rightarrow> 'b) list \<Rightarrow> 's option" where
  "scheme_init P inits =
     (let localSchemeBuilder = [AddToScheme P inits];
          Scheme = sp_NewScheme P;
          Scheme = sp_AddToGroupVersion P ('''', ''v1'') Scheme
      in case sp_AddAll P localSchemeBuilder Scheme of Inl err \<Rightarrow> None | Inr Scheme \<Rightarrow> Some Scheme)"

definition fake_scheme_init :: "('b, 's) scheme_pkg \<Rightarrow> ('b \<Rightarrow> 'b) list \<Rightarrow> 's option" where
  "fake_scheme_init P inits =
     (let localSchemeBuilder = [AddToScheme P inits];
          scheme = sp_NewScheme P;
          scheme = sp_AddToGroupVersion P ('''', ''v1'') scheme
      in case sp_AddAll P localSchemeBuilder scheme of Inl err \<Rightarrow> None | Inr scheme \<Rightarrow> Some scheme)"

subsection \<open>What is relied on\<close>

text \<open>
  \<open>lookup s gv k\<close> is the Go type of the kind \<open>k\<close>. A builder adds what was registered, one \<open>Register\<close> after the
  other, with the kinds of the metadata options; adding a type under a kind that another type has fails.
\<close>

definition meta_kinds :: "string set" where
  "meta_kinds = {''WatchEvent'', ''ListOptions'', ''GetOptions'', ''DeleteOptions'', ''CreateOptions'',
     ''UpdateOptions'', ''PatchOptions''}"

locale schemes =
  fixes P :: "('b, 's) scheme_pkg" and lookup :: "'s \<Rightarrow> group_version \<Rightarrow> string \<Rightarrow> go_type option"
    and version :: "'b \<Rightarrow> group_version"
  assumes version_new: "version (sp_Builder P gv) = gv"
    and version_register: "version (sp_Register P types b) = version b"
    and add_new: "sp_AddToScheme P (sp_Builder P gv) s = Inr s"
    and add_register: "sp_AddToScheme P b s = Inr s1 \<Longrightarrow>
        \<forall>t \<in> set types. lookup s1 (version b) t = None \<or> lookup s1 (version b) t = Some t \<Longrightarrow>
        set types \<inter> meta_kinds = {} \<Longrightarrow>
      \<exists>s2. sp_AddToScheme P (sp_Register P types b) s = Inr s2 \<and>
        (\<forall>k. k \<notin> meta_kinds \<longrightarrow>
          lookup s2 (version b) k = (if k \<in> set types then Some k else lookup s1 (version b) k))"
    and new_scheme: "lookup (sp_NewScheme P) gv k = None"
    and add_group_version: "gv' \<noteq> gv \<Longrightarrow> gv' \<noteq> ('''', ''v1'') \<Longrightarrow>
      lookup (sp_AddToGroupVersion P gv s) gv' k = lookup s gv' k"
    and add_all: "sp_AddAll P [f] s = f s"
begin

lemma add_inits:
  assumes "list_all (\<lambda>ts. set ts \<inter> meta_kinds = {}) tss"
    and "\<forall>k. k \<notin> meta_kinds \<longrightarrow> lookup s gv k = None"
  shows "version (foldl (\<lambda>b ts. sp_Register P ts b) (sp_Builder P gv) tss) = gv \<and>
    (\<exists>s'. sp_AddToScheme P (foldl (\<lambda>b ts. sp_Register P ts b) (sp_Builder P gv) tss) s = Inr s' \<and>
      (\<forall>k. k \<notin> meta_kinds \<longrightarrow> lookup s' gv k = (if k \<in> set (concat tss) then Some k else None)))"
  using assms(1)
proof (induction tss rule: rev_induct)
  case Nil
  show ?case using assms(2) by (simp add: version_new add_new)
next
  case (snoc ts tss)
  let ?b = "foldl (\<lambda>b ts. sp_Register P ts b) (sp_Builder P gv) tss"
  from snoc obtain s1 where v: "version ?b = gv" and s1: "sp_AddToScheme P ?b s = Inr s1"
    "\<forall>k. k \<notin> meta_kinds \<longrightarrow> lookup s1 gv k = (if k \<in> set (concat tss) then Some k else None)" by auto
  from snoc.prems have ts: "set ts \<inter> meta_kinds = {}" by simp
  with s1(2) v have "\<forall>t \<in> set ts. lookup s1 (version ?b) t = None \<or> lookup s1 (version ?b) t = Some t"
    by (auto simp: disjoint_iff)
  from add_register [OF s1(1) this ts] s1(2) v show ?case
    by (auto simp: version_register)
qed

end

definition v1alpha1_types :: "go_type list" where
  "v1alpha1_types =
     [''InferenceService'', ''InferenceServiceList'', ''Model'', ''ModelList'', ''ClusterModel'', ''ClusterModelList'',
      ''ModelLoader'', ''ModelLoaderList'']"

lemma types_not_meta: "k \<in> set v1alpha1_types \<Longrightarrow> k \<notin> meta_kinds"
proof -
  have "list_all (\<lambda>k. k \<notin> meta_kinds) v1alpha1_types" by (simp add: v1alpha1_types_def meta_kinds_def)
  then show "k \<in> set v1alpha1_types \<Longrightarrow> k \<notin> meta_kinds" by (simp add: list_all_iff)
qed

context schemes
begin

lemma AddToScheme_knows:
  assumes order: "mset order = mset [0, 1, 2]" and new: "\<forall>k. k \<notin> meta_kinds \<longrightarrow> lookup s SchemeGroupVersion k = None"
  shows "\<exists>s'. AddToScheme P (map ((!) (package_inits P)) order) s = Inr s' \<and>
    (\<forall>k. k \<notin> meta_kinds \<longrightarrow> lookup s' SchemeGroupVersion k = (if k \<in> set v1alpha1_types then Some k else None))"
proof -
  let ?T = "[[''InferenceService'', ''InferenceServiceList''], [''Model'', ''ModelList'', ''ClusterModel'', ''ClusterModelList''],
    [''ModelLoader'', ''ModelLoaderList'']]"
  have T: "package_inits P = map (\<lambda>ts b. sp_Register P ts b) ?T"
    by (simp add: package_inits_def init_inferenceservice_def init_model_def init_modelloader_def fun_eq_iff)
  have range: "set order = {0, 1, 2}" using mset_eq_setD [OF order] by auto
  then have order': "map ((!) (package_inits P)) order = map (\<lambda>ts b. sp_Register P ts b) (map ((!) ?T) order)"
    unfolding T by auto
  then have fold: "foldl (\<lambda>b init. init b) b (map ((!) (package_inits P)) order) =
      foldl (\<lambda>b ts. sp_Register P ts b) b (map ((!) ?T) order)" for b
    by (simp only: order' foldl_map)
  have "list_all (\<lambda>ts. set ts \<inter> meta_kinds = {}) (map ((!) ?T) order)"
    using range by (auto simp: list_all_iff meta_kinds_def)
  moreover have "set (concat (map ((!) ?T) order)) = set v1alpha1_types"
    using range by (simp add: v1alpha1_types_def) auto
  ultimately show ?thesis
    using add_inits [of "map ((!) ?T) order" s SchemeGroupVersion] new
    by (simp add: AddToScheme_def SchemeBuilder_def fold)
qed

lemma schemes_know:
  assumes "mset order = mset [0, 1, 2]"
  shows "\<exists>s. scheme_init P (map ((!) (package_inits P)) order) = Some s \<and>
      fake_scheme_init P (map ((!) (package_inits P)) order) = Some s \<and>
      (\<forall>k. k \<notin> meta_kinds \<longrightarrow> lookup s SchemeGroupVersion k = (if k \<in> set v1alpha1_types then Some k else None))"
  using AddToScheme_knows [OF assms, of "sp_AddToGroupVersion P ('''', ''v1'') (sp_NewScheme P)"]
  by (auto simp: scheme_init_def fake_scheme_init_def Let_def add_all add_group_version new_scheme SchemeGroupVersion_def)

end

subsection \<open>Schemes that are maps\<close>

type_synonym map_scheme = "group_version \<times> string \<Rightarrow> go_type option"

definition put_types :: "group_version \<Rightarrow> go_type list \<Rightarrow> map_scheme \<Rightarrow> string + map_scheme" where
  "put_types gv types s =
     (if list_all (\<lambda>t. s (gv, t) = None \<or> s (gv, t) = Some t) types
      then Inr (foldl (\<lambda>s t. s((gv, t) \<mapsto> t)) s types) else Inl ''double registration of different types'')"

fun put_all :: "group_version \<Rightarrow> go_type list list \<Rightarrow> map_scheme \<Rightarrow> string + map_scheme" where
  "put_all gv [] s = Inr s"
| "put_all gv (types # registered) s =
     (case put_all gv registered s of Inl err \<Rightarrow> Inl err | Inr s' \<Rightarrow> put_types gv types s')"

fun add_each :: "('s \<Rightarrow> string + 's) list \<Rightarrow> 's \<Rightarrow> string + 's" where
  "add_each [] s = Inr s"
| "add_each (f # fs) s = (case f s of Inl err \<Rightarrow> Inl err | Inr s' \<Rightarrow> add_each fs s')"

definition map_schemes :: "(group_version \<times> go_type list list, map_scheme) scheme_pkg" where
  "map_schemes = \<lparr>
     sp_Builder = (\<lambda>gv. (gv, [])),
     sp_Register = (\<lambda>types (gv, registered). (gv, types # registered)),
     sp_AddToScheme = (\<lambda>(gv, registered). put_all gv registered),
     sp_NewScheme = Map.empty,
     sp_AddToGroupVersion = (\<lambda>gv s. s((gv, ''WatchEvent'') \<mapsto> ''WatchEvent'')),
     sp_AddAll = add_each\<rparr>"

lemma put_types_lookup:
  "foldl (\<lambda>s t. s((gv, t) \<mapsto> t)) s types (gv', k) = (if gv' = gv \<and> k \<in> set types then Some k else s (gv', k))"
  by (induction types arbitrary: s) auto

interpretation map_scheme: schemes map_schemes "\<lambda>s gv k. s (gv, k)" fst
proof (unfold_locales, goal_cases)
  case (4 b s s1 types)
  then show ?case
    by (cases b) (auto simp: map_schemes_def put_types_def list_all_iff put_types_lookup)
qed (auto simp: map_schemes_def split: sum.split)

subsection \<open>Properties\<close>

text \<open>
  The clients of the three resources find their types. In whatever order the \<open>init\<close> functions of the package run,
  the schemes of both client packages are made without a panic, are the same, and know exactly the types of the API as
  kinds of the group, among them the object and the list of every typed client.
\<close>

theorem clients_know_their_types:
  assumes "schemes P lookup version" and "mset order = mset [0, 1, 2]"
  shows "\<exists>s. scheme_init P (map ((!) (package_inits P)) order) = Some s \<and>
    fake_scheme_init P (map ((!) (package_inits P)) order) = Some s \<and>
    (\<forall>k. k \<notin> meta_kinds \<longrightarrow> lookup s SchemeGroupVersion k = (if k \<in> set v1alpha1_types then Some k else None)) \<and>
    (\<forall>c \<in> {newFakeClusterModels fake, newFakeInferenceServices fake ns, newFakeModels fake ns}.
      case fc_Kind c of (g, v, k) \<Rightarrow> lookup s (g, v) k = Some (fc_NewObject c) \<and>
        lookup s (g, v) (k @ ''List'') = Some (fc_NewList c))"
proof -
  from schemes.schemes_know [OF assms] obtain s where s: "scheme_init P (map ((!) (package_inits P)) order) = Some s"
    "fake_scheme_init P (map ((!) (package_inits P)) order) = Some s"
    and known: "\<forall>k. k \<notin> meta_kinds \<longrightarrow> lookup s SchemeGroupVersion k = (if k \<in> set v1alpha1_types then Some k else None)"
    by blast
  have "k \<in> set v1alpha1_types \<Longrightarrow> lookup s (''fusioninfer.io'', ''v1alpha1'') k = Some k" for k
    using known types_not_meta [of k] unfolding SchemeGroupVersion_def by simp
  then have "\<forall>c \<in> {newFakeClusterModels fake, newFakeInferenceServices fake ns, newFakeModels fake ns}.
      case fc_Kind c of (g, v, k) \<Rightarrow> lookup s (g, v) k = Some (fc_NewObject c) \<and>
        lookup s (g, v) (k @ ''List'') = Some (fc_NewList c)"
    by (simp add: newFakeClusterModels_def newFakeInferenceServices_def newFakeModels_def v1alpha1_types_def)
  with s known show ?thesis by blast
qed

theorem clients_know_their_types_witness:
  "\<exists>s. scheme_init map_schemes (map ((!) (package_inits map_schemes)) [2, 0, 1]) = Some s \<and>
    s (SchemeGroupVersion, ''ModelLoader'') = Some ''ModelLoader''"
proof -
  have "''ModelLoader'' \<in> set v1alpha1_types" by (simp add: v1alpha1_types_def)
  note known = this types_not_meta [OF this]
  have "mset [2, 0, 1] = mset [0, 1, 2 :: nat]" by simp
  from clients_know_their_types [OF map_scheme.schemes_axioms this, of "()" "''''"] obtain s where
    "scheme_init map_schemes (map ((!) (package_inits map_schemes)) [2, 0, 1]) = Some s"
    "\<forall>k. k \<notin> meta_kinds \<longrightarrow> s (SchemeGroupVersion, k) = (if k \<in> set v1alpha1_types then Some k else None)" by blast
  with known show ?thesis by (intro exI [of _ s] conjI) simp_all
qed

end
