(* ===== verification/Listers.thy ===== *)
theory Listers
  imports Clients FactoryRuns
begin

section \<open>Listers of a shared factory\<close>

text \<open>
  The \<open>Lister\<close> methods of the informers (\<open>core/v1alpha1\<close>) and of the generic informer (\<open>generic.go\<close>) join the
  two halves of the generated code: they ask the factory for the informer of their resource and make a lister over its
  index. \<open>indexer\<close> is the parameter \<open>GetIndexer\<close> of client-go; a generic lister is a lister like the others, made by
  \<open>cache.NewGenericLister\<close>.
\<close>

definition clusterModel_Lister ::
  "(('o, 't) informer \<Rightarrow> 'x) \<Rightarrow> ('o, 't) factory \<Rightarrow> 'x lister \<times> ('o, 't) factory" where
  "clusterModel_Lister indexer f =
     (case clusterModel_Informer f of (informer, f') \<Rightarrow> (NewClusterModelLister (indexer informer), f'))"

definition inferenceService_Lister ::
  "(('o, 't) informer \<Rightarrow> 'x) \<Rightarrow> ('o, 't) factory \<Rightarrow> 'x lister \<times> ('o, 't) factory" where
  "inferenceService_Lister indexer f =
     (case inferenceService_Informer f of (informer, f') \<Rightarrow> (NewInferenceServiceLister (indexer informer), f'))"

definition model_Lister ::
  "(('o, 't) informer \<Rightarrow> 'x) \<Rightarrow> ('o, 't) factory \<Rightarrow> 'x lister \<times> ('o, 't) factory" where
  "model_Lister indexer f =
     (case model_Informer f of (informer, f') \<Rightarrow> (NewModelLister (indexer informer), f'))"

text \<open>A generic informer is the informer with the group and the name of its resource.\<close>

type_synonym ('o, 't) generic_informer = "('o, 't) informer \<times> string \<times> string"

definition generic_Informer :: "('o, 't) generic_informer \<Rightarrow> ('o, 't) informer" where
  "generic_Informer g = fst g"

definition generic_Lister :: "(('o, 't) informer \<Rightarrow> 'x) \<Rightarrow> ('o, 't) generic_informer \<Rightarrow> 'x lister" where
  "generic_Lister indexer g =
     \<lparr>li_Indexer = indexer (generic_Informer g), li_Resource = snd g, li_Namespace = None\<rparr>"

subsection \<open>Properties\<close>

abbreviation typed_listers ::
  "(string \<times> ((('o, 't) informer \<Rightarrow> 'x) \<Rightarrow> ('o, 't) factory \<Rightarrow> 'x lister \<times> ('o, 't) factory)) set" where
  "typed_listers \<equiv> {(''clustermodels'', clusterModel_Lister), (''inferenceservices'', inferenceService_Lister),
     (''models'', model_Lister)}"

text \<open>A typed lister is made over the informer that \<open>ForResource\<close> gives for its resource.\<close>

lemma typed_lister_informer:
  assumes "(resource, Lister) \<in> typed_listers" and "Lister indexer f = (l, f')"
  obtains i where "ForResource (WithResource resource) f = (Inr (i, ''fusioninfer.io'', resource), f')"
    and "li_Indexer l = indexer i" and "li_Namespace l = None"
  using assms
  by (auto simp: ForResource_def clusterModel_Lister_def inferenceService_Lister_def model_Lister_def WithResource_def
      NewClusterModelLister_def NewInferenceServiceLister_def NewModelLister_def split: prod.splits)

lemma typed_lister_again:
  assumes "(resource, Lister) \<in> typed_listers" and "Lister indexer f = (l, f')"
    and "ForResource (WithResource resource) f = (Inr (i, g, n), f')"
    and "ForResource (WithResource resource) f2 = (Inr (i, g, n), f2')"
  shows "Lister indexer f2 = (l, f2')"
  using assms
  by (auto simp: ForResource_def clusterModel_Lister_def inferenceService_Lister_def model_Lister_def WithResource_def
      split: prod.splits)

text \<open>
  All listers of a resource that one factory gives out read one index, whose informer asks only for objects of
  the factory's namespace and filter: the typed lister once obtained is what every later call returns, whatever
  the factory has done meanwhile, no second informer is made, and the generic lister reads the same index.
\<close>

theorem listers_share_index:
  assumes "fresh f" and "factory_run (new_world f) w" and lister: "(resource, Lister) \<in> typed_listers"
    and "Lister indexer (w_factory w) = (l, f')" and "factory_run (w\<lparr>w_factory := f'\<rparr>) w'"
  shows "Lister indexer (w_factory w') = (l, w_factory w') \<and>
    (\<exists>g. ForResource (WithResource resource) (w_factory w') = (Inr g, w_factory w') \<and>
      li_Indexer (generic_Lister indexer g) = li_Indexer l \<and>
      scoped (sif_namespace f) (sif_tweakListOptions f) (generic_Informer g))"
proof -
  from typed_lister_informer [OF lister assms(4)] obtain i where
    i: "ForResource (WithResource resource) (w_factory w) = (Inr (i, ''fusioninfer.io'', resource), f')"
    and l: "li_Indexer l = indexer i" .
  from informer_is_shared [OF assms(1,2) i assms(5)]
  have later: "ForResource (WithResource resource) (w_factory w') = (Inr (i, ''fusioninfer.io'', resource), w_factory w')"
    and scoped: "scoped (sif_namespace f) (sif_tweakListOptions f) i" by simp_all
  from typed_lister_again [OF lister assms(4) i later] later scoped l show ?thesis
    by (intro conjI exI [of _ "(i, ''fusioninfer.io'', resource)"]) (simp_all add: generic_Lister_def generic_Informer_def)
qed

theorem listers_share_index_witness:
  "\<exists>g. ForResource (WithResource ''models'') (snd (model_Lister inf_Pointer demo_factory)) =
      (Inr g, snd (model_Lister inf_Pointer demo_factory)) \<and>
    li_Indexer (generic_Lister inf_Pointer g) = li_Indexer (fst (model_Lister inf_Pointer demo_factory))"
proof -
  let ?w = "new_world demo_factory"
  obtain l f' where l: "model_Lister inf_Pointer (w_factory ?w) = (l, f')" by fastforce
  have m: "(''models'', model_Lister) \<in> typed_listers" by simp
  from listers_share_index [OF demo_fresh rtranclp.rtrancl_refl m l rtranclp.rtrancl_refl] l show ?thesis
    by (auto simp: new_world_def)
qed

end
