(* ===== verification/Spec2Isabelle.thy ===== *)
theory Spec2Isabelle
  imports Worlds Collisions Privileges Resources Aliasing Manager ServiceRules DeepCopies SchemaParser Registration Listers
begin

text \<open>
  FusionInfer is a Kubernetes controller that deploys large language models. A user writes an
  InferenceService with a list of roles (router, worker, prefiller, decoder); the controller creates the
  objects that run it and reports their state. This development models the Go code of the repository and
  proves what makes it correct.

  \<^bold>\<open>The program.\<close> One reconciliation (\<open>Reconcile\<close> in \<open>pkg/controller/inferenceservice_controller.go\<close>) reads
  the service, writes a PodGroup when roles are gang scheduled (\<open>pkg/scheduling/podgroup.go\<close>), one
  LeaderWorkerSet per replica of every worker role (\<open>pkg/workload/lws.go\<close>) and, for a router role, the
  endpoint picker (EPP) with its account, rights, configuration, deployment and service, an InferencePool and
  an HTTPRoute (\<open>pkg/router\<close>); it deletes LeaderWorkerSets left from a larger scale, and at last writes the
  status, with conditions (\<open>pkg/controller/condition.go\<close>) and a phase per role. An existing object is
  updated only when its spec-hash label (\<open>pkg/util/hash.go\<close>) differs from the wanted one. The binary
  (\<open>cmd/main.go\<close>) starts two such controllers. Model objects (\<open>api/core/v1alpha1/model_types.go\<close>) are only
  validated by the API server so far. \<open>client-go\<close> holds generated code for programs that use the API: clients,
  informers, listers and apply configurations.

  \<^bold>\<open>Theories.\<close>
  \<^item> \<open>Prelude\<close>: machine integers (\<open>int32\<close> as 32-bit words, loops over \<open>int32\<close>), decimal printing, strings, label
    maps.
  \<^item> \<open>SpecHash\<close>: \<open>ComputeSpecHash\<close>, FNV-1 on 32 bits. The dump of an object and the base-32 encoding are
    parameters. One changed byte is always detected; collisions exist.
  \<^item> \<open>ApiTypes\<close>, \<open>Kube\<close>, \<open>Samples\<close>: the API types of \<open>inferenceservice_types.go\<close>, the parts of Kubernetes objects
    the code sets, the record \<open>externals\<close> of third-party functions, and concrete values for witnesses.
  \<^item> \<open>Workload\<close>: \<open>BuildLWS\<close> with its helpers, and from which template of a LeaderWorkerSet each of its pods is made
    (\<open>leader_pod\<close>, \<open>pod_templates\<close>). \<open>Scheduling\<close>: gang scheduling and \<open>BuildPodGroup\<close>. \<open>Resources\<close>: the resources
    a PodGroup reserves against the limits of its pods, as rational amounts.
    \<open>Strategy\<close>: the generated EPP configurations. \<open>RouterObjects\<close>: the builders of \<open>epp.go\<close>, \<open>inferencepool.go\<close>
    and \<open>httproute.go\<close>.
  \<^item> \<open>Cluster\<close>: operations that change a state and return a value, an error or a panic (\<open>bind_op\<close>, \<open>loop_op\<close>);
    the API server as a record of calls (\<open>api\<close>) over a state; the locale \<open>cluster\<close> states what a
    server that answers every valid request does to the store seen through \<open>view\<close>; it is interpreted on the list
    server \<open>list_api\<close>. \<open>Managed\<close>: the pattern get, create or compare and update that the controller repeats for
    each kind, over a locale of object kinds, interpreted for every kind in \<open>Kinds\<close>.
  \<^item> \<open>Conditions\<close>: the condition setters. \<open>Controller\<close>: every function of \<open>inferenceservice_controller.go\<close>
    and the ModelLoader controller.
  \<^item> \<open>ComponentStatus\<close>: what the phase and the counts of a role mean. \<open>Convergence\<close> and \<open>Reconciliation\<close>: what
    each step of a reconciliation does to the store, up to the whole (\<open>reconcile_achieves\<close>).
    \<open>Trace\<close>: the order of writes for any behaviour of the API server. \<open>Lifecycle\<close>: the conditions as a state
    machine. \<open>Quiet\<close>: which successful runs write nothing but the status, and so do not wake the controller
    again (\<open>Reconcile_quiet\<close>). \<open>Steady\<close>: what a further run in a converged store does (\<open>reconcile_final\<close>,
    \<open>reconcile_twice\<close>). \<open>Worlds\<close>: concrete stores for the witnesses.
  \<^item> \<open>Writes\<close>: the locale \<open>writes\<close>, an API by what its writes may do to the store, whatever its reads return, and
    which properties of the store a reconciliation then keeps (\<open>Reconcile_keeps\<close>). It is a sublocale of \<open>cluster\<close>
    for two kinds of clients: \<open>Faults\<close> has those behind a schedule of faults (\<open>faulty_api\<close>), \<open>Caches\<close> those that
    also read through a cache (\<open>cached_api\<close>). \<open>Footprint\<close>: the abstract specification of a run, a sequence of
    touches (\<open>touch\<close>), which every run refines whatever becomes of its calls; invariants of the store follow by
    induction over touches. \<open>Recovery\<close>: what repeated runs of one service reach. \<open>Fleet\<close>: the system, a state
    machine of runs of any services, with fresh or stale reads, and of changes by others; its invariant \<open>named\<close>;
    services whose names keep apart do not disturb each other. \<open>Collisions\<close>: services whose names do not.
  \<^item> \<open>Setup\<close>: the watched kinds and the rights the markers ask for. \<open>Privileges\<close>: all rights that \<open>config/rbac\<close> gives
    the controller, an API server that checks them against the Roles it is asked to store (\<open>guarded_api\<close>), and what
    a reconciliation does there. \<open>EventLoop\<close>: \<open>Reconcile\<close> together with
    \<open>SetupWithManager\<close>, the loop \<open>work\<close> of runs that wake the controller again: when it ends (\<open>work_ends\<close>), what
    holds then (\<open>work_converged\<close>, \<open>work_status\<close>), and when it does not end (\<open>work_endless\<close>, \<open>work_ticking\<close>).
    \<open>Manager\<close>: flags, options and start-up of \<open>cmd/main.go\<close>.
  \<^item> \<open>Regexp\<close>: regular expressions with a matcher proved equal to their meaning; \<open>ModelTypes\<close>: the types and
    validation rules of \<open>model_types.go\<close> and \<open>modelloader_types.go\<close>; \<open>ModelRules\<close>: what the rules guarantee.
    \<open>ServiceRules\<close>: the validation rules of \<open>inferenceservice_types.go\<close>, what the controller may rely on for an
    admitted service, and which rules the statuses it writes obey.
  \<^item> \<open>Aliasing\<close>: \<open>BuildLWS\<close> statement by statement on a store of maps, where the object and its templates share
    their label map; it refines to the value model. \<open>GoHeap\<close>: Go values on a heap, with the rules of deep
    copying; \<open>DeepCopies\<close>: the generated copy functions of the API types (\<open>zz_generated.deepcopy.go\<close>).
  \<^item> \<open>Builders\<close>: the shapes of the generated \<open>With\<close> methods on the same heap, and what each does to the content
    of a struct, also of those that set the metadata behind a pointer; \<open>ApplyConfigs\<close>: the types and methods of
    \<open>client-go/applyconfiguration\<close>; \<open>SchemaParser\<close>: its
    schema, parsed once per program.
  \<^item> \<open>Informers\<close>: the shared informer factory of \<open>client-go/informers\<close>; \<open>FactoryRuns\<close>: its concurrent runs.
    \<open>Clients\<close>: how \<open>client-go/clientset\<close> makes its clients and fakes, and \<open>client-go/listers\<close>. \<open>Listers\<close>: the
    listers a factory gives out, which read the index of its shared informer. \<open>Registration\<close>: the types of the
    API in the schemes of the client packages, whatever the order of the \<open>init\<close> functions.
  \<^item> This theory: the properties that span components.

  \<^bold>\<open>Reading the model.\<close> A Go function keeps its name; a method of the controller is a function of the externals
  \<open>X\<close>, the API \<open>A\<close> and its arguments that yields a stateful operation. Pointers that may be nil are \<open>option\<close>s;
  label maps are partial maps, where reading a missing key gives the empty string. An error is a value of
  \<open>Err\<close>, a panic is \<open>Panic\<close>. Objects are values: where the code changes an object it has just built, the model
  returns the changed one; \<open>Aliasing\<close> justifies this where two objects share a map. A long function is cut into
  definitions that are composed as the code composes them (\<open>reconcileChildren\<close> and \<open>finishReconcile\<close> are the two
  halves of \<open>Reconcile\<close>). Loops over \<open>int32\<close> run over \<open>int32_range\<close>, which is proved to be the values the loop
  variable takes, for every bound; all recursions terminate, so no fuel is used. The one loop that may run for ever,
  \<open>work\<close>, is a partial function into \<open>option\<close>, where \<open>None\<close> is not ending.

  \<^bold>\<open>Assumptions.\<close> \<open>cluster\<close> (a server that answers), \<open>condition_laws\<close>, \<open>condition_stable\<close> and \<open>condition_lists\<close>
  (\<open>meta.SetStatusCondition\<close> as documented) and \<open>quantity_laws\<close> (\<open>Value\<close> rounds up, \<open>Set\<close> and \<open>Add\<close> are exact) are
  hypotheses of the properties that need them, each with a witness that instantiates them by concrete functions.
  What the LeaderWorkerSet controller makes of an object (\<open>pod_templates\<close>) and how an API server checks Roles
  (\<open>escalates\<close>) are stated as those projects document them. Properties on the order of writes and on
  errors hold for every behaviour of the API server.

  \<^bold>\<open>Not modelled.\<close> Logging; what the packages below the generated clients do (REST client, generic typed client,
  object tracker, index of a lister, parser of schemas, schemes), which are parameters; tests and tooling. Interfaces
  of Go have no definition of their own: their methods are the functions modelled. Other writers between two API
  calls of one reconciliation are covered by the properties that hold for any API behaviour and by those on stale
  reads, not by convergence. The length rules count characters and the model counts bytes; they differ only on
  non-ASCII text, which the patterns refuse and which only the message of a condition may hold.
\<close>

section \<open>Reconciliation\<close>

text \<open>
  C1: One reconciliation converges. If the API calls succeed, the builds do not panic, worker roles
  have different names and there is at most one router, then \<open>Reconcile\<close> returns without an error; the
  PodGroup, every replica of every role and the router objects are stored with the spec hash that is
  wanted, no LeaderWorkerSet of a role is left over, the written status describes the stored objects,
  and nothing else has changed.
\<close>

theorem reconcile_converges:
  assumes "cluster A view" and "condition_laws X" and "well_specified X svc"
    and "distinct (map role_Name (served_roles svc))" and "labels_sound svc (view s)"
    and "view s (isvc_key svc) = Some (ObjInferSvc svc)"
  shows "\<exists>st s'. Reconcile X A (isvc_Namespace svc) (isvc_Name svc) s = (Ok (), s') \<and>
    view s' (isvc_key svc) = Some (ObjInferSvc (with_status svc st)) \<and>
    good_status svc (view s') st \<and> converged X svc (view s') \<and>
    (\<forall>k. k \<noteq> isvc_key svc \<and> \<not> may_change X svc (view s) k \<longrightarrow> view s' k = view s k)"
  using cluster.reconcile_achieves [OF assms(1) assms(2-6)] .

theorem reconcile_converges_witness:
  "\<exists>st s'. Reconcile sample_conditions list_api ''default'' ''demo'' (sample_world demo_service) = (Ok (), s') \<and>
    srv_lookup s' (isvc_key demo_service) = Some (ObjInferSvc (with_status demo_service st)) \<and>
    converged sample_conditions demo_service (srv_lookup s')"
proof -
  have "srv_lookup (sample_world demo_service) (isvc_key demo_service) = Some (ObjInferSvc demo_service)"
    by (simp add: sample_world_lookup)
  from reconcile_converges [OF list_server.cluster_axioms sample_condition_laws demo_well_specified _
      sample_world_sound this] show ?thesis
    by (fastforce simp: demo_service_parts)
qed

text \<open>
  C4: Faults are overcome. Let the API server answer, but through a schedule \<open>fs\<close> of faults that makes
  calls fail without effect, or with their effect and an error all the same, up to a manager that dies
  in the middle. However the first runs end, the run after as many runs as there are entries in the
  schedule succeeds, all objects of the service are as wanted, and the status describes them.
\<close>

theorem faults_are_overcome:
  assumes "cluster A view" and "condition_laws X" and "well_specified X svc"
    and "distinct (map role_Name (served_roles svc))" and "labels_sound svc (view s)"
    and "view s (isvc_key svc) = Some (ObjInferSvc svc)"
  shows "\<exists>st0 st s'.
    Reconcile X (faulty_api A) (isvc_Namespace svc) (isvc_Name svc)
      (after_runs X A (isvc_Namespace svc) (isvc_Name svc) (length fs) (s, fs)) = (Ok (), (s', [])) \<and>
    view s' (isvc_key svc) = Some (ObjInferSvc (with_status svc st)) \<and>
    good_status (with_status svc st0) (view s') st \<and> converged X svc (view s')"
  using cluster.faults_then_converged [OF assms(1) assms(2-6)] .

theorem faults_are_overcome_witness:
  "\<exists>s'. Reconcile sample_conditions (faulty_api list_api) ''default'' ''demo''
      (after_runs sample_conditions list_api ''default'' ''demo'' 4
        (sample_world demo_service, [Works, Unanswered ''timeout'', Works, Refused ''conflict''])) = (Ok (), (s', [])) \<and>
    converged sample_conditions demo_service (srv_lookup s')"
proof -
  have "srv_lookup (sample_world demo_service) (isvc_key demo_service) = Some (ObjInferSvc demo_service)"
    by (simp add: sample_world_lookup)
  moreover have "distinct (map role_Name (served_roles demo_service))" by (simp add: demo_service_parts)
  ultimately show ?thesis
    using faults_are_overcome [OF list_server.cluster_axioms sample_condition_laws demo_well_specified _
        sample_world_sound, of demo_service "[Works, Unanswered ''timeout'', Works, Refused ''conflict'']"]
    by (simp add: eval_nat_numeral) blast
qed

text \<open>
  Success can be trusted. Whatever faults the calls meet, when \<open>Reconcile\<close> returns without an error
  the objects of the service are as wanted: no failed call on the way to them is swallowed.
\<close>

theorem success_means_converged:
  assumes "cluster A view" and "well_specified X svc" and "labels_sound svc (view s)"
    and "view s (isvc_key svc) = Some (ObjInferSvc svc)"
    and "Reconcile X (faulty_api A) (isvc_Namespace svc) (isvc_Name svc) (s, fs) = (Ok (), t)"
  shows "converged X svc (view (fst t))"
  using cluster.success_converges [OF assms(1) assms(2-5)] .

theorem success_means_converged_witness:
  "\<exists>t. Reconcile sample_conditions (faulty_api list_api) ''default'' ''demo'' (sample_world demo_service, []) = (Ok (), t) \<and>
    converged sample_conditions demo_service (srv_lookup (fst t))"
proof -
  have stored: "srv_lookup (sample_world demo_service) (isvc_key demo_service) = Some (ObjInferSvc demo_service)"
    by (simp add: sample_world_lookup)
  from list_server.reconcile_achieves [OF sample_condition_laws demo_well_specified _ sample_world_sound this]
  obtain s' where "Reconcile sample_conditions list_api ''default'' ''demo'' (sample_world demo_service) = (Ok (), s')"
    by (fastforce simp: demo_service_parts)
  then have run: "Reconcile sample_conditions (faulty_api list_api) (isvc_Namespace demo_service) (isvc_Name demo_service)
      (sample_world demo_service, []) = (Ok (), (s', []))" by (simp add: Reconcile_healthy)
  from success_means_converged [OF list_server.cluster_axioms demo_well_specified sample_world_sound stored run] run
  show ?thesis by auto
qed

text \<open>
  C17: Errors of the reads behind the status are not reported. If the server refuses every \<open>Get\<close> of a
  LeaderWorkerSet while the status is computed, the reconciliation still ends without an error, so that
  it is not tried again, and writes that every role is \<open>Pending\<close> and the service not \<open>Active\<close>, whatever is
  stored.
\<close>

theorem refused_reads_not_reported:
  assumes "cluster A view" and "condition_laws X"
    and "view s (isvc_key svc) = Some (ObjInferSvc (with_status svc st0))" and "served_roles svc \<noteq> []"
    and "\<forall>role \<in> set (served_roles svc). 0 < sint (GetReplicaCount role)"
  shows "\<exists>st s'. finishReconcile X (faulty_api A) svc None (s, replicate (status_reads (served_roles svc)) (Refused m)) =
      (Ok (), (s', [])) \<and>
    view s' = (view s)(isvc_key svc \<mapsto> ObjInferSvc (with_status svc st)) \<and>
    (\<forall>(n, c) \<in> set (Components st). cs_Phase c = PhasePending) \<and>
    status_of (Conditions st) ConditionTypeActive = ConditionFalse"
  using cluster.refused_reads_hidden [OF assms] .

theorem refused_reads_not_reported_witness:
  "\<exists>s st s'. service_ready service_a (srv_lookup s) \<and>
    finishReconcile sample_conditions (faulty_api list_api) service_a None (s, [Refused ''connection refused'']) =
      (Ok (), (s', [])) \<and>
    srv_lookup s' (isvc_key service_a) = Some (ObjInferSvc (with_status service_a st)) \<and>
    status_of (Conditions st) ConditionTypeActive = ConditionFalse"
proof -
  let ?role = "sample_role ''b-c'' ComponentTypeWorker 1 1"
  obtain l where l: "replica_lws sample_conditions service_a ?role 0 = Some l"
    using buildable_lws [OF sample_buildable] by blast
  let ?l = "l\<lparr>lws_Status := \<lparr>lwsst_Replicas = 1, lwsst_ReadyReplicas = 1\<rparr>\<rparr>"
  have key: "kobj_key (ObjLWS ?l) = lws_key service_a ?role 0"
    using replica_lws_key(1) [OF l] by (simp add: kobj_key_def kind_keys)
  let ?s = "srv_put (ObjLWS ?l) (sample_world service_a)"
  have stored: "srv_lookup ?s (isvc_key service_a) = Some (ObjInferSvc (with_status service_a (isvc_Status service_a)))"
    by (simp add: srv_lookup_put key sample_world_lookup isvc_key_def lws_key_def)
  have one: "replicas_of ?role = [0]"
    by (simp add: GetReplicaCount_def int32_range_def int32_loop.simps)
  have "service_ready service_a (srv_lookup ?s)"
    by (simp add: service_ready_def colliding_parts one replica_status_def srv_lookup_put key is_ready_def)
  moreover have "status_reads (served_roles service_a) = 1"
    by (simp add: status_reads_def colliding_parts GetReplicaCount_def)
  ultimately show ?thesis
    using refused_reads_not_reported [OF list_server.cluster_axioms sample_condition_laws stored,
        of "''connection refused''"]
    by (fastforce simp: colliding_parts GetReplicaCount_def)
qed

text \<open>
  C10: A reconciliation is quiet exactly when there is nothing left to do. The controller is woken by
  every change of an object it owns. A run that returns no error, for any specification, writes nothing but
  the status if and only if the store had converged before it: in a converged store it wakes itself by no
  object it owns, and in any other store it has written one, so that it runs again.
\<close>

theorem quiet_iff_converged:
  assumes "cluster A view" and "view s (isvc_key svc) = Some (ObjInferSvc svc)"
    and "Reconcile X (log_api A) (isvc_Namespace svc) (isvc_Name svc) (s, []) = (Ok (), (s', es))"
  shows "(\<exists>w. es = [StatusWritten w]) \<longleftrightarrow> converged X svc (view s)"
  using cluster.Reconcile_quiet [OF assms] by (auto simp: append_eq_Cons_conv)

theorem quiet_iff_converged_witness:
  "\<exists>s' w. Reconcile sample_conditions (log_api list_api) ''default'' ''idle'' (sample_world idle_service, []) =
      (Ok (), (s', [StatusWritten w]))"
proof -
  have stored: "srv_lookup (sample_world idle_service) (isvc_key idle_service) = Some (ObjInferSvc idle_service)"
    by (simp add: sample_world_lookup)
  from list_server.reconcile_logged [OF sample_condition_laws idle_well_specified _ sample_world_sound stored, of "[]"]
  obtain s' es where "Reconcile sample_conditions (log_api list_api) (isvc_Namespace idle_service) (isvc_Name idle_service)
      (sample_world idle_service, []) = (Ok (), (s', es))" by (auto simp: idle_parts)
  with quiet_iff_converged [OF list_server.cluster_axioms stored this] idle_converged show ?thesis
    by (auto simp: idle_parts)
qed

text \<open>
  Reconciliation is idempotent: in a store where the objects of the service have converged, it
  succeeds and changes nothing but the status of the service.
\<close>

theorem reconcile_idempotent:
  assumes "cluster A view" and "condition_laws X" and "well_specified X svc"
    and "distinct (map role_Name (served_roles svc))" and "converged X svc (view s)"
    and "view s (isvc_key svc) = Some (ObjInferSvc svc)"
  shows "\<exists>st s'. Reconcile X A (isvc_Namespace svc) (isvc_Name svc) s = (Ok (), s') \<and>
    view s' = (view s)(isvc_key svc \<mapsto> ObjInferSvc (with_status svc st))"
  using cluster.reconcile_stable [OF assms(1) assms(3-6)] .

theorem reconcile_idempotent_witness:
  "\<exists>st s'. Reconcile sample_conditions list_api ''default'' ''idle'' (sample_world idle_service) = (Ok (), s') \<and>
    srv_lookup s' = (srv_lookup (sample_world idle_service))(isvc_key idle_service \<mapsto>
      ObjInferSvc (with_status idle_service st))"
proof -
  have "srv_lookup (sample_world idle_service) (isvc_key idle_service) = Some (ObjInferSvc idle_service)"
    by (simp add: sample_world_lookup)
  from reconcile_idempotent [OF list_server.cluster_axioms sample_condition_laws idle_well_specified _
      idle_converged this] show ?thesis by (simp add: idle_parts)
qed

text \<open>
  The status settles too. Two reconciliations one after the other in a converged store succeed, change
  nothing but the status, and write statuses that agree in the observed generation, in every condition with
  its reason, message and last transition, and in all a component reports but the time it was looked at.
\<close>

theorem status_settles:
  assumes "cluster A view" and "condition_laws X" and "well_specified X svc"
    and "distinct (map role_Name (served_roles svc))" and "converged X svc (view s)"
    and "view s (isvc_key svc) = Some (ObjInferSvc svc)"
  shows "\<exists>st s1 st' s2.
    Reconcile X A (isvc_Namespace svc) (isvc_Name svc) s = (Ok (), s1) \<and>
    view s1 = (view s)(isvc_key svc \<mapsto> ObjInferSvc (with_status svc st)) \<and>
    Reconcile X A (isvc_Namespace svc) (isvc_Name svc) s1 = (Ok (), s2) \<and>
    view s2 = (view s)(isvc_key svc \<mapsto> ObjInferSvc (with_status svc st')) \<and> agrees st st'"
  using cluster.reconcile_twice [OF assms] .

theorem status_settles_witness:
  "\<exists>st s1 st' s2. Reconcile sample_conditions list_api ''default'' ''idle'' (sample_world idle_service) = (Ok (), s1) \<and>
    srv_lookup s1 (isvc_key idle_service) = Some (ObjInferSvc (with_status idle_service st)) \<and>
    Reconcile sample_conditions list_api ''default'' ''idle'' s1 = (Ok (), s2) \<and>
    srv_lookup s2 (isvc_key idle_service) = Some (ObjInferSvc (with_status idle_service st')) \<and> agrees st st'"
proof -
  have "srv_lookup (sample_world idle_service) (isvc_key idle_service) = Some (ObjInferSvc idle_service)"
    by (simp add: sample_world_lookup)
  from status_settles [OF list_server.cluster_axioms sample_condition_laws idle_well_specified _ idle_converged this]
  show ?thesis by (fastforce simp: idle_parts)
qed

text \<open>
  C11: Reconciling comes to rest. The controller is woken by its own writes, by \<open>SetupWithManager\<close>, and runs again
  after an error (\<open>work\<close>). For a well-specified service, behind any schedule of faults, this loop ends within one
  tick of the clock (which counts seconds), and then the objects of the service are as wanted; without faults the
  status describes them.
\<close>

theorem reconciling_comes_to_rest:
  assumes "cluster A view" and "condition_laws X" and "condition_stable X" and "well_specified X svc"
    and "distinct (map role_Name (served_roles svc))" and "\<forall>u. fst (api_Now A u) = now"
    and "labels_sound svc (view s)" and "view s (isvc_key svc) = Some (ObjInferSvc svc)"
  shows "\<exists>s' rest. work X A view (isvc_Namespace svc) (isvc_Name svc) (s, fs) = Some (s', rest) \<and>
    converged X svc (view s') \<and>
    (fs = [] \<longrightarrow> (\<exists>st0 st. view s' (isvc_key svc) = Some (ObjInferSvc (with_status svc st)) \<and>
      good_status (with_status svc st0) (view s') st))"
proof -
  have intact: "intact svc (view s)" using assms(7) stored_self [of "view s" svc, OF assms(8)] by (simp add: intact_def)
  from cluster.work_ends [OF assms(1-6) intact, of fs] obtain s' rest where
    u: "work X A view (isvc_Namespace svc) (isvc_Name svc) (s, fs) = Some (s', rest)" by auto
  with work_converged [OF u assms(1)] work_status [OF u assms(1) refl refl assms(2,4,5)] intact show ?thesis
    by (simp add: intact_def)
qed

theorem reconciling_comes_to_rest_witness:
  "\<exists>s' rest. work sample_conditions still_api srv_lookup ''default'' ''demo''
      (sample_world demo_service, [Works, Unanswered ''timeout'', Works, Refused ''conflict'']) = Some (s', rest) \<and>
    converged sample_conditions demo_service (srv_lookup s')"
proof -
  have "srv_lookup (sample_world demo_service) (isvc_key demo_service) = Some (ObjInferSvc demo_service)"
    by (simp add: sample_world_lookup)
  from reconciling_comes_to_rest [OF still_cluster sample_condition_laws sample_condition_stable demo_well_specified _ _
      sample_world_sound this, of 0 "[Works, Unanswered ''timeout'', Works, Refused ''conflict'']"]
  show ?thesis by (auto simp: demo_service_parts still_api_def)
qed

text \<open>
  C12: A service that contradicts itself keeps the controller busy for ever. If it wants one object in two ways, as
  with two routers of different configurations, or two roles of one name, the loop does not end, with faults
  or without: every run that succeeds has written an object that wakes the controller again.
\<close>

theorem contradictions_never_rest:
  assumes "cluster A view" and "view s (isvc_key svc) = Some (ObjInferSvc svc)"
    and "(k, ls) \<in> wanted X svc" and "(k, ls') \<in> wanted X svc" and "fst k \<noteq> KindServiceAccount"
    and "label_of ls LabelSpecHash \<noteq> label_of ls' LabelSpecHash"
  shows "work X A view (isvc_Namespace svc) (isvc_Name svc) (s, fs) = None"
  using work_endless [OF assms(1) stored_self [of "view s" svc, OF assms(2)] assms(3-6)] .

theorem contradictions_never_rest_witness:
  "work config_externals list_api srv_lookup ''default'' ''twice'' (sample_world two_routers, [Unanswered ''timeout'']) = None"
proof -
  have stored: "srv_lookup (sample_world two_routers) (isvc_key two_routers) = Some (ObjInferSvc two_routers)"
    by (simp add: sample_world_lookup)
  obtain la lb where "((KindConfigMap, ''default'', GenerateEPPConfigMapName ''twice''), la) \<in> wanted config_externals two_routers"
    "((KindConfigMap, ''default'', GenerateEPPConfigMapName ''twice''), lb) \<in> wanted config_externals two_routers"
    "label_of la LabelSpecHash \<noteq> label_of lb LabelSpecHash"
    using two_routers_wanted [of "''a''"] two_routers_wanted [of "''b''"]
    by (auto simp: fnv_step_def fnv_offset32_def fnv_prime32_def)
  from contradictions_never_rest [OF list_server.cluster_axioms stored this(1,2) _ this(3)] show ?thesis
    by (simp add: two_routers_def)
qed

text \<open>
  C13: Within one tick is as much as can be said: every run stamps the status of each role with the current time,
  and the status is part of the object the controller watches. If the clock shows a new time in each run, the loop
  never ends for any service with a role to report on, also long after its objects are as wanted.
\<close>

theorem moving_clock_never_rests:
  assumes "cluster A view" and "view s (isvc_key svc) = Some (ObjInferSvc svc)"
    and "ticking A view" and "served_roles svc \<noteq> []"
  shows "work X A view (isvc_Namespace svc) (isvc_Name svc) (s, fs) = None"
  using work_ticking [OF _ assms(1) refl refl _ assms(3,4), of X "(s, fs)"] stored_self [of "view s" svc, OF assms(2)]
  by (cases "work X A view (isvc_Namespace svc) (isvc_Name svc) (s, fs)") auto

theorem moving_clock_never_rests_witness:
  "work sample_conditions moving_api srv_lookup ''default'' ''idle'' (sample_world idle_service, []) = None \<and>
   converged sample_conditions idle_service (srv_lookup (sample_world idle_service))"
proof -
  have stored: "srv_lookup (sample_world idle_service) (isvc_key idle_service) = Some (ObjInferSvc idle_service)"
    by (simp add: sample_world_lookup)
  from moving_clock_never_rests [OF moving_cluster stored moving_ticks] idle_converged show ?thesis
    by (simp add: idle_parts)
qed

text \<open>
  C9: Whatever the API answers, a reconciliation writes in order: first the PodGroup, then
  LeaderWorkerSets, then the objects of the routers, and last the status, at most once. It never
  writes the service in any other way.
\<close>

theorem writes_in_order:
  "\<exists>es. Reconcile X (log_api A) ns n (s, lg) =
      (fst (Reconcile X A ns n s), snd (Reconcile X A ns n s), lg @ es) \<and>
    sorted (map stage es) \<and> list_all (\<lambda>e. stage e \<le> 3) es \<and> length (filter (\<lambda>e. stage e = 3) es) \<le> 1"
proof -
  obtain got s1 where got: "typed_get A inferencesvc_ops ns n s = (got, s1)" by fastforce
  show ?thesis
  proof (cases got)
    case (Inl e)
    with Reconcile_unread_log [of A ns n s e s1 X lg] got show ?thesis by (intro exI [of _ "[]"]) simp
  next
    case (Inr svc)
    obtain svc1 s2 where ini: "initialise X A svc s1 = (svc1, s2)" by fastforce
    obtain r s3 where ch: "reconcileChildren X A svc1 s2 = (r, s3)" by fastforce
    from Reconcile_log [OF got [unfolded Inr] ini ch, of lg] obtain cs where
      cs: "sorted (map stage cs)" "\<forall>e \<in> set cs. stage e \<le> 2" and
      run: "Reconcile X (log_api A) ns n (s, lg) = (fst (Reconcile X A ns n s), snd (Reconcile X A ns n s),
        lg @ cs @ (if r = Panic then [] else [StatusWritten (final_service X A svc1 (outcome_error r) s3)]))"
      by blast
    from cs(2) have "filter (\<lambda>e. stage e = 3) cs = []" "list_all (\<lambda>e. stage e \<le> 3) cs"
      by (fastforce simp: filter_empty_conv list_all_iff)+
    with cs run show ?thesis
      by (intro exI [of _ "cs @ (if r = Panic then []
            else [StatusWritten (final_service X A svc1 (outcome_error r) s3)])"])
        (auto simp: sorted_append intro: le_trans)
  qed
qed

text \<open>
  C18: If the PodGroup cannot be written, no LeaderWorkerSet and no router object is touched: besides
  the attempt on the PodGroup only the status is written.
\<close>

theorem no_pods_without_podgroup:
  assumes "typed_get A inferencesvc_ops ns n s = (Inr svc, s1)" and "initialise X A svc s1 = (svc1, s2)"
    and "reconcilePodGroup X A svc1 s2 = (Err e, s3)"
  shows "\<exists>es. snd (snd (Reconcile X (log_api A) ns n (s, lg))) = lg @ es \<and> set (map stage es) \<subseteq> {0, 3}"
proof -
  have ch: "reconcileChildren X A svc1 s2 = (Err e, s3)"
    using assms(3) by (simp add: reconcileChildren_def calls)
  from logged_reconcilePodGroup [of X A svc1, unfolded logged_def, rule_format, of s2 lg] assms(3) obtain cs where
    pg: "reconcilePodGroup X (log_api A) svc1 (s2, lg) = (Err e, s3, lg @ cs)" "\<forall>e \<in> set cs. stage e = 0"
    by auto
  then have "reconcileChildren X (log_api A) svc1 (s2, lg) = (Err e, s3, lg @ cs)"
    by (simp add: reconcileChildren_def calls)
  moreover have "typed_get (log_api A) inferencesvc_ops ns n (s, lg) = (Inr svc, s1, lg)"
    "initialise X (log_api A) svc (s1, lg) = (svc1, s2, lg)"
    using assms by (simp_all add: typed_get_log initialise_log)
  ultimately have "Reconcile X (log_api A) ns n (s, lg) = finishReconcile X (log_api A) svc1 (Some e) (s3, lg @ cs)"
    by (simp add: Reconcile_def)
  with pg(2) show ?thesis
    by (intro exI [of _ "cs @ [StatusWritten (final_service X A svc1 (Some e) s3)]"])
      (auto simp: finishReconcile_log)
qed

theorem no_pods_without_podgroup_witness:
  "\<exists>es. snd (snd (Reconcile sample_conditions (log_api failing_create) ''default'' ''demo''
      (sample_world demo_service, []))) = es \<and> set (map stage es) \<subseteq> {0, 3}"
proof -
  from failing_demo [of sample_conditions] obtain svc1 s2 where
    "initialise sample_conditions failing_create demo_service (sample_world demo_service) = (svc1, s2)"
    "reconcilePodGroup sample_conditions failing_create svc1 s2 = (Err (OtherError ''quota exceeded''), s2)"
    by blast
  from no_pods_without_podgroup [OF failing_create_get [of demo_service] this, of "[]"] show ?thesis by simp
qed

text \<open>
  C16: Errors are reported. If creating or updating the objects fails, the last write is a status whose
  condition \<open>Failed\<close> is true with the text of the error, and \<open>Reconcile\<close> returns that error, or the
  error of the status update if that fails too.
\<close>

theorem failure_is_reported:
  assumes "condition_laws X" and "typed_get A inferencesvc_ops ns n s = (Inr svc, s1)"
    and "initialise X A svc s1 = (svc1, s2)" and "reconcileChildren X A svc1 s2 = (Err e, s3)"
  shows "\<exists>cs w c. snd (snd (Reconcile X (log_api A) ns n (s, lg))) = lg @ cs @ [StatusWritten w] \<and>
    find_condition (isvc_Conditions w) ConditionTypeFailed = Some c \<and> cond_Status c = ConditionTrue \<and>
    cond_Message c = error_message e \<and>
    (fst (Reconcile X A ns n s) = Err e \<or>
     (\<exists>e' t. fst (api_StatusUpdate A w t) = Inl e' \<and> fst (Reconcile X A ns n s) = Err e'))"
proof -
  let ?w = "final_service X A svc1 (Some e) s3"
  from Reconcile_log [OF assms(2-4), of lg] obtain cs where
    log: "snd (snd (Reconcile X (log_api A) ns n (s, lg))) = lg @ cs @ [StatusWritten ?w]" by auto
  from final_service_error [of X A svc1 e s3] reconciled_message [OF assms(1)] obtain c where
    c: "find_condition (isvc_Conditions ?w) ConditionTypeFailed = Some c" "cond_Status c = ConditionTrue"
      "cond_Message c = error_message e" by metis
  have "Reconcile X A ns n s = finishReconcile X A svc1 (Some e) s3"
    using Reconcile_run [OF assms(2-4)] by simp
  then have "fst (Reconcile X A ns n s) = Err e \<or>
      (\<exists>e' t. fst (api_StatusUpdate A ?w t) = Inl e' \<and> fst (Reconcile X A ns n s) = Err e')"
    by (auto simp: finishReconcile_def final_service_def Let_def split: prod.split sum.split)
      (metis fst_conv)+
  with log c show ?thesis by blast
qed

theorem failure_is_reported_witness:
  "\<exists>cs w c. snd (snd (Reconcile sample_conditions (log_api failing_create) ''default'' ''demo''
      (sample_world demo_service, []))) = cs @ [StatusWritten w] \<and>
    find_condition (isvc_Conditions w) ConditionTypeFailed = Some c \<and> cond_Message c = ''quota exceeded''"
proof -
  from failing_demo [of sample_conditions] obtain svc1 s2 where
    ini: "initialise sample_conditions failing_create demo_service (sample_world demo_service) = (svc1, s2)" and
    pg: "reconcilePodGroup sample_conditions failing_create svc1 s2 = (Err (OtherError ''quota exceeded''), s2)"
    by blast
  from pg have "reconcileChildren sample_conditions failing_create svc1 s2 = (Err (OtherError ''quota exceeded''), s2)"
    by (simp add: reconcileChildren_def calls)
  from failure_is_reported [OF sample_condition_laws failing_create_get [of demo_service] ini this, of "[]"]
  show ?thesis by auto
qed

text \<open>
  A service that is gone is left alone: nothing is written and there is no error.
\<close>

theorem missing_service_ignored:
  assumes "api_Get A KindInferenceService ns n s = (Inl e, s')" and "IsNotFound e"
  shows "Reconcile X (log_api A) ns n (s, lg) = (Ok (), s', lg)"
  using assms by (simp add: Reconcile_def typed_get_def inferencesvc_ops_def quiet_call_def)

theorem missing_service_ignored_witness:
  "Reconcile sample_conditions (log_api list_api) ''default'' ''gone'' (sample_world demo_service, []) =
     (Ok (), sample_world demo_service, [])"
  by (rule missing_service_ignored [where e = "NotFoundError ''not found''"])
    (simp_all add: list_api_def sample_world_lookup isvc_key_def)

text \<open>
  The router is set up in dependency order, whatever the API answers: ServiceAccount, Role,
  RoleBinding, ConfigMap, Deployment, Service, InferencePool, HTTPRoute.
\<close>

theorem router_in_order:
  "\<exists>es. reconcileRouter X (log_api A) svc role ws (s, lg) =
      (fst (reconcileRouter X A svc role ws s), snd (reconcileRouter X A svc role ws s), lg @ es) \<and>
    sorted (map event_step es) \<and> list_all (\<lambda>e. 1 \<le> event_step e \<and> event_step e \<le> 8) es"
  using logged_router_steps [of X A svc role ws] by (simp add: logged_def list_all_iff)

text \<open>
  An error of the router says which step failed: it is wrapped in \<open>failed to reconcile\<close> and the
  kind of the object. The router never panics.
\<close>

theorem router_errors_wrapped:
  "case fst (reconcileRouter X A svc role ws s) of
      Ok _ \<Rightarrow> True
    | Err e \<Rightarrow> \<exists>p e0. e = Wrapped p e0 \<and> prefix ''failed to reconcile '' p
    | Panic \<Rightarrow> False"
  using reconcileRouter_names_step [of X A svc role ws] by (simp add: names_step_def)

section \<open>Many services, any faults\<close>

text \<open>
  C8: A reconciliation is a sequence of touches, whatever becomes of its API calls and whatever the
  specification says: each touch stores an object that is wanted for the service, deletes a
  LeaderWorkerSet that carries the labels of one of its roles and is not one of its replicas, or writes
  the status of the service.
\<close>

theorem runs_refine_touches:
  assumes "cluster A view" and "view s (isvc_key svc) = Some (ObjInferSvc svc)"
    and "Reconcile X (faulty_api A) (isvc_Namespace svc) (isvc_Name svc) (s, fs) = (r, (s', fs'))"
  shows "(touch X svc)\<^sup>*\<^sup>* (view s) (view s')"
  using cluster.Reconcile_touches [OF assms(1,3)] assms(2) by simp

theorem runs_refine_touches_witness:
  "\<exists>r s' fs'. Reconcile sample_conditions (faulty_api list_api) ''default'' ''demo''
      (sample_world demo_service, [Works, Works, Unanswered ''timeout'']) = (r, (s', fs')) \<and>
    (touch sample_conditions demo_service)\<^sup>*\<^sup>* (srv_lookup (sample_world demo_service)) (srv_lookup s')"
proof -
  obtain r s' fs' where run: "Reconcile sample_conditions (faulty_api list_api) (isvc_Namespace demo_service)
      (isvc_Name demo_service) (sample_world demo_service, [Works, Works, Unanswered ''timeout'']) = (r, (s', fs'))"
    by (metis prod.exhaust)
  have "srv_lookup (sample_world demo_service) (isvc_key demo_service) = Some (ObjInferSvc demo_service)"
    by (simp add: sample_world_lookup)
  from runs_refine_touches [OF list_server.cluster_axioms this run] run show ?thesis by auto
qed

text \<open>
  C5: Nothing but the service's own objects changes. Whatever faults the calls meet and whatever the
  specification says, a reconciliation that was started for a stored service leaves every object alone
  except its PodGroup, the LeaderWorkerSets named after its replicas or labelled with its roles, its
  router objects, and the service itself, of which only the status can change.
\<close>

theorem others_left_alone:
  assumes "cluster A view" and "view s (isvc_key svc) = Some (ObjInferSvc svc)"
    and "Reconcile X (faulty_api A) (isvc_Namespace svc) (isvc_Name svc) (s, fs) = (r, (s', fs'))"
  shows "(\<forall>k. k = isvc_key svc \<or> may_change X svc (view s) k \<or> view s' k = view s k) \<and>
    (\<exists>st. view s' (isvc_key svc) = Some (ObjInferSvc (with_status svc st)))"
  using cluster.Reconcile_frame [OF assms(1,3)] assms(2) by (auto simp: stored_def)

theorem others_left_alone_witness:
  "\<exists>r s' fs'. Reconcile sample_conditions (faulty_api list_api) ''default'' ''demo''
      (two_services, [Works, Works, Unanswered ''timeout'']) = (r, (s', fs')) \<and>
    srv_lookup s' (isvc_key service_a) = Some (ObjInferSvc service_a)"
proof -
  obtain r s' fs' where run: "Reconcile sample_conditions (faulty_api list_api) (isvc_Namespace demo_service)
      (isvc_Name demo_service) (two_services, [Works, Works, Unanswered ''timeout'']) = (r, (s', fs'))"
    by (metis prod.exhaust)
  from others_left_alone [OF list_server.cluster_axioms two_services_stored(1) run]
  have "srv_lookup s' (isvc_key service_a) = srv_lookup two_services (isvc_key service_a)"
    using may_not_change_isvc two_services_apart(1) apart_isvc_key by metis
  with run two_services_stored(2) show ?thesis by auto
qed

text \<open>
  C6: Stale reads do no harm to others. Let a reconciliation read through a cache that shows, at every
  read, any reachable state of the cluster, so that it may act on an old specification and delete what
  an old list shows, and let its calls fail in any way. It changes only objects under names that belong
  to its service, and every service whose name keeps apart stays converged.
\<close>

theorem stale_reads_confined:
  assumes "cluster A view" and "reachable_fleet X A view s" and "\<forall>j. reachable_fleet X A view (cs j)"
    and "Reconcile X (faulty_api (cached_api A cs)) (isvc_Namespace svc) (isvc_Name svc) ((s, 0), fs) = (r, ((s', j'), fs'))"
  shows "(\<forall>k. own_key svc k \<or> view s' k = view s k) \<and>
    (\<forall>a. apart a svc \<longrightarrow> converged X a (view s) \<longrightarrow> converged X a (view s'))"
proof (intro conjI allI impI)
  have named: "named (view s)" "named (view (cs j))" for j
    using cluster.reachable_named [OF assms(1)] assms(2,3) by auto
  show "own_key svc k \<or> view s' k = view s k" for k
    using cluster.cached_run_frame [OF assms(1) named(2) _ assms(4)] by blast
  show "converged X a (view s')" if "apart a svc" "converged X a (view s)" for a
    by (rule cluster.cached_run_apart [OF assms(1) named(2) that assms(4) named(1)])
qed

theorem stale_reads_confined_witness:
  "\<exists>r s' j' fs'. Reconcile sample_conditions (faulty_api (cached_api list_api (\<lambda>j. if j < 3 then two_services else demo_world)))
      ''default'' ''a'' ((two_services, 0), [Works, Unanswered ''timeout'']) = (r, ((s', j'), fs')) \<and>
    srv_lookup s' (isvc_key demo_service) = Some (ObjInferSvc demo_service)"
proof -
  let ?cs = "\<lambda>j :: nat. if j < 3 then two_services else demo_world"
  obtain r s' j' fs' where run: "Reconcile sample_conditions (faulty_api (cached_api list_api ?cs))
      (isvc_Namespace service_a) (isvc_Name service_a) ((two_services, 0), [Works, Unanswered ''timeout'']) = (r, ((s', j'), fs'))"
    by (metis prod.exhaust)
  have "\<forall>j. reachable_fleet sample_conditions list_api srv_lookup (?cs j)"
    using two_services_reachable demo_world_reachable by simp
  from stale_reads_confined [OF list_server.cluster_axioms two_services_reachable this run]
  have "own_key service_a (isvc_key demo_service) \<or>
      srv_lookup s' (isvc_key demo_service) = srv_lookup two_services (isvc_key demo_service)" by blast
  moreover have "\<not> own_key service_a (isvc_key demo_service)"
    using apart_own_key [OF two_services_apart(1)] by (simp add: own_key_def)
  ultimately have "srv_lookup s' (isvc_key demo_service) = Some (ObjInferSvc demo_service)"
    using two_services_stored(1) by simp
  with run show ?thesis by (auto simp: service_a_def)
qed

text \<open>
  C7: The store is well formed in every reachable state. Start without LeaderWorkerSets, let the
  controller reconcile any services, behind any faults and through caches that lag behind, and let users
  and other controllers do anything but put a service's labels on a LeaderWorkerSet of theirs: then every LeaderWorkerSet that carries the
  labels of a service and of a role has the name of one of their replicas, with an index that is not
  negative.
\<close>

theorem labels_match_names:
  assumes "cluster A view" and "reachable_fleet X A view s" and "view s (KindLWS, ns, n) = Some ob"
    and "kobj_labels ob LabelService = Some svc" and "kobj_labels ob LabelRoleName = Some role"
  shows "\<exists>i. 0 \<le> sint i \<and> n = GenerateLWSNameWithIndex svc role (Some i)"
  using cluster.reachable_named [OF assms(1,2)] assms(3-5) by (fastforce simp: named_def well_named_def)

theorem labels_match_names_witness:
  "\<exists>s ob i. srv_lookup s (KindLWS, ''default'', ''demo-d-1'') = Some ob \<and>
    kobj_labels ob LabelRoleName = Some ''d'' \<and> 0 \<le> sint i \<and>
    ''demo-d-1'' = GenerateLWSNameWithIndex ''demo'' ''d'' (Some i)"
proof -
  from demo_replica_stored obtain s ob where reach: "reachable_fleet sample_conditions list_api srv_lookup s"
    and at: "srv_lookup s (KindLWS, ''default'', ''demo-d-1'') = Some ob"
    and labels: "kobj_labels ob LabelService = Some ''demo''" "kobj_labels ob LabelRoleName = Some ''d''" by blast
  obtain i where "0 \<le> sint i" "''demo-d-1'' = GenerateLWSNameWithIndex ''demo'' ''d'' (Some i)"
    using labels_match_names [of list_api srv_lookup sample_conditions s "''default''" "''demo-d-1''" ob "''demo''" "''d''"]
      list_server.cluster_axioms reach at labels by blast
  with at labels(2) show ?thesis by blast
qed

text \<open>
  C2: All services of a cluster converge. Take any reachable state in which some well-specified services
  are stored whose names keep apart (\<open>apart\<close>), and reconcile them in turn, again and again, behind a
  schedule of faults that they share. After one round more than there are faults the objects of every
  service are as wanted: the services do not disturb each other, and nothing that earlier runs left
  behind, failed or crashed, stands in the way.
\<close>

theorem fleet_converges:
  assumes "cluster A view" and "condition_laws X" and "reachable_fleet X A view s" and "fleet X (set svcs)"
    and "\<forall>a \<in> set svcs. view s (isvc_key a) = Some (ObjInferSvc a)" and "a \<in> set svcs"
  shows "converged X a (view (fst (rounds X A svcs (Suc (length fs)) (s, fs))))"
proof -
  have "fleet_stored (set svcs) (view s)"
    using cluster.reachable_named [OF assms(1,3)] assms(5) by (auto simp: fleet_stored_def intro: stored_self)
  from cluster.rounds_converge [OF assms(1,2,4) this assms(6)] show ?thesis .
qed

theorem fleet_converges_witness:
  "converged sample_conditions demo_service (srv_lookup (fst (rounds sample_conditions list_api
      [demo_service, service_a] 3 (two_services, [Refused ''conflict'', Unanswered ''timeout'']))))"
  using fleet_converges [OF list_server.cluster_axioms sample_condition_laws two_services_reachable two_services_fleet,
      of demo_service "[Refused ''conflict'', Unanswered ''timeout'']"] two_services_stored
  by (simp add: eval_nat_numeral)

text \<open>
  C3: What has converged stays converged. Reconcile services whose names keep apart in any order, as
  often as one likes, each run behind its own faults. If the objects of a service were as wanted at the
  start, or one of its runs returned no error, they are as wanted at the end: no later run, of this or
  another service, failed or not, undoes it.
\<close>

theorem converged_stays:
  assumes "cluster A view" and "reachable_fleet X A view s" and "fleet X S"
    and "\<forall>b \<in> S. view s (isvc_key b) = Some (ObjInferSvc b)"
    and "\<forall>(ns, n, fs) \<in> set sched. \<exists>b \<in> S. ns = isvc_Namespace b \<and> n = isvc_Name b"
    and "fleet_runs X A sched s = (outcomes, s')" and "a \<in> S"
    and "converged X a (view s) \<or> (isvc_Namespace a, isvc_Name a, Ok ()) \<in> set outcomes"
  shows "converged X a (view s')"
proof -
  have "fleet_stored S (view s)"
    using cluster.reachable_named [OF assms(1,2)] assms(4) by (auto simp: fleet_stored_def intro: stored_self)
  from cluster.fleet_runs_converge [OF assms(1,3) this assms(5-8)] show ?thesis .
qed

theorem converged_stays_witness:
  "\<exists>outcomes s'. fleet_runs sample_conditions list_api [(''default'', ''demo'', []),
      (''default'', ''a'', [Works, Unanswered ''timeout'']), (''default'', ''demo'', [Works, Refused ''conflict''])]
      two_services = (outcomes, s') \<and> converged sample_conditions demo_service (srv_lookup s')"
proof -
  let ?sched = "[(''default'', ''demo'', []), (''default'', ''a'', [Works, Unanswered ''timeout'']),
    (''default'', ''demo'', [Works, Refused ''conflict''])]"
  from list_server.reconcile_achieves [OF sample_condition_laws demo_well_specified _
      named_sound [OF list_server.reachable_named [OF two_services_reachable]] two_services_stored(1)]
  obtain s1 where "Reconcile sample_conditions list_api ''default'' ''demo'' two_services = (Ok (), s1)"
    by (fastforce simp: demo_service_parts)
  then have run: "Reconcile sample_conditions (faulty_api list_api) ''default'' ''demo'' (two_services, []) = (Ok (), (s1, []))"
    by (simp add: Reconcile_healthy)
  obtain outcomes s' where outcomes: "fleet_runs sample_conditions list_api ?sched two_services = (outcomes, s')" by fastforce
  with run have "(''default'', ''demo'', Ok ()) \<in> set outcomes" by (auto split: prod.splits)
  from converged_stays [OF list_server.cluster_axioms two_services_reachable two_services_fleet _ _ outcomes, of demo_service]
    this two_services_stored outcomes show ?thesis by (simp add: service_a_def)
qed

text \<open>
  C14: What a removed role leaves behind stays. Take a LeaderWorkerSet that was built for a replica of a
  role, and let the role leave the specification. No number of reconciliations, behind any faults,
  deletes or changes it: orphans are looked for under the roles that are left only, so its pods run
  until the service itself is deleted.
\<close>

theorem removed_roles_stay:
  assumes "cluster A view" and "view s (isvc_key svc) = Some (ObjInferSvc svc)"
    and "isvc_key svc0 = isvc_key svc" and "replica_lws X0 svc0 old i = Some l" and "i \<in> set (replicas_of old)"
    and "role_Name old \<notin> role_Name ` set (workers svc)"
    and "view s (lws_key svc0 old i) = Some (ObjLWS l)"
  shows "view (fst (after_runs X A (isvc_Namespace svc) (isvc_Name svc) n (s, fs))) (lws_key svc0 old i) = Some (ObjLWS l)"
  using cluster.former_role_kept [OF assms(1,3-6), of "(s, fs)"] assms(7) stored_self [of "view s", OF assms(2)] by simp

theorem removed_roles_stay_witness:
  "\<exists>l. replica_lws sample_conditions demo_service (sample_role ''old'' ComponentTypeWorker 1 1) 0 = Some l \<and>
    srv_lookup (fst (after_runs sample_conditions list_api ''default'' ''demo'' 3
      (srv_put (ObjLWS l) (sample_world demo_service), [Refused ''conflict''])))
      (lws_key demo_service (sample_role ''old'' ComponentTypeWorker 1 1) 0) = Some (ObjLWS l)"
proof -
  let ?old = "sample_role ''old'' ComponentTypeWorker 1 1"
  obtain l where l: "replica_lws sample_conditions demo_service ?old 0 = Some l"
    using buildable_lws [OF sample_buildable] by blast
  have key: "kobj_key (ObjLWS l) = lws_key demo_service ?old 0"
    using replica_lws_key(1) [OF l] by (simp add: kind_keys kobj_key_def)
  let ?s = "srv_put (ObjLWS l) (sample_world demo_service)"
  have stored: "srv_lookup ?s (isvc_key demo_service) = Some (ObjInferSvc demo_service)"
    using key by (simp add: srv_lookup_put sample_world_lookup lws_key_def isvc_key_def)
  have at: "srv_lookup ?s (lws_key demo_service ?old 0) = Some (ObjLWS l)" using key by (simp add: srv_lookup_put)
  have zero: "(0 :: int32) \<in> set (replicas_of ?old)" by (simp add: in_int32_range GetReplicaCount_def)
  have gone: "role_Name ?old \<notin> role_Name ` set (workers demo_service)" by (simp add: demo_service_parts)
  from removed_roles_stay [OF list_server.cluster_axioms stored refl l zero gone at,
      where X = sample_conditions and n = 3 and fs = "[Refused ''conflict'']"] l
  show ?thesis by auto
qed

section \<open>Roles and gang scheduling\<close>

text \<open>
  The effect of reconciling one role is exact: every replica's LeaderWorkerSet is stored with the
  wanted hash, and with the wanted labels if it was written; every other LeaderWorkerSet of the
  namespace that carries the labels of the role is gone; everything else is unchanged.
\<close>

theorem role_reconciled:
  assumes "cluster A view" and "buildable X svc role"
  shows "\<exists>s'. reconcileLWS X A svc role s = (Ok (), s') \<and> role_ok X svc role (view s') \<and>
    role_effect X svc role (view s) (view s')"
  using cluster.reconcileLWS_effect [OF assms, of s] role_effect_ok by blast

theorem role_reconciled_witness:
  "\<exists>s'. reconcileLWS sample_conditions list_api demo_service (sample_role ''d'' ComponentTypeDecoder 2 1)
      (sample_world demo_service) = (Ok (), s') \<and>
    role_ok sample_conditions demo_service (sample_role ''d'' ComponentTypeDecoder 2 1) (srv_lookup s')"
  using role_reconciled [OF list_server.cluster_axioms sample_buildable
      [of demo_service "''d''" ComponentTypeDecoder 2 1], of "sample_world demo_service"] by blast

text \<open>
  C15: Gang scheduling fits together. Let the gang-scheduled roles of a service, which has a name, have
  different names. All pods of a replica of such a role, whether made from the leader template or from the
  worker template, name the PodGroup that is built in their namespace and the same task of it; the task has as
  many members as the LeaderWorkerSet has pods, and the pods use the Volcano scheduler.
\<close>

theorem gang_annotations_match_podgroup:
  assumes "distinct (map role_Name (gang_roles svc))" and "role \<in> set (gang_roles svc)"
    and "i \<in> set (replicas_of role)" and "isvc_Name svc \<noteq> ''''" and "replica_lws X svc role i = Some l"
  shows "meta_Namespace (pg_Meta (BuildPodGroup X svc)) = meta_Namespace (lws_Meta l) \<and>
    (\<exists>task n. pgs_MinTaskMember (pg_Spec (BuildPodGroup X svc)) task = Some n \<and> lwss_Size (lws_Spec l) = Some n \<and>
      (\<forall>t \<in> set (pod_templates (lws_Spec l)).
         tmpl_Annotations t AnnotationPodGroupName = Some (meta_Name (pg_Meta (BuildPodGroup X svc))) \<and>
         tmpl_Annotations t AnnotationTaskSpec = Some task \<and>
         pod_SchedulerName (tmpl_Spec t) = VolcanoSchedulerName))"
proof -
  from assms(2) have gang: "NeedsGangSchedulingForRole svc role" by (simp add: gang_roles_def)
  let ?cfg = "replicaConfig svc role True i"
  from assms(5) gang have build: "BuildLWS X svc role ?cfg = Some l" by (simp add: replica_lws_def)
  from BuildLWS_cases [OF build] obtain leader worker where
    l: "l = finishLWS X svc role ?cfg leader worker" by blast
  note templates = BuildLWS_templates [OF build]
  have annotations: "lwsAnnotations ?cfg =
      [AnnotationPodGroupName \<mapsto> isvc_Name svc, AnnotationTaskSpec \<mapsto> GenerateTaskName (role_Name role) i]"
    using assms(4) by (simp add: lwsAnnotations_def replicaConfig_def Let_def GeneratePodGroupName_def GenerateTaskName_def)
  have "distinct (map fst (all_tasks (gang_roles svc)))" using assms(1) by (rule distinct_all_tasks)
  moreover have "(GenerateTaskName (role_Name role) i, GetNodeCount role) \<in> set (all_tasks (gang_roles svc))"
    using assms(2,3) by (auto simp: in_all_tasks in_int32_range)
  ultimately have "pgs_MinTaskMember (pg_Spec (BuildPodGroup X svc)) (GenerateTaskName (role_Name role) i) =
      Some (GetNodeCount role)"
    by (simp add: BuildPodGroup_spec map_of_rev_distinct)
  then show ?thesis
    using templates BuildLWS_meta(2) [OF build]
    by (intro conjI exI [of _ "GenerateTaskName (role_Name role) i"] exI [of _ "GetNodeCount role"])
      (simp_all add: l annotations GetNodeCount_lwsSize)
qed

theorem gang_annotations_match_podgroup_witness:
  "\<exists>l t task n. replica_lws sample_conditions demo_service (sample_role ''p'' ComponentTypePrefiller 1 2) 0 = Some l \<and>
      lwss_LeaderTemplate (lws_Spec l) = Some t \<and> tmpl_Annotations t AnnotationTaskSpec = Some task \<and>
      pgs_MinTaskMember (pg_Spec (BuildPodGroup sample_conditions demo_service)) task = Some n \<and>
      lwss_Size (lws_Spec l) = Some n"
proof -
  let ?role = "sample_role ''p'' ComponentTypePrefiller 1 2"
  have roles: "gang_roles demo_service = [?role, sample_role ''d'' ComponentTypeDecoder 2 1]"
    by (simp add: demo_service_def gang_roles_def gang_for_role_alt IsPDDisaggregated_iff)
  obtain l where l: "replica_lws sample_conditions demo_service ?role 0 = Some l"
    using buildable_lws [OF sample_buildable] by blast
  from BuildLWS_cases [OF l [unfolded replica_lws_def]] obtain t where t: "lwss_LeaderTemplate (lws_Spec l) = Some t"
    by (cases "lwss_LeaderTemplate (lws_Spec l)") (auto simp: IsMultiNode_def)
  then have "t \<in> set (pod_templates (lws_Spec l))" by (simp add: pod_templates_def leader_pod_def)
  moreover have "distinct (map role_Name (gang_roles demo_service))" "?role \<in> set (gang_roles demo_service)"
    by (simp_all add: roles)
  moreover have "(0 :: int32) \<in> set (replicas_of ?role)" by (simp add: in_int32_range GetReplicaCount_def)
  ultimately show ?thesis
    using gang_annotations_match_podgroup [of demo_service ?role 0 sample_conditions l] l t by auto
qed

text \<open>
  C39: Two services can want LeaderWorkerSets of the same name, as services \<open>a\<close> with role \<open>b-c\<close> and \<open>a-b\<close>
  with role \<open>c\<close> do, and nothing stops the controller from taking the object over: if they are reconciled
  in turn, without any fault, then from every reachable state and after any number of turns each of the two
  runs succeeds and leaves its own service converged and the other one not. Both write the shared object in
  every turn, so neither of them ever comes to rest. The names must differ, the specifications be of the
  kind that converges, and the spec hashes of the two wanted objects different.
\<close>

theorem colliding_services_fight:
  assumes "cluster A view" and "condition_laws X" and "reachable_fleet X A view s"
    and "well_specified X a" and "distinct (map role_Name (served_roles a))"
    and "well_specified X b" and "distinct (map role_Name (served_roles b))"
    and "view s (isvc_key a) = Some (ObjInferSvc a)" and "view s (isvc_key b) = Some (ObjInferSvc b)"
    and "isvc_Namespace a = isvc_Namespace b" and "isvc_Name a \<noteq> isvc_Name b"
    and "isvc_Name a @ ''-'' @ role_Name role = isvc_Name b @ ''-'' @ role_Name role'"
    and "clashing X a role b role' i"
  shows "\<exists>s1 s2.
    Reconcile X A (isvc_Namespace a) (isvc_Name a) ((fight X A a b ^^ n) s) = (Ok (), s1) \<and>
    Reconcile X A (isvc_Namespace b) (isvc_Name b) s1 = (Ok (), s2) \<and>
    converged X a (view s1) \<and> \<not> converged X b (view s1) \<and>
    converged X b (view s2) \<and> \<not> converged X a (view s2) \<and>
    view s2 (lws_key a role i) \<noteq> view s1 (lws_key a role i)"
proof -
  have key: "lws_key a role i = lws_key b role' i" by (rule same_lws_key) (rule assms)+
  have ab: "isvc_key a \<noteq> isvc_key b" using assms(11) by (simp add: isvc_key_def)
  have "both_stored a b (view s)"
    using cluster.reachable_named [OF assms(1,3)] stored_self [of "view s", OF assms(8)] stored_self [of "view s", OF assms(9)]
    by (simp add: both_stored_def)
  from cluster.fight_stored [OF assms(1,2,4,5,6,7) ab this, of n] have "both_stored a b (view ((fight X A a b ^^ n) s))" .
  from cluster.run_keeps_both [OF assms(1,2,4,5) _ ab this] obtain s1 where
    s1: "Reconcile X A (isvc_Namespace a) (isvc_Name a) ((fight X A a b ^^ n) s) = (Ok (), s1)"
      "converged X a (view s1)" "both_stored a b (view s1)" by blast
  from cluster.run_keeps_both [OF assms(1,2,6,7) _ ab s1(3)] obtain s2 where
    s2: "Reconcile X A (isvc_Namespace b) (isvc_Name b) s1 = (Ok (), s2)" "converged X b (view s2)" by blast
  from clashing_excludes [OF assms(13) key] clashing_differ [OF assms(13) key s1(2) s2(2)] s1 s2 show ?thesis
    by (intro exI [of _ s1] exI [of _ s2]) auto
qed

theorem colliding_services_fight_witness:
  "\<exists>s1 s2.
     Reconcile sample_conditions list_api ''default'' ''a''
       ((fight sample_conditions list_api service_a service_ab ^^ 2) (srv_put (ObjInferSvc service_ab) (sample_world service_a))) =
       (Ok (), s1) \<and>
     Reconcile sample_conditions list_api ''default'' ''a-b'' s1 = (Ok (), s2) \<and>
     converged sample_conditions service_a (srv_lookup s1) \<and> converged sample_conditions service_ab (srv_lookup s2) \<and>
     srv_lookup s2 (KindLWS, ''default'', ''a-b-c-0'') \<noteq> srv_lookup s1 (KindLWS, ''default'', ''a-b-c-0'')"
proof -
  let ?a = "sample_role ''b-c'' ComponentTypeWorker 1 1" and ?b = "sample_role ''c'' ComponentTypeWorker 1 1"
  let ?s = "srv_put (ObjInferSvc service_ab) (sample_world service_a)"
  have names: "isvc_Name service_a = ''a''" "isvc_Name service_ab = ''a-b''"
    "isvc_Namespace service_a = ''default''" "isvc_Namespace service_ab = ''default''"
    by (simp_all add: service_a_def service_ab_def)
  have lookup: "srv_lookup ?s k = (if k = isvc_key service_ab then Some (ObjInferSvc service_ab)
      else if k = isvc_key service_a then Some (ObjInferSvc service_a) else None)" for k
    by (simp add: srv_lookup_put sample_world_lookup)
  have reachable: "reachable_fleet sample_conditions list_api srv_lookup ?s"
    by (rule reachable_fleet.start) (auto simp: lookup isvc_key_def split: if_splits)
  have specs: "well_specified sample_conditions service_a" "distinct (map role_Name (served_roles service_a))"
    "well_specified sample_conditions service_ab" "distinct (map role_Name (served_roles service_ab))"
    by (simp_all add: well_specified_def colliding_parts sample_buildable)
  have stored: "srv_lookup ?s (isvc_key service_a) = Some (ObjInferSvc service_a)"
    "srv_lookup ?s (isvc_key service_ab) = Some (ObjInferSvc service_ab)"
    by (simp_all add: lookup isvc_key_def names)
  have clash: "clashing sample_conditions service_a ?a service_ab ?b 0"
    using colliding_hashes by (simp add: clashing_def colliding_parts in_int32_range GetReplicaCount_def)
  have same: "isvc_Namespace service_a = isvc_Namespace service_ab" "isvc_Name service_a \<noteq> isvc_Name service_ab"
    "isvc_Name service_a @ ''-'' @ role_Name ?a = isvc_Name service_ab @ ''-'' @ role_Name ?b" by (simp_all add: names)
  have "lws_key service_a ?a 0 = (KindLWS, ''default'', ''a-b-c-0'')"
    by (simp add: lws_key_def GenerateLWSNameWithIndex_def names fmt_d_def dec.simps)
  with colliding_services_fight [OF list_server.cluster_axioms sample_condition_laws reachable specs stored same clash, of 2]
  show ?thesis by (auto simp: names)
qed

section \<open>The reported status\<close>

text \<open>
  C26: The phase of a role is decided by its replicas: \<open>Running\<close> if every wanted LeaderWorkerSet is
  stored and reports a ready replica, \<open>Deploying\<close> if at least one is ready or has started, \<open>Pending\<close>
  otherwise.
\<close>

theorem phase_of_role:
  assumes "cluster A view"
  shows "cs_Phase (fst (aggregateLWSStatus A svc role s)) =
    (if \<forall>i \<in> set (replicas_of role). is_ready (replica_status svc role (view s) i) then PhaseRunning
     else if \<exists>i \<in> set (replicas_of role). is_ready (replica_status svc role (view s) i) \<or>
               is_started (replica_status svc role (view s) i) then PhaseDeploying
     else PhasePending)"
  using cluster.aggregateLWSStatus_view [OF assms, of svc role s] by (auto simp: role_phase_cases)

theorem phase_of_role_witness:
  "cs_Phase (fst (aggregateLWSStatus list_api demo_service (sample_role ''d'' ComponentTypeDecoder 2 1)
     (sample_world demo_service))) = PhasePending"
proof -
  have "(0 :: int32) \<in> set (replicas_of (sample_role ''d'' ComponentTypeDecoder 2 1))"
    by (simp add: in_int32_range GetReplicaCount_def)
  moreover have "replica_status demo_service role (srv_lookup (sample_world demo_service)) i = None" for role i
    by (simp add: replica_status_def sample_world_lookup isvc_key_def lws_key_def)
  ultimately show ?thesis
    by (auto simp: phase_of_role [OF list_server.cluster_axioms] is_ready_def is_started_def)
qed

text \<open>
  \<open>ReadyReplicas\<close> counts the wanted LeaderWorkerSets with a ready replica, without overflow: it is
  never negative and never more than \<open>DesiredReplicas\<close> asks for.
\<close>

theorem ready_replicas_counted:
  assumes "cluster A view"
  shows "sint (cs_ReadyReplicas (fst (aggregateLWSStatus A svc role s))) =
      int (length (filter (\<lambda>i. is_ready (replica_status svc role (view s) i)) (replicas_of role))) \<and>
    0 \<le> sint (cs_ReadyReplicas (fst (aggregateLWSStatus A svc role s))) \<and>
    sint (cs_ReadyReplicas (fst (aggregateLWSStatus A svc role s))) \<le> max 0 (sint (GetReplicaCount role))"
proof -
  from cluster.aggregateLWSStatus_view [OF assms, of svc role s] have
    "cs_ReadyReplicas (fst (aggregateLWSStatus A svc role s)) = agg_ReadyReplicas (role_aggregate svc role (view s))"
    by auto
  moreover have "int (length (filter P (replicas_of role))) \<le> max 0 (sint (GetReplicaCount role))" for P
    using length_filter_le [of P "replicas_of role"] by (cases "0 \<le> sint (GetReplicaCount role)") auto
  ultimately show ?thesis by (simp only: role_aggregate_parts of_nat_0_le_iff simp_thms)
qed

theorem ready_replicas_counted_witness:
  "sint (cs_ReadyReplicas (fst (aggregateLWSStatus list_api demo_service (sample_role ''d'' ComponentTypeDecoder 2 1)
     (sample_world demo_service)))) = 0"
proof -
  have "replica_status demo_service role (srv_lookup (sample_world demo_service)) i = None" for role i
    by (simp add: replica_status_def sample_world_lookup isvc_key_def lws_key_def)
  then show ?thesis
    by (simp add: ready_replicas_counted [OF list_server.cluster_axioms] is_ready_def)
qed

text \<open>
  Progress never lowers the phase: if every LeaderWorkerSet that was ready or started still is, the
  phase of the role is the same or further on.
\<close>

theorem phase_monotone:
  assumes "cluster A view"
    and "\<And>i. is_ready (replica_status svc role (view s) i) \<Longrightarrow> is_ready (replica_status svc role (view s') i)"
    and "\<And>i. is_started (replica_status svc role (view s) i) \<Longrightarrow> is_started (replica_status svc role (view s') i)"
  shows "cs_Phase (fst (aggregateLWSStatus A svc role s)) \<le> cs_Phase (fst (aggregateLWSStatus A svc role s'))"
proof -
  have phase: "cs_Phase (fst (aggregateLWSStatus A svc role t)) = role_phase svc role (view t)" for t
    using cluster.aggregateLWSStatus_view [OF assms(1), of svc role t] by auto
  show ?thesis unfolding phase role_phase_cases using assms(2,3) by auto
qed

theorem phase_monotone_witness:
  "cs_Phase (fst (aggregateLWSStatus list_api demo_service (sample_role ''d'' ComponentTypeDecoder 2 1) (sample_world idle_service))) \<le>
   cs_Phase (fst (aggregateLWSStatus list_api demo_service (sample_role ''d'' ComponentTypeDecoder 2 1) (sample_world demo_service)))"
  by (rule phase_monotone [OF list_server.cluster_axioms])
    (simp_all add: replica_status_def sample_world_lookup isvc_key_def lws_key_def)

text \<open>
  A role that asks for no replica, or for a negative number, counts as \<open>Running\<close>, whatever the API
  answers.
\<close>

theorem empty_role_is_running:
  assumes "sint (GetReplicaCount role) \<le> 0"
  shows "cs_Phase (fst (aggregateLWSStatus A svc role s)) = PhaseRunning"
  using assms
  by (simp add: aggregateLWSStatus_def Let_def int32_range_empty [THEN iffD2] initialAggregate_def aggregatePhase_def)

theorem empty_role_is_running_witness:
  "cs_Phase (fst (aggregateLWSStatus list_api idle_service (sample_role ''w'' ComponentTypeWorker (- 1) 1)
     (sample_world idle_service))) = PhaseRunning"
  by (rule empty_role_is_running) (simp add: GetReplicaCount_def)

section \<open>Conditions\<close>

text \<open>
  C23: In every reachable state the conditions are consistent: none at all, or initialised, with \<open>Failed\<close>
  absent or true, \<open>Active\<close> absent, true or false, and at least one of the two set.
\<close>

theorem conditions_invariant:
  assumes "condition_laws X" and "reachable X svc"
  shows "conditions_ok (isvc_Conditions svc)"
  using assms by (rule reachable_ok)

theorem conditions_invariant_witness:
  "conditions_ok (isvc_Conditions (setFinalCondition sample_conditions 7 None
     (with_components (begun sample_conditions 5 demo_service) [])))"
proof -
  have "reachable sample_conditions demo_service"
    by (rule reachable.created) (simp add: demo_service_def)
  from conditions_invariant [OF sample_condition_laws reachable.stepped [OF this status_step.reconciled]]
  show ?thesis .
qed

text \<open>
  C22: What a reconciliation writes is a step of the condition life cycle from the service it read, with
  the same metadata and specification and the current generation marked as observed.
\<close>

theorem written_status_is_step:
  assumes "typed_get A inferencesvc_ops ns n s = (Inr svc, s1)"
  shows "\<exists>es. snd (snd (Reconcile X (log_api A) ns n (s, lg))) = lg @ es \<and>
    (\<forall>w. StatusWritten w \<in> set es \<longrightarrow> status_step X svc w \<and>
       isvc_Meta w = isvc_Meta svc \<and> isvc_Spec w = isvc_Spec svc \<and>
       ObservedGeneration (isvc_Status w) = meta_Generation (isvc_Meta svc))"
proof -
  obtain svc1 s2 where ini: "initialise X A svc s1 = (svc1, s2)" by fastforce
  obtain r s3 where ch: "reconcileChildren X A svc1 s2 = (r, s3)" by fastforce
  let ?w = "final_service X A svc1 (outcome_error r) s3"
  have svc1: "isvc_Meta svc1 = isvc_Meta svc" "isvc_Spec svc1 = isvc_Spec svc"
    using ini by (auto simp: initialise_def split: if_splits prod.splits)
  have w: "isvc_Meta ?w = isvc_Meta svc" "isvc_Spec ?w = isvc_Spec svc"
    "ObservedGeneration (isvc_Status ?w) = meta_Generation (isvc_Meta svc)"
    by (auto simp: final_service_def updateComponentStatusInMemory_def setFinalCondition_def svc1
        split: prod.split option.split)
  from written_status [OF assms ini ch, of lg] w final_service_step [OF ini, of "outcome_error r" s3]
  show ?thesis by metis
qed

theorem written_status_is_step_witness:
  "\<exists>es. snd (snd (Reconcile sample_conditions (log_api failing_create) ''default'' ''demo''
      (sample_world demo_service, []))) = es \<and>
    (\<forall>w. StatusWritten w \<in> set es \<longrightarrow> status_step sample_conditions demo_service w)"
  using written_status_is_step [OF failing_create_get [of demo_service], of sample_conditions "[]"] by auto

text \<open>
  C24: The statuses fit their schema, but for one field. Whatever the API answers, a reconciliation that has read an
  admitted status writes one whose conditions have distinct types, and types, statuses, reasons and generations as the
  custom resource definition demands. Only the message of \<open>Failed\<close> is not kept within its bound of 32768: the
  status is admitted exactly if the text of the error is not longer, and refused, so that the failure is not
  recorded, if it is.
\<close>

theorem written_status_admitted:
  assumes "typed_get A inferencesvc_ops ns n s = (Inr svc, s1)" and "condition_lists X"
    and "status_errors (isvc_Status svc) = []"
  shows "\<exists>es. snd (snd (Reconcile X (log_api A) ns n (s, lg))) = lg @ es \<and>
    (\<forall>w. StatusWritten w \<in> set es \<longrightarrow> (status_errors (isvc_Status w) = [] \<longleftrightarrow>
       (\<forall>e. fst (reconcileChildren X A (fst (initialise X A svc s1)) (snd (initialise X A svc s1))) = Err e \<longrightarrow>
         length (error_message e) \<le> max_message)))"
proof -
  obtain svc1 s2 where ini: "initialise X A svc s1 = (svc1, s2)" by fastforce
  obtain r s3 where ch: "reconcileChildren X A svc1 s2 = (r, s3)" by fastforce
  from final_service_form [OF ini, of "outcome_error r" s3] obtain t t0 cs where
    form: "final_service X A svc1 (outcome_error r) s3 = setFinalCondition X t (outcome_error r) (with_components (begun X t0 svc) cs)"
    by blast
  have "status_errors (isvc_Status (final_service X A svc1 (outcome_error r) s3)) = [] \<longleftrightarrow>
      (\<forall>e. r = Err e \<longrightarrow> length (error_message e) \<le> max_message)"
    unfolding form final_status_errors [OF assms(2,3)] by (cases r) simp_all
  moreover from written_status [OF assms(1) ini ch, of lg] obtain es where
    "snd (snd (Reconcile X (log_api A) ns n (s, lg))) = lg @ es"
    "\<forall>w. StatusWritten w \<in> set es \<longrightarrow> w = final_service X A svc1 (outcome_error r) s3" by blast
  ultimately show ?thesis by (intro exI [of _ es]) (simp add: ini ch, blast)
qed

theorem written_status_admitted_witness:
  "\<exists>es. snd (snd (Reconcile sample_conditions (log_api failing_create) ''default'' ''demo''
      (sample_world demo_service, []))) = es \<and>
    (\<forall>w. StatusWritten w \<in> set es \<longrightarrow> status_errors (isvc_Status w) = [])"
proof -
  from failing_demo obtain svc1 s2 where ini: "initialise sample_conditions failing_create demo_service (sample_world demo_service) = (svc1, s2)"
    and pg: "reconcilePodGroup sample_conditions failing_create svc1 s2 = (Err (OtherError ''quota exceeded''), s2)" by blast
  from pg have "fst (reconcileChildren sample_conditions failing_create svc1 s2) = Err (OtherError ''quota exceeded'')"
    by (simp add: reconcileChildren_def bind_op_def)
  moreover have "condition_lists sample_conditions"
    by (rule upsert_condition_lists) (simp add: sample_conditions_def)
  moreover have "status_errors (isvc_Status demo_service) = []"
    by (simp add: demo_service_def status_errors_none)
  ultimately show ?thesis
    using written_status_admitted [OF failing_create_get [of demo_service], of sample_conditions "[]"] ini
    by (auto simp: max_message_def)
qed

text \<open>
  C25: \<open>Failed\<close> is permanent: once a reconciliation has failed, the condition stays true in every later
  state, also after reconciliations that succeed and set \<open>Active\<close>.
\<close>

theorem failed_condition_permanent:
  assumes "condition_laws X" and "(status_step X)\<^sup>*\<^sup>* svc svc'"
    and "status_of (isvc_Conditions svc) ConditionTypeFailed = ConditionTrue"
  shows "status_of (isvc_Conditions svc') ConditionTypeFailed = ConditionTrue"
  using assms by (rule failed_stays)

theorem failed_condition_permanent_witness:
  "\<exists>svc. reachable sample_conditions svc \<and>
    status_of (isvc_Conditions svc) ConditionTypeFailed = ConditionTrue \<and>
    status_of (isvc_Conditions svc) ConditionTypeActive = ConditionTrue"
proof -
  let ?fail = "setFinalCondition sample_conditions 1 (Some (OtherError ''boom''))
    (with_components (begun sample_conditions 0 demo_service) [])"
  let ?running = "\<lparr>cs_DesiredReplicas = 1, cs_ReadyReplicas = 1, cs_NodesPerReplica = 1, cs_TotalPods = 1,
    cs_ReadyPods = 1, cs_Phase = PhaseRunning, cs_LastUpdateTime = None\<rparr>"
  let ?good = "setFinalCondition sample_conditions 3 None
    (with_components (begun sample_conditions 2 ?fail) [(''w'', ?running)])"
  have "reachable sample_conditions ?fail"
    by (rule reachable.stepped [OF reachable.created status_step.reconciled]) (simp add: demo_service_def)
  moreover have step: "status_step sample_conditions ?fail ?good" by (rule status_step.reconciled)
  ultimately have "reachable sample_conditions ?good" by (rule reachable.stepped)
  moreover have "status_of (isvc_Conditions ?fail) ConditionTypeFailed = ConditionTrue"
    by (subst reconciled_status(2) [OF sample_condition_laws]) simp
  then have "status_of (isvc_Conditions ?good) ConditionTypeFailed = ConditionTrue"
    by (rule failed_condition_permanent [OF sample_condition_laws r_into_rtranclp [of "status_step sample_conditions", OF step]])
  moreover have "status_of (isvc_Conditions ?good) ConditionTypeActive = ConditionTrue"
    by (subst reconciled_status(3) [OF sample_condition_laws]) simp
  ultimately show ?thesis by blast
qed

end
